(* ===== verification/Prelude.thy ===== *)
theory Prelude
  imports Main "HOL-Library.Word"
begin

text \<open>
  Shared vocabulary of the development: the types that stand for Rust's primitive and library
  types, the combinators of \<open>Result\<close> and \<open>Option\<close> that the sources use, the model of Rust's UTF-8
  strings, and the generic lemmas on lists, maps, sums and machine words that the component
  theories rely on.

  \<^item> \<open>Result<T, E>\<close> is \<open>'e + 'a\<close> with \<open>Inl\<close> for \<open>Err\<close>; the question mark operator is \<open>and_then\<close>.
  \<^item> \<open>u64\<close> is \<open>64 word\<close>: the release profile of the workspace sets no overflow checks, so \<open>+= 1\<close>
    wraps. Sizes (\<open>usize\<close>) are natural numbers with the bound \<open>usize_max\<close> written out where the
    code checks or saturates.
  \<^item> A \<open>Uuid\<close> is a 128-bit value. An instant (\<open>DateTime<Utc>\<close>) is the integer number of
    nanoseconds since the epoch.
  \<^item> A \<open>String\<close> is the list of its UTF-8 bytes, so \<open>len\<close> is \<open>length\<close>; its characters are obtained
    by decoding (\<open>chars\<close>).
\<close>

named_theorems op_defs \<open>definitions of operations, unfolded to compute one step\<close>
named_theorems keep_inv \<open>an operation preserves the invariant of its component\<close>

type_synonym u8 = "8 word"
type_synonym u16 = "16 word"
type_synonym u32 = "32 word"
type_synonym u64 = "64 word"
type_synonym uuid = "128 word"
type_synonym instant = int

section \<open>Results\<close>

definition and_then :: "'e + 'a \<Rightarrow> ('a \<Rightarrow> 'e + 'b) \<Rightarrow> 'e + 'b" where
  "and_then m f = (case m of Inl e \<Rightarrow> Inl e | Inr x \<Rightarrow> f x)"

definition map_err :: "('e \<Rightarrow> 'f) \<Rightarrow> 'e + 'a \<Rightarrow> 'f + 'a" where
  "map_err g m = (case m of Inl e \<Rightarrow> Inl (g e) | Inr x \<Rightarrow> Inr x)"

definition ok_or :: "'a option \<Rightarrow> 'e \<Rightarrow> 'e + 'a" where
  "ok_or v e = (case v of None \<Rightarrow> Inl e | Some x \<Rightarrow> Inr x)"

definition is_ok :: "'e + 'a \<Rightarrow> bool" where
  "is_ok m = (case m of Inl _ \<Rightarrow> False | Inr _ \<Rightarrow> True)"

text \<open>\<open>collect::<Result<Vec<_>, _>>\<close> over a mapped iterator stops at the first error.\<close>

fun try_map :: "('a \<Rightarrow> 'e + 'b) \<Rightarrow> 'a list \<Rightarrow> 'e + 'b list" where
  "try_map f [] = Inr []"
| "try_map f (x # xs) = and_then (f x) (\<lambda>y. and_then (try_map f xs) (\<lambda>ys. Inr (y # ys)))"

text \<open>A \<open>for\<close> loop whose body only checks, leaving with the first error.\<close>

fun try_all :: "('a \<Rightarrow> 'e + unit) \<Rightarrow> 'a list \<Rightarrow> 'e + unit" where
  "try_all f [] = Inr ()"
| "try_all f (x # xs) = and_then (f x) (\<lambda>_. try_all f xs)"

text \<open>A \<open>for\<close> loop that threads a state and leaves with the first error.\<close>

fun try_fold :: "('s \<Rightarrow> 'a \<Rightarrow> 'e + 's) \<Rightarrow> 's \<Rightarrow> 'a list \<Rightarrow> 'e + 's" where
  "try_fold f s [] = Inr s"
| "try_fold f s (x # xs) = and_then (f s x) (\<lambda>s'. try_fold f s' xs)"

text \<open>\<open>Option::map(f).transpose()\<close>.\<close>

definition try_opt :: "('a \<Rightarrow> 'e + 'b) \<Rightarrow> 'a option \<Rightarrow> 'e + 'b option" where
  "try_opt f v = (case v of None \<Rightarrow> Inr None | Some x \<Rightarrow> and_then (f x) (\<lambda>y. Inr (Some y)))"

lemma and_then_simps [simp]:
  "and_then (Inl e) f = Inl e"
  "and_then (Inr x) f = f x"
  by (simp_all add: and_then_def)

lemma and_then_eq_Inr [simp]:
  "and_then m f = Inr y \<longleftrightarrow> (\<exists>x. m = Inr x \<and> f x = Inr y)"
  by (cases m) auto

lemma and_then_eq_Inl:
  "and_then m f = Inl e \<longleftrightarrow> m = Inl e \<or> (\<exists>x. m = Inr x \<and> f x = Inl e)"
  by (cases m) auto

lemma map_err_simps [simp]:
  "map_err g (Inl e) = Inl (g e)"
  "map_err g (Inr x) = Inr x"
  by (simp_all add: map_err_def)

lemma map_err_eq_Inr [simp]: "map_err g m = Inr x \<longleftrightarrow> m = Inr x"
  by (cases m) auto

lemma map_err_eq_Inl [simp]: "map_err g m = Inl e \<longleftrightarrow> (\<exists>d. m = Inl d \<and> e = g d)"
  by (cases m) auto

lemma ok_or_simps [simp]:
  "ok_or None e = Inl e"
  "ok_or (Some x) e = Inr x"
  by (simp_all add: ok_or_def)

lemma ok_or_eq_Inr [simp]: "ok_or v e = Inr x \<longleftrightarrow> v = Some x"
  by (cases v) auto

lemma is_ok_simps [simp]:
  "\<not> is_ok (Inl e)"
  "is_ok (Inr x)"
  by (simp_all add: is_ok_def)

lemma is_ok_iff: "is_ok m \<longleftrightarrow> (\<exists>x. m = Inr x)"
  by (cases m) auto

lemma try_opt_simps [simp]:
  "try_opt f None = Inr None"
  "try_opt f (Some x) = and_then (f x) (\<lambda>y. Inr (Some y))"
  by (simp_all add: try_opt_def)

lemma try_map_length: "try_map f xs = Inr ys \<Longrightarrow> length ys = length xs"
  by (induction xs arbitrary: ys) auto

lemma try_map_set: "try_map f xs = Inr ys \<Longrightarrow> y \<in> set ys \<Longrightarrow> \<exists>x \<in> set xs. f x = Inr y"
  by (induction xs arbitrary: ys) auto

lemma try_all_eq_Inr [simp]: "try_all f xs = Inr () \<longleftrightarrow> (\<forall>x \<in> set xs. f x = Inr ())"
  by (induction xs) auto

lemma try_all_eq_Inl: "try_all f xs = Inl e \<Longrightarrow> \<exists>x \<in> set xs. f x = Inl e"
  by (induction xs) (auto simp: and_then_eq_Inl)

lemma try_fold_keeps:
  assumes "try_fold f s xs = Inr t" and "P s"
    and "\<And>s x s'. x \<in> set xs \<Longrightarrow> P s \<Longrightarrow> f s x = Inr s' \<Longrightarrow> P s'"
  shows "P t"
  using assms by (induction xs arbitrary: s) auto

section \<open>Machine integers\<close>

definition usize_max :: nat where
  "usize_max = 2 ^ 64 - 1"

definition i64_max :: nat where
  "i64_max = 2 ^ 63 - 1"

definition checked_add_usize :: "nat \<Rightarrow> nat \<Rightarrow> nat option" where
  "checked_add_usize a b = (if a + b \<le> usize_max then Some (a + b) else None)"

definition saturating_add_usize :: "nat \<Rightarrow> nat \<Rightarrow> nat" where
  "saturating_add_usize a b = min usize_max (a + b)"

text \<open>\<open>u64::checked_add(1)\<close> and \<open>saturating_add(1)\<close>.\<close>

definition checked_succ :: "u64 \<Rightarrow> u64 option" where
  "checked_succ r = (if r = - 1 then None else Some (r + 1))"

definition saturating_succ :: "u64 \<Rightarrow> u64" where
  "saturating_succ r = (if r = - 1 then r else r + 1)"

text \<open>\<open>i64::try_from\<close> on a \<open>u64\<close>: the \<open>BIGINT\<close> a revision is stored in.\<close>

definition fits_i64 :: "u64 \<Rightarrow> bool" where
  "fits_i64 r \<longleftrightarrow> unat r \<le> i64_max"

lemma unat_succ:
  fixes r :: "'a::len word"
  shows "r \<noteq> - 1 \<Longrightarrow> unat (r + 1) = Suc (unat r)"
  by (metis add.commute add_eq_0_iff2 unatSuc)

lemma unat_of_nat_u64: "k < 2 ^ 64 \<Longrightarrow> unat (of_nat k :: u64) = k"
  by (simp add: unat_of_nat)

lemma succ_neq [simp]: "(r :: u64) + 1 \<noteq> r"
  by simp

lemma fits_i64_not_max: "fits_i64 r \<Longrightarrow> r \<noteq> - 1"
proof
  assume "fits_i64 r" and "r = - 1"
  moreover have "(- 1 :: u64) = 18446744073709551615" by simp
  ultimately show False by (simp add: fits_i64_def i64_max_def)
qed

lemma fits_i64_unat_succ: "fits_i64 r \<Longrightarrow> unat (r + 1) = Suc (unat r)"
  by (simp add: fits_i64_not_max unat_succ)

lemma fits_i64_less_succ: "fits_i64 r \<Longrightarrow> r < r + 1"
  by (simp add: word_less_nat_alt fits_i64_unat_succ)

lemma checked_succ_Some [simp]:
  "checked_succ r = Some s \<longleftrightarrow> r \<noteq> - 1 \<and> s = r + 1"
  by (auto simp: checked_succ_def)

lemma checked_add_usize_Some [simp]:
  "checked_add_usize a b = Some c \<longleftrightarrow> a + b \<le> usize_max \<and> c = a + b"
  by (auto simp: checked_add_usize_def)

section \<open>UTF-8 strings\<close>

abbreviation byte_of :: "char \<Rightarrow> nat" where
  "byte_of c \<equiv> of_char c"

text \<open>\<open>str::chars\<close>: the scalar values of a UTF-8 string. A truncated or ill-formed sequence cannot
  occur in a Rust string; the decoder yields the replacement character there, so it is total.\<close>

fun chars :: "string \<Rightarrow> nat list" where
  "chars [] = []"
| "chars (a # s) =
    (let n = byte_of a in
     if n < 128 then n # chars s
     else if n < 224 then
       (case s of b # s' \<Rightarrow> ((n mod 32) * 64 + byte_of b mod 64) # chars s' | _ \<Rightarrow> [65533])
     else if n < 240 then
       (case s of
          b # c # s' \<Rightarrow>
            ((n mod 16) * 4096 + (byte_of b mod 64) * 64 + byte_of c mod 64) # chars s'
        | _ \<Rightarrow> [65533])
     else
       (case s of
          b # c # d # s' \<Rightarrow>
            ((n mod 8) * 262144 + (byte_of b mod 64) * 4096 + (byte_of c mod 64) * 64
              + byte_of d mod 64) # chars s'
        | _ \<Rightarrow> [65533]))"

text \<open>\<open>char::encode_utf8\<close>.\<close>

definition encode_utf8 :: "nat \<Rightarrow> string" where
  "encode_utf8 n =
    (if n < 128 then [char_of n]
     else if n < 2048 then [char_of (192 + n div 64), char_of (128 + n mod 64)]
     else if n < 65536 then
       [char_of (224 + n div 4096), char_of (128 + n div 64 mod 64), char_of (128 + n mod 64)]
     else
       [char_of (240 + n div 262144), char_of (128 + n div 4096 mod 64),
        char_of (128 + n div 64 mod 64), char_of (128 + n mod 64)])"

definition from_chars :: "nat list \<Rightarrow> string" where
  "from_chars cs = concat (map encode_utf8 cs)"

definition is_scalar :: "nat \<Rightarrow> bool" where
  "is_scalar n \<longleftrightarrow> n < 1114112 \<and> \<not> (55296 \<le> n \<and> n < 57344)"

text \<open>\<open>char::is_whitespace\<close>: the Unicode \<open>White_Space\<close> property.\<close>

definition is_whitespace :: "nat \<Rightarrow> bool" where
  "is_whitespace n \<longleftrightarrow>
    9 \<le> n \<and> n \<le> 13 \<or> n = 32 \<or> n = 133 \<or> n = 160 \<or> n = 5760 \<or> 8192 \<le> n \<and> n \<le> 8202
    \<or> n = 8232 \<or> n = 8233 \<or> n = 8239 \<or> n = 8287 \<or> n = 12288"

definition trim_start :: "string \<Rightarrow> string" where
  "trim_start s = from_chars (dropWhile is_whitespace (chars s))"

definition trim :: "string \<Rightarrow> string" where
  "trim s = from_chars (rev (dropWhile is_whitespace (rev (dropWhile is_whitespace (chars s)))))"

text \<open>\<open>char::to_ascii_lowercase\<close>.\<close>

definition ascii_lower_char :: "char \<Rightarrow> char" where
  "ascii_lower_char c = (let n = of_char c :: nat in if 65 \<le> n \<and> n \<le> 90 then char_of (n + 32) else c)"

definition blank :: "string \<Rightarrow> bool" where
  "blank s = list_all is_whitespace (chars s)"

text \<open>The strings Rust can hold.\<close>

definition utf8 :: "string \<Rightarrow> bool" where
  "utf8 s \<longleftrightarrow> (\<exists>cs. list_all is_scalar cs \<and> s = from_chars cs)"

fun starts_with :: "string \<Rightarrow> string \<Rightarrow> bool" where
  "starts_with s [] = True"
| "starts_with [] (_ # _) = False"
| "starts_with (a # s) (b # p) = (a = b \<and> starts_with s p)"

text \<open>\<open>str::contains\<close> on a string pattern: some suffix starts with it.\<close>

text \<open>\<open>str::strip_prefix\<close>.\<close>

fun strip_prefix :: "string \<Rightarrow> string \<Rightarrow> string option" where
  "strip_prefix [] s = Some s"
| "strip_prefix (p # ps) [] = None"
| "strip_prefix (p # ps) (c # s) = (if p = c then strip_prefix ps s else None)"

fun contains :: "string \<Rightarrow> string \<Rightarrow> bool" where
  "contains [] p = (p = [])"
| "contains (a # s) p = (starts_with (a # s) p \<or> contains s p)"

text \<open>\<open>str::split\<close> on one character.\<close>

fun split_on :: "char \<Rightarrow> string \<Rightarrow> string list" where
  "split_on d [] = [[]]"
| "split_on d (c # s) =
    (case split_on d s of
       [] \<Rightarrow> [[]]
     | w # ws \<Rightarrow> if c = d then [] # w # ws else (c # w) # ws)"

text \<open>The arithmetic of the four encoded lengths: a scalar value is recovered from its base-64
  digits.\<close>

lemma base64_digits:
  fixes n :: nat
  shows "n div 64 * 64 + n mod 64 = n"
    and "n div 4096 * 4096 + n div 64 mod 64 * 64 + n mod 64 = n"
    and "n div 262144 * 262144 + n div 4096 mod 64 * 4096 + n div 64 mod 64 * 64 + n mod 64 = n"
proof -
  have d: "n div 4096 = n div 64 div 64" "n div 262144 = n div 4096 div 64"
    by (simp_all add: div_mult2_eq)
  have a: "n div 64 * 64 + n mod 64 = n" by simp
  have b: "n div 64 div 64 * 64 + n div 64 mod 64 = n div 64" by simp
  have c: "n div 4096 div 64 * 64 + n div 4096 mod 64 = n div 4096" by simp
  show "n div 64 * 64 + n mod 64 = n" by (rule a)
  show two: "n div 4096 * 4096 + n div 64 mod 64 * 64 + n mod 64 = n"
    using a b d by linarith
  show "n div 262144 * 262144 + n div 4096 mod 64 * 4096 + n div 64 mod 64 * 64 + n mod 64 = n"
    using two c d by linarith
qed

lemma byte_facts:
  fixes d :: nat
  shows "d < 64 \<Longrightarrow> (128 + d) mod 256 mod 64 = d"
    and "d < 32 \<Longrightarrow> (192 + d) mod 256 = 192 + d \<and> (192 + d) mod 32 = d"
    and "d < 16 \<Longrightarrow> (224 + d) mod 256 = 224 + d \<and> (224 + d) mod 16 = d"
    and "d < 8 \<Longrightarrow> (240 + d) mod 256 = 240 + d \<and> (240 + d) mod 8 = d"
  using mod_mult_self3 [of 2 64 d] mod_mult_self3 [of 6 32 d] mod_mult_self3 [of 14 16 d]
    mod_mult_self3 [of 30 8 d]
  by simp_all

lemma chars_two:
  "a < 32 \<Longrightarrow> b < 64 \<Longrightarrow> chars (char_of (192 + a) # char_of (128 + b) # s) = (a * 64 + b) # chars s"
  using byte_facts(1) [of b] byte_facts(2) [of a] by (simp add: Let_def)

lemma chars_three:
  "a < 16 \<Longrightarrow> b < 64 \<Longrightarrow> c < 64 \<Longrightarrow>
    chars (char_of (224 + a) # char_of (128 + b) # char_of (128 + c) # s)
      = (a * 4096 + b * 64 + c) # chars s"
  using byte_facts(1) [of b] byte_facts(1) [of c] byte_facts(3) [of a] by (simp add: Let_def)

lemma chars_four:
  "a < 8 \<Longrightarrow> b < 64 \<Longrightarrow> c < 64 \<Longrightarrow> d < 64 \<Longrightarrow>
    chars (char_of (240 + a) # char_of (128 + b) # char_of (128 + c) # char_of (128 + d) # s)
      = (a * 262144 + b * 4096 + c * 64 + d) # chars s"
  using byte_facts(1) [of b] byte_facts(1) [of c] byte_facts(1) [of d] byte_facts(4) [of a]
  by (simp add: Let_def)

lemma chars_encode:
  assumes "is_scalar n"
  shows "chars (encode_utf8 n @ s) = n # chars s"
proof -
  have "n < 1114112" using assms by (simp add: is_scalar_def)
  then consider "n < 128" | "128 \<le> n" "n < 2048" | "2048 \<le> n" "n < 65536"
    | "65536 \<le> n" "n < 1114112" by linarith
  then show ?thesis
  proof cases
    case 1
    then show ?thesis by (simp add: encode_utf8_def)
  next
    case 2
    then have "n div 64 < 32" by auto
    with 2 chars_two [of "n div 64" "n mod 64" s] base64_digits(1) [of n] show ?thesis
      by (simp add: encode_utf8_def del: chars.simps)
  next
    case 3
    then have "n div 4096 < 16" by auto
    with 3 chars_three [of "n div 4096" "n div 64 mod 64" "n mod 64" s] base64_digits(2) [of n]
    show ?thesis by (simp add: encode_utf8_def del: chars.simps)
  next
    case 4
    then have "n div 262144 < 8" by auto
    with 4 chars_four [of "n div 262144" "n div 4096 mod 64" "n div 64 mod 64" "n mod 64" s]
      base64_digits(3) [of n]
    show ?thesis by (simp add: encode_utf8_def del: chars.simps)
  qed
qed

text \<open>Decoding inverts encoding, so the two views of a string agree.\<close>

lemma chars_from_chars: "list_all is_scalar cs \<Longrightarrow> chars (from_chars cs) = cs"
  by (induction cs) (simp_all add: from_chars_def chars_encode)

lemma utf8_chars:
  assumes "utf8 s"
  shows "from_chars (chars s) = s" and "list_all is_scalar (chars s)"
  using assms by (auto simp: utf8_def chars_from_chars)

lemma starts_with_iff: "starts_with s p \<longleftrightarrow> (\<exists>t. s = p @ t)"
  by (induction s p rule: starts_with.induct) auto

lemma contains_iff: "contains s p \<longleftrightarrow> (\<exists>u v. s = u @ p @ v)"
proof (induction s)
  case (Cons a s)
  have "contains (a # s) p \<longleftrightarrow> (\<exists>v. a # s = p @ v) \<or> (\<exists>u v. s = u @ p @ v)"
    using Cons.IH by (simp add: starts_with_iff)
  also have "\<dots> \<longleftrightarrow> (\<exists>u v. a # s = u @ p @ v)"
    by (metis append_Cons append_Nil neq_Nil_conv list.inject)
  finally show ?case .
qed simp

lemma split_on_not_Nil [simp]: "split_on d s \<noteq> []"
  by (induction s) (auto split: list.splits)

lemma strip_Nil_iff: "rev (dropWhile P (rev (dropWhile P xs))) = [] \<longleftrightarrow> list_all P xs"
proof -
  have "dropWhile P (rev (dropWhile P xs)) = [] \<longleftrightarrow> dropWhile P xs = []"
    by (metis dropWhile_eq_Nil_conv hd_dropWhile list.set_sel(1) set_rev rev_is_Nil_conv
        dropWhile.simps(1))
  then show ?thesis by (simp add: list_all_iff)
qed

lemma trim_blank: "trim s = [] \<longleftrightarrow> blank s"
proof -
  have "from_chars cs = [] \<longleftrightarrow> cs = []" for cs
    by (cases cs) (auto simp: from_chars_def encode_utf8_def)
  then show ?thesis by (simp add: trim_def blank_def strip_Nil_iff del: rev_is_Nil_conv)
qed

text \<open>Trimming an ASCII string whose ends are no white space.\<close>

lemma chars_ascii: "list_all (\<lambda>c. byte_of c < 128) s \<Longrightarrow> chars s = map byte_of s"
  by (induction s) simp_all

lemma from_chars_ascii: "list_all (\<lambda>c. byte_of c < 128) s \<Longrightarrow> from_chars (map byte_of s) = s"
  by (induction s) (simp_all add: from_chars_def encode_utf8_def)

lemma dropWhile_hd: "xs \<noteq> [] \<Longrightarrow> \<not> P (hd xs) \<Longrightarrow> dropWhile P xs = xs"
  by (cases xs) simp_all

lemma trim_ascii:
  assumes "list_all (\<lambda>c. byte_of c < 128) s" and "s \<noteq> []"
    and "\<not> is_whitespace (byte_of (hd s))" and "\<not> is_whitespace (byte_of (last s))"
  shows "trim s = s"
  using assms by (simp add: trim_def chars_ascii from_chars_ascii dropWhile_hd hd_map last_map hd_rev)

section \<open>Decimal numbers\<close>

text \<open>\<open>to_string\<close> on an unsigned integer, and \<open>str::parse::<u64>\<close>: an optional plus sign and at
  least one decimal digit, with a value that fits 64 bits.\<close>

definition digit_char :: "nat \<Rightarrow> char" where
  "digit_char d = char_of (48 + d)"

definition digit_value :: "char \<Rightarrow> nat option" where
  "digit_value c = (let n = byte_of c in if 48 \<le> n \<and> n \<le> 57 then Some (n - 48) else None)"

fun nat_text :: "nat \<Rightarrow> string" where
  "nat_text n = (if n < 10 then [digit_char n] else nat_text (n div 10) @ [digit_char (n mod 10)])"

declare nat_text.simps [simp del]

fun digits_value :: "nat \<Rightarrow> string \<Rightarrow> nat option" where
  "digits_value acc [] = Some acc"
| "digits_value acc (c # s) =
    (case digit_value c of None \<Rightarrow> None | Some d \<Rightarrow> digits_value (acc * 10 + d) s)"

definition parse_u64 :: "string \<Rightarrow> nat option" where
  "parse_u64 s =
    (let body = (case s of c # s' \<Rightarrow> if c = CHR ''+'' then s' else s | [] \<Rightarrow> s) in
     if body = [] then None
     else case digits_value 0 body of
       Some n \<Rightarrow> if n < 2 ^ 64 then Some n else None
     | None \<Rightarrow> None)"

lemma digit_value_char [simp]: "d < 10 \<Longrightarrow> digit_value (digit_char d) = Some d"
  by (simp add: digit_value_def digit_char_def Let_def)

lemma digits_value_append:
  "digits_value acc (s @ t) =
    (case digits_value acc s of None \<Rightarrow> None | Some n \<Rightarrow> digits_value n t)"
  by (induction s arbitrary: acc) (auto split: option.splits)

lemma digits_value_nat_text [simp]: "digits_value 0 (nat_text n) = Some n"
proof (induction n rule: nat_text.induct)
  case (1 n)
  show ?case
  proof (cases "n < 10")
    case True
    then show ?thesis by (simp add: nat_text.simps [of n])
  next
    case False
    with 1 show ?thesis by (simp add: nat_text.simps [of n] digits_value_append)
  qed
qed

lemma nat_text_Cons: "\<exists>d s. nat_text n = digit_char d # s \<and> d < 10"
proof (induction n rule: nat_text.induct)
  case (1 n)
  show ?case
  proof (cases "n < 10")
    case True
    then show ?thesis by (auto simp: nat_text.simps [of n])
  next
    case False
    with 1 obtain d s where "nat_text (n div 10) = digit_char d # s" "d < 10" by blast
    with False show ?thesis by (auto simp: nat_text.simps [of n])
  qed
qed

lemma parse_nat_text [simp]: "n < 2 ^ 64 \<Longrightarrow> parse_u64 (nat_text n) = Some n"
proof -
  assume n: "n < 2 ^ 64"
  obtain d s where s: "nat_text n = digit_char d # s" and d: "d < 10" using nat_text_Cons by blast
  have "digit_char d \<noteq> CHR ''+''"
  proof
    assume "digit_char d = CHR ''+''"
    then have "digit_value CHR ''+'' = Some d" using digit_value_char [OF d] by simp
    then show False by (simp add: digit_value_def)
  qed
  with n s show ?thesis
    using digits_value_nat_text [of n] by (simp add: parse_u64_def Let_def)
qed

section \<open>Lists and maps\<close>

definition last_opt :: "'a list \<Rightarrow> 'a option" where
  "last_opt xs = (if xs = [] then None else Some (last xs))"

lemma last_opt_simps [simp]:
  "last_opt [] = None"
  "last_opt (xs @ [x]) = Some x"
  by (simp_all add: last_opt_def)

definition is_some :: "'a option \<Rightarrow> bool" where
  "is_some v \<longleftrightarrow> v \<noteq> None"

lemma is_some_simps [simp]:
  "\<not> is_some None"
  "is_some (Some x)"
  by (simp_all add: is_some_def)

end
