(* ===== verification/Reason.thy ===== *)
theory Reason
  imports Prelude
begin

text \<open>
  \<open>reader-core/src/reason.rs\<close>: the explanation a user gives for pausing or archiving, and the policy
  that bounds it. A policy has a positive byte limit; a reason is kept verbatim and contains at
  least one character that is not whitespace.
\<close>

datatype reason = Reason string

primrec reason_as_str :: "reason \<Rightarrow> string" where
  "reason_as_str (Reason raw) = raw"

record reason_policy =
  max_bytes :: nat

datatype reason_error = Blank | TooLong nat nat | InvalidLimit

datatype state_validation_error =
  InvalidReason reason_error | StatusHistoryMismatch | SourceUrlMismatch

text \<open>The \<open>Display\<close> texts.\<close>

primrec reason_error_text :: "reason_error \<Rightarrow> string" where
  "reason_error_text Blank = ''reason must contain a non-whitespace character''"
| "reason_error_text (TooLong actual maximum) =
    ''reason is '' @ nat_text actual @ '' UTF-8 bytes; maximum is '' @ nat_text maximum"
| "reason_error_text InvalidLimit = ''reason maximum must be greater than zero''"

primrec state_error_text :: "state_validation_error \<Rightarrow> string" where
  "state_error_text (InvalidReason e) = reason_error_text e"
| "state_error_text StatusHistoryMismatch =
    ''current state event is inconsistent with aggregate history''"
| "state_error_text SourceUrlMismatch =
    ''exact source URL does not parse to the operational source URL''"

definition reason_policy_new :: "nat \<Rightarrow> reason_error + reason_policy" where
  "reason_policy_new n = (if n > 0 then Inr \<lparr>max_bytes = n\<rparr> else Inl InvalidLimit)"

definition reason_validate :: "reason_policy \<Rightarrow> string \<Rightarrow> reason_error + reason" where
  "reason_validate policy raw =
    (if list_all is_whitespace (chars raw) then Inl Blank
     else let actual = length raw in
       if actual > max_bytes policy then Inl (TooLong actual (max_bytes policy))
       else Inr (Reason raw))"

definition reason_deserialize :: "string \<Rightarrow> string + reason" where
  "reason_deserialize raw =
    (if list_all is_whitespace (chars raw)
     then Inl ''reason must contain a non-whitespace character''
     else Inr (Reason raw))"

definition valid_reason :: "reason_policy \<Rightarrow> reason \<Rightarrow> bool" where
  "valid_reason policy r \<longleftrightarrow>
    \<not> blank (reason_as_str r) \<and> length (reason_as_str r) \<le> max_bytes policy"

lemma reason_validate_iff:
  "reason_validate policy raw = Inr r \<longleftrightarrow> r = Reason raw \<and> valid_reason policy r"
  by (auto simp: reason_validate_def valid_reason_def blank_def Let_def)

lemma revalidate_iff [simp]:
  "(\<exists>r'. reason_validate policy (reason_as_str r) = Inr r') \<longleftrightarrow> valid_reason policy r"
  by (cases r) (auto simp: reason_validate_iff)

end
