(* ===== verification/Versioned.thy ===== *)
theory Versioned
  imports Prelude
begin

text \<open>
  The contract every stored aggregate of the reader obeys: an operation either leaves the aggregate
  exactly as it was or bumps its \<open>revision\<close> by one. The optimistic concurrency of the storage layer
  compares revisions only, so this contract is what makes an equal revision mean an equal value.
  The locale states the contract once; \<open>Workspace\<close>, \<open>Subscription\<close>, \<open>Article\<close> and \<open>Jobs\<close> interpret
  it on their own operations.
\<close>

type_synonym account_id = uuid
type_synonym workspace_id = uuid
type_synonym subscription_id = uuid
type_synonym source_id = uuid
type_synonym source_record_id = uuid
type_synonym article_id = uuid
type_synonym rule_id = uuid
type_synonym actor_id = uuid

locale versioned =
  fixes perform :: "'op \<Rightarrow> 's \<Rightarrow> 's"
    and revision_of :: "'s \<Rightarrow> u64"
  assumes bump: "perform op s = s \<or> revision_of (perform op s) = revision_of s + 1"
begin

lemma run_counts:
  "\<exists>k \<le> length ops. revision_of (fold perform ops s) = revision_of s + of_nat k
    \<and> (k = 0 \<longrightarrow> fold perform ops s = s)"
proof (induction ops arbitrary: s)
  case Nil
  show ?case by simp
next
  case (Cons op ops)
  obtain k where k: "k \<le> length ops"
    "revision_of (fold perform ops (perform op s)) = revision_of (perform op s) + of_nat k"
    "k = 0 \<longrightarrow> fold perform ops (perform op s) = perform op s"
    using Cons.IH [of "perform op s"] by blast
  from bump [of op s] show ?case
  proof
    assume "perform op s = s"
    with k show ?thesis by (intro exI [of _ k]) simp
  next
    assume "revision_of (perform op s) = revision_of s + 1"
    with k show ?thesis by (intro exI [of _ "Suc k"]) (simp add: add.assoc)
  qed
qed

text \<open>No ABA: within fewer than \<open>2 ^ 64\<close> operations an unchanged revision means an unchanged
  aggregate.\<close>

lemma same_revision_same_value:
  assumes "length ops < 2 ^ 64" and "revision_of (fold perform ops s) = revision_of s"
  shows "fold perform ops s = s"
proof -
  obtain k where k: "k \<le> length ops"
    "revision_of (fold perform ops s) = revision_of s + of_nat k"
    "k = 0 \<longrightarrow> fold perform ops s = s"
    using run_counts by blast
  from k(2) assms(2) have "(of_nat k :: u64) = 0" by simp
  moreover have "unat (of_nat k :: u64) = k"
    using k(1) assms(1) by (intro unat_of_nat_u64) simp
  ultimately have "k = 0" by simp
  with k(3) show ?thesis by simp
qed

lemma revision_bounded:
  assumes "unat (revision_of s) + length ops < 2 ^ 64"
  shows "unat (revision_of s) \<le> unat (revision_of (fold perform ops s))"
    and "unat (revision_of (fold perform ops s)) \<le> unat (revision_of s) + length ops"
proof -
  obtain k where k: "k \<le> length ops"
    "revision_of (fold perform ops s) = revision_of s + of_nat k"
    using run_counts by blast
  have "unat (of_nat k :: u64) = k"
    using k(1) assms by (intro unat_of_nat_u64) simp
  then have "unat (revision_of s + of_nat k) = unat (revision_of s) + k"
    using k(1) assms by (subst unat_add_lem [THEN iffD1]) simp_all
  with k show "unat (revision_of s) \<le> unat (revision_of (fold perform ops s))"
    and "unat (revision_of (fold perform ops s)) \<le> unat (revision_of s) + length ops"
    by simp_all
qed

end

end
