(* ===== verification/Workspace.thy ===== *)
theory Workspace
  imports Reason Versioned
begin

text \<open>
  \<open>reader-core/src/workspace.rs\<close>: the workspace aggregate. Its status is \<open>Active\<close> or \<open>Archived\<close> with
  the event that archived it; \<open>history\<close> keeps every such event. The theory models every constructor,
  transition and the validation the storage layer runs on each read and write, shows that all
  transitions keep a workspace valid, and interprets the \<open>versioned\<close> contract.
\<close>

record workspace_state_event =
  we_reason :: reason
  we_actor :: actor_id
  we_at :: instant

datatype workspace_status = WorkspaceActive | WorkspaceArchived workspace_state_event

record workspace =
  ws_id :: workspace_id
  ws_owner :: account_id
  ws_name :: string
  ws_status :: workspace_status
  ws_revision :: u64
  ws_history :: "workspace_state_event list"

definition workspace_new :: "workspace_id \<Rightarrow> account_id \<Rightarrow> string \<Rightarrow> workspace" where
  "workspace_new i owner name =
    \<lparr>ws_id = i, ws_owner = owner, ws_name = name, ws_status = WorkspaceActive, ws_revision = 0,
     ws_history = []\<rparr>"

definition accepts_delivery :: "workspace \<Rightarrow> bool" where
  "accepts_delivery w = (case ws_status w of WorkspaceActive \<Rightarrow> True | WorkspaceArchived _ \<Rightarrow> False)"

definition workspace_archive :: "workspace_state_event \<Rightarrow> workspace \<Rightarrow> workspace" where
  "workspace_archive e w =
    (if accepts_delivery w
     then w\<lparr>ws_status := WorkspaceArchived e, ws_history := ws_history w @ [e],
            ws_revision := ws_revision w + 1\<rparr>
     else w)"

definition workspace_restore :: "workspace \<Rightarrow> workspace" where
  "workspace_restore w =
    (if \<not> accepts_delivery w
     then w\<lparr>ws_status := WorkspaceActive, ws_revision := ws_revision w + 1\<rparr>
     else w)"

definition workspace_rename :: "string \<Rightarrow> workspace \<Rightarrow> workspace" where
  "workspace_rename name w =
    (if ws_name w \<noteq> name then w\<lparr>ws_name := name, ws_revision := ws_revision w + 1\<rparr> else w)"

definition check_event_reason :: "reason_policy \<Rightarrow> reason \<Rightarrow> state_validation_error + unit" where
  "check_event_reason policy r =
    and_then (map_err InvalidReason (reason_validate policy (reason_as_str r))) (\<lambda>_. Inr ())"

definition workspace_validate :: "reason_policy \<Rightarrow> workspace \<Rightarrow> state_validation_error + unit" where
  "workspace_validate policy w =
    and_then (try_all (\<lambda>e. check_event_reason policy (we_reason e)) (ws_history w)) (\<lambda>_.
      case ws_status w of
        WorkspaceActive \<Rightarrow> Inr ()
      | WorkspaceArchived current \<Rightarrow>
          and_then (check_event_reason policy (we_reason current)) (\<lambda>_.
            if last_opt (ws_history w) \<noteq> Some current then Inl StatusHistoryMismatch else Inr ()))"

datatype workspace_op =
  ArchiveWorkspace workspace_state_event | RestoreWorkspace | RenameWorkspace string

primrec workspace_perform :: "workspace_op \<Rightarrow> workspace \<Rightarrow> workspace" where
  "workspace_perform (ArchiveWorkspace e) w = workspace_archive e w"
| "workspace_perform RestoreWorkspace w = workspace_restore w"
| "workspace_perform (RenameWorkspace n) w = workspace_rename n w"

definition workspace_valid :: "reason_policy \<Rightarrow> workspace \<Rightarrow> bool" where
  "workspace_valid policy w \<longleftrightarrow> workspace_validate policy w = Inr ()"

lemmas workspace_op_defs [op_defs] =
  workspace_new_def workspace_archive_def workspace_restore_def workspace_rename_def
  accepts_delivery_def

lemma check_event_reason_ok [simp]:
  "check_event_reason policy r = Inr () \<longleftrightarrow> valid_reason policy r"
  by (simp add: check_event_reason_def)

lemma workspace_valid_iff:
  "workspace_valid policy w \<longleftrightarrow>
    (\<forall>e \<in> set (ws_history w). valid_reason policy (we_reason e))
    \<and> (\<forall>e. ws_status w = WorkspaceArchived e \<longrightarrow> last_opt (ws_history w) = Some e)"
  by (auto simp: workspace_valid_def workspace_validate_def last_opt_def
      split: workspace_status.splits if_splits)

lemma workspace_new_valid [simp, intro]: "workspace_valid policy (workspace_new i owner name)"
  by (simp add: workspace_valid_iff workspace_new_def)

lemma workspace_archive_valid [keep_inv]:
  "workspace_valid policy w \<Longrightarrow> valid_reason policy (we_reason e) \<Longrightarrow>
    workspace_valid policy (workspace_archive e w)"
  by (auto simp: workspace_valid_iff workspace_archive_def)

lemma workspace_restore_valid [keep_inv]:
  "workspace_valid policy w \<Longrightarrow> workspace_valid policy (workspace_restore w)"
  by (simp add: workspace_valid_iff workspace_restore_def)

lemma workspace_rename_valid [keep_inv]:
  "workspace_valid policy w \<Longrightarrow> workspace_valid policy (workspace_rename n w)"
  by (simp add: workspace_valid_iff workspace_rename_def)

lemma accepts_delivery_perform [simp]:
  "accepts_delivery (workspace_archive e w) \<longleftrightarrow> False"
  "accepts_delivery (workspace_restore w)"
  "accepts_delivery (workspace_rename n w) \<longleftrightarrow> accepts_delivery w"
  by (simp_all add: op_defs)

lemma workspace_perform_frame [simp]:
  "ws_id (workspace_perform op w) = ws_id w"
  "ws_owner (workspace_perform op w) = ws_owner w"
  by (cases op; simp add: op_defs)+

interpretation ws: versioned workspace_perform ws_revision
proof
  fix op w
  show "workspace_perform op w = w \<or> ws_revision (workspace_perform op w) = ws_revision w + 1"
    by (cases op) (simp_all add: op_defs)
qed

definition op_reason_valid :: "reason_policy \<Rightarrow> workspace_op \<Rightarrow> bool" where
  "op_reason_valid policy op =
    (case op of ArchiveWorkspace e \<Rightarrow> valid_reason policy (we_reason e) | _ \<Rightarrow> True)"

lemma workspace_perform_valid:
  "workspace_valid policy w \<Longrightarrow> op_reason_valid policy op \<Longrightarrow>
    workspace_valid policy (workspace_perform op w)"
  by (cases op) (simp_all add: op_reason_valid_def keep_inv)

text \<open>Every workspace built by \<open>Workspace::new\<close> and any sequence of archive, restore and rename
  commands whose reasons satisfy the policy passes \<open>Workspace::validate\<close>, keeps its identity and
  owner; and from each such state a further command appends to the history exactly the event of an
  archive that finds the workspace active, so the history never loses an event.\<close>

theorem workspace_runs_valid:
  fixes i owner name
  assumes "list_all (op_reason_valid policy) ops"
  defines "w \<equiv> fold workspace_perform ops (workspace_new i owner name)"
  shows "workspace_validate policy w = Inr () \<and> ws_id w = i \<and> ws_owner w = owner
    \<and> (\<forall>op. ws_history (workspace_perform op w) = ws_history w @
        (case op of ArchiveWorkspace e \<Rightarrow> if accepts_delivery w then [e] else [] | _ \<Rightarrow> []))"
proof -
  have frame: "ws_id (fold workspace_perform ops u) = ws_id u
      \<and> ws_owner (fold workspace_perform ops u) = ws_owner u" for u
    by (induction ops arbitrary: u) simp_all
  have "workspace_valid policy (fold workspace_perform ops u)" if "workspace_valid policy u" for u
    using assms(1) that by (induction ops arbitrary: u) (auto intro: workspace_perform_valid)
  then have "workspace_valid policy w" by (simp add: w_def)
  moreover have "ws_history (workspace_perform op w) = ws_history w @
      (case op of ArchiveWorkspace e \<Rightarrow> if accepts_delivery w then [e] else [] | _ \<Rightarrow> [])" for op
    by (cases op) (auto simp: op_defs)
  ultimately show ?thesis
    using frame [of "workspace_new i owner name"]
    by (simp add: workspace_valid_def w_def workspace_new_def)
qed

theorem workspace_runs_valid_witness:
  "workspace_validate \<lparr>max_bytes = 10\<rparr>
     (fold workspace_perform
       [ArchiveWorkspace \<lparr>we_reason = Reason ''done'', we_actor = 7, we_at = 1\<rparr>, RestoreWorkspace]
       (workspace_new 1 2 ''Reading'')) = Inr ()"
proof -
  have "list_all (op_reason_valid \<lparr>max_bytes = 10\<rparr>)
     [ArchiveWorkspace \<lparr>we_reason = Reason ''done'', we_actor = 7, we_at = 1\<rparr>, RestoreWorkspace]"
    by (simp add: op_reason_valid_def valid_reason_def blank_def is_whitespace_def)
  from workspace_runs_valid [OF this, of 1 2 "''Reading''"] show ?thesis by simp
qed

end
