(* ===== verification/Store.thy ===== *)
theory Store
  imports Versioned "HOL-Library.AList"
begin

text \<open>
  \<open>reader-storage-postgres/src/repository.rs\<close>: the compare-and-swap tables of the PostgreSQL
  repository. A table is the association list of its primary keys and rows; a row is the stored
  revision and the document, and a document is the typed value that was serialised into it. A transaction that leaves with an error is rolled back, so an
  operation that changes the database is a function to \<open>repository_error + database\<close>: the error
  case carries no database.

  The locale \<open>revisioned_store\<close> is the interface the application services rely on: a conditional
  write succeeds only against the revision that was read. From it follows that no interleaving of
  disciplined writers loses an update. The component theories interpret it for workspaces,
  subscriptions, articles, rules and accounts.
\<close>

datatype repository_error = NotFound | Conflict | Storage string

type_synonym ('k, 'v) table = "('k \<times> u64 \<times> 'v) list"

text \<open>A statement that writes the row of one primary key, and one that deletes it.\<close>

definition put :: "'k \<Rightarrow> 'v \<Rightarrow> ('k \<times> 'v) list \<Rightarrow> ('k \<times> 'v) list" where
  "put k v t = AList.update k v t"

definition del :: "'k \<Rightarrow> ('k \<times> 'v) list \<Rightarrow> ('k \<times> 'v) list" where
  "del k t = AList.delete k t"

definition int_conversion_error :: repository_error where
  "int_conversion_error = Storage ''out of range integral type conversion attempted''"

definition to_i64 :: "u64 \<Rightarrow> repository_error + u64" where
  "to_i64 r = (if fits_i64 r then Inr r else Inl int_conversion_error)"

definition read_doc :: "('k, 'v) table \<Rightarrow> 'k \<Rightarrow> repository_error + 'v" where
  "read_doc t k = (case map_of t k of Some (_, v) \<Rightarrow> Inr v | None \<Rightarrow> Inl NotFound)"

text \<open>\<open>cas_tx\<close>: the number of affected rows and the table after the statement.\<close>

definition cas_tx ::
  "('k, 'v) table \<Rightarrow> 'k \<Rightarrow> u64 option \<Rightarrow> u64 \<Rightarrow> 'v \<Rightarrow> repository_error + nat \<times> ('k, 'v) table" where
  "cas_tx t k expected revision v =
    and_then (to_i64 revision) (\<lambda>revision.
      case expected of
        Some e \<Rightarrow>
          and_then (to_i64 e) (\<lambda>e.
            case map_of t k of
              Some (r, _) \<Rightarrow> if r = e then Inr (1, put k (revision, v) t) else Inr (0, t)
            | None \<Rightarrow> Inr (0, t))
      | None \<Rightarrow>
          (case map_of t k of None \<Rightarrow> Inr (1, put k (revision, v) t) | Some _ \<Rightarrow> Inr (0, t)))"

text \<open>The pattern \<open>if cas_tx(..).await? != 1 { return Err(Conflict) }\<close>, also the body of
  \<open>PostgresRepository::cas\<close>.\<close>

definition cas ::
  "('k, 'v) table \<Rightarrow> 'k \<Rightarrow> u64 option \<Rightarrow> u64 \<Rightarrow> 'v \<Rightarrow> repository_error + ('k, 'v) table" where
  "cas t k expected revision v =
    and_then (cas_tx t k expected revision v) (\<lambda>(affected, t').
      if affected = 1 then Inr t' else Inl Conflict)"

text \<open>\<open>INSERT ... ON CONFLICT DO NOTHING\<close> into a table without revisions: whether a row was
  inserted.\<close>

definition insert_new :: "('k \<times> 'v) list \<Rightarrow> 'k \<Rightarrow> 'v \<Rightarrow> bool \<times> ('k \<times> 'v) list" where
  "insert_new t k v = (case map_of t k of None \<Rightarrow> (True, put k v t) | Some _ \<Rightarrow> (False, t))"

text \<open>\<open>validate_repository_limits\<close>.\<close>

definition validate_repository_limits :: "nat \<Rightarrow> nat \<Rightarrow> repository_error + unit" where
  "validate_repository_limits initial_scope attention_after_seconds =
    (if attention_after_seconds = 0 \<or> attention_after_seconds > i64_max div 1000
     then Inl (Storage ''attention duration must be positive and fit milliseconds'')
     else if initial_scope = 0 then Inl (Storage ''initial feed scope must be positive'')
     else Inr ())"

lemma map_of_put [simp]: "map_of (put k v t) = (map_of t)(k \<mapsto> v)"
  by (simp add: put_def update_conv')

lemma map_of_del [simp]: "map_of (del k t) = (map_of t)(k := None)"
  by (simp add: del_def delete_conv')

lemma distinct_put: "distinct (map fst t) \<Longrightarrow> distinct (map fst (put k v t))"
  by (simp add: put_def distinct_update)

lemma to_i64_eq [simp]:
  "to_i64 r = Inr s \<longleftrightarrow> fits_i64 r \<and> s = r"
  "to_i64 r = Inl x \<longleftrightarrow> \<not> fits_i64 r \<and> x = int_conversion_error"
  by (auto simp: to_i64_def)

lemma read_doc_Inr [simp]: "read_doc t k = Inr v \<longleftrightarrow> (\<exists>r. map_of t k = Some (r, v))"
  by (auto simp: read_doc_def split: option.splits)

lemma read_doc_Inl [simp]: "read_doc t k = Inl x \<longleftrightarrow> map_of t k = None \<and> x = NotFound"
  by (auto simp: read_doc_def split: option.splits)

lemma cas_update [simp]:
  "cas t k (Some e) revision v = Inr t' \<longleftrightarrow>
    fits_i64 revision \<and> fits_i64 e \<and> (\<exists>old. map_of t k = Some (e, old)) \<and> t' = put k (revision, v) t"
  by (auto simp: cas_def cas_tx_def split: option.splits if_splits)

lemma cas_insert [simp]:
  "cas t k None revision v = Inr t' \<longleftrightarrow>
    fits_i64 revision \<and> map_of t k = None \<and> t' = put k (revision, v) t"
  by (auto simp: cas_def cas_tx_def split: option.splits if_splits)

lemma cas_conflict:
  "fits_i64 revision \<Longrightarrow> fits_i64 e \<Longrightarrow> map_of t k = Some (r, old) \<Longrightarrow> r \<noteq> e \<Longrightarrow>
    cas t k (Some e) revision v = Inl Conflict"
  by (simp add: cas_def cas_tx_def to_i64_def)

lemma insert_new_simps [simp]:
  "fst (insert_new t k v) \<longleftrightarrow> map_of t k = None"
  "snd (insert_new t k v) = (if map_of t k = None then put k v t else t)"
  by (auto simp: insert_new_def split: option.splits)

section \<open>Interleaved writers\<close>

text \<open>
  A history of writes by any number of clients. Each write is disciplined: relative to the document
  it replaces it either rewrites the same value or bumps the revision by one, which is what the
  aggregates guarantee. Steps that do not touch the table may come in between.
\<close>

inductive writes ::
  "('db \<Rightarrow> u64 \<Rightarrow> 'v \<Rightarrow> repository_error + 'db) \<Rightarrow> ('db \<Rightarrow> 'k \<Rightarrow> (u64 \<times> 'v) option) \<Rightarrow> ('v \<Rightarrow> 'k)
    \<Rightarrow> ('v \<Rightarrow> u64) \<Rightarrow> 'db \<Rightarrow> 'db \<Rightarrow> bool"
  for update lookup key_of rev
  where
  writes_refl: "writes update lookup key_of rev db db"
| writes_step:
    "writes update lookup key_of rev db d1 \<Longrightarrow> update d1 e v = Inr d2 \<Longrightarrow>
     (\<forall>old. lookup d1 (key_of v) = Some (e, old) \<longrightarrow> v = old \<and> rev v = e \<or> rev v = e + 1) \<Longrightarrow>
     writes update lookup key_of rev db d2"
| writes_other:
    "writes update lookup key_of rev db d1 \<Longrightarrow> lookup d2 = lookup d1 \<Longrightarrow>
     writes update lookup key_of rev db d2"

locale revisioned_store =
  fixes update :: "'db \<Rightarrow> u64 \<Rightarrow> 'v \<Rightarrow> repository_error + 'db"
    and lookup :: "'db \<Rightarrow> 'k \<Rightarrow> (u64 \<times> 'v) option"
    and key_of :: "'v \<Rightarrow> 'k"
    and rev :: "'v \<Rightarrow> u64"
  assumes update_ok: "update db e v = Inr db' \<Longrightarrow>
      fits_i64 e \<and> fits_i64 (rev v) \<and> (\<exists>old. lookup db (key_of v) = Some (e, old))
      \<and> lookup db' = (lookup db)(key_of v \<mapsto> (rev v, v))"
begin

lemma writes_monotone:
  assumes "writes update lookup key_of rev db d1" and "lookup db k = Some (r, x)"
  shows "\<exists>r' x'. lookup d1 k = Some (r', x') \<and> r \<le> r' \<and> (r' = r \<longrightarrow> x' = x)"
  using assms
proof (induction rule: writes.induct)
  case (writes_refl db)
  then show ?case by simp
next
  case (writes_step db d1 e v d2)
  then obtain r1 x1 where one: "lookup d1 k = Some (r1, x1)" "r \<le> r1" "r1 = r \<longrightarrow> x1 = x"
    by blast
  from update_ok [OF writes_step.hyps(2)] obtain old
    where up: "fits_i64 e" "lookup d1 (key_of v) = Some (e, old)"
      "lookup d2 = (lookup d1)(key_of v \<mapsto> (rev v, v))" by blast
  show ?case
  proof (cases "key_of v = k")
    case True
    with one up have eq: "r1 = e" "x1 = old" by auto
    from writes_step.hyps(3) up(2) have "v = old \<and> rev v = e \<or> rev v = e + 1" by blast
    with one eq fits_i64_less_succ [OF up(1)] True up(3) show ?thesis by auto
  next
    case False
    with one up(3) show ?thesis by simp
  qed
next
  case (writes_other db d1 d2)
  then show ?case by simp
qed

text \<open>A conditional write replaces exactly the value its client read, however many other writes came
  in between.\<close>

lemma no_lost_update:
  assumes "writes update lookup key_of rev db d1" and "lookup db (key_of v) = Some (r, x)"
    and "update d1 r v = Inr d2"
  shows "lookup d1 (key_of v) = Some (r, x)"
  using writes_monotone [OF assms(1,2)] update_ok [OF assms(3)] by auto

text \<open>Of the writers that read one revision, at most one bumps it: after a success every other
  write against the old revision fails.\<close>

lemma single_winner:
  assumes "update db r v = Inr d1" and "rev v = r + 1"
    and "writes update lookup key_of rev d1 d2" and "key_of v' = key_of v"
  shows "\<not> is_ok (update d2 r v')"
proof
  assume "is_ok (update d2 r v')"
  then obtain d3 where "update d2 r v' = Inr d3" by (auto simp: is_ok_iff)
  from update_ok [OF this] assms(4) obtain old where old: "lookup d2 (key_of v) = Some (r, old)"
    by auto
  from update_ok [OF assms(1)] have "lookup d1 (key_of v) = Some (r + 1, v)" and fits: "fits_i64 r"
    using assms(2) by auto
  from writes_monotone [OF assms(3) this(1)] old have "r + 1 \<le> r" by auto
  with fits_i64_less_succ [OF fits] show False by simp
qed

end

end
