(* ===== verification/Identity_Store.thy ===== *)
theory Identity_Store
  imports Workspace Store
begin

text \<open>
  The identity half of the PostgreSQL repository: \<open>repository/identity.rs\<close> (accounts, username
  reservations, invites, sessions, password resets, login attempts) and \<open>repository/workspace.rs\<close>'s
  reads and plain saves. Every function is one transaction; the \<open>Err\<close> branches return no database
  because the dropped transaction is rolled back.
\<close>

record account_record =
  acc_id :: account_id
  acc_username :: string
  acc_password_hash :: string
  acc_admin :: bool
  acc_auth_revision :: u64
  acc_revision :: u64

record invite_record =
  inv_id :: uuid
  inv_token_hash :: string
  inv_username :: string
  inv_created_by :: account_id
  inv_expires_at :: instant
  inv_consumed_at :: "instant option"
  inv_revision :: u64

record session_record =
  ses_id :: uuid
  ses_verifier_hash :: string
  ses_account_id :: account_id
  ses_account_auth_revision :: u64
  ses_expires_at :: instant
  ses_revision :: u64

record password_reset_record =
  pr_id :: uuid
  pr_token_hash :: string
  pr_account_id :: account_id
  pr_expires_at :: instant
  pr_consumed_at :: "instant option"
  pr_revision :: u64

record login_attempts =
  la_timestamps :: "instant list"
  la_revision :: u64

record identity_db =
  db_workspaces :: "(workspace_id, workspace) table"
  db_accounts :: "(account_id, account_record) table"
  db_usernames :: "(string \<times> account_id) list"
  db_invites :: "(string, invite_record) table"
  db_sessions :: "(string, session_record) table"
  db_resets :: "(string, password_reset_record) table"
  db_login_attempts :: "(string, login_attempts) table"

section \<open>Workspaces\<close>

definition state_checked :: "state_validation_error + unit \<Rightarrow> repository_error + unit" where
  "state_checked m = map_err (\<lambda>e. Storage (state_error_text e)) m"

definition repo_workspace ::
  "reason_policy \<Rightarrow> 'a identity_db_scheme \<Rightarrow> workspace_id \<Rightarrow> repository_error + workspace" where
  "repo_workspace policy db i =
    and_then (read_doc (db_workspaces db) i) (\<lambda>v.
    and_then (state_checked (workspace_validate policy v)) (\<lambda>_. Inr v))"

definition workspaces_by_owner ::
  "reason_policy \<Rightarrow> 'a identity_db_scheme \<Rightarrow> account_id \<Rightarrow> repository_error + workspace list" where
  "workspaces_by_owner policy db owner =
    (let values = map (\<lambda>(_, _, w). w)
       (sort_key fst (filter (\<lambda>(_, _, w). ws_owner w = owner) (db_workspaces db)))
     in and_then
       (try_all (\<lambda>w.
         and_then (state_checked (workspace_validate policy w)) (\<lambda>_.
           if ws_owner w \<noteq> owner
           then Inl (Storage ''workspace owner index returned a foreign workspace'') else Inr ()))
         values)
       (\<lambda>_. Inr values))"

definition save_workspace ::
  "reason_policy \<Rightarrow> 'a identity_db_scheme \<Rightarrow> u64 option \<Rightarrow> workspace
    \<Rightarrow> repository_error + 'a identity_db_scheme" where
  "save_workspace policy db e v =
    and_then (state_checked (workspace_validate policy v)) (\<lambda>_.
    and_then (cas (db_workspaces db) (ws_id v) e (ws_revision v) v) (\<lambda>t.
      Inr (db\<lparr>db_workspaces := t\<rparr>)))"

section \<open>Accounts and tokens\<close>

definition repo_account ::
  "'a identity_db_scheme \<Rightarrow> account_id \<Rightarrow> repository_error + account_record" where
  "repo_account db i = read_doc (db_accounts db) i"

definition account_by_username ::
  "'a identity_db_scheme \<Rightarrow> string \<Rightarrow> repository_error + account_record" where
  "account_by_username db u =
    and_then (ok_or (map_of (db_usernames db) u) NotFound) (\<lambda>i. repo_account db i)"

text \<open>The reservation insert has no \<open>ON CONFLICT\<close> clause: a duplicate key fails the statement, and
  that failure is reported as a conflict.\<close>

definition reserve_username ::
  "'a identity_db_scheme \<Rightarrow> account_record \<Rightarrow> repository_error + 'a identity_db_scheme" where
  "reserve_username db a =
    (case map_of (db_usernames db) (acc_username a) of
       Some _ \<Rightarrow> Inl Conflict
     | None \<Rightarrow> Inr (db\<lparr>db_usernames := put (acc_username a) (acc_id a) (db_usernames db)\<rparr>))"

definition cas_account ::
  "'a identity_db_scheme \<Rightarrow> u64 option \<Rightarrow> account_record \<Rightarrow> repository_error + 'a identity_db_scheme" where
  "cas_account db e a =
    and_then (cas (db_accounts db) (acc_id a) e (acc_revision a) a) (\<lambda>t.
      Inr (db\<lparr>db_accounts := t\<rparr>))"

definition cas_workspace ::
  "'a identity_db_scheme \<Rightarrow> u64 option \<Rightarrow> workspace \<Rightarrow> repository_error + 'a identity_db_scheme" where
  "cas_workspace db e w =
    and_then (cas (db_workspaces db) (ws_id w) e (ws_revision w) w) (\<lambda>t.
      Inr (db\<lparr>db_workspaces := t\<rparr>))"

definition save_account ::
  "'a identity_db_scheme \<Rightarrow> u64 option \<Rightarrow> account_record \<Rightarrow> repository_error + 'a identity_db_scheme" where
  "save_account db e v =
    and_then (if e = None then reserve_username db v else Inr db) (\<lambda>db. cas_account db e v)"

definition create_account_and_workspace ::
  "reason_policy \<Rightarrow> 'a identity_db_scheme \<Rightarrow> account_record \<Rightarrow> workspace
    \<Rightarrow> repository_error + 'a identity_db_scheme" where
  "create_account_and_workspace policy db a w =
    (if ws_owner w \<noteq> acc_id a \<or> ws_revision w \<noteq> 0
     then Inl (Storage ''initial workspace must belong to the new account at revision zero'')
     else
       and_then (state_checked (workspace_validate policy w)) (\<lambda>_.
       and_then (reserve_username db a) (\<lambda>db.
       and_then (cas_account db None a) (\<lambda>db.
         cas_workspace db None w))))"

definition invite_by_token_hash ::
  "'a identity_db_scheme \<Rightarrow> string \<Rightarrow> repository_error + invite_record" where
  "invite_by_token_hash db h = read_doc (db_invites db) h"

definition save_invite ::
  "'a identity_db_scheme \<Rightarrow> u64 option \<Rightarrow> invite_record \<Rightarrow> repository_error + 'a identity_db_scheme" where
  "save_invite db e v =
    and_then (cas (db_invites db) (inv_token_hash v) e (inv_revision v) v) (\<lambda>t.
      Inr (db\<lparr>db_invites := t\<rparr>))"

definition session_by_verifier_hash ::
  "'a identity_db_scheme \<Rightarrow> string \<Rightarrow> repository_error + session_record" where
  "session_by_verifier_hash db h = read_doc (db_sessions db) h"

definition save_session ::
  "'a identity_db_scheme \<Rightarrow> u64 option \<Rightarrow> session_record \<Rightarrow> repository_error + 'a identity_db_scheme" where
  "save_session db e v =
    and_then (cas (db_sessions db) (ses_verifier_hash v) e (ses_revision v) v) (\<lambda>t.
      Inr (db\<lparr>db_sessions := t\<rparr>))"

definition delete_session ::
  "'a identity_db_scheme \<Rightarrow> string \<Rightarrow> u64 \<Rightarrow> repository_error + 'a identity_db_scheme" where
  "delete_session db h e =
    (case map_of (db_sessions db) h of
       Some (r, _) \<Rightarrow>
         if r = e then Inr (db\<lparr>db_sessions := del h (db_sessions db)\<rparr>) else Inl Conflict
     | None \<Rightarrow> Inl Conflict)"

definition password_reset_by_token_hash ::
  "'a identity_db_scheme \<Rightarrow> string \<Rightarrow> repository_error + password_reset_record" where
  "password_reset_by_token_hash db h = read_doc (db_resets db) h"

definition save_password_reset ::
  "'a identity_db_scheme \<Rightarrow> u64 option \<Rightarrow> password_reset_record
    \<Rightarrow> repository_error + 'a identity_db_scheme" where
  "save_password_reset db e v =
    and_then (cas (db_resets db) (pr_token_hash v) e (pr_revision v) v) (\<lambda>t.
      Inr (db\<lparr>db_resets := t\<rparr>))"

definition consume_invite_create_account_and_workspace ::
  "reason_policy \<Rightarrow> 'a identity_db_scheme \<Rightarrow> u64 \<Rightarrow> invite_record \<Rightarrow> account_record \<Rightarrow> workspace
    \<Rightarrow> repository_error + 'a identity_db_scheme" where
  "consume_invite_create_account_and_workspace policy db expected invite a w =
    and_then (state_checked (workspace_validate policy w)) (\<lambda>_.
    if ws_owner w \<noteq> acc_id a
    then Inl (Storage ''initial workspace must belong to the invited account'')
    else if map_of (db_usernames db) (acc_username a) \<noteq> None then Inl Conflict
    else
      and_then (save_invite db (Some expected) invite) (\<lambda>db.
      and_then (reserve_username db a) (\<lambda>db.
      and_then (cas_account db None a) (\<lambda>db.
        cas_workspace db None w))))"

definition consume_reset_and_update_account ::
  "'a identity_db_scheme \<Rightarrow> u64 \<Rightarrow> password_reset_record \<Rightarrow> u64 \<Rightarrow> account_record
    \<Rightarrow> repository_error + 'a identity_db_scheme" where
  "consume_reset_and_update_account db expected_reset reset expected_account a =
    (if pr_account_id reset \<noteq> acc_id a
     then Inl (Storage ''password reset account does not match updated account'')
     else
       and_then (save_password_reset db (Some expected_reset) reset) (\<lambda>db.
         cas_account db (Some expected_account) a))"

definition one_minute :: int where
  "one_minute = 60 * 1000000000"

text \<open>The refusal path returns before the transaction commits, so the database is unchanged.\<close>

definition record_login_attempt ::
  "'a identity_db_scheme \<Rightarrow> string \<Rightarrow> instant \<Rightarrow> nat
    \<Rightarrow> repository_error + bool \<times> 'a identity_db_scheme" where
  "record_login_attempt db u at limit =
    (let row = map_of (db_login_attempts db) u;
         timestamps = (case row of Some (_, v) \<Rightarrow> la_timestamps v | None \<Rightarrow> []);
         expected = map_option fst row;
         recent = filter (\<lambda>v. v > at - one_minute) timestamps
     in if length recent \<ge> limit then Inr (False, db)
        else
          let revision = (case expected of Some r \<Rightarrow> r + 1 | None \<Rightarrow> 0);
              value = \<lparr>la_timestamps = recent @ [at], la_revision = revision\<rparr>
          in and_then (cas (db_login_attempts db) u expected revision value) (\<lambda>t.
               Inr (True, db\<lparr>db_login_attempts := t\<rparr>)))"

lemma state_checked_ok [simp]: "state_checked m = Inr () \<longleftrightarrow> m = Inr ()"
  by (simp add: state_checked_def)

lemma repo_workspace_Inr:
  "repo_workspace policy db i = Inr w \<longleftrightarrow>
    (\<exists>r. map_of (db_workspaces db) i = Some (r, w)) \<and> workspace_valid policy w"
  by (auto simp: repo_workspace_def workspace_valid_def)

lemmas identity_store_defs =
  save_workspace_def save_account_def reserve_username_def cas_account_def cas_workspace_def
  create_account_and_workspace_def save_invite_def save_session_def delete_session_def
  save_password_reset_def consume_invite_create_account_and_workspace_def
  consume_reset_and_update_account_def

section \<open>The conditional saves as revisioned stores\<close>

interpretation ws_store: revisioned_store
  "\<lambda>db e. save_workspace policy db (Some e)" "\<lambda>db. map_of (db_workspaces db)" ws_id ws_revision
  for policy
  by unfold_locales (auto simp: save_workspace_def)

interpretation acc_store: revisioned_store
  "\<lambda>db e. save_account db (Some e)" "\<lambda>db. map_of (db_accounts db)" acc_id acc_revision
  by unfold_locales (auto simp: save_account_def cas_account_def)

section \<open>Login throttling\<close>

text \<open>A sequence of attempts for one username; the result lists the admitted instants.\<close>

fun login_run ::
  "'a identity_db_scheme \<Rightarrow> string \<Rightarrow> nat \<Rightarrow> instant list
    \<Rightarrow> repository_error + instant list \<times> 'a identity_db_scheme" where
  "login_run db u limit [] = Inr ([], db)"
| "login_run db u limit (at # ats) =
    and_then (record_login_attempt db u at limit) (\<lambda>(admitted, db').
    and_then (login_run db' u limit ats) (\<lambda>(acc, db'').
      Inr (if admitted then at # acc else acc, db'')))"

definition stored_attempts :: "'a identity_db_scheme \<Rightarrow> string \<Rightarrow> instant list" where
  "stored_attempts db u =
    (case map_of (db_login_attempts db) u of Some (_, v) \<Rightarrow> la_timestamps v | None \<Rightarrow> [])"

definition in_window :: "instant \<Rightarrow> instant \<Rightarrow> bool" where
  "in_window t v \<longleftrightarrow> t - one_minute < v \<and> v \<le> t"

lemma record_login_attempt_cases:
  assumes "record_login_attempt db u at limit = Inr (admitted, db')"
  shows "if admitted
    then length (filter (\<lambda>v. v > at - one_minute) (stored_attempts db u)) < limit
      \<and> stored_attempts db' u = filter (\<lambda>v. v > at - one_minute) (stored_attempts db u) @ [at]
    else db' = db \<and> length (filter (\<lambda>v. v > at - one_minute) (stored_attempts db u)) \<ge> limit"
proof (cases "map_of (db_login_attempts db) u")
  case None
  with assms show ?thesis
    by (auto simp: record_login_attempt_def stored_attempts_def Let_def split: if_splits)
next
  case (Some row)
  with assms show ?thesis
    by (cases row)
      (auto simp: record_login_attempt_def stored_attempts_def Let_def split: if_splits)
qed

lemma login_run_members:
  "login_run db u limit ats = Inr (acc, db') \<Longrightarrow> set acc \<subseteq> set ats"
proof (induction ats arbitrary: db acc)
  case (Cons at ats)
  then obtain admitted d1 acc1 where "login_run d1 u limit ats = Inr (acc1, db')"
    and "acc = (if admitted then at # acc1 else acc1)" by auto
  with Cons.IH [of d1 acc1] show ?case by auto
qed simp

lemma login_run_window:
  assumes "login_run db u limit ats = Inr (acc, db')" and "sorted ats"
    and "\<forall>t. length (filter (in_window t) (stored_attempts db u)) \<le> limit"
  shows "length (filter (in_window t) (stored_attempts db u @ acc)) \<le> limit"
  using assms
proof (induction ats arbitrary: db acc t)
  case Nil
  then show ?case by simp
next
  case (Cons at ats)
  let ?S = "stored_attempts db u" and ?R = "filter (\<lambda>v. v > at - one_minute) (stored_attempts db u)"
  from Cons.prems(1) obtain admitted d1 acc1
    where step: "record_login_attempt db u at limit = Inr (admitted, d1)"
      and rest: "login_run d1 u limit ats = Inr (acc1, db')"
      and acc: "acc = (if admitted then at # acc1 else acc1)" by auto
  note one = record_login_attempt_cases [OF step]
  show ?case
  proof (cases admitted)
    case False
    with one have "d1 = db" by simp
    with Cons.IH [OF rest] Cons.prems acc False show ?thesis by simp
  next
    case True
    with one have len: "length ?R < limit" and stored: "stored_attempts d1 u = ?R @ [at]" by simp_all
    have "length (filter (in_window t') (?R @ [at])) \<le> limit" for t'
    proof -
      have "length (filter (in_window t') (?R @ [at])) \<le> length (?R @ [at])"
        by (rule length_filter_le)
      with len show ?thesis by (simp del: filter_append filter_filter)
    qed
    with Cons.IH [OF rest, of t] Cons.prems(2) stored
    have later: "length (filter (in_window t) (?R @ at # acc1)) \<le> limit" by simp
    show ?thesis
    proof (cases "at \<le> t")
      case True
      then have "filter (in_window t) ?S = filter (in_window t) ?R"
        by (auto simp: in_window_def intro!: filter_cong)
      with later acc \<open>admitted\<close> show ?thesis by simp
    next
      case False
      with Cons.prems(2) login_run_members [OF rest] have "filter (in_window t) (at # acc1) = []"
        by (fastforce simp: in_window_def filter_empty_conv)
      with Cons.prems(3) acc \<open>admitted\<close> show ?thesis by simp
    qed
  qed
qed

text \<open>Login throttling holds over whole histories: starting from a database without attempts for
  a username and given attempts at non-decreasing instants, no half-open window of one minute
  contains more admitted attempts than the limit.\<close>

theorem login_throttled:
  assumes "map_of (db_login_attempts db) u = None" and "sorted ats"
    and "login_run db u limit ats = Inr (admitted, db')"
  shows "length (filter (\<lambda>v. t - one_minute < v \<and> v \<le> t) admitted) \<le> limit"
proof -
  have "stored_attempts db u = []" using assms(1) by (simp add: stored_attempts_def)
  with login_run_window [OF assms(3,2), of t] show ?thesis by (simp add: in_window_def [abs_def])
qed

definition empty_identity_db :: identity_db where
  "empty_identity_db =
    \<lparr>db_workspaces = [], db_accounts = [], db_usernames = [], db_invites = [], db_sessions = [],
     db_resets = [], db_login_attempts = []\<rparr>"

theorem login_throttled_witness:
  "\<exists>db'. login_run empty_identity_db ''u'' 1 [0, 5, 70000000000] = Inr ([0, 70000000000], db')
    \<and> length (filter (\<lambda>v. 5 - one_minute < v \<and> v \<le> 5) [0, 70000000000]) \<le> 1"
proof -
  obtain db' where run: "login_run empty_identity_db ''u'' 1 [0, 5, 70000000000]
      = Inr ([0, 70000000000], db')"
    by (simp add: empty_identity_db_def record_login_attempt_def one_minute_def put_def cas_def
        cas_tx_def to_i64_def fits_i64_def i64_max_def)
  have "map_of (db_login_attempts empty_identity_db) ''u'' = None"
    by (simp add: empty_identity_db_def)
  moreover have "sorted [0 :: instant, 5, 70000000000]" by simp
  ultimately show ?thesis using login_throttled [OF _ _ run, of 5] run by blast
qed

end
