(* ===== verification/Auth.thy ===== *)
theory Auth
  imports Identity_Store
begin

text \<open>
  \<open>reader-application/src/auth.rs\<close>: sign-in, sessions, invites, password changes and resets.

  Each service call reads the repository and ends in one write transaction. Reads and the write do
  not share a transaction, so a read takes the database it sees as an argument of its own
  (\<open>r\<close>, \<open>r1\<close>, \<open>r2\<close>: snapshots) and the write takes the database at commit time (\<open>d\<close>). A run of the
  system (\<open>auth_run\<close>) is any interleaving in which the snapshots are earlier states.

  Argon2, SHA-256 and the bound of representable instants are parameters (\<open>auth_env\<close>); the random
  identifiers, tokens and salts a call draws are arguments. The failure of a blocking task to join
  is not modelled.
\<close>

record argon2id_policy =
  ap_memory_kib :: u32
  ap_time_cost :: u32
  ap_parallelism :: u32

record auth_policy =
  session_lifetime_seconds :: u64
  invite_lifetime_seconds :: u64
  reset_lifetime_seconds :: u64
  argon2id :: argon2id_policy

text \<open>\<open>TimePanic\<close> stands for the panic of adding a duration to an instant beyond the representable
  range; the other constructors are the variants of \<open>AuthError\<close>.\<close>

datatype auth_error =
  InvalidCredentials | InvalidToken | InvalidUsername | WeakPassword | AdminRequired
| UsernameExists | AuthRepository repository_error | Hashing | InvalidHashPolicy | TimePanic

record auth_env =
  env_params_valid :: "u32 \<Rightarrow> u32 \<Rightarrow> u32 \<Rightarrow> bool"
  env_hash :: "argon2id_policy \<Rightarrow> string \<Rightarrow> string \<Rightarrow> string option"
  env_phc_parses :: "string \<Rightarrow> bool"
  env_verify :: "argon2id_policy \<Rightarrow> string \<Rightarrow> string \<Rightarrow> bool"
  env_sha256 :: "string \<Rightarrow> u8 list"
  env_max_instant :: instant

definition argon2id_policy_new ::
  "auth_env \<Rightarrow> u32 \<Rightarrow> u32 \<Rightarrow> u32 \<Rightarrow> auth_error + argon2id_policy" where
  "argon2id_policy_new env m t p =
    (if env_params_valid env m t p
     then Inr \<lparr>ap_memory_kib = m, ap_time_cost = t, ap_parallelism = p\<rparr>
     else Inl InvalidHashPolicy)"

definition argon2id_engine :: "auth_env \<Rightarrow> argon2id_policy \<Rightarrow> auth_error + argon2id_policy" where
  "argon2id_engine env p =
    (if env_params_valid env (ap_memory_kib p) (ap_time_cost p) (ap_parallelism p)
     then Inr p else Inl InvalidHashPolicy)"

definition seconds :: "u64 \<Rightarrow> auth_error + int" where
  "seconds value =
    (if unat value \<le> i64_max \<and> unat value \<le> i64_max div 1000
     then Inr (int (unat value) * 1000000000) else Inl InvalidToken)"

definition expiry :: "auth_env \<Rightarrow> instant \<Rightarrow> u64 \<Rightarrow> auth_error + instant" where
  "expiry env now lifetime =
    and_then (seconds lifetime) (\<lambda>s.
      if now + s > env_max_instant env then Inl TimePanic else Inr (now + s))"

definition validate_username :: "string \<Rightarrow> auth_error + unit" where
  "validate_username value =
    (if value = [] \<or> trim value \<noteq> value \<or> length value > 254 then Inl InvalidUsername else Inr ())"

definition validate_password :: "string \<Rightarrow> auth_error + unit" where
  "validate_password value = (if length (chars value) < 12 then Inl WeakPassword else Inr ())"

definition hash_password ::
  "auth_env \<Rightarrow> argon2id_policy \<Rightarrow> string \<Rightarrow> string \<Rightarrow> auth_error + string" where
  "hash_password env policy salt value =
    and_then (validate_password value) (\<lambda>_.
    and_then (argon2id_engine env policy) (\<lambda>engine.
      ok_or (env_hash env engine salt value) Hashing))"

definition verify_password ::
  "auth_env \<Rightarrow> argon2id_policy \<Rightarrow> string \<Rightarrow> string \<Rightarrow> auth_error + unit" where
  "verify_password env policy value encoded =
    (if \<not> env_phc_parses env encoded then Inl InvalidCredentials
     else and_then (argon2id_engine env policy) (\<lambda>engine.
       if env_verify env engine value encoded then Inr () else Inl InvalidCredentials))"

definition hex_digit :: "nat \<Rightarrow> char" where
  "hex_digit n = ''0123456789abcdef'' ! n"

definition hex :: "u8 list \<Rightarrow> string" where
  "hex bytes = concat (map (\<lambda>b. [hex_digit (unat b div 16), hex_digit (unat b mod 16)]) bytes)"

definition token_hash :: "auth_env \<Rightarrow> string \<Rightarrow> string" where
  "token_hash env raw = hex (env_sha256 env raw)"

definition not_found_as :: "auth_error \<Rightarrow> repository_error \<Rightarrow> auth_error" where
  "not_found_as e x = (case x of NotFound \<Rightarrow> e | other \<Rightarrow> AuthRepository other)"

text \<open>The \<open>match\<close> that lets a call continue only when the username has no account.\<close>

definition username_free :: "identity_db \<Rightarrow> string \<Rightarrow> auth_error + unit" where
  "username_free r u =
    (case account_by_username r u of
       Inl NotFound \<Rightarrow> Inr ()
     | Inr _ \<Rightarrow> Inl UsernameExists
     | Inl e \<Rightarrow> Inl (AuthRepository e))"

definition authenticate ::
  "auth_env \<Rightarrow> identity_db \<Rightarrow> identity_db \<Rightarrow> string \<Rightarrow> instant
    \<Rightarrow> auth_error + session_record \<times> account_record" where
  "authenticate env r1 r2 raw now =
    and_then (map_err (not_found_as InvalidToken) (session_by_verifier_hash r1 (token_hash env raw))) (\<lambda>session.
    if ses_expires_at session \<le> now then Inl InvalidToken
    else
      and_then (map_err AuthRepository (repo_account r2 (ses_account_id session))) (\<lambda>account.
      if ses_account_auth_revision session \<noteq> acc_auth_revision account then Inl InvalidToken
      else Inr (session, account)))"

definition sign_in ::
  "auth_env \<Rightarrow> auth_policy \<Rightarrow> identity_db \<Rightarrow> identity_db \<Rightarrow> string \<Rightarrow> string \<Rightarrow> instant \<Rightarrow> u8 list \<Rightarrow> uuid
    \<Rightarrow> auth_error + (string \<times> session_record) \<times> identity_db" where
  "sign_in env policy r d username password now token uid =
    and_then (validate_username username) (\<lambda>_.
    and_then (map_err (not_found_as InvalidCredentials) (account_by_username r username)) (\<lambda>account.
    and_then (verify_password env (argon2id policy) password (acc_password_hash account)) (\<lambda>_.
    let raw = hex token in
    and_then (expiry env now (session_lifetime_seconds policy)) (\<lambda>expires.
    let session = \<lparr>ses_id = uid, ses_verifier_hash = token_hash env raw,
          ses_account_id = acc_id account, ses_account_auth_revision = acc_auth_revision account,
          ses_expires_at = expires, ses_revision = 0\<rparr> in
    and_then (map_err AuthRepository (save_session d None session)) (\<lambda>d'.
      Inr ((raw, session), d'))))))"

definition sign_out :: "identity_db \<Rightarrow> session_record \<Rightarrow> auth_error + identity_db" where
  "sign_out d session =
    map_err AuthRepository (delete_session d (ses_verifier_hash session) (ses_revision session))"

definition create_invite ::
  "auth_env \<Rightarrow> auth_policy \<Rightarrow> identity_db \<Rightarrow> identity_db \<Rightarrow> account_record \<Rightarrow> string \<Rightarrow> instant
    \<Rightarrow> u8 list \<Rightarrow> uuid \<Rightarrow> auth_error + (string \<times> invite_record) \<times> identity_db" where
  "create_invite env policy r d actor username now token uid =
    (if \<not> acc_admin actor then Inl AdminRequired
     else
       and_then (validate_username username) (\<lambda>_.
       and_then (username_free r username) (\<lambda>_.
       let raw = hex token in
       and_then (expiry env now (invite_lifetime_seconds policy)) (\<lambda>expires.
       let invite = \<lparr>inv_id = uid, inv_token_hash = token_hash env raw, inv_username = username,
             inv_created_by = acc_id actor, inv_expires_at = expires, inv_consumed_at = None,
             inv_revision = 0\<rparr> in
       and_then (map_err AuthRepository (save_invite d None invite)) (\<lambda>d'.
         Inr ((raw, invite), d'))))))"

definition accept_invite ::
  "auth_env \<Rightarrow> auth_policy \<Rightarrow> reason_policy \<Rightarrow> identity_db \<Rightarrow> identity_db \<Rightarrow> identity_db \<Rightarrow> string \<Rightarrow> string
    \<Rightarrow> string \<Rightarrow> instant \<Rightarrow> account_id \<Rightarrow> string \<Rightarrow> workspace_id
    \<Rightarrow> auth_error + account_record \<times> identity_db" where
  "accept_invite env policy reasons r1 r2 d raw username password now uid salt wid =
    and_then (validate_username username) (\<lambda>_.
    and_then (validate_password password) (\<lambda>_.
    and_then (map_err (not_found_as InvalidToken) (invite_by_token_hash r1 (token_hash env raw))) (\<lambda>invite.
    if inv_expires_at invite \<le> now \<or> is_some (inv_consumed_at invite) \<or> inv_username invite \<noteq> username
    then Inl InvalidToken
    else
      and_then (username_free r2 username) (\<lambda>_.
      and_then (hash_password env (argon2id policy) salt password) (\<lambda>hash.
      let account = \<lparr>acc_id = uid, acc_username = username, acc_password_hash = hash,
            acc_admin = False, acc_auth_revision = 0, acc_revision = 0\<rparr>;
          consumed = invite\<lparr>inv_consumed_at := Some now, inv_revision := inv_revision invite + 1\<rparr>;
          workspace = workspace_new wid uid ''Reading'' in
      and_then (map_err AuthRepository
        (consume_invite_create_account_and_workspace reasons d (inv_revision invite) consumed
          account workspace)) (\<lambda>d'.
        Inr (account, d')))))))"

definition bump_password :: "account_record \<Rightarrow> string \<Rightarrow> account_record" where
  "bump_password a hash =
    a\<lparr>acc_password_hash := hash, acc_auth_revision := acc_auth_revision a + 1,
      acc_revision := acc_revision a + 1\<rparr>"

definition change_password ::
  "auth_env \<Rightarrow> auth_policy \<Rightarrow> identity_db \<Rightarrow> identity_db \<Rightarrow> account_id \<Rightarrow> string \<Rightarrow> string \<Rightarrow> string
    \<Rightarrow> auth_error + identity_db" where
  "change_password env policy r d i current new salt =
    and_then (validate_password new) (\<lambda>_.
    and_then (map_err AuthRepository (repo_account r i)) (\<lambda>account.
    and_then (verify_password env (argon2id policy) current (acc_password_hash account)) (\<lambda>_.
    and_then (hash_password env (argon2id policy) salt new) (\<lambda>hash.
      map_err AuthRepository
        (save_account d (Some (acc_revision account)) (bump_password account hash))))))"

definition reset_password ::
  "auth_env \<Rightarrow> auth_policy \<Rightarrow> identity_db \<Rightarrow> identity_db \<Rightarrow> identity_db \<Rightarrow> string \<Rightarrow> string \<Rightarrow> instant
    \<Rightarrow> string \<Rightarrow> auth_error + identity_db" where
  "reset_password env policy r1 r2 d raw new now salt =
    and_then (validate_password new) (\<lambda>_.
    and_then (map_err (not_found_as InvalidToken) (password_reset_by_token_hash r1 (token_hash env raw))) (\<lambda>reset.
    if pr_expires_at reset \<le> now \<or> is_some (pr_consumed_at reset) then Inl InvalidToken
    else
      and_then (map_err AuthRepository (repo_account r2 (pr_account_id reset))) (\<lambda>account.
      and_then (hash_password env (argon2id policy) salt new) (\<lambda>hash.
        map_err AuthRepository
          (consume_reset_and_update_account d (pr_revision reset)
            (reset\<lparr>pr_consumed_at := Some now, pr_revision := pr_revision reset + 1\<rparr>)
            (acc_revision account) (bump_password account hash))))))"

definition create_password_reset ::
  "auth_env \<Rightarrow> auth_policy \<Rightarrow> identity_db \<Rightarrow> identity_db \<Rightarrow> account_record \<Rightarrow> string \<Rightarrow> instant
    \<Rightarrow> u8 list \<Rightarrow> uuid \<Rightarrow> auth_error + (string \<times> password_reset_record) \<times> identity_db" where
  "create_password_reset env policy r d actor username now token uid =
    (if \<not> acc_admin actor then Inl AdminRequired
     else
       and_then (validate_username username) (\<lambda>_.
       and_then (map_err AuthRepository (account_by_username r username)) (\<lambda>account.
       let raw = hex token in
       and_then (expiry env now (reset_lifetime_seconds policy)) (\<lambda>expires.
       let reset = \<lparr>pr_id = uid, pr_token_hash = token_hash env raw, pr_account_id = acc_id account,
             pr_expires_at = expires, pr_consumed_at = None, pr_revision = 0\<rparr> in
       and_then (map_err AuthRepository (save_password_reset d None reset)) (\<lambda>d'.
         Inr ((raw, reset), d'))))))"

definition bootstrap_admin ::
  "auth_env \<Rightarrow> auth_policy \<Rightarrow> reason_policy \<Rightarrow> identity_db \<Rightarrow> identity_db \<Rightarrow> string \<Rightarrow> string \<Rightarrow> account_id
    \<Rightarrow> string \<Rightarrow> workspace_id \<Rightarrow> auth_error + account_record \<times> identity_db" where
  "bootstrap_admin env policy reasons r d username password uid salt wid =
    and_then (validate_username username) (\<lambda>_.
    and_then (validate_password password) (\<lambda>_.
    and_then (username_free r username) (\<lambda>_.
    and_then (hash_password env (argon2id policy) salt password) (\<lambda>hash.
    let account = \<lparr>acc_id = uid, acc_username = username, acc_password_hash = hash,
          acc_admin = True, acc_auth_revision = 0, acc_revision = 0\<rparr>;
        workspace = workspace_new wid uid ''Personal'' in
    and_then (map_err AuthRepository (create_account_and_workspace reasons d account workspace)) (\<lambda>d'.
      Inr (account, d'))))))"

end
