(* ===== verification/Auth_Runs.thy ===== *)
theory Auth_Runs
  imports Auth
begin

text \<open>
  Interleavings of the service calls of \<open>Auth\<close>. The first part defines one committed call and runs of
  calls whose reads may be stale; the second the invariant of the identity tables and that every
  call keeps it; the third the security properties: password changes and resets revoke sessions,
  invites and reset tokens are used at most once, usernames are unique, an invited user can sign in.
\<close>

section \<open>Runs\<close>

text \<open>One committed service call against the current database \<open>d\<close>; every read sees some state of the
  history \<open>H\<close>. Saving a workspace belongs to the same database and may come in between.\<close>

inductive auth_step ::
  "auth_env \<Rightarrow> auth_policy \<Rightarrow> reason_policy \<Rightarrow> identity_db set \<Rightarrow> identity_db \<Rightarrow> identity_db \<Rightarrow> bool"
  for env policy reasons H d
  where
  step_sign_in: "r \<in> H \<Longrightarrow> sign_in env policy r d u p now tok i = Inr (x, d') \<Longrightarrow>
    auth_step env policy reasons H d d'"
| step_sign_out: "sign_out d s = Inr d' \<Longrightarrow> auth_step env policy reasons H d d'"
| step_create_invite: "r \<in> H \<Longrightarrow> create_invite env policy r d actor u now tok i = Inr (x, d') \<Longrightarrow>
    auth_step env policy reasons H d d'"
| step_accept_invite: "r1 \<in> H \<Longrightarrow> r2 \<in> H \<Longrightarrow>
    accept_invite env policy reasons r1 r2 d raw u p now i salt w = Inr (x, d') \<Longrightarrow>
    auth_step env policy reasons H d d'"
| step_change_password: "r \<in> H \<Longrightarrow> change_password env policy r d i cur new salt = Inr d' \<Longrightarrow>
    auth_step env policy reasons H d d'"
| step_reset_password: "r1 \<in> H \<Longrightarrow> r2 \<in> H \<Longrightarrow>
    reset_password env policy r1 r2 d raw new now salt = Inr d' \<Longrightarrow>
    auth_step env policy reasons H d d'"
| step_create_reset: "r \<in> H \<Longrightarrow>
    create_password_reset env policy r d actor u now tok i = Inr (x, d') \<Longrightarrow>
    auth_step env policy reasons H d d'"
| step_bootstrap: "r \<in> H \<Longrightarrow>
    bootstrap_admin env policy reasons r d u p i salt w = Inr (x, d') \<Longrightarrow>
    auth_step env policy reasons H d d'"
| step_login_attempt: "record_login_attempt d u at limit = Inr (ok, d') \<Longrightarrow>
    auth_step env policy reasons H d d'"
| step_workspace: "save_workspace reasons d e w = Inr d' \<Longrightarrow> auth_step env policy reasons H d d'"

text \<open>A run goes from a history and a current database to a longer history and its last database.\<close>

inductive auth_run ::
  "auth_env \<Rightarrow> auth_policy \<Rightarrow> reason_policy \<Rightarrow> identity_db set \<Rightarrow> identity_db
    \<Rightarrow> identity_db set \<Rightarrow> identity_db \<Rightarrow> bool"
  for env policy reasons H0 d0
  where
  run_start: "auth_run env policy reasons H0 d0 H0 d0"
| run_step: "auth_run env policy reasons H0 d0 H d \<Longrightarrow> auth_step env policy reasons H d d' \<Longrightarrow>
    auth_run env policy reasons H0 d0 (insert d' H) d'"

abbreviation auth_reach ::
  "auth_env \<Rightarrow> auth_policy \<Rightarrow> reason_policy \<Rightarrow> identity_db set \<Rightarrow> identity_db \<Rightarrow> bool" where
  "auth_reach env policy reasons \<equiv>
    auth_run env policy reasons {empty_identity_db} empty_identity_db"

section \<open>The invariant of the identity tables\<close>

definition account_row_ok :: "identity_db \<Rightarrow> account_id \<Rightarrow> u64 \<Rightarrow> account_record \<Rightarrow> bool" where
  "account_row_ok d i r a \<longleftrightarrow>
    acc_id a = i \<and> acc_revision a = r \<and> fits_i64 r \<and> acc_auth_revision a \<le> r
    \<and> map_of (db_usernames d) (acc_username a) = Some i"

definition session_row_ok :: "identity_db \<Rightarrow> session_record \<Rightarrow> bool" where
  "session_row_ok d s \<longleftrightarrow>
    (\<exists>r a. map_of (db_accounts d) (ses_account_id s) = Some (r, a)
      \<and> ses_account_auth_revision s \<le> acc_auth_revision a)"

definition token_row_ok :: "string \<Rightarrow> string \<Rightarrow> u64 \<Rightarrow> u64 \<Rightarrow> instant option \<Rightarrow> bool" where
  "token_row_ok h h' r r' consumed \<longleftrightarrow>
    h' = h \<and> r' = r \<and> (consumed = None \<longleftrightarrow> r = 0) \<and> (r = 0 \<or> r = 1)"

definition identity_inv :: "identity_db \<Rightarrow> bool" where
  "identity_inv d \<longleftrightarrow>
    (\<forall>i r a. map_of (db_accounts d) i = Some (r, a) \<longrightarrow> account_row_ok d i r a)
    \<and> (\<forall>u i. map_of (db_usernames d) u = Some i \<longrightarrow>
        (\<exists>r a. map_of (db_accounts d) i = Some (r, a) \<and> acc_username a = u))
    \<and> (\<forall>h r s. map_of (db_sessions d) h = Some (r, s) \<longrightarrow> session_row_ok d s)
    \<and> (\<forall>h r v. map_of (db_invites d) h = Some (r, v) \<longrightarrow>
        token_row_ok h (inv_token_hash v) r (inv_revision v) (inv_consumed_at v))
    \<and> (\<forall>h r v. map_of (db_resets d) h = Some (r, v) \<longrightarrow>
        token_row_ok h (pr_token_hash v) r (pr_revision v) (pr_consumed_at v))"

text \<open>What a later state keeps of an earlier one.\<close>

definition grows :: "('k, 'v) table \<Rightarrow> ('k, 'v) table \<Rightarrow> bool" where
  "grows t t' \<longleftrightarrow>
    (\<forall>k r v. map_of t k = Some (r, v) \<longrightarrow>
      (\<exists>r' v'. map_of t' k = Some (r', v') \<and> r \<le> r' \<and> (r' = r \<longrightarrow> v' = v)))"

definition later :: "identity_db \<Rightarrow> identity_db \<Rightarrow> bool" where
  "later d d' \<longleftrightarrow>
    (\<forall>i r a. map_of (db_accounts d) i = Some (r, a) \<longrightarrow>
      (\<exists>r' a'. map_of (db_accounts d') i = Some (r', a') \<and> r \<le> r' \<and> (r' = r \<longrightarrow> a' = a)
        \<and> acc_auth_revision a \<le> acc_auth_revision a'))
    \<and> grows (db_invites d) (db_invites d') \<and> grows (db_resets d) (db_resets d')
    \<and> map_of (db_usernames d) \<subseteq>\<^sub>m map_of (db_usernames d')"

lemma later_refl [simp]: "later d d"
  by (auto simp: later_def grows_def)

lemma grows_trans: "grows a b \<Longrightarrow> grows b c \<Longrightarrow> grows a c"
  unfolding grows_def
proof (intro allI impI, goal_cases)
  case (1 k r v)
  then obtain r1 v1 where one: "map_of b k = Some (r1, v1)" "r \<le> r1" "r1 = r \<longrightarrow> v1 = v" by blast
  with 1(2) obtain r2 v2 where "map_of c k = Some (r2, v2)" "r1 \<le> r2" "r2 = r1 \<longrightarrow> v2 = v1" by blast
  with one show ?case by (intro exI [of _ r2] exI [of _ v2]) auto
qed

lemma identity_inv_account:
  "identity_inv d \<Longrightarrow> map_of (db_accounts d) i = Some (r, a) \<Longrightarrow> account_row_ok d i r a"
  by (simp add: identity_inv_def)

lemma identity_inv_username:
  assumes "identity_inv d" and "map_of (db_usernames d) u = Some i"
  obtains r a where "map_of (db_accounts d) i = Some (r, a)" "acc_username a = u"
  using assms unfolding identity_inv_def by blast

lemma later_account:
  assumes "later d d'" and "map_of (db_accounts d) i = Some (r, a)"
  obtains r' a' where "map_of (db_accounts d') i = Some (r', a')" "r \<le> r'" "r' = r \<longrightarrow> a' = a"
    "acc_auth_revision a \<le> acc_auth_revision a'"
  using assms unfolding later_def by blast

lemma later_accountI:
  assumes "\<And>i r a. map_of (db_accounts d) i = Some (r, a) \<Longrightarrow>
      \<exists>r' a'. map_of (db_accounts d') i = Some (r', a') \<and> r \<le> r' \<and> (r' = r \<longrightarrow> a' = a)
        \<and> acc_auth_revision a \<le> acc_auth_revision a'"
    and "grows (db_invites d) (db_invites d')" and "grows (db_resets d) (db_resets d')"
    and "map_of (db_usernames d) \<subseteq>\<^sub>m map_of (db_usernames d')"
  shows "later d d'"
  using assms unfolding later_def by blast

lemma later_trans:
  assumes "later a b" and "later b c"
  shows "later a c"
proof (rule later_accountI)
  fix i r x
  assume "map_of (db_accounts a) i = Some (r, x)"
  with assms(1) obtain r1 x1 where one: "map_of (db_accounts b) i = Some (r1, x1)" "r \<le> r1"
    "r1 = r \<longrightarrow> x1 = x" "acc_auth_revision x \<le> acc_auth_revision x1" by (rule later_account)
  from assms(2) this(1) obtain r2 x2 where "map_of (db_accounts c) i = Some (r2, x2)" "r1 \<le> r2"
    "r2 = r1 \<longrightarrow> x2 = x1" "acc_auth_revision x1 \<le> acc_auth_revision x2" by (rule later_account)
  with one show "\<exists>r' x'. map_of (db_accounts c) i = Some (r', x') \<and> r \<le> r' \<and> (r' = r \<longrightarrow> x' = x)
      \<and> acc_auth_revision x \<le> acc_auth_revision x'"
    by (intro exI [of _ r2] exI [of _ x2]) auto
qed (use assms grows_trans in \<open>auto simp: later_def intro: map_le_trans\<close>)

lemma grows_refl [simp]: "grows t t"
  by (auto simp: grows_def)

lemma grows_put_new: "map_of t k = None \<Longrightarrow> grows t (put k (r, v) t)"
  by (auto simp: grows_def)

lemma grows_put_up: "map_of t k = Some (r, v) \<Longrightarrow> r < r' \<Longrightarrow> grows t (put k (r', v') t)"
  by (auto simp: grows_def)

lemma session_row_later: "session_row_ok d s \<Longrightarrow> later d d' \<Longrightarrow> session_row_ok d' s"
  unfolding session_row_ok_def by (elim exE conjE, erule (1) later_account) auto

section \<open>Effects\<close>

lemma identity_inv_other:
  assumes "identity_inv d" and "db_accounts d' = db_accounts d" and "db_usernames d' = db_usernames d"
    and "db_sessions d' = db_sessions d" and "db_invites d' = db_invites d"
    and "db_resets d' = db_resets d"
  shows "identity_inv d' \<and> later d d'"
  using assms unfolding identity_inv_def account_row_ok_def session_row_ok_def later_def by auto

lemma identity_inv_session:
  assumes "identity_inv d" and "session_row_ok d s"
  shows "identity_inv (d\<lparr>db_sessions := put h (r, s) (db_sessions d)\<rparr>)
    \<and> later d (d\<lparr>db_sessions := put h (r, s) (db_sessions d)\<rparr>)"
  using assms unfolding identity_inv_def account_row_ok_def session_row_ok_def later_def by auto

lemma identity_inv_session_del:
  assumes "identity_inv d"
  shows "identity_inv (d\<lparr>db_sessions := del h (db_sessions d)\<rparr>)
    \<and> later d (d\<lparr>db_sessions := del h (db_sessions d)\<rparr>)"
  using assms unfolding identity_inv_def account_row_ok_def session_row_ok_def later_def by auto

lemma identity_inv_invite:
  assumes "identity_inv d" and "token_row_ok h (inv_token_hash v) r (inv_revision v) (inv_consumed_at v)"
    and "grows (db_invites d) (put h (r, v) (db_invites d))"
  shows "identity_inv (d\<lparr>db_invites := put h (r, v) (db_invites d)\<rparr>)
    \<and> later d (d\<lparr>db_invites := put h (r, v) (db_invites d)\<rparr>)"
  using assms unfolding identity_inv_def account_row_ok_def session_row_ok_def later_def by auto

lemma identity_inv_reset:
  assumes "identity_inv d" and "token_row_ok h (pr_token_hash v) r (pr_revision v) (pr_consumed_at v)"
    and "grows (db_resets d) (put h (r, v) (db_resets d))"
  shows "identity_inv (d\<lparr>db_resets := put h (r, v) (db_resets d)\<rparr>)
    \<and> later d (d\<lparr>db_resets := put h (r, v) (db_resets d)\<rparr>)"
  using assms unfolding identity_inv_def account_row_ok_def session_row_ok_def later_def by auto

lemma identity_inv_new_account:
  assumes inv: "identity_inv d" and "map_of (db_accounts d) (acc_id a) = None"
    and "map_of (db_usernames d) (acc_username a) = None"
    and "acc_revision a = 0" and "acc_auth_revision a = 0"
  defines "d' \<equiv> d\<lparr>db_usernames := put (acc_username a) (acc_id a) (db_usernames d),
      db_accounts := put (acc_id a) (0, a) (db_accounts d)\<rparr>"
  shows "identity_inv d' \<and> later d d'"
proof -
  have later: "later d d'"
    using assms by (intro later_accountI) (auto simp: d'_def map_le_def)
  have "account_row_ok d' i r x" if "map_of (db_accounts d') i = Some (r, x)" for i r x
  proof (cases "i = acc_id a")
    case False
    with that have "map_of (db_accounts d) i = Some (r, x)" by (simp add: d'_def)
    from identity_inv_account [OF inv this] assms(3) show ?thesis
      by (auto simp: d'_def account_row_ok_def)
  qed (use that assms(4,5) in \<open>auto simp: d'_def account_row_ok_def fits_i64_def\<close>)
  moreover have "\<exists>r x. map_of (db_accounts d') i = Some (r, x) \<and> acc_username x = u"
    if "map_of (db_usernames d') u = Some i" for u i
  proof (cases "u = acc_username a")
    case False
    with that have "map_of (db_usernames d) u = Some i" by (simp add: d'_def)
    with inv obtain r x where "map_of (db_accounts d) i = Some (r, x)" "acc_username x = u"
      by (rule identity_inv_username)
    with assms(2) show ?thesis by (auto simp: d'_def)
  qed (use that in \<open>auto simp: d'_def\<close>)
  moreover have "session_row_ok d' s" if "map_of (db_sessions d') h = Some (r, s)" for h r s
    using that inv session_row_later [OF _ later] by (auto simp: d'_def identity_inv_def)
  ultimately have "identity_inv d'"
    using inv unfolding identity_inv_def by (auto simp: d'_def)
  with later show ?thesis by blast
qed

lemma identity_inv_bump:
  fixes hash :: string
  assumes inv: "identity_inv d" and row: "map_of (db_accounts d) i = Some (r, a)" and "fits_i64 (r + 1)"
  defines "d' \<equiv> d\<lparr>db_accounts := put i (r + 1, bump_password a hash) (db_accounts d)\<rparr>"
  shows "identity_inv d' \<and> later d d'"
proof -
  have a: "account_row_ok d i r a" using inv row by (simp add: identity_inv_def)
  then have fits: "fits_i64 r" and le: "acc_auth_revision a \<le> r" by (simp_all add: account_row_ok_def)
  have fits_auth: "fits_i64 (acc_auth_revision a)"
    using fits le by (auto simp: fits_i64_def word_le_nat_alt)
  have up: "r < r + 1" "acc_auth_revision a \<le> acc_auth_revision a + 1"
    using fits_i64_less_succ [OF fits] fits_i64_less_succ [OF fits_auth] by simp_all
  have bound: "acc_auth_revision a + 1 \<le> r + 1"
    using le by (simp add: word_le_nat_alt fits_i64_unat_succ fits fits_auth)
  have later: "later d d'"
    using row up by (intro later_accountI) (auto simp: d'_def bump_password_def)
  have "account_row_ok d' j s x" if "map_of (db_accounts d') j = Some (s, x)" for j s x
    using that a bound assms(3) inv
    by (auto simp: d'_def identity_inv_def account_row_ok_def bump_password_def split: if_splits)
  moreover have "\<exists>s x. map_of (db_accounts d') j = Some (s, x) \<and> acc_username x = u"
    if "map_of (db_usernames d') u = Some j" for u j
  proof -
    from that have "map_of (db_usernames d) u = Some j" by (simp add: d'_def)
    with inv obtain s x where "map_of (db_accounts d) j = Some (s, x)" "acc_username x = u"
      by (rule identity_inv_username)
    with row show ?thesis by (cases "j = i") (auto simp: d'_def bump_password_def)
  qed
  moreover have "session_row_ok d' s" if "map_of (db_sessions d') h = Some (t, s)" for h t s
    using that inv session_row_later [OF _ later] by (auto simp: d'_def identity_inv_def)
  ultimately have "identity_inv d'"
    using inv unfolding identity_inv_def by (auto simp: d'_def)
  with later show ?thesis by blast
qed

section \<open>Steps keep the invariant\<close>

definition known :: "identity_db set \<Rightarrow> identity_db \<Rightarrow> bool" where
  "known H d \<longleftrightarrow> identity_inv d \<and> (\<forall>r \<in> H. identity_inv r \<and> later r d)"

lemma known_account:
  assumes "known H d" and "r \<in> H" and "map_of (db_accounts r) i = Some (v, a)"
  shows "acc_id a = i" "acc_revision a = v"
    and "\<exists>v' a'. map_of (db_accounts d) i = Some (v', a') \<and> v \<le> v' \<and> (v' = v \<longrightarrow> a' = a)
      \<and> acc_auth_revision a \<le> acc_auth_revision a'"
proof -
  from assms(1,2) have "identity_inv r" and later: "later r d" by (auto simp: known_def)
  from identity_inv_account [OF this(1) assms(3)] show "acc_id a = i" "acc_revision a = v"
    by (simp_all add: account_row_ok_def)
  show "\<exists>v' a'. map_of (db_accounts d) i = Some (v', a') \<and> v \<le> v' \<and> (v' = v \<longrightarrow> a' = a)
      \<and> acc_auth_revision a \<le> acc_auth_revision a'"
    using later_account [OF later assms(3)] by metis
qed

lemma known_bump:
  assumes known: "known H d" and "r \<in> H" and acc: "repo_account r i = Inr a"
    and save: "cas_account (d\<lparr>db_resets := t\<rparr>) (Some (acc_revision a)) (bump_password a hash) = Inr d'"
  shows "map_of (db_accounts d) i = Some (acc_revision a, a) \<and> acc_id a = i
    \<and> fits_i64 (acc_revision a + 1)
    \<and> d' = d\<lparr>db_resets := t,
        db_accounts := put i (acc_revision a + 1, bump_password a hash) (db_accounts d)\<rparr>"
proof -
  from acc obtain v where row: "map_of (db_accounts r) i = Some (v, a)"
    by (auto simp: repo_account_def)
  note k = known_account [OF known assms(2) row]
  with save show ?thesis
    by (auto simp: cas_account_def bump_password_def)
qed

lemma accept_invite_effect:
  assumes "accept_invite env policy reasons r1 r2 d raw u p now i salt w = Inr (a, d')"
  obtains invite r ws where "map_of (db_invites r1) (token_hash env raw) = Some (r, invite)"
    "inv_consumed_at invite = None" "inv_username invite = u" "acc_username a = u" "acc_id a = i"
    "acc_revision a = 0" "acc_auth_revision a = 0"
    "map_of (db_accounts d) i = None" "map_of (db_usernames d) u = None"
    "fits_i64 (inv_revision invite)" "fits_i64 (inv_revision invite + 1)"
    "\<exists>old. map_of (db_invites d) (inv_token_hash invite) = Some (inv_revision invite, old)"
    "d' = d\<lparr>db_invites := put (inv_token_hash invite) (inv_revision invite + 1,
            invite\<lparr>inv_consumed_at := Some now, inv_revision := inv_revision invite + 1\<rparr>) (db_invites d),
          db_usernames := put u i (db_usernames d),
          db_accounts := put i (0, a) (db_accounts d),
          db_workspaces := ws\<rparr>"
  using assms
  by (auto simp: accept_invite_def consume_invite_create_account_and_workspace_def Let_def
      invite_by_token_hash_def save_invite_def reserve_username_def cas_account_def cas_workspace_def
      is_some_def simp del: split_paired_All split_paired_Ex split: if_splits option.splits)

lemma reset_password_effect:
  assumes "reset_password env policy r1 r2 d raw new now salt = Inr d'"
  obtains reset r a hash where
    "map_of (db_resets r1) (token_hash env raw) = Some (r, reset)" "pr_consumed_at reset = None"
    "repo_account r2 (pr_account_id reset) = Inr a"
    "fits_i64 (pr_revision reset)" "fits_i64 (pr_revision reset + 1)"
    "\<exists>old. map_of (db_resets d) (pr_token_hash reset) = Some (pr_revision reset, old)"
    "cas_account (d\<lparr>db_resets := put (pr_token_hash reset) (pr_revision reset + 1,
        reset\<lparr>pr_consumed_at := Some now, pr_revision := pr_revision reset + 1\<rparr>) (db_resets d)\<rparr>)
      (Some (acc_revision a)) (bump_password a hash) = Inr d'"
  using assms
  by (auto simp: reset_password_def consume_reset_and_update_account_def save_password_reset_def
      password_reset_by_token_hash_def is_some_def split: if_splits option.splits)

lemma known_token:
  assumes "known H d" and "r \<in> H"
  shows "map_of (db_invites r) h = Some (v, x) \<Longrightarrow> inv_consumed_at x = None \<Longrightarrow>
      v = 0 \<and> inv_revision x = 0 \<and> inv_token_hash x = h"
    and "map_of (db_resets r) h = Some (v, y) \<Longrightarrow> pr_consumed_at y = None \<Longrightarrow>
      v = 0 \<and> pr_revision y = 0 \<and> pr_token_hash y = h"
proof -
  from assms have inv: "identity_inv r" by (simp add: known_def)
  show "map_of (db_invites r) h = Some (v, x) \<Longrightarrow> inv_consumed_at x = None \<Longrightarrow>
      v = 0 \<and> inv_revision x = 0 \<and> inv_token_hash x = h"
    using inv by (auto simp: identity_inv_def token_row_ok_def)
  show "map_of (db_resets r) h = Some (v, y) \<Longrightarrow> pr_consumed_at y = None \<Longrightarrow>
      v = 0 \<and> pr_revision y = 0 \<and> pr_token_hash y = h"
    using inv by (auto simp: identity_inv_def token_row_ok_def)
qed

lemma zero_less_one_u64 [simp]: "(0 :: u64) < 1"
  by simp

lemma accept_invite_keeps:
  assumes "known H d" and "r1 \<in> H"
    and "accept_invite env policy reasons r1 r2 d raw u p now i salt w = Inr (a, d')"
  shows "identity_inv d' \<and> later d d'"
proof -
  from assms(3) obtain x r ws where x: "map_of (db_invites r1) (token_hash env raw) = Some (r, x)"
      "inv_consumed_at x = None" "acc_username a = u" "acc_id a = i"
      "acc_revision a = 0" "acc_auth_revision a = 0"
      "map_of (db_accounts d) i = None" "map_of (db_usernames d) u = None"
      "\<exists>old. map_of (db_invites d) (inv_token_hash x) = Some (inv_revision x, old)"
      "d' = d\<lparr>db_invites := put (inv_token_hash x) (inv_revision x + 1,
            x\<lparr>inv_consumed_at := Some now, inv_revision := inv_revision x + 1\<rparr>) (db_invites d),
          db_usernames := put u i (db_usernames d), db_accounts := put i (0, a) (db_accounts d),
          db_workspaces := ws\<rparr>"
    by (rule accept_invite_effect)
  note tok = known_token(1) [OF assms(1,2) x(1,2)]
  let ?x = "x\<lparr>inv_consumed_at := Some now, inv_revision := inv_revision x + 1\<rparr>"
  let ?d1 = "d\<lparr>db_invites := put (inv_token_hash x) (1, ?x) (db_invites d)\<rparr>"
  let ?d2 = "?d1\<lparr>db_usernames := put u i (db_usernames d), db_accounts := put i (0, a) (db_accounts d)\<rparr>"
  have one: "identity_inv ?d1 \<and> later d ?d1"
    using assms(1) tok x(9)
    by (intro identity_inv_invite) (auto simp: known_def token_row_ok_def intro!: grows_put_up)
  have "identity_inv ?d2 \<and> later ?d1 ?d2"
    using identity_inv_new_account [of ?d1 a] one x(3-8) by simp
  moreover from this have "identity_inv d' \<and> later ?d2 d'"
    by (intro identity_inv_other) (use x(10) tok in auto)
  ultimately show ?thesis using one by (meson later_trans)
qed

lemma reset_password_keeps:
  assumes "known H d" and "r1 \<in> H" and "r2 \<in> H"
    and "reset_password env policy r1 r2 d raw new now salt = Inr d'"
  shows "identity_inv d' \<and> later d d'"
proof -
  from assms(4) obtain x r a hash where
    x: "map_of (db_resets r1) (token_hash env raw) = Some (r, x)" "pr_consumed_at x = None"
    "repo_account r2 (pr_account_id x) = Inr a"
    "\<exists>old. map_of (db_resets d) (pr_token_hash x) = Some (pr_revision x, old)"
    "cas_account (d\<lparr>db_resets := put (pr_token_hash x) (pr_revision x + 1,
        x\<lparr>pr_consumed_at := Some now, pr_revision := pr_revision x + 1\<rparr>) (db_resets d)\<rparr>)
      (Some (acc_revision a)) (bump_password a hash) = Inr d'"
    by (rule reset_password_effect)
  note tok = known_token(2) [OF assms(1,2) x(1,2)]
  note bump = known_bump [OF assms(1,3) x(3,5)]
  let ?x = "x\<lparr>pr_consumed_at := Some now, pr_revision := pr_revision x + 1\<rparr>"
  let ?d1 = "d\<lparr>db_resets := put (pr_token_hash x) (1, ?x) (db_resets d)\<rparr>"
  have one: "identity_inv ?d1 \<and> later d ?d1"
    using assms(1) tok x(4)
    by (intro identity_inv_reset) (auto simp: known_def token_row_ok_def intro!: grows_put_up)
  with identity_inv_bump [of ?d1 "pr_account_id x" "acc_revision a" a hash] bump tok
  have "identity_inv d' \<and> later ?d1 d'" by simp
  with one show ?thesis by (meson later_trans)
qed

lemma change_password_effect:
  assumes "known H d" and "r \<in> H" and "change_password env policy r d i cur new salt = Inr d'"
  obtains a hash where "map_of (db_accounts d) i = Some (acc_revision a, a)" "acc_id a = i"
    "fits_i64 (acc_revision a + 1)"
    "d' = d\<lparr>db_accounts := put i (acc_revision a + 1, bump_password a hash) (db_accounts d)\<rparr>"
proof -
  from assms(3) obtain a hash where a: "repo_account r i = Inr a"
    and "cas_account d (Some (acc_revision a)) (bump_password a hash) = Inr d'"
    by (auto simp: change_password_def save_account_def)
  then have "cas_account (d\<lparr>db_resets := db_resets d\<rparr>) (Some (acc_revision a)) (bump_password a hash)
      = Inr d'" by simp
  from known_bump [OF assms(1,2) a this] that show ?thesis by simp
qed

lemma bootstrap_effect:
  assumes "bootstrap_admin env policy reasons r d u p i salt w = Inr (a, d')"
  obtains ws where "acc_username a = u" "acc_id a = i" "acc_revision a = 0" "acc_auth_revision a = 0"
    "map_of (db_accounts d) i = None" "map_of (db_usernames d) u = None"
    "d' = d\<lparr>db_usernames := put u i (db_usernames d), db_accounts := put i (0, a) (db_accounts d),
          db_workspaces := ws\<rparr>"
  using assms
  by (auto simp: bootstrap_admin_def create_account_and_workspace_def Let_def
      reserve_username_def cas_account_def cas_workspace_def
      simp del: split_paired_All split_paired_Ex split: if_splits option.splits)

lemma bootstrap_keeps:
  assumes "identity_inv d" and "bootstrap_admin env policy reasons r d u p i salt w = Inr (a, d')"
  shows "identity_inv d' \<and> later d d'"
proof -
  from assms(2) obtain ws where x: "acc_username a = u" "acc_id a = i" "acc_revision a = 0"
      "acc_auth_revision a = 0" "map_of (db_accounts d) i = None" "map_of (db_usernames d) u = None"
      "d' = d\<lparr>db_usernames := put u i (db_usernames d), db_accounts := put i (0, a) (db_accounts d),
          db_workspaces := ws\<rparr>"
    by (rule bootstrap_effect)
  let ?d1 = "d\<lparr>db_usernames := put u i (db_usernames d), db_accounts := put i (0, a) (db_accounts d)\<rparr>"
  have "identity_inv ?d1 \<and> later d ?d1" using identity_inv_new_account [of d a] assms(1) x by simp
  moreover from this have "identity_inv d' \<and> later ?d1 d'"
    by (intro identity_inv_other) (use x(7) in auto)
  ultimately show ?thesis by (meson later_trans)
qed

lemma sign_in_keeps:
  assumes "known H d" and "r \<in> H" and "sign_in env policy r d u p now tok i = Inr (x, d')"
  shows "identity_inv d' \<and> later d d'"
proof -
  let ?s = "snd x"
  from assms(3) obtain a k where s: "repo_account r k = Inr a" "ses_account_id ?s = acc_id a"
    "ses_account_auth_revision ?s = acc_auth_revision a"
    "d' = d\<lparr>db_sessions := put (ses_verifier_hash ?s) (0, ?s) (db_sessions d)\<rparr>"
    by (auto simp: sign_in_def Let_def account_by_username_def save_session_def)
  then obtain v where "map_of (db_accounts r) k = Some (v, a)" by (auto simp: repo_account_def)
  from known_account [OF assms(1,2) this] s(2,3) have "session_row_ok d ?s"
    by (auto simp: session_row_ok_def)
  with s(4) assms(1) show ?thesis by (simp add: identity_inv_session known_def)
qed

lemma auth_step_keeps:
  assumes "auth_step env policy reasons H d d'" and "known H d"
  shows "identity_inv d' \<and> later d d'"
  using assms(1)
proof cases
  case (step_sign_out s)
  then show ?thesis using assms(2) identity_inv_session_del [of d]
    by (auto simp: sign_out_def delete_session_def known_def split: option.splits if_splits)
next
  case (step_create_invite r actor u now tok i x)
  let ?v = "snd x"
  from step_create_invite have "map_of (db_invites d) (inv_token_hash ?v) = None"
    and "inv_consumed_at ?v = None" and "inv_revision ?v = 0"
    and "d' = d\<lparr>db_invites := put (inv_token_hash ?v) (0, ?v) (db_invites d)\<rparr>"
    by (auto simp: create_invite_def save_invite_def Let_def split: if_splits)
  with identity_inv_invite [of d "inv_token_hash ?v" ?v 0] assms(2) show ?thesis
    by (simp add: known_def token_row_ok_def grows_put_new)
next
  case (step_create_reset r actor u now tok i x)
  let ?v = "snd x"
  from step_create_reset have "map_of (db_resets d) (pr_token_hash ?v) = None"
    and "pr_consumed_at ?v = None" and "pr_revision ?v = 0"
    and "d' = d\<lparr>db_resets := put (pr_token_hash ?v) (0, ?v) (db_resets d)\<rparr>"
    by (auto simp: create_password_reset_def save_password_reset_def Let_def split: if_splits)
  with identity_inv_reset [of d "pr_token_hash ?v" ?v 0] assms(2) show ?thesis
    by (simp add: known_def token_row_ok_def grows_put_new)
next
  case (step_change_password r i cur new salt)
  from change_password_effect [OF assms(2) this] assms(2) identity_inv_bump
  show ?thesis unfolding known_def by metis
next
  case (step_login_attempt u at limit ok)
  then show ?thesis using assms(2)
    by (intro identity_inv_other)
      (auto simp: record_login_attempt_def Let_def known_def split: if_splits)
next
  case (step_workspace e w)
  then show ?thesis using assms(2)
    by (intro identity_inv_other) (auto simp: save_workspace_def known_def)
next
  case (step_sign_in r u p now tok i x)
  then show ?thesis by (rule sign_in_keeps [OF assms(2)])
next
  case (step_accept_invite r1 r2 raw u p now i salt w x)
  then show ?thesis by (intro accept_invite_keeps [OF assms(2)])
next
  case (step_reset_password r1 r2 raw new now salt)
  then show ?thesis by (intro reset_password_keeps [OF assms(2)])
next
  case (step_bootstrap r u p i salt w x)
  then show ?thesis using assms(2) by (intro bootstrap_keeps) (simp_all add: known_def)
qed

lemma known_start: "known {empty_identity_db} empty_identity_db"
  by (simp add: known_def identity_inv_def empty_identity_db_def)

lemma auth_run_known:
  assumes "auth_run env policy reasons H0 d0 H d" and "known H0 d0"
  shows "known H d"
  using assms(1)
proof induction
  case run_start
  then show ?case using assms(2) .
next
  case (run_step H d d')
  from auth_step_keeps [OF this(2,3)] run_step.IH later_trans show ?case
    unfolding known_def by (metis insert_iff later_refl)
qed

lemma auth_run_mono:
  "auth_run env policy reasons H0 d0 H d \<Longrightarrow> d0 \<in> H0 \<Longrightarrow> H0 \<subseteq> H \<and> d \<in> H"
  by (induction rule: auth_run.induct) auto

lemma auth_reach_known: "auth_reach env policy reasons H d \<Longrightarrow> known H d \<and> d \<in> H"
  using auth_run_known [OF _ known_start] auth_run_mono by (metis insertI1)

section \<open>Properties\<close>

lemma bumped_session_new:
  assumes known: "known H d" and row: "map_of (db_accounts d) i = Some (r, a)"
    and after: "map_of (db_accounts d') i = Some (r', bump_password a hash)"
    and "later d' d2" and auth: "authenticate env r1 d2 raw now = Inr (s, b)" and "ses_account_id s = i"
    and "r0 \<in> H"
  shows "session_by_verifier_hash r0 h \<noteq> Inr s"
proof
  assume "session_by_verifier_hash r0 h = Inr s"
  then obtain v where ses: "map_of (db_sessions r0) h = Some (v, s)"
    by (auto simp: session_by_verifier_hash_def)
  from known assms(7) have r0: "identity_inv r0" "later r0 d" by (auto simp: known_def)
  with ses have "session_row_ok r0 s" by (auto simp: identity_inv_def)
  from session_row_later [OF this r0(2)] row assms(6)
  have le: "ses_account_auth_revision s \<le> acc_auth_revision a" by (auto simp: session_row_ok_def)
  from known row have "account_row_ok d i r a" by (auto simp: known_def identity_inv_account)
  then have "fits_i64 (acc_auth_revision a)"
    by (auto simp: account_row_ok_def fits_i64_def word_le_nat_alt)
  note less = fits_i64_less_succ [OF this]
  from later_account [OF assms(4) after] obtain r2 a2
    where a2: "map_of (db_accounts d2) i = Some (r2, a2)"
      "acc_auth_revision (bump_password a hash) \<le> acc_auth_revision a2"
    by blast
  then have "acc_auth_revision a + 1 \<le> acc_auth_revision a2" by (simp add: bump_password_def)
  from auth assms(6) a2(1) have "ses_account_auth_revision s = acc_auth_revision a2"
    by (auto simp: authenticate_def repo_account_def split: if_splits)
  with \<open>acc_auth_revision a + 1 \<le> acc_auth_revision a2\<close> le less show False by simp
qed

lemma run_later:
  assumes "auth_reach env policy reasons H d" and "auth_step env policy reasons H d d'"
    and "auth_run env policy reasons (insert d' H) d' H2 d2"
  shows "later d' d2" and "known H2 d2"
proof -
  from auth_run.run_step [OF assms(1,2)] have "known (insert d' H) d'"
    using auth_reach_known by blast
  from auth_run_known [OF assms(3) this] show "known H2 d2" .
  with auth_run_mono [OF assms(3)] show "later d' d2" by (auto simp: known_def)
qed

text \<open>C1. A password change revokes every session that existed before it: whatever calls follow, in
  any interleaving and with stale reads, a session that a later state accepts for the account is
  none of the sessions that any earlier state of the history stored.\<close>

theorem password_change_revokes_sessions:
  assumes "auth_reach env policy reasons H d" and "r \<in> H"
    and "change_password env policy r d i cur new salt = Inr d'"
    and "auth_run env policy reasons (insert d' H) d' H2 d2"
    and "authenticate env r1 d2 raw now = Inr (s, a)" and "ses_account_id s = i" and "r0 \<in> H"
  shows "session_by_verifier_hash r0 h \<noteq> Inr s"
proof -
  have known: "known H d" using auth_reach_known [OF assms(1)] by simp
  from known assms(2,3) obtain a hash where row: "map_of (db_accounts d) i = Some (acc_revision a, a)"
    and d': "d' = d\<lparr>db_accounts := put i (acc_revision a + 1, bump_password a hash) (db_accounts d)\<rparr>"
    by (rule change_password_effect)
  then have "map_of (db_accounts d') i = Some (acc_revision a + 1, bump_password a hash)" by simp
  from bumped_session_new [OF known row this run_later(1) [OF assms(1) _ assms(4)] assms(5,6,7)]
    auth_step.step_change_password [OF assms(2,3)] show ?thesis by blast
qed

text \<open>So does a password reset.\<close>

theorem password_reset_revokes_sessions:
  assumes "auth_reach env policy reasons H d" and "ra \<in> H" and "rb \<in> H"
    and "reset_password env policy ra rb d raw new now salt = Inr d'"
    and "password_reset_by_token_hash ra (token_hash env raw) = Inr reset"
    and "auth_run env policy reasons (insert d' H) d' H2 d2"
    and "authenticate env r1 d2 raw' now' = Inr (s, a)" and "ses_account_id s = pr_account_id reset"
    and "r0 \<in> H"
  shows "session_by_verifier_hash r0 h \<noteq> Inr s"
proof -
  have known: "known H d" using auth_reach_known [OF assms(1)] by simp
  from assms(4,5) obtain a hash t where acc: "repo_account rb (pr_account_id reset) = Inr a"
    and cas: "cas_account (d\<lparr>db_resets := t\<rparr>) (Some (acc_revision a)) (bump_password a hash) = Inr d'"
    by (elim reset_password_effect) (auto simp: password_reset_by_token_hash_def)
  note bump = known_bump [OF known assms(3) acc cas]
  then have "map_of (db_accounts d') (pr_account_id reset) = Some (acc_revision a + 1, bump_password a hash)"
    by simp
  from bumped_session_new [OF known _ this run_later(1) [OF assms(1) _ assms(6)] assms(7,8,9)] bump
    auth_step.step_reset_password [OF assms(2,3,4)] show ?thesis by blast
qed

text \<open>C2. An invite is accepted at most once: after one call has accepted it, no later call with the
  same token succeeds, even one that read the invite before it was consumed.\<close>

theorem invite_single_use:
  assumes "auth_reach env policy reasons H d" and "ra \<in> H" and "rb \<in> H"
    and "accept_invite env policy reasons ra rb d raw u p now i salt w = Inr (a, d')"
    and "auth_run env policy reasons (insert d' H) d' H2 d2" and "r1 \<in> H2" and "r2 \<in> H2"
  shows "\<not> is_ok (accept_invite env policy reasons r1 r2 d2 raw u' p' now' i' salt' w')"
proof
  assume "is_ok (accept_invite env policy reasons r1 r2 d2 raw u' p' now' i' salt' w')"
  then obtain a2 d3 where again: "accept_invite env policy reasons r1 r2 d2 raw u' p' now' i' salt' w' = Inr (a2, d3)"
    by (auto simp: is_ok_iff)
  have known: "known H d" using auth_reach_known [OF assms(1)] by simp
  have later: "later d' d2" "known H2 d2"
    using run_later [OF assms(1) _ assms(5)] auth_step.step_accept_invite [OF assms(2,3,4)] by blast+
  have "\<exists>v. map_of (db_invites d') (token_hash env raw) = Some (1, v)"
    using assms(4) by (rule accept_invite_effect) (auto dest!: known_token(1) [OF known assms(2)])
  with later(1) obtain r v where one: "map_of (db_invites d2) (token_hash env raw) = Some (r, v)" "1 \<le> r"
    unfolding later_def grows_def by metis
  from again have "\<exists>old. map_of (db_invites d2) (token_hash env raw) = Some (0, old)"
    by (rule accept_invite_effect) (auto dest!: known_token(1) [OF later(2) assms(6)])
  with one show False by simp
qed

text \<open>A reset token sets a password at most once, under any interleaving.\<close>

theorem reset_single_use:
  assumes "auth_reach env policy reasons H d" and "ra \<in> H" and "rb \<in> H"
    and "reset_password env policy ra rb d raw new now salt = Inr d'"
    and "auth_run env policy reasons (insert d' H) d' H2 d2" and "r1 \<in> H2" and "r2 \<in> H2"
  shows "\<not> is_ok (reset_password env policy r1 r2 d2 raw new' now' salt')"
proof
  assume "is_ok (reset_password env policy r1 r2 d2 raw new' now' salt')"
  then obtain d3 where again: "reset_password env policy r1 r2 d2 raw new' now' salt' = Inr d3"
    by (auto simp: is_ok_iff)
  have known: "known H d" using auth_reach_known [OF assms(1)] by simp
  have later: "later d' d2" "known H2 d2"
    using run_later [OF assms(1) _ assms(5)] auth_step.step_reset_password [OF assms(2,3,4)] by blast+
  have "\<exists>v. map_of (db_resets d') (token_hash env raw) = Some (1, v)"
    using assms(4) by (rule reset_password_effect)
      (auto simp: cas_account_def dest!: known_token(2) [OF known assms(2)])
  with later(1) obtain r v where one: "map_of (db_resets d2) (token_hash env raw) = Some (r, v)" "1 \<le> r"
    unfolding later_def grows_def by metis
  from again have "\<exists>old. map_of (db_resets d2) (token_hash env raw) = Some (0, old)"
    by (rule reset_password_effect) (auto dest!: known_token(2) [OF later(2) assms(6)])
  with one show False by simp
qed

text \<open>C3. Usernames are unique in every reachable state, and the reservation of an account's name
  leads back to that account.\<close>

theorem usernames_unique:
  assumes "auth_reach env policy reasons H d"
    and "repo_account d i = Inr a" and "repo_account d j = Inr b" and "acc_username a = acc_username b"
  shows "i = j \<and> account_by_username d (acc_username a) = Inr a"
proof -
  from assms(2,3) obtain r s where rows: "map_of (db_accounts d) i = Some (r, a)"
    "map_of (db_accounts d) j = Some (s, b)" by (auto simp: repo_account_def)
  have "identity_inv d" using auth_reach_known [OF assms(1)] by (auto simp: known_def)
  note identity_inv_account [OF this rows(1)] identity_inv_account [OF this rows(2)]
  with assms(4)
  have "map_of (db_usernames d) (acc_username a) = Some i" "map_of (db_usernames d) (acc_username a) = Some j"
    by (auto simp: account_row_ok_def)
  with assms(2) show ?thesis by (simp add: account_by_username_def ok_or_def)
qed

section \<open>A concrete run\<close>

definition demo_env :: auth_env where
  "demo_env = \<lparr>env_params_valid = (\<lambda>_ _ _. True), env_hash = (\<lambda>_ _ v. Some v),
    env_phc_parses = (\<lambda>_. True), env_verify = (\<lambda>_ v e. v = e),
    env_sha256 = (\<lambda>raw. [of_nat (length raw)]), env_max_instant = 10 ^ 30\<rparr>"

definition demo_policy :: auth_policy where
  "demo_policy = \<lparr>session_lifetime_seconds = 60, invite_lifetime_seconds = 60,
    reset_lifetime_seconds = 60,
    argon2id = \<lparr>ap_memory_kib = 8, ap_time_cost = 1, ap_parallelism = 1\<rparr>\<rparr>"

definition demo_reasons :: reason_policy where
  "demo_reasons = \<lparr>max_bytes = 10\<rparr>"

definition demo_account :: "account_id \<Rightarrow> string \<Rightarrow> bool \<Rightarrow> u64 \<Rightarrow> string \<Rightarrow> account_record" where
  "demo_account i u admin n p = \<lparr>acc_id = i, acc_username = u, acc_password_hash = p,
    acc_admin = admin, acc_auth_revision = n, acc_revision = n\<rparr>"

definition demo_session :: "u8 list \<Rightarrow> u64 \<Rightarrow> session_record" where
  "demo_session tok n = \<lparr>ses_id = 9, ses_verifier_hash = token_hash demo_env (hex tok),
    ses_account_id = 1, ses_account_auth_revision = n, ses_expires_at = 60000000000, ses_revision = 0\<rparr>"

abbreviation pw1 :: string where
  "pw1 \<equiv> ''aaaaaaaaaaaa''"

abbreviation pw2 :: string where
  "pw2 \<equiv> ''bbbbbbbbbbbb''"

definition demo_d1 :: identity_db where
  "demo_d1 = empty_identity_db\<lparr>db_usernames := [(''ann'', 1)],
    db_accounts := [(1, 0, demo_account 1 ''ann'' True 0 pw1)],
    db_workspaces := [(1, 0, workspace_new 1 1 ''Personal'')]\<rparr>"

definition demo_d2 :: identity_db where
  "demo_d2 = demo_d1\<lparr>db_sessions := [(''02'', 0, demo_session [7] 0)]\<rparr>"

definition demo_d3 :: identity_db where
  "demo_d3 = demo_d2\<lparr>db_accounts := [(1, 1, demo_account 1 ''ann'' True 1 pw2)]\<rparr>"

definition demo_d4 :: identity_db where
  "demo_d4 = demo_d3\<lparr>db_sessions := [(''02'', 0, demo_session [7] 0), (''04'', 0, demo_session [7, 8] 1)]\<rparr>"

lemma demo_checks [simp]:
  "validate_username ''ann'' = Inr ()" "validate_username ''bob'' = Inr ()"
  "validate_password pw1 = Inr ()" "validate_password pw2 = Inr ()"
proof -
  have ann: "trim ''ann'' = ''ann''" by (simp add: trim_ascii is_whitespace_def)
  have bob: "trim ''bob'' = ''bob''" by (simp add: trim_ascii is_whitespace_def)
  from ann bob show "validate_username ''ann'' = Inr ()" "validate_username ''bob'' = Inr ()"
    by (simp_all add: validate_username_def)
  show "validate_password pw1 = Inr ()" "validate_password pw2 = Inr ()"
    by (simp_all add: validate_password_def)
qed

lemma demo_hash [simp]:
  "token_hash demo_env (hex [7]) = ''02''" "token_hash demo_env (hex [7, 8]) = ''04''"
  "token_hash demo_env (hex [7, 8, 9]) = ''06''"
  by code_simp+

lemma demo_expiry [simp]: "expiry demo_env 0 60 = Inr 60000000000"
  by (simp add: expiry_def seconds_def i64_max_def demo_env_def)

lemma demo_password [simp]:
  "hash_password demo_env pol salt pw1 = Inr pw1" "hash_password demo_env pol salt pw2 = Inr pw2"
  "verify_password demo_env pol p p = Inr ()"
  by (simp_all add: hash_password_def verify_password_def argon2id_engine_def demo_env_def ok_or_def)

lemma demo_workspace [simp]: "workspace_validate demo_reasons (workspace_new w i n) = Inr ()"
  by (simp add: workspace_validate_def workspace_new_def)

lemmas demo_defs = Let_def demo_policy_def demo_account_def demo_session_def empty_identity_db_def
  username_free_def account_by_username_def repo_account_def ok_or_def identity_store_defs
  cas_def cas_tx_def to_i64_def fits_i64_def i64_max_def put_def read_doc_def bump_password_def

lemma demo_bootstrap:
  "bootstrap_admin demo_env demo_policy demo_reasons empty_identity_db empty_identity_db ''ann'' pw1 1 s 1
    = Inr (demo_account 1 ''ann'' True 0 pw1, demo_d1)"
  by (simp add: bootstrap_admin_def demo_d1_def demo_defs) (simp add: workspace_new_def)

lemma demo_sign_in:
  "sign_in demo_env demo_policy demo_d1 demo_d1 ''ann'' pw1 0 [7] 9 = Inr ((hex [7], demo_session [7] 0), demo_d2)"
  by (simp add: sign_in_def demo_d1_def demo_d2_def demo_defs)

lemma demo_change:
  "change_password demo_env demo_policy demo_d2 demo_d2 1 pw1 pw2 s = Inr demo_d3"
  by (simp add: change_password_def demo_d1_def demo_d2_def demo_d3_def demo_defs)

lemma demo_sign_in_again:
  "sign_in demo_env demo_policy demo_d3 demo_d3 ''ann'' pw2 0 [7, 8] 9
    = Inr ((hex [7, 8], demo_session [7, 8] 1), demo_d4)"
  by (simp add: sign_in_def demo_d1_def demo_d2_def demo_d3_def demo_d4_def demo_defs)

lemma demo_authenticate:
  "authenticate demo_env demo_d4 demo_d4 (hex [7, 8]) 0
    = Inr (demo_session [7, 8] 1, demo_account 1 ''ann'' True 1 pw2)"
  by (simp add: authenticate_def session_by_verifier_hash_def demo_d1_def demo_d2_def demo_d3_def demo_d4_def demo_defs)

definition demo_invite :: "instant option \<Rightarrow> u64 \<Rightarrow> invite_record" where
  "demo_invite c n = \<lparr>inv_id = 5, inv_token_hash = ''06'', inv_username = ''bob'', inv_created_by = 1,
    inv_expires_at = 60000000000, inv_consumed_at = c, inv_revision = n\<rparr>"

definition demo_d5 :: identity_db where
  "demo_d5 = demo_d1\<lparr>db_invites := [(''06'', 0, demo_invite None 0)]\<rparr>"

definition demo_d6 :: identity_db where
  "demo_d6 = demo_d5\<lparr>db_invites := [(''06'', 1, demo_invite (Some 0) 1)],
    db_usernames := [(''ann'', 1), (''bob'', 2)],
    db_accounts := [(1, 0, demo_account 1 ''ann'' True 0 pw1), (2, 0, demo_account 2 ''bob'' False 0 pw2)],
    db_workspaces := [(1, 0, workspace_new 1 1 ''Personal''), (2, 0, workspace_new 2 2 ''Reading'')]\<rparr>"

definition demo_reset :: "instant option \<Rightarrow> u64 \<Rightarrow> password_reset_record" where
  "demo_reset c n = \<lparr>pr_id = 5, pr_token_hash = ''06'', pr_account_id = 1,
    pr_expires_at = 60000000000, pr_consumed_at = c, pr_revision = n\<rparr>"

definition demo_d7 :: identity_db where
  "demo_d7 = demo_d2\<lparr>db_resets := [(''06'', 0, demo_reset None 0)]\<rparr>"

definition demo_d8 :: identity_db where
  "demo_d8 = demo_d3\<lparr>db_resets := [(''06'', 1, demo_reset (Some 0) 1)]\<rparr>"

definition demo_d9 :: identity_db where
  "demo_d9 = demo_d4\<lparr>db_resets := [(''06'', 1, demo_reset (Some 0) 1)]\<rparr>"

lemmas demo_states = demo_d1_def demo_d2_def demo_d3_def demo_d4_def demo_d5_def demo_d6_def
  demo_d7_def demo_d8_def demo_d9_def demo_invite_def demo_reset_def

lemma demo_create_invite:
  "create_invite demo_env demo_policy demo_d1 demo_d1 (demo_account 1 ''ann'' True 0 pw1) ''bob'' 0 [7, 8, 9] 5
    = Inr ((hex [7, 8, 9], demo_invite None 0), demo_d5)"
  by (simp add: create_invite_def demo_states demo_defs)

lemma demo_accept:
  "accept_invite demo_env demo_policy demo_reasons demo_d5 demo_d5 demo_d5 (hex [7, 8, 9]) ''bob'' pw2 0 2 s 2
    = Inr (demo_account 2 ''bob'' False 0 pw2, demo_d6)"
  by (simp add: accept_invite_def invite_by_token_hash_def demo_states demo_defs)
    (simp add: workspace_new_def)

lemma demo_create_reset:
  "create_password_reset demo_env demo_policy demo_d2 demo_d2 (demo_account 1 ''ann'' True 0 pw1) ''ann'' 0
    [7, 8, 9] 5 = Inr ((hex [7, 8, 9], demo_reset None 0), demo_d7)"
  by (simp add: create_password_reset_def demo_states demo_defs)

lemma demo_reset_password:
  "reset_password demo_env demo_policy demo_d7 demo_d7 demo_d7 (hex [7, 8, 9]) pw2 0 s = Inr demo_d8"
  by (simp add: reset_password_def password_reset_by_token_hash_def demo_states demo_defs)

lemma demo_reset_sign_in:
  "sign_in demo_env demo_policy demo_d8 demo_d8 ''ann'' pw2 0 [7, 8] 9
    = Inr ((hex [7, 8], demo_session [7, 8] 1), demo_d9)"
  by (simp add: sign_in_def demo_states demo_defs)

lemma demo_reset_authenticate:
  "authenticate demo_env demo_d9 demo_d9 (hex [7, 8]) 0
    = Inr (demo_session [7, 8] 1, demo_account 1 ''ann'' True 1 pw2)"
  by (simp add: authenticate_def session_by_verifier_hash_def demo_states demo_defs)

abbreviation demo_reach :: "identity_db set \<Rightarrow> identity_db \<Rightarrow> bool" where
  "demo_reach \<equiv> auth_reach demo_env demo_policy demo_reasons"

lemma demo_reach1: "demo_reach {demo_d1, empty_identity_db} demo_d1"
  by (rule auth_run.run_step [OF auth_run.run_start auth_step.step_bootstrap [OF _ demo_bootstrap]]) simp

lemma demo_reach2: "demo_reach {demo_d2, demo_d1, empty_identity_db} demo_d2"
  by (rule auth_run.run_step [OF demo_reach1 auth_step.step_sign_in [OF _ demo_sign_in]]) simp

lemma demo_reach5: "demo_reach {demo_d5, demo_d1, empty_identity_db} demo_d5"
  by (rule auth_run.run_step [OF demo_reach1 auth_step.step_create_invite [OF _ demo_create_invite]]) simp

lemma demo_reach7: "demo_reach {demo_d7, demo_d2, demo_d1, empty_identity_db} demo_d7"
  by (rule auth_run.run_step [OF demo_reach2 auth_step.step_create_reset [OF _ demo_create_reset]]) simp

theorem password_change_revokes_sessions_witness:
  "session_by_verifier_hash demo_d2 ''02'' \<noteq> Inr (demo_session [7, 8] 1)"
proof -
  let ?H = "{demo_d2, demo_d1, empty_identity_db}"
  have "auth_run demo_env demo_policy demo_reasons (insert demo_d3 ?H) demo_d3
      (insert demo_d4 (insert demo_d3 ?H)) demo_d4"
    by (rule auth_run.run_step [OF auth_run.run_start auth_step.step_sign_in [OF _ demo_sign_in_again]]) simp
  from password_change_revokes_sessions [OF demo_reach2 _ demo_change this demo_authenticate, of demo_d2]
  show ?thesis by (simp add: demo_session_def)
qed

theorem password_reset_revokes_sessions_witness:
  "session_by_verifier_hash demo_d7 ''02'' \<noteq> Inr (demo_session [7, 8] 1)"
proof -
  let ?H = "{demo_d7, demo_d2, demo_d1, empty_identity_db}"
  have "auth_run demo_env demo_policy demo_reasons (insert demo_d8 ?H) demo_d8
      (insert demo_d9 (insert demo_d8 ?H)) demo_d9"
    by (rule auth_run.run_step [OF auth_run.run_start auth_step.step_sign_in [OF _ demo_reset_sign_in]]) simp
  moreover have "password_reset_by_token_hash demo_d7 (token_hash demo_env (hex [7, 8, 9])) = Inr (demo_reset None 0)"
    by (simp add: password_reset_by_token_hash_def demo_states)
  ultimately show ?thesis
    using password_reset_revokes_sessions [OF demo_reach7 _ _ demo_reset_password _ _ demo_reset_authenticate, of _ _ demo_d7]
    by (simp add: demo_session_def demo_reset_def)
qed

theorem invite_single_use_witness:
  "\<not> is_ok (accept_invite demo_env demo_policy demo_reasons demo_d5 demo_d5 demo_d6 (hex [7, 8, 9]) ''bob'' pw1 0 3 [] 3)"
  by (rule invite_single_use [OF demo_reach5 _ _ demo_accept auth_run.run_start]) simp_all

theorem reset_single_use_witness:
  "\<not> is_ok (reset_password demo_env demo_policy demo_d7 demo_d7 demo_d8 (hex [7, 8, 9]) pw1 0 [])"
  by (rule reset_single_use [OF demo_reach7 _ _ demo_reset_password auth_run.run_start]) simp_all

theorem usernames_unique_witness:
  "account_by_username demo_d2 ''ann'' = Inr (demo_account 1 ''ann'' True 0 pw1)"
proof -
  have "repo_account demo_d2 1 = Inr (demo_account 1 ''ann'' True 0 pw1)"
    by (simp add: repo_account_def demo_states)
  from usernames_unique [OF demo_reach2 this this] show ?thesis by (simp add: demo_account_def)
qed

text \<open>Accepting an invite leads to a usable account: given an Argon2 engine that accepts its own
  hashes, the invited user signs in with the chosen password and the issued token authenticates
  until it expires.\<close>

theorem invited_user_signs_in:
  assumes "accept_invite env policy reasons ra rb d raw u p now i salt w = Inr (a, d')"
    and verifies: "\<And>pol salt v h. env_hash env pol salt v = Some h \<Longrightarrow>
      env_phc_parses env h \<and> env_verify env pol v h"
    and "expiry env now2 (session_lifetime_seconds policy) = Inr e"
    and "map_of (db_sessions d) (token_hash env (hex tok)) = None" and "now3 < e"
  shows "\<exists>s d2. sign_in env policy d' d' u p now2 tok k = Inr ((hex tok, s), d2)
    \<and> authenticate env d2 d2 (hex tok) now3 = Inr (s, a)"
proof -
  from assms(1) have u: "validate_username u = Inr ()"
    and "hash_password env (argon2id policy) salt p = Inr (acc_password_hash a)"
    by (auto simp: accept_invite_def Let_def split: if_splits)
  then have v: "verify_password env (argon2id policy) p (acc_password_hash a) = Inr ()"
    using verifies by (auto simp: hash_password_def verify_password_def argon2id_engine_def ok_or_def
        split: if_splits option.splits)
  from assms(1) obtain dx where "acc_id a = i" "db_sessions d' = db_sessions d"
    "map_of (db_usernames d') u = Some i" "map_of (db_accounts d') i = Some (0, a)"
    by (rule accept_invite_effect) auto
  with u v assms(3-5) show ?thesis
    by (simp add: sign_in_def authenticate_def account_by_username_def repo_account_def ok_or_def
        Let_def read_doc_def save_session_def session_by_verifier_hash_def cas_def cas_tx_def to_i64_def
        fits_i64_def)
qed

theorem invited_user_signs_in_witness:
  "\<exists>s d2. sign_in demo_env demo_policy demo_d6 demo_d6 ''bob'' pw2 0 [7] 9 = Inr ((hex [7], s), d2)
    \<and> authenticate demo_env d2 d2 (hex [7]) 1 = Inr (s, demo_account 2 ''bob'' False 0 pw2)"
proof (rule invited_user_signs_in [OF demo_accept])
  show "expiry demo_env 0 (session_lifetime_seconds demo_policy) = Inr 60000000000"
    by (simp add: demo_policy_def)
qed (simp_all add: demo_env_def demo_states empty_identity_db_def)

end
