(* ===== verification/Jobs.thy ===== *)
theory Jobs
  imports Versioned
begin

text \<open>
  \<open>reader-core/src/jobs.rs\<close>: the durable job aggregate of the operations repository, with its lease
  and completion transitions.
\<close>

datatype job_kind = JobPollSource | JobDeliverRecord | JobExtractFullText | JobEvaluateRule | JobApplyRuleToArchive

record job_lease =
  jl_owner :: string
  jl_acquired_at :: instant
  jl_expires_at :: instant

datatype job_status =
  JobReady | JobLeased job_lease | JobRetryAt instant | JobCompleted | JobFailed string

record durable_job =
  job_id :: uuid
  job_kind :: job_kind
  job_idempotency_key :: string
  job_payload :: "u8 list"
  job_status :: job_status
  job_attempts :: u32
  job_revision :: u64

definition durable_job_lease :: "job_lease \<Rightarrow> durable_job \<Rightarrow> bool \<times> durable_job" where
  "durable_job_lease l j =
    (case job_status j of
       JobReady \<Rightarrow> (True, j\<lparr>job_status := JobLeased l, job_revision := job_revision j + 1\<rparr>)
     | JobRetryAt _ \<Rightarrow> (True, j\<lparr>job_status := JobLeased l, job_revision := job_revision j + 1\<rparr>)
     | _ \<Rightarrow> (False, j))"

definition durable_job_complete :: "string \<Rightarrow> durable_job \<Rightarrow> bool \<times> durable_job" where
  "durable_job_complete owner j =
    (case job_status j of
       JobLeased v \<Rightarrow>
         if jl_owner v = owner
         then (True, j\<lparr>job_status := JobCompleted, job_revision := job_revision j + 1\<rparr>)
         else (False, j)
     | _ \<Rightarrow> (False, j))"

datatype job_op = LeaseJob job_lease | CompleteJob string

primrec job_perform :: "job_op \<Rightarrow> durable_job \<Rightarrow> durable_job" where
  "job_perform (LeaseJob l) j = snd (durable_job_lease l j)"
| "job_perform (CompleteJob owner) j = snd (durable_job_complete owner j)"

interpretation job: versioned job_perform job_revision
proof
  fix op j
  show "job_perform op j = j \<or> job_revision (job_perform op j) = job_revision j + 1"
    by (cases op) (auto simp: durable_job_lease_def durable_job_complete_def split: job_status.splits)
qed

lemma leased_stays:
  assumes "job_status j = JobLeased l \<or> job_status j = JobCompleted"
    and "\<forall>op \<in> set ops. op \<noteq> CompleteJob (jl_owner l)"
  shows "fold job_perform ops j = j"
  using assms(2)
proof (induction ops)
  case (Cons op ops)
  have "job_perform op j = j"
    using assms(1) Cons.prems
    by (cases op) (auto simp: durable_job_lease_def durable_job_complete_def split: job_status.splits)
  with Cons show ?case by simp
qed simp

text \<open>A lease is exclusive: once a job is leased, no sequence of lease attempts by anyone and
  completion attempts by other owners changes it at all; only its own owner can complete it, and a
  completed job is never leased again.\<close>

theorem lease_exclusive:
  assumes "durable_job_lease l j = (True, j')"
    and "\<forall>op \<in> set ops. op \<noteq> CompleteJob (jl_owner l)"
  shows "fold job_perform ops j' = j'
    \<and> job_status (job_perform (CompleteJob (jl_owner l)) (fold job_perform ops j')) = JobCompleted
    \<and> fst (durable_job_lease l2 (job_perform (CompleteJob (jl_owner l)) j')) = False"
proof -
  have leased: "job_status j' = JobLeased l"
    using assms(1) by (auto simp: durable_job_lease_def split: job_status.splits)
  with leased_stays [of j' l ops] assms(2) have "fold job_perform ops j' = j'" by blast
  with leased show ?thesis by (simp add: durable_job_complete_def durable_job_lease_def)
qed

theorem lease_exclusive_witness:
  "\<exists>j'. durable_job_lease \<lparr>jl_owner = ''a'', jl_acquired_at = 0, jl_expires_at = 9\<rparr>
        \<lparr>job_id = 1, job_kind = JobPollSource, job_idempotency_key = ''k'', job_payload = [],
         job_status = JobReady, job_attempts = 0, job_revision = 0\<rparr> = (True, j')
    \<and> fold job_perform [CompleteJob ''b''] j' = j'"
proof -
  let ?l = "\<lparr>jl_owner = ''a'', jl_acquired_at = 0, jl_expires_at = 9\<rparr>"
  let ?j = "\<lparr>job_id = 1, job_kind = JobPollSource, job_idempotency_key = ''k'', job_payload = [],
         job_status = JobReady, job_attempts = 0, job_revision = 0\<rparr>"
  have l: "durable_job_lease ?l ?j = (True, ?j\<lparr>job_status := JobLeased ?l, job_revision := 1\<rparr>)"
    by (simp add: durable_job_lease_def)
  have o: "\<forall>op \<in> set [CompleteJob ''b'']. op \<noteq> CompleteJob (jl_owner ?l)" by simp
  from lease_exclusive [OF l o, of ?l] l show ?thesis by blast
qed

end
