(* ===== verification/Publication.thy ===== *)
theory Publication
  imports Prelude "HOL-Library.Multiset"
begin

text \<open>
  \<open>reader-core/src/publication.rs\<close>: declared publication dates. The date parsers and printers of
  \<open>chrono\<close> are parameters, collected in \<open>date_env\<close>: a zoned instant is its UTC instant and its
  offset, a civil date the number of its day, a civil date-time its nanosecond on the civil time
  line. \<open>day\<close> is \<open>None\<close> where the code would panic on an unvalidated date.
\<close>

type_synonym zoned = "instant \<times> int"

record date_env =
  rfc3339 :: "string \<Rightarrow> zoned option"
  rfc2822 :: "string \<Rightarrow> zoned option"
  naive_date :: "string \<Rightarrow> string \<Rightarrow> int option"
  naive_date_time :: "string \<Rightarrow> string \<Rightarrow> int option"
  show_rfc3339 :: "zoned \<Rightarrow> string"
  show_date :: "int \<Rightarrow> string"
  show_date_time :: "string \<Rightarrow> int \<Rightarrow> string"

datatype publication_date = PublicationDate string

primrec publication_as_str :: "publication_date \<Rightarrow> string" where
  "publication_as_str (PublicationDate s) = s"

definition day_format :: string where
  "day_format = ''%Y-%m-%d''"

definition clock_format :: string where
  "clock_format = ''%Y-%m-%dT%H:%M:%S%.f''"

definition publication_try_from :: "date_env \<Rightarrow> string \<Rightarrow> string + publication_date" where
  "publication_try_from env value =
    (if is_some (rfc3339 env value) \<or> is_some (naive_date env value day_format)
        \<or> is_some (naive_date_time env value clock_format)
     then Inr (PublicationDate value) else Inl ''invalid publication date'')"

definition publication_from_utc :: "date_env \<Rightarrow> instant \<Rightarrow> publication_date" where
  "publication_from_utc env t = PublicationDate (show_rfc3339 env (t, 0))"

text \<open>The first format under which a parser succeeds.\<close>

fun first_parse :: "(string \<Rightarrow> 'a option) \<Rightarrow> string list \<Rightarrow> 'a option" where
  "first_parse p [] = None"
| "first_parse p (f # fs) = (case p f of Some x \<Rightarrow> Some x | None \<Rightarrow> first_parse p fs)"

text \<open>The last date format has the ideographs for year, month and day, written as their UTF-8
  bytes.\<close>

definition date_formats :: "string list" where
  "date_formats =
    [''%Y/%m/%d'', ''%B %d, %Y'', ''%b %d, %Y'', ''%d %B %Y'', ''%d %b %Y'',
     ''%Y'' @ [CHR 0xE5, CHR 0xB9, CHR 0xB4] @ ''%m'' @ [CHR 0xE6, CHR 0x9C, CHR 0x88]
       @ ''%d'' @ [CHR 0xE6, CHR 0x97, CHR 0xA5]]"

definition date_time_formats :: "string list" where
  "date_time_formats = [''%Y-%m-%d %H:%M:%S%.f'', ''%Y-%m-%d %H:%M'', ''%Y/%m/%d %H:%M:%S'']"

definition publication_parse :: "date_env \<Rightarrow> string \<Rightarrow> publication_date option" where
  "publication_parse env raw =
    (let value = trim raw in
     case publication_try_from env value of
       Inr date \<Rightarrow> Some date
     | Inl _ \<Rightarrow>
       (case rfc2822 env value of
          Some z \<Rightarrow> Some (PublicationDate (show_rfc3339 env z))
        | None \<Rightarrow>
          (case first_parse (naive_date env value) date_formats of
             Some d \<Rightarrow> Some (PublicationDate (show_date env d))
           | None \<Rightarrow>
             map_option (\<lambda>t. PublicationDate (show_date_time env clock_format t))
               (first_parse (naive_date_time env value) date_time_formats))))"

definition nanos_per_day :: int where
  "nanos_per_day = 86400 * 1000000000"

definition publication_day :: "date_env \<Rightarrow> publication_date \<Rightarrow> int option" where
  "publication_day env d =
    (let s = publication_as_str d in
     case rfc3339 env s of
       Some (t, _) \<Rightarrow> Some (t div nanos_per_day)
     | None \<Rightarrow>
       (case naive_date_time env s clock_format of
          Some t \<Rightarrow> Some (t div nanos_per_day)
        | None \<Rightarrow> naive_date env s day_format))"

definition equivalent :: "date_env \<Rightarrow> publication_date \<Rightarrow> publication_date \<Rightarrow> bool" where
  "equivalent env a b =
    (case (rfc3339 env (publication_as_str a), rfc3339 env (publication_as_str b)) of
       (Some (s, _), Some (t, _)) \<Rightarrow> s = t
     | _ \<Rightarrow> a = b)"

definition day_only :: "date_env \<Rightarrow> publication_date \<Rightarrow> bool" where
  "day_only env d = is_some (naive_date env (publication_as_str d) day_format)"

record publication_evidence =
  pe_source :: string
  pe_raw :: string

definition published_label :: string where
  "published_label =
    [CHR 0xE5, CHR 0x8F, CHR 0x91, CHR 0xE8, CHR 0xA1, CHR 0xA8, CHR 0xE4, CHR 0xBA, CHR 0x8E]"

definition evidence_date :: "date_env \<Rightarrow> publication_evidence \<Rightarrow> publication_date option" where
  "evidence_date env e =
    (if pe_source e = ''html:huawei-blog-byline''
     then (case strip_prefix published_label (trim (pe_raw e)) of
             None \<Rightarrow> None
           | Some v \<Rightarrow> publication_parse env (trim v))
     else publication_parse env (pe_raw e))"

definition resolve_dates :: "date_env \<Rightarrow> publication_date list \<Rightarrow> publication_date option" where
  "resolve_dates env dates =
    (case (case List.find (\<lambda>d. \<not> day_only env d) dates of
             Some d \<Rightarrow> Some d
           | None \<Rightarrow> (case dates of [] \<Rightarrow> None | d # _ \<Rightarrow> Some d)) of
       None \<Rightarrow> None
     | Some first \<Rightarrow>
         if list_all (\<lambda>v. equivalent env first v
              \<or> day_only env v \<and> publication_day env v = publication_day env first) dates
         then Some first else None)"

definition resolve_publication ::
  "date_env \<Rightarrow> publication_evidence list \<Rightarrow> publication_date option" where
  "resolve_publication env values = resolve_dates env (List.map_filter (evidence_date env) values)"

section \<open>Agreement\<close>

lemma equivalent_refl [simp]: "equivalent env a a"
  by (auto simp: equivalent_def split: option.splits)

lemma equivalent_sym: "equivalent env a b \<Longrightarrow> equivalent env b a"
  by (auto simp: equivalent_def split: option.splits)

lemma equivalent_trans: "equivalent env a b \<Longrightarrow> equivalent env b c \<Longrightarrow> equivalent env a c"
  by (auto simp: equivalent_def split: option.splits)

lemma equivalent_day: "equivalent env a b \<Longrightarrow> publication_day env a = publication_day env b"
  by (auto simp: equivalent_def publication_day_def split: option.splits)

definition agrees :: "date_env \<Rightarrow> publication_date \<Rightarrow> publication_date \<Rightarrow> bool" where
  "agrees env f v \<longleftrightarrow>
    equivalent env f v \<or> day_only env v \<and> publication_day env v = publication_day env f"

lemma resolve_datesE:
  assumes "dates \<noteq> []"
  obtains f where "f \<in> set dates" "day_only env f \<longrightarrow> (\<forall>v \<in> set dates. day_only env v)"
    "resolve_dates env dates = (if \<forall>v \<in> set dates. agrees env f v then Some f else None)"
proof (cases "List.find (\<lambda>d. \<not> day_only env d) dates")
  case None
  then have all: "\<forall>v \<in> set dates. day_only env v" by (simp add: find_None_iff)
  from assms obtain d ds where dates: "dates = d # ds" by (cases dates) auto
  have "resolve_dates env dates = (if \<forall>v \<in> set dates. agrees env d v then Some d else None)"
    unfolding resolve_dates_def None by (simp add: dates list_all_iff agrees_def)
  with all dates show ?thesis by (intro that [of d]) auto
next
  case (Some x)
  then have "x \<in> set dates" "\<not> day_only env x" by (auto simp: find_Some_iff)
  with Some show ?thesis
    by (intro that [of x]) (auto simp: resolve_dates_def agrees_def list_all_iff)
qed

lemma agrees_day: "agrees env f v \<Longrightarrow> publication_day env v = publication_day env f"
  using equivalent_day unfolding agrees_def by metis

lemma agrees_change_first:
  assumes "\<forall>v \<in> S. agrees env f v" and "g \<in> S"
    and "day_only env f \<longrightarrow> (\<forall>v \<in> S. day_only env v)" and "day_only env g \<longrightarrow> (\<forall>v \<in> S. day_only env v)"
    and "f \<in> S" and "v \<in> S"
  shows "agrees env g v"
proof (cases "day_only env g")
  case True
  with assms(4,6) have "day_only env v" by blast
  moreover have "publication_day env v = publication_day env g"
    using assms(1,2,6) agrees_day by metis
  ultimately show ?thesis by (simp add: agrees_def)
next
  case False
  with assms(1,2) have fg: "equivalent env f g" by (auto simp: agrees_def)
  have fv: "agrees env f v" using assms(1,6) by blast
  from fv show ?thesis unfolding agrees_def
  proof
    assume "equivalent env f v"
    with fg show "equivalent env g v \<or> day_only env v \<and> publication_day env v = publication_day env g"
      using equivalent_sym equivalent_trans by blast
  next
    assume "day_only env v \<and> publication_day env v = publication_day env f"
    with fg show "equivalent env g v \<or> day_only env v \<and> publication_day env v = publication_day env g"
      using equivalent_day by simp
  qed
qed

text \<open>The resolved publication date is one of the declared dates, it is a day without a time only
  if every declaration is, and every declaration agrees with it: it denotes the same instant, or it
  is a day and that is the day of the resolved date.\<close>

theorem resolve_publication_agrees:
  assumes "resolve_publication env values = Some d"
  shows "(\<exists>e \<in> set values. evidence_date env e = Some d)
    \<and> (day_only env d \<longrightarrow> (\<forall>e \<in> set values. \<forall>v. evidence_date env e = Some v \<longrightarrow> day_only env v))
    \<and> (\<forall>e \<in> set values. \<forall>v. evidence_date env e = Some v \<longrightarrow>
        equivalent env d v \<or> day_only env v \<and> publication_day env v = publication_day env d)"
proof -
  let ?D = "List.map_filter (evidence_date env) values"
  have D: "v \<in> set ?D \<longleftrightarrow> (\<exists>e \<in> set values. evidence_date env e = Some v)" for v
    by (force simp: List.map_filter_def)
  from assms have "?D \<noteq> []" by (auto simp: resolve_publication_def resolve_dates_def)
  then obtain f where f: "f \<in> set ?D" "day_only env f \<longrightarrow> (\<forall>v \<in> set ?D. day_only env v)"
    "resolve_dates env ?D = (if \<forall>v \<in> set ?D. agrees env f v then Some f else None)"
    by (rule resolve_datesE)
  with assms have d: "d = f" "\<forall>v \<in> set ?D. agrees env f v"
    by (auto simp: resolve_publication_def split: if_splits)
  from f(1,2) d show ?thesis
    unfolding D [symmetric] agrees_def by (metis D)
qed

text \<open>The order in which declarations are found does not matter: a permutation of the evidence is
  resolved exactly when the evidence is, to a date on the same day that denotes the same instant
  unless both are days without a time.\<close>

theorem resolve_publication_order:
  assumes "mset values = mset values'" and "resolve_publication env values = Some d"
  shows "\<exists>d'. resolve_publication env values' = Some d' \<and> publication_day env d' = publication_day env d
    \<and> (equivalent env d d' \<or> day_only env d \<and> day_only env d')"
proof -
  let ?D = "List.map_filter (evidence_date env) values"
    and ?E = "List.map_filter (evidence_date env) values'"
  have same: "set ?E = set ?D"
    using mset_eq_setD [OF assms(1)] by (simp add: List.map_filter_def)
  from assms have "?D \<noteq> []" by (auto simp: resolve_publication_def resolve_dates_def)
  moreover from this same have "?E \<noteq> []" by auto
  ultimately have ne: "?D \<noteq> []" "?E \<noteq> []" .
  from ne(1) obtain f where f: "f \<in> set ?D" "day_only env f \<longrightarrow> (\<forall>v \<in> set ?D. day_only env v)"
    "resolve_dates env ?D = (if \<forall>v \<in> set ?D. agrees env f v then Some f else None)"
    by (rule resolve_datesE)
  from ne(2) obtain g where g: "g \<in> set ?E" "day_only env g \<longrightarrow> (\<forall>v \<in> set ?E. day_only env v)"
    "resolve_dates env ?E = (if \<forall>v \<in> set ?E. agrees env g v then Some g else None)"
    by (rule resolve_datesE)
  from f(3) assms(2) have d: "d = f" and all: "\<forall>v \<in> set ?D. agrees env f v"
    by (auto simp: resolve_publication_def split: if_splits)
  from all g(1) same have fg: "agrees env f g" by blast
  have "\<forall>v \<in> set ?D. agrees env g v"
    using agrees_change_first [OF all] f(1,2) g(1,2) same by blast
  with g(3) same have "resolve_publication env values' = Some g" by (simp add: resolve_publication_def)
  moreover from fg d have "publication_day env g = publication_day env d" by (simp add: agrees_day)
  moreover have "equivalent env d g \<or> day_only env d \<and> day_only env g"
  proof (cases "day_only env g")
    case True
    with f(1) g(2) same d show ?thesis by auto
  next
    case False
    with fg d show ?thesis by (simp add: agrees_def)
  qed
  ultimately show ?thesis by blast
qed

text \<open>A small calendar for evaluated examples: one day and one instant on it.\<close>

definition example_dates :: date_env where
  "example_dates =
    \<lparr>rfc3339 = (\<lambda>s. if s = ''T'' then Some (5, 0) else None), rfc2822 = (\<lambda>_. None),
     naive_date = (\<lambda>s f. if s = ''D'' \<and> f = day_format then Some 0 else None),
     naive_date_time = (\<lambda>_ _. None), show_rfc3339 = (\<lambda>_. ''T''), show_date = (\<lambda>_. ''D''),
     show_date_time = (\<lambda>_ _. ''T'')\<rparr>"

definition example_evidence :: "string \<Rightarrow> publication_evidence" where
  "example_evidence s = \<lparr>pe_source = ''html:meta'', pe_raw = s\<rparr>"

lemma example_evidence_date:
  "evidence_date example_dates (example_evidence ''D'') = Some (PublicationDate ''D'')"
  "evidence_date example_dates (example_evidence ''T'') = Some (PublicationDate ''T'')"
  by (simp_all add: evidence_date_def example_evidence_def publication_parse_def trim_ascii
      is_whitespace_def publication_try_from_def example_dates_def)

lemma example_resolves:
  "resolve_publication example_dates [example_evidence ''D'', example_evidence ''T'']
    = Some (PublicationDate ''T'')"
  by (simp add: resolve_publication_def resolve_dates_def map_filter_simps example_evidence_date
      equivalent_def day_only_def publication_day_def nanos_per_day_def)
    (simp add: example_dates_def day_format_def nanos_per_day_def)

theorem resolve_publication_agrees_witness:
  "publication_day example_dates (PublicationDate ''D'') = publication_day example_dates (PublicationDate ''T'')"
  using resolve_publication_agrees [OF example_resolves]
  by (simp add: example_evidence_date equivalent_def) (simp add: example_dates_def publication_day_def)

theorem resolve_publication_order_witness:
  "\<exists>d'. resolve_publication example_dates [example_evidence ''T'', example_evidence ''D''] = Some d'
    \<and> publication_day example_dates d' = publication_day example_dates (PublicationDate ''T'')"
  using resolve_publication_order [OF _ example_resolves, of "[example_evidence ''T'', example_evidence ''D'']"]
  by auto

end
