(* ===== verification/Url.thy ===== *)
theory Url
  imports Prelude
begin

text \<open>
  The values of the \<open>url\<close> crate that the reader inspects. \<open>Url::parse\<close> itself is not part of this
  repository: definitions that parse take the parser as an argument of type \<open>url_parser\<close>. A parsed
  URL is the record of the components its accessors return; the serialisation (\<open>Url::as_str\<close>) is
  one of them.
\<close>

record url =
  url_text :: string
  url_scheme :: string
  url_host :: "string option"
  url_port :: "nat option"
  url_path :: string
  url_query :: "string option"
  url_fragment :: "string option"
  url_username :: string
  url_password :: "string option"

type_synonym url_parser = "string \<Rightarrow> url option"

definition is_http :: "url \<Rightarrow> bool" where
  "is_http u \<longleftrightarrow> url_scheme u = ''http'' \<or> url_scheme u = ''https''"

text \<open>A concrete URL used by the evaluated examples of the component theories.\<close>

definition example_url :: url where
  "example_url =
    \<lparr>url_text = ''https://example.org/feed'', url_scheme = ''https'',
     url_host = Some ''example.org'', url_port = None, url_path = ''/feed'', url_query = None,
     url_fragment = None, url_username = [], url_password = None\<rparr>"

definition example_parser :: url_parser where
  "example_parser s = (if s = ''https://example.org/feed'' then Some example_url else None)"

end
