(* ===== verification/Article.thy ===== *)
theory Article
  imports Versioned Url
begin

text \<open>
  \<open>reader-core/src/article.rs\<close>: articles of a workspace library. The deduplication key is the exact
  location, title and description; a URL-less entry is identified by its source and upstream id.
  \<open>origins\<close> are the source records the article was delivered from. Merging and splitting regroup
  articles when keys change.
\<close>

datatype article_location =
  UrlLocation string url
| SourceRecordLocation source_id string

definition location_url :: "string \<Rightarrow> url \<Rightarrow> article_location" where
  "location_url exact fetch = UrlLocation exact fetch"

primrec exact_url :: "article_location \<Rightarrow> string option" where
  "exact_url (UrlLocation exact fetch) = Some exact"
| "exact_url (SourceRecordLocation s u) = None"

primrec fetch_url :: "article_location \<Rightarrow> url option" where
  "fetch_url (UrlLocation exact fetch) = Some fetch"
| "fetch_url (SourceRecordLocation s u) = None"

definition location_from_url :: "url \<Rightarrow> article_location" where
  "location_from_url fetch = location_url (url_text fetch) fetch"

record dedup_key =
  dk_location :: article_location
  dk_title :: string
  dk_description :: "string option"

record article_state =
  as_read :: bool
  as_later :: bool
  as_protect_unread :: bool

definition article_state_merge :: "article_state list \<Rightarrow> article_state option" where
  "article_state_merge values =
    (if values = [] then None
     else Some \<lparr>as_read = list_all as_read values, as_later = list_ex as_later values,
                as_protect_unread = list_ex as_protect_unread values\<rparr>)"

record article =
  art_id :: article_id
  art_key :: dedup_key
  art_state :: article_state
  art_first_arrived_at :: instant
  art_origins :: "source_record_id list"
  art_revision :: u64

definition attach_origin :: "source_record_id \<Rightarrow> article \<Rightarrow> article" where
  "attach_origin origin a =
    (if origin \<notin> set (art_origins a)
     then a\<lparr>art_origins := art_origins a @ [origin], art_revision := art_revision a + 1\<rparr>
     else a)"

text \<open>\<open>Iterator::position\<close> and \<open>Vec::remove\<close>.\<close>

fun position :: "('a \<Rightarrow> bool) \<Rightarrow> 'a list \<Rightarrow> nat option" where
  "position P [] = None"
| "position P (x # xs) = (if P x then Some 0 else map_option Suc (position P xs))"

definition remove_at :: "nat \<Rightarrow> 'a list \<Rightarrow> 'a list" where
  "remove_at i xs = take i xs @ drop (Suc i) xs"

definition detach_origin :: "source_record_id \<Rightarrow> article \<Rightarrow> bool \<times> article" where
  "detach_origin origin a =
    (case position (\<lambda>v. v = origin) (art_origins a) of
       Some i \<Rightarrow>
         (True, a\<lparr>art_origins := remove_at i (art_origins a), art_revision := art_revision a + 1\<rparr>)
     | None \<Rightarrow> (False, a))"

text \<open>The loop of \<open>Article::merge\<close> that keeps the first occurrence of every origin.\<close>

fun push_new :: "'a list \<Rightarrow> 'a list \<Rightarrow> 'a list" where
  "push_new acc [] = acc"
| "push_new acc (x # xs) = push_new (if x \<in> set acc then acc else acc @ [x]) xs"

definition min_opt :: "instant list \<Rightarrow> instant option" where
  "min_opt xs = (case xs of [] \<Rightarrow> None | y # ys \<Rightarrow> Some (fold min ys y))"

definition article_merge :: "article_id \<Rightarrow> article list \<Rightarrow> article option" where
  "article_merge i articles =
    (case articles of
       [] \<Rightarrow> None
     | a # _ \<Rightarrow>
         let first = art_key a in
         if list_ex (\<lambda>b. art_key b \<noteq> first) articles then None
         else Option.bind (article_state_merge (map art_state articles)) (\<lambda>state.
           Option.bind (min_opt (map art_first_arrived_at articles)) (\<lambda>arrived.
             Some \<lparr>art_id = i, art_key = first, art_state = state,
                   art_first_arrived_at = arrived,
                   art_origins = push_new [] (concat (map art_origins articles)),
                   art_revision = 0\<rparr>)))"

definition split_with_keys ::
  "article \<Rightarrow> (article_id \<times> dedup_key \<times> source_record_id list) list \<Rightarrow> article list" where
  "split_with_keys a parts =
    map (\<lambda>(i, key, origins).
      \<lparr>art_id = i, art_key = key, art_state = art_state a,
       art_first_arrived_at = art_first_arrived_at a, art_origins = origins,
       art_revision = 0\<rparr>) parts"

definition article_wf :: "article \<Rightarrow> bool" where
  "article_wf a \<longleftrightarrow> distinct (art_origins a)"

lemma position_Some:
  "position P xs = Some i \<Longrightarrow> i < length xs \<and> P (xs ! i)"
  by (induction xs arbitrary: i) (auto split: if_splits)

lemma position_None: "position P xs = None \<longleftrightarrow> (\<forall>x \<in> set xs. \<not> P x)"
  by (induction xs) auto

lemma remove_at_distinct:
  assumes "distinct xs" and "i < length xs"
  shows "distinct (remove_at i xs)" and "set (remove_at i xs) = set xs - {xs ! i}"
proof -
  have split: "xs = take i xs @ xs ! i # drop (Suc i) xs"
    using assms(2) by (rule id_take_nth_drop)
  from assms(1) have "distinct (take i xs @ xs ! i # drop (Suc i) xs)"
    using split by simp
  then show "distinct (remove_at i xs)" by (simp add: remove_at_def)
  have "set xs = set (take i xs @ xs ! i # drop (Suc i) xs)" using split by simp
  then show "set (remove_at i xs) = set xs - {xs ! i}"
    using \<open>distinct (take i xs @ xs ! i # drop (Suc i) xs)\<close> by (auto simp: remove_at_def)
qed

lemma push_new_set [simp]: "set (push_new acc xs) = set acc \<union> set xs"
  by (induction xs arbitrary: acc) auto

lemma push_new_distinct: "distinct acc \<Longrightarrow> distinct (push_new acc xs)"
  by (induction xs arbitrary: acc) auto

lemma push_new_prefix: "\<exists>ys. push_new acc xs = acc @ ys"
proof (induction xs arbitrary: acc)
  case (Cons x xs)
  show ?case
    using Cons.IH [of acc] Cons.IH [of "acc @ [x]"] by auto
qed simp

lemma fold_min_le: "fold min ys (y :: instant) \<le> y \<and> (\<forall>z \<in> set ys. fold min ys y \<le> z)"
proof (induction ys arbitrary: y)
  case (Cons x ys)
  from Cons.IH [of "min x y"] show ?case by auto
qed simp

lemma fold_min_mem: "fold min ys (y :: instant) \<in> insert y (set ys)"
proof (induction ys arbitrary: y)
  case (Cons x ys)
  from Cons.IH [of "min x y"] show ?case by (auto simp: min_def split: if_splits)
qed simp

lemma attach_origin_wf [keep_inv]: "article_wf a \<Longrightarrow> article_wf (attach_origin r a)"
  by (simp add: article_wf_def attach_origin_def)

lemma detach_origin_wf [keep_inv]: "article_wf a \<Longrightarrow> article_wf (snd (detach_origin r a))"
  by (auto simp: article_wf_def detach_origin_def dest: position_Some remove_at_distinct(1)
      split: option.splits)

datatype article_op = AttachOrigin source_record_id | DetachOrigin source_record_id

primrec article_perform :: "article_op \<Rightarrow> article \<Rightarrow> article" where
  "article_perform (AttachOrigin r) a = attach_origin r a"
| "article_perform (DetachOrigin r) a = snd (detach_origin r a)"

interpretation art: versioned article_perform art_revision
proof
  fix op a
  show "article_perform op a = a \<or> art_revision (article_perform op a) = art_revision a + 1"
    by (cases op) (auto simp: attach_origin_def detach_origin_def split: option.splits)
qed

text \<open>Attaching and detaching an origin are inverse and idempotent on the set of origins: after
  an attach the origin is present once, attaching it again changes nothing (not even the revision),
  detaching it restores the previous origins and reports success, and detaching an absent origin
  reports failure and changes nothing.\<close>

theorem attach_detach_origin:
  assumes "distinct (art_origins a)"
  shows "set (art_origins (attach_origin r a)) = insert r (set (art_origins a))
    \<and> distinct (art_origins (attach_origin r a))
    \<and> attach_origin r (attach_origin r a) = attach_origin r a
    \<and> fst (detach_origin r (attach_origin r a))
    \<and> set (art_origins (snd (detach_origin r (attach_origin r a)))) = set (art_origins a) - {r}
    \<and> (r \<notin> set (art_origins a) \<longrightarrow> detach_origin r a = (False, a))"
proof -
  let ?b = "attach_origin r a"
  have wf: "distinct (art_origins ?b)" and mem: "r \<in> set (art_origins ?b)"
    using assms by (auto simp: attach_origin_def)
  then obtain i where i: "position (\<lambda>v. v = r) (art_origins ?b) = Some i"
    using position_None [of "\<lambda>v. v = r" "art_origins ?b"] by (cases "position (\<lambda>v. v = r) (art_origins ?b)") auto
  have "set (remove_at i (art_origins ?b)) = set (art_origins ?b) - {r}"
    using remove_at_distinct(2) [OF wf] position_Some [OF i] by auto
  then have "fst (detach_origin r ?b)
      \<and> set (art_origins (snd (detach_origin r ?b))) = set (art_origins a) - {r}"
    using i by (auto simp: detach_origin_def attach_origin_def)
  moreover have "r \<notin> set (art_origins a) \<longrightarrow> detach_origin r a = (False, a)"
    using position_None [of "\<lambda>v. v = r" "art_origins a"]
    by (auto simp: detach_origin_def split: option.splits)
  ultimately show ?thesis
    using wf mem by (auto simp: attach_origin_def)
qed

definition example_article :: article where
  "example_article =
    \<lparr>art_id = 5,
     art_key = \<lparr>dk_location = location_from_url example_url, dk_title = ''T'', dk_description = None\<rparr>,
     art_state = \<lparr>as_read = False, as_later = False, as_protect_unread = False\<rparr>,
     art_first_arrived_at = 100, art_origins = [1, 2], art_revision = 3\<rparr>"

theorem attach_detach_origin_witness:
  "attach_origin 9 (attach_origin 9 example_article) = attach_origin 9 example_article
    \<and> fst (detach_origin 9 (attach_origin 9 example_article))"
proof -
  have "distinct (art_origins example_article)" by (simp add: example_article_def)
  from attach_detach_origin [OF this, of 9] show ?thesis by simp
qed

text \<open>Merging articles with one common key loses nothing: the result is read only if every part
  was read, is for later or protected if any part was, arrived when the earliest part did, and its
  origins are all origins of the parts, each once. Articles with different keys never merge, and
  merging nothing gives nothing.\<close>

theorem article_merge_spec:
  "(articles = [] \<or> (\<exists>a \<in> set articles. \<exists>b \<in> set articles. art_key a \<noteq> art_key b) \<longrightarrow>
      article_merge i articles = None)
    \<and> (articles \<noteq> [] \<and> (\<forall>a \<in> set articles. art_key a = k) \<longrightarrow>
      (\<exists>m. article_merge i articles = Some m \<and> art_id m = i \<and> art_key m = k
        \<and> as_read (art_state m) = (\<forall>a \<in> set articles. as_read (art_state a))
        \<and> as_later (art_state m) = (\<exists>a \<in> set articles. as_later (art_state a))
        \<and> as_protect_unread (art_state m) = (\<exists>a \<in> set articles. as_protect_unread (art_state a))
        \<and> art_first_arrived_at m = Min (art_first_arrived_at ` set articles)
        \<and> distinct (art_origins m)
        \<and> set (art_origins m) = (\<Union>a \<in> set articles. set (art_origins a))
        \<and> art_revision m = 0))"
proof (cases articles)
  case (Cons a as)
  have "fold min ys y = Min (insert y (set ys))" for y and ys :: "instant list"
    by (rule Min_eqI [symmetric]) (use fold_min_le [of ys y] fold_min_mem [of ys y] in auto)
  with Cons show ?thesis
    by (auto simp: article_merge_def article_state_merge_def min_opt_def list_ex_iff list_all_iff
        push_new_distinct Let_def)
qed (simp add: article_merge_def)

theorem article_merge_spec_witness:
  "\<exists>m. article_merge 8 [example_article, example_article\<lparr>art_origins := [2, 4], art_id := 6\<rparr>] = Some m
    \<and> art_id m = 8 \<and> art_revision m = 0"
  using article_merge_spec
    [of "[example_article, example_article\<lparr>art_origins := [2, 4], art_id := 6\<rparr>]" 8
      "art_key example_article"]
  by auto

end
