(* ===== verification/Rules.thy ===== *)
theory Rules
  imports Article
begin

text \<open>
  \<open>reader-core/src/rules.rs\<close>: rules that mark matching articles of a subscription as read. The
  lower-casing of text is Unicode data of the standard library and stays a parameter
  (\<open>lower\<close>, \<open>str::to_lowercase\<close>). A pending evaluation is tied to the rule version it was queued for.
\<close>

datatype rule_field = RuleTitle | RuleText | RuleBoth
datatype rule_action = MarkRead

record rule =
  rule_id :: rule_id
  rule_subscription :: subscription_id
  rule_version :: u64
  rule_enabled :: bool
  rule_field :: rule_field
  rule_needles :: "string list"
  rule_action :: rule_action

datatype rule_validation_error = InvalidPhrase

definition rule_validate :: "rule \<Rightarrow> rule_validation_error + unit" where
  "rule_validate r =
    (case rule_needles r of
       [n] \<Rightarrow> if trim n = [] \<or> trim n \<noteq> n then Inl InvalidPhrase else Inr ()
     | _ \<Rightarrow> Inl InvalidPhrase)"

definition rule_matches :: "(string \<Rightarrow> string) \<Rightarrow> rule \<Rightarrow> string \<Rightarrow> string option \<Rightarrow> bool" where
  "rule_matches lower r title text =
    (if \<not> rule_enabled r \<or> rule_needles r = [] then False
     else
       let title = lower title;
           text = lower (case text of Some t \<Rightarrow> t | None \<Rightarrow> [])
       in list_ex (\<lambda>n. let n = lower n in
            case rule_field r of
              RuleTitle \<Rightarrow> contains title n
            | RuleText \<Rightarrow> contains text n
            | RuleBoth \<Rightarrow> contains title n \<or> contains text n) (rule_needles r))"

definition rule_apply :: "rule \<Rightarrow> article_state \<Rightarrow> article_state" where
  "rule_apply r st =
    (case rule_action r of MarkRead \<Rightarrow> if \<not> as_protect_unread st then st\<lparr>as_read := True\<rparr> else st)"

record pending_rule_evaluation =
  pre_rule :: rule_id
  pre_version :: u64
  pre_subscription :: subscription_id

definition still_valid_for :: "pending_rule_evaluation \<Rightarrow> rule \<Rightarrow> bool" where
  "still_valid_for p r \<longleftrightarrow>
    rule_enabled r \<and> pre_rule p = rule_id r \<and> pre_version p = rule_version r
    \<and> pre_subscription p = rule_subscription r"

lemma rule_validate_ok:
  "rule_validate r = Inr () \<longleftrightarrow> (\<exists>n. rule_needles r = [n] \<and> \<not> blank n \<and> trim n = n)"
  by (auto simp: rule_validate_def trim_blank split: list.splits)

lemma rule_apply_state [simp]:
  "as_later (rule_apply r st) = as_later st"
  "as_protect_unread (rule_apply r st) = as_protect_unread st"
  "as_read st \<Longrightarrow> as_read (rule_apply r st)"
  by (cases "rule_action r"; simp add: rule_apply_def)+

lemma rule_apply_fold [simp]:
  "as_protect_unread (fold rule_apply rs st) = as_protect_unread st"
  by (induction rs arbitrary: st) simp_all

text \<open>However many rules run over an article, in whatever order, an unread state the user has
  protected stays exactly as it is, and an unprotected one only ever changes from unread to read;
  the outcome does not depend on the order or on repetition.\<close>

theorem rules_respect_protection:
  "fold rule_apply rs st =
    (if rs = [] \<or> as_protect_unread st then st else st\<lparr>as_read := True\<rparr>)"
proof (induction rs arbitrary: st)
  case (Cons r rs)
  have "rule_apply r st = (if as_protect_unread st then st else st\<lparr>as_read := True\<rparr>)"
    by (cases "rule_action r") (simp add: rule_apply_def)
  with Cons.IH [of "rule_apply r st"] show ?case by simp
qed simp

text \<open>A valid rule (one non-blank phrase without surrounding whitespace) that is enabled matches
  exactly when the lower-cased phrase occurs as a contiguous part of the lower-cased title, text or
  either, as its field says; a missing text counts as empty.\<close>

theorem rule_matches_spec:
  assumes "rule_validate r = Inr ()" and "rule_enabled r" and "n \<in> set (rule_needles r)"
  shows "rule_matches lower r title text \<longleftrightarrow>
    rule_field r \<noteq> RuleText \<and> (\<exists>u v. lower title = u @ lower n @ v)
    \<or> rule_field r \<noteq> RuleTitle
      \<and> (\<exists>u v. lower (case text of Some t \<Rightarrow> t | None \<Rightarrow> []) = u @ lower n @ v)"
proof -
  have "rule_needles r = [n]" using assms(1,3) by (auto simp: rule_validate_ok)
  with assms(2) show ?thesis
    by (cases "rule_field r") (simp_all add: rule_matches_def contains_iff Let_def)
qed

definition example_rule :: rule where
  "example_rule =
    \<lparr>rule_id = 1, rule_subscription = 2, rule_version = 0, rule_enabled = True,
     rule_field = RuleTitle, rule_needles = [''ad''], rule_action = MarkRead\<rparr>"

theorem rule_matches_spec_witness:
  "rule_matches id example_rule ''an ad here'' None"
proof -
  have "trim ''ad'' = ''ad''" by (simp add: trim_ascii is_whitespace_def)
  then have v: "rule_validate example_rule = Inr ()"
    by (simp add: rule_validate_def example_rule_def)
  have "\<exists>u v. id ''an ad here'' = u @ id ''ad'' @ v"
    by (rule exI [of _ "''an ''"], rule exI [of _ "'' here''"]) simp
  moreover have "rule_enabled example_rule" "''ad'' \<in> set (rule_needles example_rule)"
    "rule_field example_rule \<noteq> RuleText"
    by (simp_all add: example_rule_def)
  ultimately show ?thesis
    using rule_matches_spec [OF v, of "''ad''" id "''an ad here''" None] by blast
qed

end
