(* ===== verification/Web_Feed.thy ===== *)
theory Web_Feed
  imports Versioned Url
begin

text \<open>
  \<open>reader-core/src/web_feed.rs\<close>: recipes for collecting a feed from a web page. Values are built only
  through checked constructors: a selector must be non-blank and parse, an action plan must fit the
  page and action limits, a recipe must not run XPath without a browser. \<open>PreparedWebFeed\<close> checks an
  authored draft against the deployment limits; stored recipes re-enter through \<open>Deserialize\<close>.
  The CSS parser, the regex compiler and the URL parser are third-party and form the parameter
  \<open>web_env\<close>.
\<close>

record web_env =
  css_parses :: "string \<Rightarrow> bool"
  regex_compiles :: "string \<Rightarrow> bool"
  parse_url :: url_parser

datatype web_loading = Automatic | Static | Browser
datatype selector_language = Css | XPath
datatype web_viewport = Desktop | Mobile

datatype web_feed_error =
  EmptySelector | InvalidSelector | InvalidUrlPattern | XPathRequiresBrowser
| LimitExceeded string | ZeroLimit string

text \<open>The \<open>Display\<close> text of the error, as \<open>to_string\<close> gives it.\<close>

primrec web_feed_error_text :: "web_feed_error \<Rightarrow> string" where
  "web_feed_error_text EmptySelector = ''Web feed selector must not be empty''"
| "web_feed_error_text InvalidSelector = ''selector syntax is invalid''"
| "web_feed_error_text InvalidUrlPattern = ''URL pattern syntax is invalid''"
| "web_feed_error_text XPathRequiresBrowser =
    ''XPath selection requires browser or automatic loading''"
| "web_feed_error_text (LimitExceeded f) = ''configured Web feed limit exceeded: '' @ f"
| "web_feed_error_text (ZeroLimit f) = ''configured limit '' @ f @ '' must be greater than zero''"

record web_selector =
  sel_language :: selector_language
  sel_expression :: string

definition web_selector_new ::
  "web_env \<Rightarrow> selector_language \<Rightarrow> string \<Rightarrow> web_feed_error + web_selector" where
  "web_selector_new env language expression =
    (if trim expression = [] then Inl EmptySelector
     else if language = Css then
       (if css_parses env expression
        then Inr \<lparr>sel_language = language, sel_expression = expression\<rparr>
        else Inl InvalidSelector)
     else if \<not> starts_with (trim_start expression) ''/'' \<and> \<not> starts_with (trim_start expression) ''(''
     then Inl InvalidSelector
     else Inr \<lparr>sel_language = language, sel_expression = expression\<rparr>)"

record web_feed_actions =
  wa_viewport :: web_viewport
  wa_hide_overlays :: "web_selector list"
  wa_start_pages :: "url list"
  wa_next_page :: "web_selector option"
  wa_load_more :: "web_selector option"
  wa_load_more_clicks :: nat
  wa_scrolls :: nat

definition page_count :: "web_feed_actions \<Rightarrow> nat" where
  "page_count a = saturating_add_usize (length (wa_start_pages a)) 1"

text \<open>\<open>action_count\<close> adds with the wrapping \<open>usize\<close> addition of the release build.\<close>

definition action_count :: "web_feed_actions \<Rightarrow> nat" where
  "action_count a =
    (length (wa_hide_overlays a) + wa_load_more_clicks a + wa_scrolls a
      + (if is_some (wa_next_page a) then 1 else 0)) mod (usize_max + 1)"

definition web_feed_actions_new ::
  "web_viewport \<Rightarrow> web_selector list \<Rightarrow> url list \<Rightarrow> web_selector option \<Rightarrow> web_selector option
    \<Rightarrow> nat \<Rightarrow> nat \<Rightarrow> nat \<Rightarrow> nat \<Rightarrow> web_feed_error + web_feed_actions" where
  "web_feed_actions_new viewport overlays pages next_page load_more clicks scrolls max_pages max_actions =
    (let v = \<lparr>wa_viewport = viewport, wa_hide_overlays = overlays, wa_start_pages = pages,
              wa_next_page = next_page, wa_load_more = load_more, wa_load_more_clicks = clicks,
              wa_scrolls = scrolls\<rparr>
     in if page_count v > max_pages then Inl (LimitExceeded ''start_pages'')
     else
       and_then
         (ok_or
           (Option.bind (checked_add_usize (length overlays) clicks) (\<lambda>n.
             Option.bind (checked_add_usize n scrolls) (\<lambda>n.
               checked_add_usize n (if is_some next_page then 1 else 0))))
           (LimitExceeded ''actions''))
         (\<lambda>count. if count > max_actions then Inl (LimitExceeded ''actions'') else Inr v))"

definition web_feed_actions_default :: web_feed_actions where
  "web_feed_actions_default =
    \<lparr>wa_viewport = Desktop, wa_hide_overlays = [], wa_start_pages = [], wa_next_page = None,
     wa_load_more = None, wa_load_more_clicks = 0, wa_scrolls = 0\<rparr>"

record web_extraction =
  we_listing_url :: "url option"
  we_card :: "web_selector option"
  we_title :: "web_selector option"
  we_date :: "web_selector option"
  we_content :: "web_selector option"
  we_wait :: "web_selector option"
  we_url_pattern :: "string option"

definition web_extraction_default :: web_extraction where
  "web_extraction_default =
    \<lparr>we_listing_url = None, we_card = None, we_title = None, we_date = None, we_content = None,
     we_wait = None, we_url_pattern = None\<rparr>"

definition web_extraction_new ::
  "web_env \<Rightarrow> url option \<Rightarrow> string option \<Rightarrow> string option \<Rightarrow> string option \<Rightarrow> string option
    \<Rightarrow> string option \<Rightarrow> string option \<Rightarrow> web_feed_error + web_extraction" where
  "web_extraction_new env listing card_sel title date content wait pattern =
    (let css = try_opt (web_selector_new env Css) in
     and_then
       (case pattern of
          Some v \<Rightarrow> if regex_compiles env v then Inr () else Inl InvalidUrlPattern
        | None \<Rightarrow> Inr ()) (\<lambda>_.
     and_then (css card_sel) (\<lambda>card_sel.
     and_then (css title) (\<lambda>title.
     and_then (css date) (\<lambda>date.
     and_then (css content) (\<lambda>content.
     and_then (css wait) (\<lambda>wait.
       Inr \<lparr>we_listing_url = listing, we_card = card_sel, we_title = title, we_date = date,
            we_content = content, we_wait = wait, we_url_pattern = pattern\<rparr>)))))))"

record web_feed_recipe =
  wr_selector :: web_selector
  wr_loading :: web_loading
  wr_actions :: web_feed_actions
  wr_extraction :: web_extraction
  wr_max_pages :: nat

definition recipe_configured ::
  "web_selector \<Rightarrow> web_loading \<Rightarrow> web_feed_actions \<Rightarrow> web_extraction \<Rightarrow> nat
    \<Rightarrow> web_feed_error + web_feed_recipe" where
  "recipe_configured selector loading actions extraction max_pages =
    (if loading = Static \<and> sel_language selector = XPath then Inl XPathRequiresBrowser
     else if max_pages = 0 then Inl (ZeroLimit ''web_feed.max_pages'')
     else Inr \<lparr>wr_selector = selector, wr_loading = loading, wr_actions = actions,
               wr_extraction = extraction, wr_max_pages = max_pages\<rparr>)"

definition recipe_advanced ::
  "web_selector \<Rightarrow> web_loading \<Rightarrow> web_feed_actions \<Rightarrow> web_feed_error + web_feed_recipe" where
  "recipe_advanced selector loading actions =
    recipe_configured selector loading actions web_extraction_default 1"

definition recipe_new :: "web_env \<Rightarrow> string \<Rightarrow> web_loading \<Rightarrow> web_feed_error + web_feed_recipe" where
  "recipe_new env selector loading =
    and_then (web_selector_new env Css selector) (\<lambda>s.
      recipe_advanced s loading web_feed_actions_default)"

record selector_draft =
  sd_language :: string
  sd_expression :: string

record web_feed_recipe_draft =
  wd_workspace_id :: uuid
  wd_url :: string
  wd_selector :: string
  wd_loading :: string
  wd_preview :: "bool option"
  wd_selector_language :: "string option"
  wd_viewport :: "string option"
  wd_listing_url :: "string option"
  wd_card_selector :: "string option"
  wd_title_selector :: "string option"
  wd_date_selector :: "string option"
  wd_content_selector :: "string option"
  wd_wait_selector :: "string option"
  wd_url_pattern :: "string option"
  wd_max_pages :: "nat option"
  wd_hide_overlays :: "selector_draft list"
  wd_start_pages :: "string list"
  wd_next_page :: "selector_draft option"
  wd_load_more :: "selector_draft option"
  wd_load_more_clicks :: nat
  wd_scrolls :: nat

definition selector_language_of :: "string \<Rightarrow> string + selector_language" where
  "selector_language_of s =
    (if s = ''css'' then Inr Css else if s = ''xpath'' then Inr XPath
     else Inl ''invalid selector language'')"

definition draft_selector :: "web_env \<Rightarrow> selector_draft \<Rightarrow> string + web_selector" where
  "draft_selector env v =
    and_then (selector_language_of (sd_language v)) (\<lambda>language.
      map_err web_feed_error_text (web_selector_new env language (sd_expression v)))"

definition recipe_from_draft ::
  "web_env \<Rightarrow> web_feed_recipe_draft \<Rightarrow> nat \<Rightarrow> nat \<Rightarrow> string + web_feed_recipe" where
  "recipe_from_draft env d max_pages max_actions =
    and_then
      (if wd_loading d = ''automatic'' then Inr Automatic
       else if wd_loading d = ''static'' then Inr Static
       else if wd_loading d = ''browser'' then Inr Browser
       else Inl ''invalid web feed loading mode'') (\<lambda>loading.
    and_then
      (selector_language_of (case wd_selector_language d of Some l \<Rightarrow> l | None \<Rightarrow> ''css'')) (\<lambda>language.
    and_then (map_err web_feed_error_text (web_selector_new env language (wd_selector d))) (\<lambda>primary.
    and_then
      (let v = (case wd_viewport d of Some v \<Rightarrow> v | None \<Rightarrow> ''desktop'') in
       if v = ''desktop'' then Inr Desktop else if v = ''mobile'' then Inr Mobile
       else Inl ''invalid viewport'') (\<lambda>viewport.
    and_then (try_map (draft_selector env) (wd_hide_overlays d)) (\<lambda>overlays.
    and_then
      (try_map (\<lambda>v. ok_or (parse_url env v) ''invalid start page URL'') (wd_start_pages d)) (\<lambda>pages.
    and_then (try_opt (draft_selector env) (wd_next_page d)) (\<lambda>next_page.
    and_then (try_opt (draft_selector env) (wd_load_more d)) (\<lambda>load_more.
    let requested_pages = (case wd_max_pages d of Some n \<Rightarrow> n | None \<Rightarrow> 1) in
    if requested_pages = 0 \<or> requested_pages > max_pages
    then Inl ''web feed maxPages exceeds configured limit''
    else
    and_then
      (map_err web_feed_error_text
        (web_feed_actions_new viewport overlays pages next_page load_more
          (wd_load_more_clicks d) (wd_scrolls d) max_pages max_actions)) (\<lambda>actions.
    and_then (try_opt (\<lambda>v. ok_or (parse_url env v) ''invalid listing URL'') (wd_listing_url d)) (\<lambda>listing.
    and_then
      (map_err web_feed_error_text
        (web_extraction_new env listing (wd_card_selector d) (wd_title_selector d)
          (wd_date_selector d) (wd_content_selector d) (wd_wait_selector d) (wd_url_pattern d))) (\<lambda>extraction.
    map_err web_feed_error_text
      (recipe_configured primary loading actions extraction requested_pages))))))))))))"

record prepared_web_feed =
  pw_draft :: web_feed_recipe_draft
  pw_recipe :: web_feed_recipe

definition prepared_web_feed_new ::
  "web_env \<Rightarrow> web_feed_recipe_draft \<Rightarrow> nat \<Rightarrow> nat \<Rightarrow> string + prepared_web_feed" where
  "prepared_web_feed_new env d max_pages max_actions =
    (if max_pages = 0 \<or> max_actions = 0
     then Inl ''web feed configuration limits must be positive''
     else if wd_workspace_id d = 0 then Inl ''missing workspace identity''
     else
       and_then (ok_or (parse_url env (wd_url d)) ''invalid web feed URL'') (\<lambda>u.
         if \<not> is_http u \<or> url_host u = None then Inl ''invalid web feed URL''
         else and_then (recipe_from_draft env d max_pages max_actions) (\<lambda>recipe.
           Inr \<lparr>pw_draft = d, pw_recipe = recipe\<rparr>)))"

section \<open>Deserialisation\<close>

text \<open>
  The \<open>Raw\<close> structures of the \<open>Deserialize\<close> implementations. Their nested values are deserialised
  first, in declaration order, each through its own checked constructor; then the outer constructor
  runs. The serialised form of a value (\<open>Serialize\<close> is derived) is its \<open>Raw\<close> structure.
\<close>

type_synonym raw_selector = "selector_language \<times> string"

record raw_actions =
  ra_viewport :: web_viewport
  ra_hide_overlays :: "raw_selector list"
  ra_start_pages :: "url list"
  ra_next_page :: "raw_selector option"
  ra_load_more :: "raw_selector option"
  ra_load_more_clicks :: nat
  ra_scrolls :: nat

record raw_extraction =
  rx_listing_url :: "url option"
  rx_card :: "raw_selector option"
  rx_title :: "raw_selector option"
  rx_date :: "raw_selector option"
  rx_content :: "raw_selector option"
  rx_wait :: "raw_selector option"
  rx_url_pattern :: "string option"

record raw_recipe =
  rr_selector :: raw_selector
  rr_loading :: web_loading
  rr_actions :: raw_actions
  rr_extraction :: raw_extraction
  rr_max_pages :: nat

definition deserialize_selector :: "web_env \<Rightarrow> raw_selector \<Rightarrow> string + web_selector" where
  "deserialize_selector env raw =
    map_err web_feed_error_text (web_selector_new env (fst raw) (snd raw))"

definition deserialize_actions :: "web_env \<Rightarrow> raw_actions \<Rightarrow> string + web_feed_actions" where
  "deserialize_actions env raw =
    and_then (try_map (deserialize_selector env) (ra_hide_overlays raw)) (\<lambda>overlays.
    and_then (try_opt (deserialize_selector env) (ra_next_page raw)) (\<lambda>next_page.
    and_then (try_opt (deserialize_selector env) (ra_load_more raw)) (\<lambda>load_more.
    map_err web_feed_error_text
      (web_feed_actions_new (ra_viewport raw) overlays (ra_start_pages raw) next_page load_more
        (ra_load_more_clicks raw) (ra_scrolls raw) usize_max usize_max))))"

definition css_expression :: "web_selector option \<Rightarrow> string + string option" where
  "css_expression v =
    try_opt (\<lambda>s. if sel_language s \<noteq> Css then Inl ''extraction selectors must be CSS''
      else Inr (sel_expression s)) v"

definition deserialize_extraction :: "web_env \<Rightarrow> raw_extraction \<Rightarrow> string + web_extraction" where
  "deserialize_extraction env raw =
    and_then (try_opt (deserialize_selector env) (rx_card raw)) (\<lambda>card_sel.
    and_then (try_opt (deserialize_selector env) (rx_title raw)) (\<lambda>title.
    and_then (try_opt (deserialize_selector env) (rx_date raw)) (\<lambda>date.
    and_then (try_opt (deserialize_selector env) (rx_content raw)) (\<lambda>content.
    and_then (try_opt (deserialize_selector env) (rx_wait raw)) (\<lambda>wait.
    and_then (css_expression card_sel) (\<lambda>card_sel.
    and_then (css_expression title) (\<lambda>title.
    and_then (css_expression date) (\<lambda>date.
    and_then (css_expression content) (\<lambda>content.
    and_then (css_expression wait) (\<lambda>wait.
    map_err web_feed_error_text
      (web_extraction_new env (rx_listing_url raw) card_sel title date content wait
        (rx_url_pattern raw))))))))))))"

definition deserialize_recipe :: "web_env \<Rightarrow> raw_recipe \<Rightarrow> string + web_feed_recipe" where
  "deserialize_recipe env raw =
    and_then (deserialize_selector env (rr_selector raw)) (\<lambda>selector.
    and_then (deserialize_actions env (rr_actions raw)) (\<lambda>actions.
    and_then (deserialize_extraction env (rr_extraction raw)) (\<lambda>extraction.
    map_err web_feed_error_text
      (recipe_configured selector (rr_loading raw) actions extraction (rr_max_pages raw)))))"

definition serialize_selector :: "web_selector \<Rightarrow> raw_selector" where
  "serialize_selector s = (sel_language s, sel_expression s)"

definition serialize_actions :: "web_feed_actions \<Rightarrow> raw_actions" where
  "serialize_actions a =
    \<lparr>ra_viewport = wa_viewport a, ra_hide_overlays = map serialize_selector (wa_hide_overlays a),
     ra_start_pages = wa_start_pages a, ra_next_page = map_option serialize_selector (wa_next_page a),
     ra_load_more = map_option serialize_selector (wa_load_more a),
     ra_load_more_clicks = wa_load_more_clicks a, ra_scrolls = wa_scrolls a\<rparr>"

definition serialize_extraction :: "web_extraction \<Rightarrow> raw_extraction" where
  "serialize_extraction x =
    \<lparr>rx_listing_url = we_listing_url x, rx_card = map_option serialize_selector (we_card x),
     rx_title = map_option serialize_selector (we_title x),
     rx_date = map_option serialize_selector (we_date x),
     rx_content = map_option serialize_selector (we_content x),
     rx_wait = map_option serialize_selector (we_wait x), rx_url_pattern = we_url_pattern x\<rparr>"

definition serialize_recipe :: "web_feed_recipe \<Rightarrow> raw_recipe" where
  "serialize_recipe r =
    \<lparr>rr_selector = serialize_selector (wr_selector r), rr_loading = wr_loading r,
     rr_actions = serialize_actions (wr_actions r),
     rr_extraction = serialize_extraction (wr_extraction r), rr_max_pages = wr_max_pages r\<rparr>"

section \<open>What the constructors guarantee\<close>

definition selector_ok :: "web_env \<Rightarrow> web_selector \<Rightarrow> bool" where
  "selector_ok env s \<longleftrightarrow>
    \<not> blank (sel_expression s)
    \<and> (case sel_language s of
         Css \<Rightarrow> css_parses env (sel_expression s)
       | XPath \<Rightarrow> starts_with (trim_start (sel_expression s)) ''/''
           \<or> starts_with (trim_start (sel_expression s)) ''('')"

definition css_selector_ok :: "web_env \<Rightarrow> web_selector option \<Rightarrow> bool" where
  "css_selector_ok env v \<longleftrightarrow> (\<forall>s. v = Some s \<longrightarrow> selector_ok env s \<and> sel_language s = Css)"

definition planned_actions :: "web_feed_actions \<Rightarrow> nat" where
  "planned_actions a =
    length (wa_hide_overlays a) + wa_load_more_clicks a + wa_scrolls a
      + (if is_some (wa_next_page a) then 1 else 0)"

definition actions_ok :: "web_env \<Rightarrow> nat \<Rightarrow> nat \<Rightarrow> web_feed_actions \<Rightarrow> bool" where
  "actions_ok env max_pages max_actions a \<longleftrightarrow>
    (\<forall>s \<in> set (wa_hide_overlays a). selector_ok env s)
    \<and> (\<forall>s. wa_next_page a = Some s \<longrightarrow> selector_ok env s)
    \<and> (\<forall>s. wa_load_more a = Some s \<longrightarrow> selector_ok env s)
    \<and> page_count a \<le> max_pages \<and> planned_actions a \<le> min usize_max max_actions"

definition extraction_ok :: "web_env \<Rightarrow> web_extraction \<Rightarrow> bool" where
  "extraction_ok env x \<longleftrightarrow>
    css_selector_ok env (we_card x) \<and> css_selector_ok env (we_title x)
    \<and> css_selector_ok env (we_date x) \<and> css_selector_ok env (we_content x)
    \<and> css_selector_ok env (we_wait x)
    \<and> (\<forall>p. we_url_pattern x = Some p \<longrightarrow> regex_compiles env p)"

definition recipe_ok :: "web_env \<Rightarrow> nat \<Rightarrow> nat \<Rightarrow> web_feed_recipe \<Rightarrow> bool" where
  "recipe_ok env max_pages max_actions r \<longleftrightarrow>
    selector_ok env (wr_selector r)
    \<and> \<not> (wr_loading r = Static \<and> sel_language (wr_selector r) = XPath)
    \<and> actions_ok env max_pages max_actions (wr_actions r)
    \<and> extraction_ok env (wr_extraction r) \<and> wr_max_pages r > 0"

lemma web_selector_new_ok:
  "web_selector_new env l e = Inr s \<longleftrightarrow>
    s = \<lparr>sel_language = l, sel_expression = e\<rparr> \<and> selector_ok env s"
  by (cases l) (auto simp: web_selector_new_def selector_ok_def trim_blank)

lemma web_feed_actions_new_ok:
  "web_feed_actions_new vp ov pg nx lm cl sc mp ma = Inr a \<longleftrightarrow>
    a = \<lparr>wa_viewport = vp, wa_hide_overlays = ov, wa_start_pages = pg, wa_next_page = nx,
         wa_load_more = lm, wa_load_more_clicks = cl, wa_scrolls = sc\<rparr>
    \<and> page_count a \<le> mp \<and> planned_actions a \<le> min usize_max ma"
  by (auto simp: web_feed_actions_new_def planned_actions_def Let_def bind_eq_Some_conv)

lemma try_opt_selector_ok:
  "try_opt (web_selector_new env Css) v = Inr s \<Longrightarrow> css_selector_ok env s"
  by (cases v) (auto simp: css_selector_ok_def web_selector_new_ok)

lemma web_extraction_new_ok:
  "web_extraction_new env li ca ti da co wa pa = Inr x \<Longrightarrow> extraction_ok env x"
  by (auto simp: web_extraction_new_def extraction_ok_def Let_def try_opt_selector_ok
      split: option.splits if_splits)

lemma recipe_configured_ok:
  "recipe_configured s l a x n = Inr r \<longleftrightarrow>
    r = \<lparr>wr_selector = s, wr_loading = l, wr_actions = a, wr_extraction = x, wr_max_pages = n\<rparr>
    \<and> \<not> (l = Static \<and> sel_language s = XPath) \<and> n > 0"
  by (auto simp: recipe_configured_def)

lemma draft_selector_ok: "draft_selector env d = Inr s \<Longrightarrow> selector_ok env s"
  by (auto simp: draft_selector_def web_selector_new_ok)

lemma recipe_from_draft_ok:
  assumes "recipe_from_draft env d max_pages max_actions = Inr r"
  shows "recipe_ok env max_pages max_actions r \<and> wr_max_pages r \<le> max_pages"
proof -
  have sel: "selector_ok env s" if "try_opt (draft_selector env) v = Inr (Some s)" for v s
    using that by (cases v) (auto intro: draft_selector_ok)
  have sels: "\<forall>s \<in> set ss. selector_ok env s" if "try_map (draft_selector env) ds = Inr ss" for ds ss
    using that by (auto dest!: try_map_set intro: draft_selector_ok)
  from assms show ?thesis
    by (auto simp: recipe_from_draft_def recipe_configured_ok web_feed_actions_new_ok recipe_ok_def
        actions_ok_def web_selector_new_ok Let_def dest: sels sel web_extraction_new_ok
        split: if_splits)
qed

text \<open>Under the bounds every constructor establishes, the unchecked sum of \<open>action_count\<close> does not
  wrap.\<close>

lemma action_count_exact:
  "actions_ok env max_pages max_actions a \<Longrightarrow> action_count a = planned_actions a"
  by (simp add: actions_ok_def action_count_def planned_actions_def)

text \<open>Whatever draft is submitted, a \<open>PreparedWebFeed\<close> stays within the deployment limits: its
  URL is an absolute HTTP(S) URL of a non-nil workspace, the number of pages and of requested pages
  is between one and the configured maximum, \<open>action_count\<close> is the true (unwrapped) number of
  browser actions and is within the action limit, every selector is non-blank and accepted by the
  parser of its language, extraction selectors are CSS, and XPath is never combined with static
  loading.\<close>

theorem prepared_web_feed_limits:
  assumes "prepared_web_feed_new env d max_pages max_actions = Inr p"
  shows "pw_draft p = d \<and> wd_workspace_id d \<noteq> 0
    \<and> (\<exists>u. parse_url env (wd_url d) = Some u \<and> is_http u \<and> url_host u \<noteq> None)
    \<and> recipe_ok env max_pages max_actions (pw_recipe p)
    \<and> 1 \<le> wr_max_pages (pw_recipe p) \<and> wr_max_pages (pw_recipe p) \<le> max_pages
    \<and> page_count (wr_actions (pw_recipe p)) \<le> max_pages
    \<and> action_count (wr_actions (pw_recipe p)) = planned_actions (wr_actions (pw_recipe p))
    \<and> action_count (wr_actions (pw_recipe p)) \<le> max_actions"
proof -
  from assms obtain u r where u: "parse_url env (wd_url d) = Some u" "is_http u" "url_host u \<noteq> None"
    and r: "recipe_from_draft env d max_pages max_actions = Inr r"
    and p: "p = \<lparr>pw_draft = d, pw_recipe = r\<rparr>" "wd_workspace_id d \<noteq> 0"
    by (auto simp: prepared_web_feed_new_def split: if_splits)
  from recipe_from_draft_ok [OF r] have ok: "recipe_ok env max_pages max_actions r"
    and le: "wr_max_pages r \<le> max_pages" by auto
  then have acts: "actions_ok env max_pages max_actions (wr_actions r)" and "wr_max_pages r > 0"
    by (simp_all add: recipe_ok_def)
  with u p ok le action_count_exact [OF acts] show ?thesis
    by (auto simp: actions_ok_def)
qed

definition example_web_env :: web_env where
  "example_web_env =
    \<lparr>css_parses = (\<lambda>s. s = ''a''), regex_compiles = (\<lambda>_. False), parse_url = example_parser\<rparr>"

definition example_draft :: web_feed_recipe_draft where
  "example_draft =
    \<lparr>wd_workspace_id = 1, wd_url = ''https://example.org/feed'', wd_selector = ''a'',
     wd_loading = ''static'', wd_preview = None, wd_selector_language = None, wd_viewport = None,
     wd_listing_url = None, wd_card_selector = None, wd_title_selector = None,
     wd_date_selector = None, wd_content_selector = None, wd_wait_selector = None,
     wd_url_pattern = None, wd_max_pages = Some 2, wd_hide_overlays = [], wd_start_pages = [],
     wd_next_page = None, wd_load_more = None, wd_load_more_clicks = 1, wd_scrolls = 1\<rparr>"

lemma example_draft_prepares: "is_ok (prepared_web_feed_new example_web_env example_draft 3 5)"
proof -
  have "trim ''a'' = ''a''" by (simp add: trim_ascii is_whitespace_def)
  then show ?thesis
    by (simp add: prepared_web_feed_new_def recipe_from_draft_def example_web_env_def
        example_draft_def example_parser_def example_url_def is_http_def selector_language_of_def
        web_selector_new_def web_feed_actions_new_def web_extraction_new_def recipe_configured_def
        page_count_def saturating_add_usize_def usize_max_def checked_add_usize_def)
qed

theorem prepared_web_feed_limits_witness:
  "\<exists>p. prepared_web_feed_new example_web_env example_draft 3 5 = Inr p
    \<and> action_count (wr_actions (pw_recipe p)) \<le> 5 \<and> wr_max_pages (pw_recipe p) \<le> 3"
  using example_draft_prepares prepared_web_feed_limits [of example_web_env example_draft 3 5]
  by (auto simp: is_ok_iff)

lemma deserialize_serialize_selector [simp]:
  "selector_ok env s \<Longrightarrow> deserialize_selector env (serialize_selector s) = Inr s"
  by (cases s) (simp add: deserialize_selector_def serialize_selector_def web_selector_new_ok)

lemma try_opt_deserialize [simp]:
  "\<forall>s. v = Some s \<longrightarrow> selector_ok env s \<Longrightarrow>
    try_opt (deserialize_selector env) (map_option serialize_selector v) = Inr v"
  by (cases v) simp_all

lemma try_map_deserialize [simp]:
  "\<forall>s \<in> set ss. selector_ok env s \<Longrightarrow>
    try_map (deserialize_selector env) (map serialize_selector ss) = Inr ss"
  by (induction ss) simp_all

lemma css_selector_roundtrip:
  assumes "css_selector_ok env v"
  shows "try_opt (deserialize_selector env) (map_option serialize_selector v) = Inr v"
    and "css_expression v = Inr (map_option sel_expression v)"
    and "try_opt (web_selector_new env Css) (map_option sel_expression v) = Inr v"
proof -
  show "try_opt (deserialize_selector env) (map_option serialize_selector v) = Inr v"
    using assms by (cases v) (simp_all add: css_selector_ok_def)
  show "css_expression v = Inr (map_option sel_expression v)"
    using assms by (cases v) (simp_all add: css_selector_ok_def css_expression_def)
  show "try_opt (web_selector_new env Css) (map_option sel_expression v) = Inr v"
  proof (cases v)
    case (Some s)
    then obtain e where "s = \<lparr>sel_language = Css, sel_expression = e\<rparr>" and "selector_ok env s"
      using assms by (cases s) (simp add: css_selector_ok_def)
    with Some show ?thesis by (simp add: web_selector_new_ok)
  qed simp
qed

lemma deserialize_serialize_actions:
  "actions_ok env mp ma a \<Longrightarrow> deserialize_actions env (serialize_actions a) = Inr a"
  by (auto simp: deserialize_actions_def serialize_actions_def actions_ok_def
      web_feed_actions_new_ok page_count_def saturating_add_usize_def)

lemma web_extraction_rebuild:
  assumes "extraction_ok env x"
  shows "web_extraction_new env (we_listing_url x) (map_option sel_expression (we_card x))
      (map_option sel_expression (we_title x)) (map_option sel_expression (we_date x))
      (map_option sel_expression (we_content x)) (map_option sel_expression (we_wait x))
      (we_url_pattern x) = Inr x"
proof -
  have pattern: "(case we_url_pattern x of
       Some v \<Rightarrow> if regex_compiles env v then Inr () else Inl InvalidUrlPattern
     | None \<Rightarrow> Inr ()) = Inr ()"
    using assms by (simp add: extraction_ok_def split: option.split)
  from assms have css: "css_selector_ok env (we_card x)" "css_selector_ok env (we_title x)"
    "css_selector_ok env (we_date x)" "css_selector_ok env (we_content x)"
    "css_selector_ok env (we_wait x)"
    by (simp_all add: extraction_ok_def)
  show ?thesis
    unfolding web_extraction_new_def Let_def pattern
    by (simp only: css_selector_roundtrip(3) [OF css(1)] css_selector_roundtrip(3) [OF css(2)]
        css_selector_roundtrip(3) [OF css(3)] css_selector_roundtrip(3) [OF css(4)]
        css_selector_roundtrip(3) [OF css(5)] and_then_simps) simp
qed

lemma deserialize_serialize_extraction:
  assumes "extraction_ok env x"
  shows "deserialize_extraction env (serialize_extraction x) = Inr x"
proof -
  from assms have css: "css_selector_ok env (we_card x)" "css_selector_ok env (we_title x)"
    "css_selector_ok env (we_date x)" "css_selector_ok env (we_content x)"
    "css_selector_ok env (we_wait x)"
    by (simp_all add: extraction_ok_def)
  from web_extraction_rebuild [OF assms] show ?thesis
    by (simp only: deserialize_extraction_def serialize_extraction_def and_then_simps
        raw_extraction.simps css_selector_roundtrip(1) [OF css(1)]
        css_selector_roundtrip(1) [OF css(2)] css_selector_roundtrip(1) [OF css(3)]
        css_selector_roundtrip(1) [OF css(4)] css_selector_roundtrip(1) [OF css(5)]
        css_selector_roundtrip(2) [OF css(1)] css_selector_roundtrip(2) [OF css(2)]
        css_selector_roundtrip(2) [OF css(3)] css_selector_roundtrip(2) [OF css(4)]
        css_selector_roundtrip(2) [OF css(5)]) simp
qed

text \<open>A recipe accepted under any deployment limits survives storage: deserialising its
  serialised form re-runs every constructor and returns exactly the same recipe.\<close>

theorem recipe_storage_roundtrip:
  assumes "recipe_ok env max_pages max_actions r"
  shows "deserialize_recipe env (serialize_recipe r) = Inr r"
proof -
  from assms have "actions_ok env max_pages max_actions (wr_actions r)"
    and "extraction_ok env (wr_extraction r)" by (simp_all add: recipe_ok_def)
  note parts = deserialize_serialize_actions [OF this(1)] deserialize_serialize_extraction [OF this(2)]
  with assms show ?thesis
    by (simp add: deserialize_recipe_def serialize_recipe_def recipe_ok_def recipe_configured_ok parts)
qed

theorem recipe_storage_roundtrip_witness:
  "\<exists>p. prepared_web_feed_new example_web_env example_draft 3 5 = Inr p
    \<and> deserialize_recipe example_web_env (serialize_recipe (pw_recipe p)) = Inr (pw_recipe p)"
proof -
  obtain p where p: "prepared_web_feed_new example_web_env example_draft 3 5 = Inr p"
    using example_draft_prepares by (auto simp: is_ok_iff)
  then obtain r where "recipe_from_draft example_web_env example_draft 3 5 = Inr r"
    and "pw_recipe p = r"
    by (auto simp: prepared_web_feed_new_def split: if_splits)
  with recipe_from_draft_ok have "recipe_ok example_web_env 3 5 (pw_recipe p)" by blast
  from recipe_storage_roundtrip [OF this] p show ?thesis by blast
qed

end
