(* ===== verification/Ingest_Model.thy ===== *)
theory Ingest_Model
  imports Article Rules Web_Feed Publication
begin

text \<open>
  \<open>reader-ingest/src/model/mod.rs\<close>: sources, source records and their revisions, work items and the
  values that the ingest stages exchange. A source is validated at every construction, its stored
  form included; a record keeps its identity through every revision, and the effect of a revision
  says what downstream work it needs. \<open>Url::parse\<close> and the date functions are parameters.
\<close>

datatype built_in_adapter =
  Cloudera url | Digoal url | Mirrorship | Dropbox | Zhihu nat | Telegram nat | Pingkai url
| ModbNews | InfoqBigdata | Volcengine | JdCloud nat | Highgo nat

datatype source_kind =
  AutoKind | XmlFeed | RssCoalesceIdentical | JsonFeed | WebPage web_feed_recipe
| BuiltIn built_in_adapter

datatype model_error =
  DropboxPublicationDayConflict | InvalidSourceUrl | EmptyUpstreamIdentity
| UpstreamIdentityChanged | ZeroLimit string

primrec model_error_text :: "model_error \<Rightarrow> string" where
  "model_error_text DropboxPublicationDayConflict = ''Dropbox archive day conflicts with the retained publication date''"
| "model_error_text InvalidSourceUrl = ''source URL must be an absolute HTTP(S) URL''"
| "model_error_text EmptyUpstreamIdentity = ''upstream identity must not be empty''"
| "model_error_text UpstreamIdentityChanged = ''a source record revision cannot change upstream identity''"
| "model_error_text (ZeroLimit field) = ''configured limit '' @ field @ '' must be greater than zero''"

record source_definition =
  src_id :: source_id
  src_url :: url
  src_kind :: source_kind
  src_revision :: u64

definition trim_slashes :: "string \<Rightarrow> string" where
  "trim_slashes s =
    rev (dropWhile (\<lambda>c. c = CHR ''/'') (rev (dropWhile (\<lambda>c. c = CHR ''/'') s)))"

definition ascii_alphanumeric :: "char \<Rightarrow> bool" where
  "ascii_alphanumeric c \<longleftrightarrow>
    48 \<le> byte_of c \<and> byte_of c \<le> 57 \<or> 65 \<le> byte_of c \<and> byte_of c \<le> 90
    \<or> 97 \<le> byte_of c \<and> byte_of c \<le> 122"

text \<open>\<open>zhihu::author\<close>: the author slug of a profile URL.\<close>

definition zhihu_author :: "url \<Rightarrow> string option" where
  "zhihu_author u =
    (if url_scheme u \<noteq> ''https'' \<or> url_host u \<noteq> Some ''www.zhihu.com'' \<or> is_some (url_port u)
        \<or> url_username u \<noteq> [] \<or> is_some (url_password u) \<or> is_some (url_query u)
        \<or> is_some (url_fragment u)
     then None
     else let parts = split_on (CHR ''/'') (url_path u) in
       if \<not> (length parts = 3 \<or> length parts = 4 \<and> parts ! 3 = ''posts'')
          \<or> \<not> (parts ! 1 = ''people'' \<or> parts ! 1 = ''org'') \<or> parts ! 2 = []
          \<or> \<not> list_all (\<lambda>c. ascii_alphanumeric c \<or> c = CHR ''-'' \<or> c = CHR ''_'') (parts ! 2)
       then None else Some (parts ! 2))"

definition telegram_channel_url :: "url \<Rightarrow> bool" where
  "telegram_channel_url u \<longleftrightarrow>
    (let channel = trim_slashes (url_path u) in
     \<not> (url_scheme u \<noteq> ''https'' \<or> url_host u \<noteq> Some ''t.me'' \<or> channel = []
        \<or> \<not> list_all (\<lambda>c. ascii_alphanumeric c \<or> c = CHR ''_'') channel
        \<or> is_some (url_query u) \<or> is_some (url_fragment u) \<or> is_some (url_port u)
        \<or> url_username u \<noteq> [] \<or> is_some (url_password u)))"

fun is_telegram :: "source_kind \<Rightarrow> bool" where
  "is_telegram (BuiltIn (Telegram _)) = True"
| "is_telegram _ = False"

fun is_zhihu :: "source_kind \<Rightarrow> bool" where
  "is_zhihu (BuiltIn (Zhihu _)) = True"
| "is_zhihu _ = False"

definition source_definition_new ::
  "source_id \<Rightarrow> url \<Rightarrow> source_kind \<Rightarrow> model_error + source_definition" where
  "source_definition_new i u kind =
    (if \<not> is_http u \<or> url_host u = None then Inl InvalidSourceUrl
     else if is_telegram kind \<and> \<not> telegram_channel_url u then Inl InvalidSourceUrl
     else if is_zhihu kind \<and> zhihu_author u = None then Inl InvalidSourceUrl
     else Inr \<lparr>src_id = i, src_url = u, src_kind = kind, src_revision = 0\<rparr>)"

text \<open>The stored form has the fields of the definition; reading it validates.\<close>

definition source_definition_try_from :: "source_definition \<Rightarrow> model_error + source_definition" where
  "source_definition_try_from raw =
    and_then (source_definition_new (src_id raw) (src_url raw) (src_kind raw)) (\<lambda>source.
      Inr (source\<lparr>src_revision := src_revision raw\<rparr>))"

definition source_with_url :: "source_definition \<Rightarrow> url \<Rightarrow> model_error + source_definition" where
  "source_with_url s u =
    and_then (source_definition_new (src_id s) u (src_kind s)) (\<lambda>value.
      Inr (value\<lparr>src_revision := src_revision s\<rparr>))"

definition source_revise_kind :: "source_definition \<Rightarrow> source_kind \<Rightarrow> model_error + source_definition" where
  "source_revise_kind s kind =
    and_then (source_definition_new (src_id s) (src_url s) kind) (\<lambda>value.
      Inr (value\<lparr>src_revision := saturating_succ (src_revision s)\<rparr>))"

section \<open>Source records\<close>

record parsed_record =
  pa_categories :: "string list option"
  pa_upstream_id :: string
  pa_original_url :: string
  pa_absolute_url :: "url option"
  pa_title :: string
  pa_description :: "string option"
  pa_description_media_type :: "string option"
  pa_content_html :: "string option"
  pa_published_at :: "publication_date option"

record source_record =
  sr_id :: source_record_id
  sr_source_id :: source_id
  sr_upstream_id :: string
  sr_key :: dedup_key
  sr_categories :: "string list option"
  sr_description_media_type :: "string option"
  sr_feed_content_html :: "string option"
  sr_published_at :: "publication_date option"
  sr_revision :: u64

datatype record_revision_effect = Unchanged | RefreshContent | RegroupAndRefresh

record record_revision =
  rr_record :: source_record
  rr_effect :: record_revision_effect

definition article_location_of :: "url_parser \<Rightarrow> parsed_record \<Rightarrow> source_id \<Rightarrow> article_location" where
  "article_location_of parse v source =
    (case pa_absolute_url v of
       Some fetch \<Rightarrow>
         let exact = (case parse (pa_original_url v) of
               Some u \<Rightarrow> if url_host u \<noteq> None then pa_original_url v else url_text fetch
             | None \<Rightarrow> url_text fetch)
         in location_url exact fetch
     | None \<Rightarrow> SourceRecordLocation source (pa_upstream_id v))"

definition source_record_from_parsed ::
  "url_parser \<Rightarrow> source_record_id \<Rightarrow> source_id \<Rightarrow> parsed_record \<Rightarrow> model_error + source_record" where
  "source_record_from_parsed parse i source v =
    (if pa_upstream_id v = [] then Inl EmptyUpstreamIdentity
     else Inr \<lparr>sr_id = i, sr_source_id = source, sr_upstream_id = pa_upstream_id v,
       sr_key = \<lparr>dk_location = article_location_of parse v source, dk_title = pa_title v,
         dk_description = pa_description v\<rparr>,
       sr_categories = pa_categories v, sr_description_media_type = pa_description_media_type v,
       sr_feed_content_html = pa_content_html v, sr_published_at = pa_published_at v,
       sr_revision = 0\<rparr>)"

definition revision_effect :: "source_record \<Rightarrow> source_record \<Rightarrow> record_revision_effect" where
  "revision_effect next old =
    (if sr_key next \<noteq> sr_key old
        \<or> sr_description_media_type next \<noteq> sr_description_media_type old then RegroupAndRefresh
     else if sr_feed_content_html next \<noteq> sr_feed_content_html old
        \<or> sr_published_at next \<noteq> sr_published_at old \<or> sr_categories next \<noteq> sr_categories old
     then RefreshContent
     else Unchanged)"

definition source_record_revise ::
  "url_parser \<Rightarrow> source_record \<Rightarrow> parsed_record \<Rightarrow> model_error + record_revision" where
  "source_record_revise parse s v =
    (if pa_upstream_id v \<noteq> sr_upstream_id s then Inl UpstreamIdentityChanged
     else let next = \<lparr>sr_id = sr_id s, sr_source_id = sr_source_id s,
         sr_upstream_id = sr_upstream_id s,
         sr_key = \<lparr>dk_location = article_location_of parse v (sr_source_id s), dk_title = pa_title v,
           dk_description = pa_description v\<rparr>,
         sr_categories = pa_categories v, sr_description_media_type = pa_description_media_type v,
         sr_feed_content_html = pa_content_html v, sr_published_at = pa_published_at v,
         sr_revision = sr_revision s + 1\<rparr>
       in Inr \<lparr>rr_record = next, rr_effect = revision_effect next s\<rparr>)"

definition source_record_revise_from_record ::
  "source_record \<Rightarrow> source_record \<Rightarrow> model_error + record_revision" where
  "source_record_revise_from_record s v =
    (if sr_upstream_id v \<noteq> sr_upstream_id s \<or> sr_source_id v \<noteq> sr_source_id s
     then Inl UpstreamIdentityChanged
     else let next = \<lparr>sr_id = sr_id s, sr_source_id = sr_source_id s,
         sr_upstream_id = sr_upstream_id s, sr_key = sr_key v, sr_categories = sr_categories v,
         sr_description_media_type = sr_description_media_type v,
         sr_feed_content_html = sr_feed_content_html v, sr_published_at = sr_published_at v,
         sr_revision = sr_revision s + 1\<rparr>
       in Inr \<lparr>rr_record = next, rr_effect = revision_effect next s\<rparr>)"

definition revise_from_dropbox_listing ::
  "date_env \<Rightarrow> source_record \<Rightarrow> source_record \<Rightarrow> model_error + record_revision" where
  "revise_from_dropbox_listing env s v =
    (if (case (sr_published_at s, sr_published_at v) of
           (Some old, Some new) \<Rightarrow> publication_day env old \<noteq> publication_day env new
         | _ \<Rightarrow> False)
     then Inl DropboxPublicationDayConflict
     else source_record_revise_from_record s
       (v\<lparr>sr_key := (sr_key v)\<lparr>dk_description := dk_description (sr_key s)\<rparr>,
          sr_description_media_type := sr_description_media_type s,
          sr_feed_content_html := sr_feed_content_html s,
          sr_published_at := (case sr_published_at s of Some d \<Rightarrow> Some d | None \<Rightarrow> sr_published_at v)\<rparr>))"

section \<open>Work and exchange values\<close>

type_synonym job_id = uuid
type_synonym lease_token = uuid

record delivery_target =
  dt_workspace_id :: workspace_id
  dt_subscription_id :: subscription_id

datatype work_item =
  PollSource source_id
| RefreshSource source_id
| FanOut source_id source_record_id "subscription_id option"
| ExtractFullText source_record_id u64 url bool
| CollectWebFeed source_id
| CleanupContent source_record_id uuid
| EvaluateArticleRules workspace_id article_id "pending_rule_evaluation list"
| ApplyRule workspace_id rule_id u64 "article_id option" "article_id option"

record leased_work =
  lw_job_id :: job_id
  lw_item :: work_item
  lw_token :: lease_token
  lw_deadline :: instant
  lw_attempt :: u32

datatype poll_action = Deliver | PollRefreshContent | Regroup

record polled_record =
  po_record :: source_record
  po_action :: poll_action

record cache_validators =
  etag :: "string option"
  last_modified :: "string option"

record poll_commit =
  pc_source_id :: source_id
  pc_source_revision :: u64
  pc_records :: "polled_record list"
  pc_remainder :: "polled_record list"
  pc_fetched_at :: instant
  pc_final_url :: url
  pc_validators :: cache_validators
  pc_incomplete :: bool
  pc_duration_ms :: u64

record delivery_commit =
  dc_target :: delivery_target
  dc_record :: source_record
  dc_proposed_article_id :: article_id
  dc_delivered_at :: instant

datatype delivery_result = Delivered article_id | AlreadyDelivered article_id | SkippedInactive

record content_chunk =
  ch_ordinal :: u32
  ch_bytes :: "u8 list"

record video_metadata =
  duration_seconds :: "u64 option"
  shorts :: "bool option"

record content_revision =
  cr_reddit_flair :: "string option"
  cr_video :: "video_metadata option"
  cr_publication :: "publication_evidence list"
  cr_record_id :: source_record_id
  cr_source_revision :: u64
  cr_refresh_id :: uuid
  cr_raw_chunks :: "content_chunk list"
  cr_safe_html_chunks :: "content_chunk list"
  cr_fetched_at :: instant
  cr_final_url :: url

record content_manifest_pointer =
  cm_reddit_flair :: "string option"
  cm_video :: "video_metadata option"
  cm_publication :: "publication_evidence list option"
  cm_record_id :: source_record_id
  cm_source_revision :: u64
  cm_refresh_id :: uuid
  cm_raw_chunks :: u32
  cm_safe_html_chunks :: u32
  cm_fetched_at :: instant
  cm_final_url :: url

definition manifest_of :: "content_revision \<Rightarrow> content_manifest_pointer" where
  "manifest_of v =
    \<lparr>cm_reddit_flair = cr_reddit_flair v, cm_video = cr_video v,
     cm_publication = Some (cr_publication v), cm_record_id = cr_record_id v,
     cm_source_revision = cr_source_revision v, cm_refresh_id = cr_refresh_id v,
     cm_raw_chunks = of_nat (length (cr_raw_chunks v)),
     cm_safe_html_chunks = of_nat (length (cr_safe_html_chunks v)),
     cm_fetched_at = cr_fetched_at v, cm_final_url = cr_final_url v\<rparr>"

record ingest_limits =
  initial_feed_items :: nat
  fanout_batch :: nat
  content_chunk_bytes :: nat
  max_input_bytes :: nat
  max_extracted_bytes :: nat

definition non_zero :: "string \<Rightarrow> nat \<Rightarrow> model_error + nat" where
  "non_zero field n = (if n = 0 then Inl (ZeroLimit field) else Inr n)"

definition ingest_limits_new ::
  "nat \<Rightarrow> nat \<Rightarrow> nat \<Rightarrow> nat \<Rightarrow> nat \<Rightarrow> model_error + ingest_limits" where
  "ingest_limits_new a b c d e =
    and_then (non_zero ''initial_feed_items'' a) (\<lambda>a.
    and_then (non_zero ''fanout_batch'' b) (\<lambda>b.
    and_then (non_zero ''content_chunk_bytes'' c) (\<lambda>c.
    and_then (non_zero ''max_input_bytes'' d) (\<lambda>d.
    and_then (non_zero ''max_extracted_bytes'' e) (\<lambda>e.
      Inr \<lparr>initial_feed_items = a, fanout_batch = b, content_chunk_bytes = c,
        max_input_bytes = d, max_extracted_bytes = e\<rparr>)))))"

section \<open>Sources stay valid\<close>

definition source_valid :: "source_definition \<Rightarrow> bool" where
  "source_valid s \<longleftrightarrow>
    is_http (src_url s) \<and> url_host (src_url s) \<noteq> None
    \<and> (is_telegram (src_kind s) \<longrightarrow> telegram_channel_url (src_url s))
    \<and> (is_zhihu (src_kind s) \<longrightarrow> zhihu_author (src_url s) \<noteq> None)"

lemma source_definition_new_iff:
  "source_definition_new i u kind = Inr s \<longleftrightarrow>
    s = \<lparr>src_id = i, src_url = u, src_kind = kind, src_revision = 0\<rparr> \<and> source_valid s"
  by (auto simp: source_definition_new_def source_valid_def)

text \<open>Every way to obtain a source validates it, so reading back a stored source returns it
  unchanged exactly when it is valid: an HTTP(S) URL with a host, a public channel URL for a
  Telegram source, an author URL for a Zhihu source. Replacing the URL or the collector keeps the
  identity, and each result can be stored and read back.\<close>

theorem source_definition_storage:
  "(source_definition_try_from s = Inr s' \<longleftrightarrow> s' = s \<and> source_valid s)
    \<and> (source_with_url s u = Inr s1 \<longrightarrow>
        source_definition_try_from s1 = Inr s1 \<and> src_id s1 = src_id s \<and> src_url s1 = u
        \<and> src_revision s1 = src_revision s)
    \<and> (source_revise_kind s kind = Inr s2 \<longrightarrow>
        source_definition_try_from s2 = Inr s2 \<and> src_id s2 = src_id s \<and> src_kind s2 = kind
        \<and> src_revision s \<le> src_revision s2)"
proof -
  have sat: "r \<le> saturating_succ r" for r :: u64
    by (cases "r = - 1") (auto simp: saturating_succ_def word_le_nat_alt unat_succ)
  show ?thesis
    by (cases s) (auto simp: source_definition_try_from_def source_with_url_def source_revise_kind_def
        source_definition_new_iff source_valid_def sat)
qed

theorem source_definition_storage_witness:
  "\<exists>s2. source_revise_kind \<lparr>src_id = 1, src_url = example_url, src_kind = AutoKind, src_revision = 4\<rparr> XmlFeed
      = Inr s2 \<and> source_definition_try_from s2 = Inr s2 \<and> src_revision s2 = 5"
proof -
  let ?s = "\<lparr>src_id = 1, src_url = example_url, src_kind = AutoKind, src_revision = 4\<rparr>"
    and ?s2 = "\<lparr>src_id = 1, src_url = example_url, src_kind = XmlFeed, src_revision = 5\<rparr>"
  have "source_revise_kind ?s XmlFeed = Inr ?s2"
    by (simp add: source_revise_kind_def source_definition_new_def is_http_def example_url_def
        saturating_succ_def)
  with source_definition_storage [of ?s ?s example_url ?s XmlFeed ?s2] show ?thesis by simp
qed

section \<open>Revisions of records\<close>

definition same_identity :: "source_record \<Rightarrow> source_record \<Rightarrow> bool" where
  "same_identity a b \<longleftrightarrow>
    sr_id a = sr_id b \<and> sr_source_id a = sr_source_id b \<and> sr_upstream_id a = sr_upstream_id b"

definition same_content :: "source_record \<Rightarrow> source_record \<Rightarrow> bool" where
  "same_content a b \<longleftrightarrow>
    sr_feed_content_html a = sr_feed_content_html b \<and> sr_published_at a = sr_published_at b
    \<and> sr_categories a = sr_categories b"

definition same_group :: "source_record \<Rightarrow> source_record \<Rightarrow> bool" where
  "same_group a b \<longleftrightarrow>
    sr_key a = sr_key b \<and> sr_description_media_type a = sr_description_media_type b"

text \<open>A revision keeps the identity of the record and advances its revision by one, and its effect
  is exact: \<open>Unchanged\<close> only when nothing a reader sees differs, \<open>RegroupAndRefresh\<close> exactly when the
  deduplication key or the media type differs, \<open>RefreshContent\<close> in the remaining cases.\<close>

theorem record_revision_effect_exact:
  assumes "source_record_revise_from_record s v = Inr r"
  shows "same_identity (rr_record r) s \<and> sr_revision (rr_record r) = sr_revision s + 1
    \<and> same_content (rr_record r) v \<and> same_group (rr_record r) v
    \<and> (rr_effect r = Unchanged \<longleftrightarrow> same_group v s \<and> same_content v s)
    \<and> (rr_effect r = RegroupAndRefresh \<longleftrightarrow> \<not> same_group v s)
    \<and> (rr_effect r = RefreshContent \<longleftrightarrow> same_group v s \<and> \<not> same_content v s)"
  using assms
  by (auto simp: source_record_revise_from_record_def revision_effect_def same_identity_def
      same_content_def same_group_def Let_def split: if_splits)

text \<open>Revising from a parsed feed entry and revising from the record that entry would create are
  the same operation.\<close>

theorem revise_parsed_is_revise_record:
  assumes "source_record_from_parsed parse i (sr_source_id s) v = Inr r"
  shows "source_record_revise parse s v = source_record_revise_from_record s r"
  using assms
  by (auto simp: source_record_revise_def source_record_revise_from_record_def
      source_record_from_parsed_def Let_def split: if_splits)

text \<open>A Dropbox listing never overwrites what the feed supplied: description, media type, body and
  a present publication date stay, so only the location, the title, the categories or a missing date can
  change, and a contradictory day is refused.\<close>

theorem dropbox_listing_preserves_feed:
  assumes "revise_from_dropbox_listing env s v = Inr r"
  shows "dk_description (sr_key (rr_record r)) = dk_description (sr_key s)
    \<and> sr_description_media_type (rr_record r) = sr_description_media_type s
    \<and> sr_feed_content_html (rr_record r) = sr_feed_content_html s
    \<and> (sr_published_at s \<noteq> None \<longrightarrow> sr_published_at (rr_record r) = sr_published_at s)
    \<and> (\<forall>old new. sr_published_at s = Some old \<longrightarrow> sr_published_at v = Some new \<longrightarrow>
        publication_day env old = publication_day env new)
    \<and> same_identity (rr_record r) s"
  using assms
  by (auto simp: revise_from_dropbox_listing_def source_record_revise_from_record_def same_identity_def
      Let_def split: if_splits option.splits)

definition example_record :: source_record where
  "example_record =
    \<lparr>sr_id = 1, sr_source_id = 2, sr_upstream_id = ''u'',
     sr_key = \<lparr>dk_location = location_url ''https://example.org/feed'' example_url, dk_title = ''t'',
       dk_description = Some ''d''\<rparr>,
     sr_categories = None, sr_description_media_type = None, sr_feed_content_html = Some ''b'',
     sr_published_at = None, sr_revision = 3\<rparr>"

definition example_parsed :: parsed_record where
  "example_parsed =
    \<lparr>pa_categories = None, pa_upstream_id = ''u'', pa_original_url = ''https://example.org/feed'',
     pa_absolute_url = Some example_url, pa_title = ''new'', pa_description = None,
     pa_description_media_type = None, pa_content_html = None, pa_published_at = None\<rparr>"

theorem record_revision_effect_exact_witness:
  "\<exists>r. source_record_revise_from_record example_record (example_record\<lparr>sr_categories := Some []\<rparr>) = Inr r
    \<and> rr_effect r = RefreshContent"
proof -
  obtain r where r: "source_record_revise_from_record example_record
      (example_record\<lparr>sr_categories := Some []\<rparr>) = Inr r"
    by (simp add: source_record_revise_from_record_def example_record_def Let_def)
  from record_revision_effect_exact [OF r] r show ?thesis
    by (auto simp: same_group_def same_content_def example_record_def)
qed

theorem revise_parsed_is_revise_record_witness:
  "\<exists>r. source_record_from_parsed example_parser 9 2 example_parsed = Inr r
    \<and> source_record_revise example_parser example_record example_parsed
      = source_record_revise_from_record example_record r"
proof -
  obtain r where r: "source_record_from_parsed example_parser 9 (sr_source_id example_record) example_parsed
      = Inr r"
    by (simp add: source_record_from_parsed_def example_parsed_def)
  from revise_parsed_is_revise_record [OF r] r show ?thesis by (auto simp: example_record_def)
qed

theorem dropbox_listing_preserves_feed_witness:
  "\<exists>r. revise_from_dropbox_listing example_dates example_record
      (example_record\<lparr>sr_feed_content_html := None, sr_published_at := Some (PublicationDate ''D'')\<rparr>) = Inr r
    \<and> sr_feed_content_html (rr_record r) = Some ''b''"
proof -
  let ?v = "example_record\<lparr>sr_feed_content_html := None, sr_published_at := Some (PublicationDate ''D'')\<rparr>"
  obtain r where r: "revise_from_dropbox_listing example_dates example_record ?v = Inr r"
    by (simp add: revise_from_dropbox_listing_def source_record_revise_from_record_def example_record_def Let_def)
  from dropbox_listing_preserves_feed [OF r] r show ?thesis by (auto simp: example_record_def)
qed

end
