(* ===== verification/Subscription.thy ===== *)
theory Subscription
  imports Workspace Url
begin

text \<open>
  \<open>reader-core/src/subscription.rs\<close>: the subscription aggregate. It keeps the parsed source URL, the
  exact spelling the user entered when there was one, the source's own title and an optional custom
  name, and a status \<open>Active\<close>, \<open>Paused\<close> (with its event) or \<open>Archived\<close>. The URL parser is a
  parameter.
\<close>

record state_event =
  se_reason :: reason
  se_actor :: actor_id
  se_at :: instant

datatype subscription_status = SubscriptionActive | SubscriptionPaused state_event | SubscriptionArchived

record subscription =
  sub_id :: subscription_id
  sub_workspace :: workspace_id
  sub_url :: url
  sub_url_exact :: "string option"
  sub_source_title :: string
  sub_custom_name :: "string option"
  sub_created_at :: "instant option"
  sub_status :: subscription_status
  sub_revision :: u64
  sub_history :: "state_event list"

definition subscription_new ::
  "instant \<Rightarrow> subscription_id \<Rightarrow> workspace_id \<Rightarrow> url \<Rightarrow> string \<Rightarrow> subscription" where
  "subscription_new now i w source_url title =
    \<lparr>sub_id = i, sub_workspace = w, sub_url = source_url, sub_url_exact = None,
     sub_source_title = title, sub_custom_name = None, sub_created_at = Some now,
     sub_status = SubscriptionActive, sub_revision = 0, sub_history = []\<rparr>"

definition subscription_new_with_exact_url ::
  "url_parser \<Rightarrow> instant \<Rightarrow> subscription_id \<Rightarrow> workspace_id \<Rightarrow> url \<Rightarrow> string \<Rightarrow> string
    \<Rightarrow> state_validation_error + subscription" where
  "subscription_new_with_exact_url parse now i w source_url exact title =
    (if parse exact \<noteq> Some source_url then Inl SourceUrlMismatch
     else Inr ((subscription_new now i w source_url title)\<lparr>sub_url_exact := Some exact\<rparr>))"

definition source_url_exact :: "subscription \<Rightarrow> string" where
  "source_url_exact s = (case sub_url_exact s of Some e \<Rightarrow> e | None \<Rightarrow> url_text (sub_url s))"

definition subscription_title :: "subscription \<Rightarrow> string" where
  "subscription_title s = (case sub_custom_name s of Some n \<Rightarrow> n | None \<Rightarrow> sub_source_title s)"

definition subscription_rename :: "string \<Rightarrow> subscription \<Rightarrow> subscription" where
  "subscription_rename title s =
    (let custom_name = (if title \<noteq> [] then Some title else None) in
     if sub_custom_name s \<noteq> custom_name
     then s\<lparr>sub_custom_name := custom_name, sub_revision := sub_revision s + 1\<rparr> else s)"

definition subscription_replace_source ::
  "url_parser \<Rightarrow> url \<Rightarrow> string \<Rightarrow> string \<Rightarrow> subscription \<Rightarrow> state_validation_error + subscription" where
  "subscription_replace_source parse source_url exact title s =
    (if parse exact \<noteq> Some source_url then Inl SourceUrlMismatch
     else if sub_url s \<noteq> source_url \<or> source_url_exact s \<noteq> exact \<or> sub_source_title s \<noteq> title
     then Inr (s\<lparr>sub_url := source_url, sub_url_exact := Some exact, sub_source_title := title,
                 sub_revision := sub_revision s + 1\<rparr>)
     else Inr s)"

definition subscription_pause :: "state_event \<Rightarrow> subscription \<Rightarrow> subscription" where
  "subscription_pause e s =
    (case sub_status s of
       SubscriptionPaused _ \<Rightarrow> s
     | _ \<Rightarrow> s\<lparr>sub_status := SubscriptionPaused e, sub_history := sub_history s @ [e],
              sub_revision := sub_revision s + 1\<rparr>)"

definition subscription_resume :: "subscription \<Rightarrow> subscription" where
  "subscription_resume s =
    (case sub_status s of
       SubscriptionPaused _ \<Rightarrow>
         s\<lparr>sub_status := SubscriptionActive, sub_revision := sub_revision s + 1\<rparr>
     | _ \<Rightarrow> s)"

definition subscription_archive :: "subscription \<Rightarrow> subscription" where
  "subscription_archive s =
    (case sub_status s of
       SubscriptionArchived \<Rightarrow> s
     | _ \<Rightarrow> s\<lparr>sub_status := SubscriptionArchived, sub_revision := sub_revision s + 1\<rparr>)"

definition subscription_restore :: "subscription \<Rightarrow> subscription" where
  "subscription_restore s =
    (case sub_status s of
       SubscriptionArchived \<Rightarrow>
         s\<lparr>sub_status := SubscriptionActive, sub_revision := sub_revision s + 1\<rparr>
     | _ \<Rightarrow> s)"

definition subscription_validate ::
  "url_parser \<Rightarrow> reason_policy \<Rightarrow> subscription \<Rightarrow> state_validation_error + unit" where
  "subscription_validate parse policy s =
    (if (case sub_url_exact s of None \<Rightarrow> False | Some exact \<Rightarrow> parse exact \<noteq> Some (sub_url s))
     then Inl SourceUrlMismatch
     else and_then (try_all (\<lambda>e. check_event_reason policy (se_reason e)) (sub_history s)) (\<lambda>_.
       case sub_status s of
         SubscriptionPaused current \<Rightarrow>
           and_then (check_event_reason policy (se_reason current)) (\<lambda>_.
             if last_opt (sub_history s) \<noteq> Some current then Inl StatusHistoryMismatch
             else Inr ())
       | _ \<Rightarrow> Inr ()))"

text \<open>The commands of the aggregate as one datatype; a failed \<open>replace_source\<close> changes nothing.\<close>

datatype subscription_op =
  RenameSubscription string
| ReplaceSource url string string
| PauseSubscription state_event
| ResumeSubscription
| ArchiveSubscription
| RestoreSubscription

primrec subscription_perform ::
  "url_parser \<Rightarrow> subscription_op \<Rightarrow> subscription \<Rightarrow> subscription" where
  "subscription_perform parse (RenameSubscription t) s = subscription_rename t s"
| "subscription_perform parse (ReplaceSource u x t) s =
    (case subscription_replace_source parse u x t s of Inl _ \<Rightarrow> s | Inr s' \<Rightarrow> s')"
| "subscription_perform parse (PauseSubscription e) s = subscription_pause e s"
| "subscription_perform parse ResumeSubscription s = subscription_resume s"
| "subscription_perform parse ArchiveSubscription s = subscription_archive s"
| "subscription_perform parse RestoreSubscription s = subscription_restore s"

definition subscription_op_ok :: "reason_policy \<Rightarrow> subscription_op \<Rightarrow> bool" where
  "subscription_op_ok policy op =
    (case op of PauseSubscription e \<Rightarrow> valid_reason policy (se_reason e) | _ \<Rightarrow> True)"

definition subscription_valid :: "url_parser \<Rightarrow> reason_policy \<Rightarrow> subscription \<Rightarrow> bool" where
  "subscription_valid parse policy s \<longleftrightarrow> subscription_validate parse policy s = Inr ()"

lemmas subscription_op_defs [op_defs] =
  subscription_new_def subscription_rename_def subscription_replace_source_def
  subscription_pause_def subscription_resume_def subscription_archive_def
  subscription_restore_def

lemma subscription_valid_iff:
  "subscription_valid parse policy s \<longleftrightarrow>
    (\<forall>x. sub_url_exact s = Some x \<longrightarrow> parse x = Some (sub_url s))
    \<and> (\<forall>e \<in> set (sub_history s). valid_reason policy (se_reason e))
    \<and> (\<forall>e. sub_status s = SubscriptionPaused e \<longrightarrow> last_opt (sub_history s) = Some e)"
  by (auto simp: subscription_valid_def subscription_validate_def last_opt_def
      split: subscription_status.splits option.splits if_splits)

lemma subscription_new_valid [simp, intro]:
  "subscription_valid parse policy (subscription_new now i w u t)"
  by (simp add: subscription_valid_iff subscription_new_def)

lemma subscription_new_exact_valid:
  "subscription_new_with_exact_url parse now i w u x t = Inr s \<Longrightarrow>
    subscription_valid parse policy s \<and> source_url_exact s = x"
  by (auto simp: subscription_new_with_exact_url_def subscription_valid_iff subscription_new_def
      source_url_exact_def split: if_splits)

lemma subscription_replace_source_valid [keep_inv]:
  "subscription_valid parse policy s \<Longrightarrow> subscription_replace_source parse u x t s = Inr s' \<Longrightarrow>
    subscription_valid parse policy s'"
  by (auto simp: subscription_valid_iff subscription_replace_source_def split: if_splits)

lemma subscription_pause_valid [keep_inv]:
  "subscription_valid parse policy s \<Longrightarrow> valid_reason policy (se_reason e) \<Longrightarrow>
    subscription_valid parse policy (subscription_pause e s)"
  by (auto simp: subscription_valid_iff subscription_pause_def split: subscription_status.splits)

lemma subscription_simple_valid [keep_inv]:
  assumes "subscription_valid parse policy s"
  shows "subscription_valid parse policy (subscription_rename t s)"
    and "subscription_valid parse policy (subscription_resume s)"
    and "subscription_valid parse policy (subscription_archive s)"
    and "subscription_valid parse policy (subscription_restore s)"
  using assms
  by (auto simp: subscription_valid_iff op_defs Let_def split: subscription_status.splits)

lemma subscription_perform_valid:
  "subscription_valid parse policy s \<Longrightarrow> subscription_op_ok policy op \<Longrightarrow>
    subscription_valid parse policy (subscription_perform parse op s)"
  by (cases op) (auto simp: subscription_op_ok_def keep_inv split: sum.splits)

lemma subscription_perform_frame [simp]:
  "sub_id (subscription_perform parse op s) = sub_id s"
  "sub_workspace (subscription_perform parse op s) = sub_workspace s"
  by (cases op; auto simp: op_defs Let_def split: subscription_status.splits sum.splits if_splits)+

interpretation sub: versioned "subscription_perform parse" sub_revision for parse
proof
  fix op s
  show "subscription_perform parse op s = s
    \<or> sub_revision (subscription_perform parse op s) = sub_revision s + 1"
    by (cases op) (auto simp: op_defs Let_def split: subscription_status.splits sum.splits if_splits)
qed

text \<open>Every subscription built by \<open>Subscription::new\<close> and any sequence of rename, source
  replacement, pause, resume, archive and restore (pause reasons satisfying the policy) passes
  \<open>Subscription::validate\<close>: its exact URL parses to the operational one, and a paused subscription's
  event is the last of its history. Identity and workspace never change.\<close>

theorem subscription_runs_valid:
  fixes parse now i w u t
  assumes "list_all (subscription_op_ok policy) ops"
  defines "s \<equiv> fold (subscription_perform parse) ops (subscription_new now i w u t)"
  shows "subscription_validate parse policy s = Inr () \<and> sub_id s = i \<and> sub_workspace s = w"
proof -
  have frame: "sub_id (fold (subscription_perform parse) ops r) = sub_id r
      \<and> sub_workspace (fold (subscription_perform parse) ops r) = sub_workspace r" for r
    by (induction ops arbitrary: r) simp_all
  have valid: "subscription_valid parse policy (fold (subscription_perform parse) ops r)"
    if "subscription_valid parse policy r" for r
    using assms(1) that by (induction ops arbitrary: r) (simp_all add: subscription_perform_valid)
  have "sub_id (subscription_new now i w u t) = i" "sub_workspace (subscription_new now i w u t) = w"
    by (simp_all add: subscription_new_def)
  with frame [of "subscription_new now i w u t"] valid [OF subscription_new_valid, of now i w u t]
  show ?thesis unfolding s_def subscription_valid_def by simp
qed

theorem subscription_runs_valid_witness:
  "subscription_validate example_parser \<lparr>max_bytes = 10\<rparr>
     (fold (subscription_perform example_parser)
       [ReplaceSource example_url ''https://example.org/feed'' ''Feed'',
        PauseSubscription \<lparr>se_reason = Reason ''noisy'', se_actor = 7, se_at = 1\<rparr>]
       (subscription_new 0 1 2 example_url ''Old'')) = Inr ()"
proof -
  have "list_all (subscription_op_ok \<lparr>max_bytes = 10\<rparr>)
     [ReplaceSource example_url ''https://example.org/feed'' ''Feed'',
      PauseSubscription \<lparr>se_reason = Reason ''noisy'', se_actor = 7, se_at = 1\<rparr>]"
    by (simp add: subscription_op_ok_def valid_reason_def blank_def is_whitespace_def)
  from subscription_runs_valid [OF this, of example_parser 0 1 2 example_url "''Old''"]
  show ?thesis by simp
qed

text \<open>Optimistic concurrency on subscriptions has no ABA: after any sequence of fewer than
  \<open>2 ^ 64\<close> commands, an unchanged revision number means that no command changed the subscription.\<close>

theorem subscription_revision_identifies:
  "length ops < 2 ^ 64 \<Longrightarrow>
    sub_revision (fold (subscription_perform parse) ops s) = sub_revision s \<Longrightarrow>
    fold (subscription_perform parse) ops s = s"
  by (rule sub.same_revision_same_value)

theorem subscription_revision_identifies_witness:
  "fold (subscription_perform example_parser) [ResumeSubscription, RenameSubscription '''']
     (subscription_new 0 1 2 example_url ''T'') = subscription_new 0 1 2 example_url ''T''"
  by (rule subscription_revision_identifies)
    (simp_all add: op_defs)

end
