(* ===== verification/Reader_Db.thy ===== *)
theory Reader_Db
  imports Identity_Store Subscription Ingest_Model
begin

text \<open>
  The PostgreSQL tables shared by the reader storage (\<open>repository/*.rs\<close>) and the ingest store
  (\<open>ingest_store/*.rs\<close>), as an extension of the identity tables, and the errors of the ingest store.
  Textual keys that join two identifiers (\<open>article_key\<close>, \<open>rule_key\<close>, \<open>workspace_feed_url_key\<close>) are
  pairs; identifiers in their fixed-width text form are ordered like the identifiers. A document
  column holds the value it serialises.

  The tables that only the AI features use (bootstrap, search projection) are not modelled, nor
  are the triggers that fill them.
\<close>

datatype store_error = StoreNotFound | StaleLease | StoreConflict | Unavailable string

datatype job_state = Ready | Leased | Completed | Failed

record ingest_job =
  ij_status :: job_state
  ij_run_at_ms :: int
  ij_first_attempt_ms :: int
  ij_origin_key :: string
  ij_attempt :: nat
  ij_lease_token :: "lease_token option"
  ij_lease_deadline_ms :: "int option"
  ij_item :: work_item
  ij_revision :: nat
  ij_diagnostic :: "string option"

record source_health =
  sh_last_success_ms :: "int option"
  sh_incomplete :: bool
  sh_error :: "string option"
  sh_last_error_ms :: "int option"
  sh_consecutive_failures :: u32

record subscription_activity =
  sa_id :: uuid
  sa_subscription_id :: subscription_id
  sa_occurred_at :: instant
  sa_successful :: bool
  sa_duration_ms :: "u64 option"
  sa_discovered_items :: "nat option"
  sa_diagnostic :: "string option"

datatype read_method = ReaderMethod | SingleMethod | BulkMethod | AutomaticAge | UnknownMethod

text \<open>The stored explanation of a rule evaluation; regrouping nests the explanations it joins.\<close>

datatype evaluation_reason =
  EvaluationReason bool rule_action bool bool "uuid list option"
| MergedProvenance evaluation_reason evaluation_reason

record reader_db = identity_db +
  db_subscriptions :: "(subscription_id, subscription) table"
  db_removed_subscriptions :: "(subscription_id, subscription) table"
  db_subscription_sources :: "(subscription_id \<times> source_id) list"
  db_feed_urls :: "((workspace_id \<times> string) \<times> subscription_id) list"
  db_sources :: "(source_id, source_definition) table"
  db_source_urls :: "(string \<times> source_id) list"
  db_source_records :: "(source_record_id, source_record) table"
  db_jobs :: "(job_id \<times> ingest_job) list"
  db_source_health :: "(source_id \<times> source_health \<times> int option) list"
  db_activity :: "subscription_activity list"
  db_articles :: "(workspace_id \<times> article_id, article) table"
  db_dedup :: "((workspace_id \<times> string) \<times> dedup_key \<times> article_id) list"
  db_origins :: "(workspace_id \<times> article_id \<times> subscription_id \<times> source_record_id) list"
  db_rules :: "(workspace_id \<times> rule_id, rule) table"
  db_rule_evaluations ::
    "((workspace_id \<times> article_id \<times> rule_id \<times> u64) \<times> evaluation_reason) list"
  db_history_links :: "(workspace_id \<times> article_id \<times> article_id) list"
  db_auto_read_days :: "(workspace_id \<times> int option) list"
  db_read_events :: "(workspace_id \<times> article_id \<times> u64 \<times> read_method) list"
  db_manifests :: "(source_record_id, content_manifest_pointer) table"
  db_chunks :: "((source_record_id \<times> uuid \<times> string \<times> u32) \<times> u8 list) list"

type_synonym 'a db = "'a reader_db_scheme"

text \<open>\<open>DateTime::timestamp_millis\<close>.\<close>

definition millis :: "instant \<Rightarrow> int" where
  "millis t = t div 1000000"

text \<open>A scalar query for one document and \<open>ok_or(StoreError::NotFound)\<close>.\<close>

definition store_doc :: "('k, 'v) table \<Rightarrow> 'k \<Rightarrow> store_error + 'v" where
  "store_doc t k = (case map_of t k of Some (_, v) \<Rightarrow> Inr v | None \<Rightarrow> Inl StoreNotFound)"

text \<open>\<open>INSERT ... ON CONFLICT (id) DO UPDATE\<close> of a revisioned document.\<close>

definition upsert_doc :: "('k, 'v) table \<Rightarrow> 'k \<Rightarrow> u64 \<Rightarrow> 'v \<Rightarrow> ('k, 'v) table" where
  "upsert_doc t k r v = put k (r, v) t"

definition store_i64 :: "u64 \<Rightarrow> string \<Rightarrow> store_error + u64" where
  "store_i64 r field =
    (if fits_i64 r then Inr r else Inl (Unavailable (field @ '' exceeds PostgreSQL BIGINT'')))"

definition store_u32 :: "nat \<Rightarrow> string \<Rightarrow> store_error + u32" where
  "store_u32 n field =
    (if n < 2 ^ 32 then Inr (of_nat n) else Inl (Unavailable (field @ '' is outside u32'')))"

lemma millis_mono: "s \<le> t \<Longrightarrow> millis s \<le> millis t"
  by (simp add: millis_def zdiv_mono1)

lemma store_doc_Inr [simp]: "store_doc t k = Inr v \<longleftrightarrow> (\<exists>r. map_of t k = Some (r, v))"
  by (auto simp: store_doc_def split: option.splits)

lemma store_i64_Inr [simp]: "store_i64 r f = Inr s \<longleftrightarrow> fits_i64 r \<and> s = r"
  by (auto simp: store_i64_def)

lemma store_u32_Inr [simp]: "store_u32 n f = Inr s \<longleftrightarrow> n < 2 ^ 32 \<and> s = of_nat n"
  by (auto simp: store_u32_def)

end
