(* ===== verification/Work_Queue.thy ===== *)
theory Work_Queue
  imports Reader_Db
begin

text \<open>
  The durable work queue: \<open>ingest_store.rs\<close> and \<open>ingest_store/queue.rs\<close>. A job is claimed under a
  lease with a random token and a deadline; every later operation on it names the token.

  Each operation is one transaction. What the environment decides is an argument: the clock
  (\<open>clock_ms\<close> is the database clock, \<open>wall\<close> the clock of the process, read once per call), the fresh
  token and activity ids, the rows that other transactions hold locked (\<open>locked\<close>, skipped by
  \<open>SKIP LOCKED\<close>) and the origins whose advisory lock can be taken (\<open>reserved\<close>). URL origins, UUID
  text and the Murmur3 hashes (of job identities, and of the canonical JSON of deduplication keys)
  are third-party functions, collected in \<open>queue_env\<close>. Stored items are
  compared as values, which is what comparing their canonical JSON does.
\<close>

record scheduler =
  poll_interval :: int
  per_origin_concurrency :: nat
  max_retry_age :: int

record queue_env =
  origin_of :: "url \<Rightarrow> string"
  uuid_text :: "uuid \<Rightarrow> string"
  job_hash :: "string \<Rightarrow> job_id"
  dedup_fingerprint :: "dedup_key \<Rightarrow> string"

definition validate_scheduler_limits :: "scheduler \<Rightarrow> store_error + unit" where
  "validate_scheduler_limits s =
    (if poll_interval s \<le> 0 \<or> per_origin_concurrency s = 0 \<or> max_retry_age s \<le> 0
     then Inl (Unavailable ''scheduler limits must be positive'') else Inr ())"

definition retry_age_exceeded :: "int \<Rightarrow> int \<Rightarrow> bool" where
  "retry_age_exceeded first_attempt_ms oldest_allowed_ms \<longleftrightarrow> first_attempt_ms < oldest_allowed_ms"

definition origin_has_capacity :: "nat \<Rightarrow> nat \<Rightarrow> bool" where
  "origin_has_capacity active limit \<longleftrightarrow> active < limit"

fun is_recurring :: "work_item \<Rightarrow> bool" where
  "is_recurring (PollSource _) = True"
| "is_recurring (CollectWebFeed _) = True"
| "is_recurring _ = False"

fun work_source :: "work_item \<Rightarrow> source_id option" where
  "work_source (PollSource s) = Some s"
| "work_source (RefreshSource s) = Some s"
| "work_source (CollectWebFeed s) = Some s"
| "work_source (FanOut s _ _) = Some s"
| "work_source _ = None"

text \<open>The \<open>COALESCE\<close> over the JSON paths of the claim query: the source that a collecting item
  contacts.\<close>

fun collected_source :: "work_item \<Rightarrow> source_id option" where
  "collected_source (PollSource s) = Some s"
| "collected_source (RefreshSource s) = Some s"
| "collected_source (CollectWebFeed s) = Some s"
| "collected_source _ = None"

fun initial_job_run_at :: "work_item \<Rightarrow> int" where
  "initial_job_run_at (ExtractFullText _ _ _ manual) = (if manual then - 400 else - 300)"
| "initial_job_run_at (FanOut _ _ _) = - 200"
| "initial_job_run_at (EvaluateArticleRules _ _ _) = - 100"
| "initial_job_run_at (ApplyRule _ _ _ _ _) = - 100"
| "initial_job_run_at (CleanupContent _ _) = - 50"
| "initial_job_run_at (PollSource _) = 0"
| "initial_job_run_at (RefreshSource _) = 0"
| "initial_job_run_at (CollectWebFeed _) = 0"

section \<open>Enqueueing\<close>

definition http_origin :: "queue_env \<Rightarrow> url \<Rightarrow> store_error + string" where
  "http_origin env u =
    (if \<not> is_http u \<or> url_host u = None then Inl (Unavailable ''job URL has no HTTP origin'')
     else Inr (origin_of env u))"

definition source_origin :: "queue_env \<Rightarrow> 'a db \<Rightarrow> source_id \<Rightarrow> store_error + string" where
  "source_origin env db s =
    and_then (store_doc (db_sources db) s) (\<lambda>source. http_origin env (src_url source))"

definition workspace_origin :: "queue_env \<Rightarrow> workspace_id \<Rightarrow> string" where
  "workspace_origin env w = ''internal:workspace:'' @ uuid_text env w"

fun work_origin :: "queue_env \<Rightarrow> 'a db \<Rightarrow> work_item \<Rightarrow> store_error + string" where
  "work_origin env db (PollSource s) = source_origin env db s"
| "work_origin env db (RefreshSource s) = source_origin env db s"
| "work_origin env db (CollectWebFeed s) = source_origin env db s"
| "work_origin env db (FanOut s _ _) = source_origin env db s"
| "work_origin env db (ExtractFullText _ _ u _) = http_origin env u"
| "work_origin env db (CleanupContent r _) =
    and_then (store_doc (db_source_records db) r) (\<lambda>rec. source_origin env db (sr_source_id rec))"
| "work_origin env db (EvaluateArticleRules w _ _) = Inr (workspace_origin env w)"
| "work_origin env db (ApplyRule w _ _ _ _) = Inr (workspace_origin env w)"

definition new_job :: "work_item \<Rightarrow> string \<Rightarrow> int \<Rightarrow> ingest_job" where
  "new_job item origin first_attempt_ms =
    \<lparr>ij_status = Ready, ij_run_at_ms = initial_job_run_at item, ij_first_attempt_ms = first_attempt_ms,
     ij_origin_key = origin, ij_attempt = 0, ij_lease_token = None, ij_lease_deadline_ms = None,
     ij_item = item, ij_revision = 0, ij_diagnostic = None\<rparr>"

definition put_job :: "'a db \<Rightarrow> job_id \<Rightarrow> ingest_job \<Rightarrow> 'a db" where
  "put_job db i j = db\<lparr>db_jobs := put i j (db_jobs db)\<rparr>"

definition enqueue_work ::
  "queue_env \<Rightarrow> 'a db \<Rightarrow> job_id \<Rightarrow> work_item \<Rightarrow> int \<Rightarrow> store_error + 'a db" where
  "enqueue_work env db i item first_attempt_ms =
    (case map_of (db_jobs db) i of
       Some j \<Rightarrow> if ij_item j = item then Inr db else Inl StoreConflict
     | None \<Rightarrow>
         and_then (work_origin env db item) (\<lambda>origin.
           Inr (put_job db i (new_job item origin first_attempt_ms))))"

text \<open>\<open>enqueue_work_tx\<close> of the reader repository differs in its errors and in not checking the origin's
  scheme.\<close>

definition source_origin_tx :: "queue_env \<Rightarrow> 'a db \<Rightarrow> source_id \<Rightarrow> repository_error + string" where
  "source_origin_tx env db s =
    and_then (read_doc (db_sources db) s) (\<lambda>source. Inr (origin_of env (src_url source)))"

fun work_origin_tx :: "queue_env \<Rightarrow> 'a db \<Rightarrow> work_item \<Rightarrow> repository_error + string" where
  "work_origin_tx env db (PollSource s) = source_origin_tx env db s"
| "work_origin_tx env db (RefreshSource s) = source_origin_tx env db s"
| "work_origin_tx env db (CollectWebFeed s) = source_origin_tx env db s"
| "work_origin_tx env db (FanOut s _ _) = source_origin_tx env db s"
| "work_origin_tx env db (ExtractFullText _ _ u _) = Inr (origin_of env u)"
| "work_origin_tx env db (CleanupContent r _) =
    and_then (read_doc (db_source_records db) r) (\<lambda>rec. source_origin_tx env db (sr_source_id rec))"
| "work_origin_tx env db (EvaluateArticleRules w _ _) = Inr (workspace_origin env w)"
| "work_origin_tx env db (ApplyRule w _ _ _ _) = Inr (workspace_origin env w)"

definition enqueue_work_tx ::
  "queue_env \<Rightarrow> 'a db \<Rightarrow> uuid \<Rightarrow> work_item \<Rightarrow> instant \<Rightarrow> repository_error + 'a db" where
  "enqueue_work_tx env db i item wall =
    (case map_of (db_jobs db) i of
       Some j \<Rightarrow>
         if ij_item j = item then Inr db else Inl (Storage ''durable job identity collision'')
     | None \<Rightarrow>
         and_then (work_origin_tx env db item) (\<lambda>origin.
           Inr (put_job db i (new_job item origin (millis wall)))))"

fun set_work_source :: "work_item \<Rightarrow> source_id \<Rightarrow> repository_error + work_item" where
  "set_work_source (PollSource _) s = Inr (PollSource s)"
| "set_work_source (RefreshSource _) s = Inr (RefreshSource s)"
| "set_work_source (CollectWebFeed _) s = Inr (CollectWebFeed s)"
| "set_work_source _ s = Inl (Storage ''invalid subscription work item'')"

text \<open>The identities of derived jobs.\<close>

definition record_job :: "queue_env \<Rightarrow> string \<Rightarrow> source_record_id \<Rightarrow> u64 \<Rightarrow> job_id" where
  "record_job env kind r revision =
    job_hash env (kind @ ''/'' @ uuid_text env r @ ''/'' @ nat_text (unat revision))"

definition cleanup_job :: "queue_env \<Rightarrow> source_record_id \<Rightarrow> uuid \<Rightarrow> job_id" where
  "cleanup_job env r refresh = job_hash env (''cleanup/'' @ uuid_text env r @ ''/'' @ uuid_text env refresh)"

definition rule_job :: "queue_env \<Rightarrow> rule_id \<Rightarrow> u64 \<Rightarrow> article_id \<Rightarrow> job_id" where
  "rule_job env rule version cursor =
    job_hash env (''rule/'' @ uuid_text env rule @ ''/'' @ nat_text (unat version) @ ''/''
      @ uuid_text env cursor)"

definition article_rule_job ::
  "queue_env \<Rightarrow> article_id \<Rightarrow> subscription_id \<Rightarrow> source_record_id \<Rightarrow> u64 \<Rightarrow> job_id" where
  "article_rule_job env a s r revision =
    job_hash env (''article-rule/'' @ uuid_text env a @ ''/'' @ uuid_text env s @ ''/''
      @ uuid_text env r @ ''/'' @ nat_text (unat revision))"

section \<open>Source failures\<close>

definition days_30 :: int where
  "days_30 = 30 * 86400 * 1000000000"

text \<open>Expired activity rows are deleted; every subscription of the source whose workspace accepts
  deliveries gets a row.\<close>

definition activity_event ::
  "(subscription_id \<Rightarrow> uuid) \<Rightarrow> bool \<Rightarrow> u64 option \<Rightarrow> nat option \<Rightarrow> string option \<Rightarrow> instant
    \<Rightarrow> subscription_id \<Rightarrow> subscription_activity" where
  "activity_event fresh successful duration discovered diagnostic at s =
    \<lparr>sa_id = fresh s, sa_subscription_id = s, sa_occurred_at = at, sa_successful = successful,
     sa_duration_ms = duration, sa_discovered_items = discovered, sa_diagnostic = diagnostic\<rparr>"

definition record_subscription_activity ::
  "(subscription_id \<Rightarrow> uuid) \<Rightarrow> 'a db \<Rightarrow> source_id \<Rightarrow> bool \<Rightarrow> u64 option \<Rightarrow> nat option \<Rightarrow> string option
    \<Rightarrow> instant \<Rightarrow> store_error + 'a db" where
  "record_subscription_activity fresh db source successful duration discovered diagnostic at =
    (let cutoff = millis (at - days_30);
         kept = filter (\<lambda>a. \<not> millis (sa_occurred_at a) < cutoff) (db_activity db);
         subscriptions = map fst (filter (\<lambda>(s, src). src = source) (db_subscription_sources db))
     in and_then
       (try_fold (\<lambda>events s.
          and_then (store_doc (db_subscriptions db) s) (\<lambda>sub.
          and_then (store_doc (db_workspaces db) (sub_workspace sub)) (\<lambda>w.
            Inr (if accepts_delivery w
                 then events @ [activity_event fresh successful duration discovered diagnostic at s]
                 else events)))) kept subscriptions)
       (\<lambda>events. Inr (db\<lparr>db_activity := events\<rparr>)))"

definition saturating_succ32 :: "u32 \<Rightarrow> u32" where
  "saturating_succ32 n = (if n = - 1 then n else n + 1)"

definition empty_health :: source_health where
  "empty_health =
    \<lparr>sh_last_success_ms = None, sh_incomplete = False, sh_error = None, sh_last_error_ms = None,
     sh_consecutive_failures = 0\<rparr>"

definition record_source_failure ::
  "(subscription_id \<Rightarrow> uuid) \<Rightarrow> 'a db \<Rightarrow> source_id \<Rightarrow> string \<Rightarrow> instant \<Rightarrow> store_error + 'a db" where
  "record_source_failure fresh db source diagnostic wall =
    (let row = map_of (db_source_health db) source;
         current = (case row of Some (h, _) \<Rightarrow> h | None \<Rightarrow> empty_health);
         health = current\<lparr>sh_error := Some diagnostic, sh_last_error_ms := Some (millis wall),
           sh_consecutive_failures := saturating_succ32 (sh_consecutive_failures current)\<rparr>;
         since = (case row of Some (_, Some t) \<Rightarrow> Some t | _ \<Rightarrow> Some (millis wall))
     in record_subscription_activity fresh
       (db\<lparr>db_source_health := put source (health, since) (db_source_health db)\<rparr>)
       source False None None (Some diagnostic) wall)"

definition record_source_success_state ::
  "'a db \<Rightarrow> source_id \<Rightarrow> instant \<Rightarrow> bool \<Rightarrow> 'a db" where
  "record_source_success_state db source at incomplete =
    (let prior = map_of (db_source_health db) source;
         health = \<lparr>sh_last_success_ms = Some (millis at), sh_incomplete = incomplete, sh_error = None,
           sh_last_error_ms = (case prior of Some (h, _) \<Rightarrow> sh_last_error_ms h | None \<Rightarrow> None),
           sh_consecutive_failures = 0\<rparr>
     in db\<lparr>db_source_health := put source (health, None) (db_source_health db)\<rparr>)"

section \<open>Leases\<close>

definition claimable :: "int \<Rightarrow> ingest_job \<Rightarrow> bool" where
  "claimable now_ms j \<longleftrightarrow>
    ij_status j = Ready \<and> ij_run_at_ms j \<le> now_ms
    \<or> ij_status j = Leased \<and> (case ij_lease_deadline_ms j of Some d \<Rightarrow> d < now_ms | None \<Rightarrow> False)"

definition lease_active :: "int \<Rightarrow> ingest_job \<Rightarrow> bool" where
  "lease_active now_ms j \<longleftrightarrow>
    ij_status j = Leased \<and> (case ij_lease_deadline_ms j of Some d \<Rightarrow> now_ms \<le> d | None \<Rightarrow> False)"

definition active_leases :: "'a db \<Rightarrow> int \<Rightarrow> string \<Rightarrow> nat" where
  "active_leases db now_ms origin =
    length (filter (\<lambda>(_, j). lease_active now_ms j \<and> ij_origin_key j = origin) (db_jobs db))"

definition source_busy :: "'a db \<Rightarrow> int \<Rightarrow> ingest_job \<Rightarrow> bool" where
  "source_busy db now_ms j \<longleftrightarrow>
    (case collected_source (ij_item j) of
       None \<Rightarrow> False
     | Some s \<Rightarrow>
         list_ex (\<lambda>(_, a). lease_active now_ms a \<and> collected_source (ij_item a) = Some s) (db_jobs db))"

text \<open>\<open>ORDER BY CASE WHEN status='ready' THEN 0 ELSE 1 END, run_at_ms, id\<close>.\<close>

definition job_before :: "job_id \<times> ingest_job \<Rightarrow> job_id \<times> ingest_job \<Rightarrow> bool" where
  "job_before x y =
    (let rank = (\<lambda>j. if ij_status j = Ready then 0 else (1 :: nat)); a = snd x; b = snd y
     in rank a < rank b \<or> rank a = rank b \<and>
       (ij_run_at_ms a < ij_run_at_ms b \<or> ij_run_at_ms a = ij_run_at_ms b \<and> fst x < fst y))"

fun first_job :: "(job_id \<times> ingest_job) list \<Rightarrow> (job_id \<times> ingest_job) option" where
  "first_job [] = None"
| "first_job (x # xs) =
    (case first_job xs of None \<Rightarrow> Some x | Some y \<Rightarrow> Some (if job_before y x then y else x))"

definition claim_query ::
  "scheduler \<Rightarrow> job_id list \<Rightarrow> 'a db \<Rightarrow> int \<Rightarrow> string list \<Rightarrow> (job_id \<times> ingest_job) option" where
  "claim_query sch locked db now_ms excluded =
    first_job (filter (\<lambda>(i, j). claimable now_ms j \<and> ij_origin_key j \<notin> set excluded
      \<and> active_leases db now_ms (ij_origin_key j) < per_origin_concurrency sch
      \<and> \<not> source_busy db now_ms j \<and> i \<notin> set locked) (db_jobs db))"

text \<open>A job past its maximal retry age ends its attempt cycle: a recurring one starts afresh after the
  poll interval, any other fails.\<close>

definition expire_job :: "scheduler \<Rightarrow> instant \<Rightarrow> ingest_job \<Rightarrow> ingest_job" where
  "expire_job sch now j =
    (let recurring = is_recurring (ij_item j); next_run = millis (now + poll_interval sch)
     in j\<lparr>ij_status := (if recurring then Ready else Failed), ij_lease_token := None,
          ij_lease_deadline_ms := None, ij_diagnostic := Some ''maximum retry age exceeded'',
          ij_revision := ij_revision j + 1,
          ij_run_at_ms := (if recurring then next_run else ij_run_at_ms j),
          ij_first_attempt_ms := (if recurring then next_run else ij_first_attempt_ms j),
          ij_attempt := (if recurring then 0 else ij_attempt j)\<rparr>)"

definition lease_job :: "lease_token \<Rightarrow> instant \<Rightarrow> ingest_job \<Rightarrow> ingest_job" where
  "lease_job token lease_until j =
    j\<lparr>ij_status := Leased, ij_lease_token := Some token,
      ij_lease_deadline_ms := Some (millis lease_until), ij_revision := ij_revision j + 1\<rparr>"

text \<open>The loop of \<open>claim\<close>, with fuel; \<open>None\<close> means that the fuel ran out.\<close>

fun claim_loop ::
  "nat \<Rightarrow> scheduler \<Rightarrow> job_id list \<Rightarrow> (string \<Rightarrow> bool) \<Rightarrow> (subscription_id \<Rightarrow> uuid) \<Rightarrow> 'a db \<Rightarrow> instant
    \<Rightarrow> instant \<Rightarrow> lease_token \<Rightarrow> string list \<Rightarrow> (store_error + leased_work option \<times> 'a db) option" where
  "claim_loop 0 sch locked reserved fresh db now lease_until token excluded = None"
| "claim_loop (Suc n) sch locked reserved fresh db now lease_until token excluded =
    (case claim_query sch locked db (millis now) excluded of
       None \<Rightarrow> Some (Inr (None, db))
     | Some (i, j) \<Rightarrow>
         let origin = ij_origin_key j;
             exclude = (\<lambda>_. claim_loop n sch locked reserved fresh db now lease_until token (excluded @ [origin]))
         in
         if \<not> reserved origin then exclude ()
         else if retry_age_exceeded (ij_first_attempt_ms j) (millis (now - max_retry_age sch)) then
           (let db' = put_job db i (expire_job sch now j) in
            case (case work_source (ij_item j) of
                Some s \<Rightarrow> record_source_failure fresh db' s ''maximum retry age exceeded'' now
              | None \<Rightarrow> Inr db') of
              Inl e \<Rightarrow> Some (Inl e)
            | Inr db'' \<Rightarrow> claim_loop n sch locked reserved fresh db'' now lease_until token excluded)
         else if \<not> origin_has_capacity (active_leases db (millis now) origin) (per_origin_concurrency sch)
         then exclude ()
         else if source_busy db (millis now) j then exclude ()
         else
           Some (and_then (store_u32 (ij_attempt j) ''job attempt'') (\<lambda>attempt.
             Inr (Some \<lparr>lw_job_id = i, lw_item = ij_item j, lw_token = token, lw_deadline = lease_until,
                    lw_attempt = attempt\<rparr>,
                  put_job db i (lease_job token lease_until j)))))"

definition claim ::
  "nat \<Rightarrow> scheduler \<Rightarrow> job_id list \<Rightarrow> (string \<Rightarrow> bool) \<Rightarrow> (subscription_id \<Rightarrow> uuid) \<Rightarrow> 'a db \<Rightarrow> instant
    \<Rightarrow> instant \<Rightarrow> lease_token \<Rightarrow> (store_error + leased_work option \<times> 'a db) option" where
  "claim fuel sch locked reserved fresh db now lease_until token =
    (if per_origin_concurrency sch > i64_max
     then Some (Inl (Unavailable ''out of range integral type conversion attempted''))
     else claim_loop fuel sch locked reserved fresh db now lease_until token [])"

text \<open>The row that the \<open>UPDATE\<close> of \<open>lease_update\<close> finds.\<close>

definition live_lease :: "'a db \<Rightarrow> job_id \<Rightarrow> lease_token \<Rightarrow> int \<Rightarrow> ingest_job option" where
  "live_lease db i token clock_ms =
    (case map_of (db_jobs db) i of
       None \<Rightarrow> None
     | Some j \<Rightarrow>
         if ij_status j = Leased \<and> ij_lease_token j = Some token
            \<and> (case ij_lease_deadline_ms j of Some d \<Rightarrow> clock_ms \<le> d | None \<Rightarrow> False)
         then Some j else None)"

definition lease_update ::
  "scheduler \<Rightarrow> (subscription_id \<Rightarrow> uuid) \<Rightarrow> 'a db \<Rightarrow> int \<Rightarrow> instant \<Rightarrow> job_id \<Rightarrow> lease_token \<Rightarrow> job_state
    \<Rightarrow> int option \<Rightarrow> int option \<Rightarrow> string option \<Rightarrow> store_error + 'a db" where
  "lease_update sch fresh db clock_ms wall i token status deadline run_at diagnostic =
    (case live_lease db i token clock_ms of
       None \<Rightarrow> Inl StaleLease
     | Some j \<Rightarrow>
         let j1 = j\<lparr>ij_status := status, ij_lease_deadline_ms := deadline,
               ij_run_at_ms := (case run_at of Some t \<Rightarrow> t | None \<Rightarrow> ij_run_at_ms j),
               ij_diagnostic := diagnostic,
               ij_attempt := (if status = Ready then ij_attempt j + 1 else ij_attempt j),
               ij_revision := ij_revision j + 1\<rparr>;
             next_run = (let t = millis (wall + poll_interval sch) in
               case run_at of Some r \<Rightarrow> max t r | None \<Rightarrow> t);
             j2 = (if status = Failed \<and> is_recurring (ij_item j)
               then j1\<lparr>ij_status := Ready, ij_run_at_ms := next_run, ij_first_attempt_ms := next_run,
                 ij_attempt := 0, ij_lease_token := None, ij_lease_deadline_ms := None\<rparr>
               else j1);
             db' = put_job db i j2
         in (case (diagnostic, work_source (ij_item j)) of
               (Some d, Some s) \<Rightarrow> record_source_failure fresh db' s d wall
             | _ \<Rightarrow> Inr db'))"

definition finish ::
  "scheduler \<Rightarrow> 'a db \<Rightarrow> instant \<Rightarrow> job_id \<Rightarrow> lease_token \<Rightarrow> store_error + 'a db" where
  "finish sch db wall i token =
    (case map_of (db_jobs db) i of
       None \<Rightarrow> Inl StaleLease
     | Some j \<Rightarrow>
         if ij_status j = Leased \<and> ij_lease_token j = Some token then
           (let recurring = is_recurring (ij_item j); next_run = millis (wall + poll_interval sch)
            in Inr (put_job db i (j\<lparr>ij_status := (if recurring then Ready else Completed),
              ij_run_at_ms := (if recurring then next_run else 0),
              ij_first_attempt_ms := (if recurring then next_run else ij_first_attempt_ms j),
              ij_attempt := (if recurring then 0 else ij_attempt j), ij_lease_token := None,
              ij_lease_deadline_ms := None, ij_revision := ij_revision j + 1\<rparr>)))
         else Inl StaleLease)"

definition renew ::
  "scheduler \<Rightarrow> (subscription_id \<Rightarrow> uuid) \<Rightarrow> 'a db \<Rightarrow> int \<Rightarrow> instant \<Rightarrow> job_id \<Rightarrow> lease_token \<Rightarrow> instant
    \<Rightarrow> store_error + 'a db" where
  "renew sch fresh db clock_ms wall i token lease_until =
    lease_update sch fresh db clock_ms wall i token Leased (Some (millis lease_until)) None None"

definition complete :: "scheduler \<Rightarrow> 'a db \<Rightarrow> instant \<Rightarrow> job_id \<Rightarrow> lease_token \<Rightarrow> store_error + 'a db" where
  "complete sch db wall i token = finish sch db wall i token"

definition retry ::
  "scheduler \<Rightarrow> (subscription_id \<Rightarrow> uuid) \<Rightarrow> 'a db \<Rightarrow> int \<Rightarrow> instant \<Rightarrow> job_id \<Rightarrow> lease_token \<Rightarrow> instant
    \<Rightarrow> string \<Rightarrow> store_error + 'a db" where
  "retry sch fresh db clock_ms wall i token run_at diagnostic =
    lease_update sch fresh db clock_ms wall i token Ready None (Some (millis run_at)) (Some diagnostic)"

definition fail ::
  "scheduler \<Rightarrow> (subscription_id \<Rightarrow> uuid) \<Rightarrow> 'a db \<Rightarrow> int \<Rightarrow> instant \<Rightarrow> job_id \<Rightarrow> lease_token \<Rightarrow> string
    \<Rightarrow> instant option \<Rightarrow> store_error + 'a db" where
  "fail sch fresh db clock_ms wall i token diagnostic not_before =
    lease_update sch fresh db clock_ms wall i token Failed None (map_option millis not_before)
      (Some diagnostic)"

definition assert_lease :: "'a db \<Rightarrow> instant \<Rightarrow> leased_work \<Rightarrow> store_error + unit" where
  "assert_lease db wall lease =
    (case live_lease db (lw_job_id lease) (lw_token lease) (millis wall) of
       None \<Rightarrow> Inl StaleLease | Some _ \<Rightarrow> Inr ())"

definition reprioritize_ready_jobs :: "'a db \<Rightarrow> nat \<times> 'a db" where
  "reprioritize_ready_jobs db =
    (let stale = (\<lambda>j. ij_status j = Ready \<and> ij_run_at_ms j = 0 \<and> initial_job_run_at (ij_item j) \<noteq> 0)
     in (length (filter (\<lambda>(_, j). stale j) (db_jobs db)),
         db\<lparr>db_jobs := map (\<lambda>(i, j).
           (i, if stale j then j\<lparr>ij_run_at_ms := initial_job_run_at (ij_item j)\<rparr> else j)) (db_jobs db)\<rparr>))"

end
