(* ===== verification/Ingest_Db.thy ===== *)
theory Ingest_Db
  imports Work_Queue
begin

text \<open>
  The tables that only the ingest store uses (\<open>schema.rs\<close>), as a further extension of the database:
  the state of each source's last poll and the failures of content refreshes (both rows of
  \<open>content_refresh_state\<close>), the identity of a source's records, the backlog of an initial poll and the
  derived search text. The tables of the AI features are what the record is extended with: the
  operations are polymorphic in that extension.
\<close>

record source_poll_state =
  ps_validators :: cache_validators
  ps_incomplete :: bool
  ps_last_success_ms :: "int option"

text \<open>Documents of source rows: the current form, or the bare validators of an older release.\<close>

datatype poll_document = PollState source_poll_state | BareValidators cache_validators

record backlog_context =
  bc_source_revision :: u64
  bc_fetched_at :: instant
  bc_final_url :: url
  bc_validators :: cache_validators

record backlog_row =
  bl_ordinal :: nat
  bl_record :: source_record
  bl_action :: poll_action
  bl_context :: backlog_context

record ingest_db = reader_db +
  db_poll_state :: "(source_id \<times> poll_document) list"
  db_refresh_failures :: "(source_record_id \<times> nat \<times> string \<times> job_id) list"
  db_record_identity :: "((source_id \<times> string) \<times> source_record_id \<times> int \<times> u64 \<times> source_record) list"
  db_backlog :: "((source_id \<times> source_record_id) \<times> backlog_row) list"
  db_search_text :: "(source_record_id \<times> string) list"

type_synonym 'a idb = "'a ingest_db_scheme"

section \<open>Slices and byte strings\<close>

text \<open>\<open>slice::chunks\<close>: consecutive pieces of \<open>n\<close> elements, the last one possibly shorter. The code
  never asks for pieces of size zero, where Rust panics.\<close>

function slices :: "nat \<Rightarrow> 'a list \<Rightarrow> 'a list list" where
  "slices n xs = (if xs = [] \<or> n = 0 then [] else take n xs # slices n (drop n xs))"
  by auto
termination by (relation "measure (\<lambda>(n, xs). length xs)") auto

declare slices.simps [simp del]

lemma slices_simps [simp]:
  "slices n [] = []"
  "xs \<noteq> [] \<Longrightarrow> 0 < n \<Longrightarrow> slices n xs = take n xs # slices n (drop n xs)"
  by (subst slices.simps; simp)+

lemma concat_slices: "0 < n \<Longrightarrow> concat (slices n xs) = xs"
proof (induction n xs rule: slices.induct)
  case (1 n xs)
  then show ?case by (cases "xs = []") simp_all
qed

lemma slices_length: "0 < n \<Longrightarrow> x \<in> set (slices n xs) \<Longrightarrow> x \<noteq> [] \<and> length x \<le> n"
proof (induction n xs rule: slices.induct)
  case (1 n xs)
  then show ?case by (cases "xs = []") auto
qed

lemma distinct_map_sort_key: "distinct (map f (sort_key g xs)) = distinct (map f xs)"
  by (simp add: distinct_map)

lemma put_append: "k \<notin> fst ` set t \<Longrightarrow> put k v t = t @ [(k, v)]"
  unfolding put_def by (induction t) auto

text \<open>\<open>str::as_bytes\<close> and \<open>String::from_utf8\<close>.\<close>

definition as_bytes :: "string \<Rightarrow> u8 list" where
  "as_bytes s = map (\<lambda>c. of_nat (byte_of c)) s"

definition bytes_string :: "u8 list \<Rightarrow> string" where
  "bytes_string bs = map (\<lambda>b. char_of (unat b)) bs"

definition valid_utf8 :: "string \<Rightarrow> bool" where
  "valid_utf8 s \<longleftrightarrow> list_all is_scalar (chars s) \<and> from_chars (chars s) = s"

definition from_utf8 :: "u8 list \<Rightarrow> string option" where
  "from_utf8 bs = (let s = bytes_string bs in if valid_utf8 s then Some s else None)"

lemma valid_utf8_iff: "valid_utf8 s \<longleftrightarrow> utf8 s"
  using utf8_chars by (auto simp: valid_utf8_def utf8_def)

lemma bytes_string_as_bytes [simp]: "bytes_string (as_bytes s) = s"
proof -
  have "char_of (unat (of_nat (byte_of c) :: u8)) = c" for c :: char
    using of_char_eq_iff [of c] by (simp add: unat_of_nat)
  then show ?thesis by (simp add: bytes_string_def as_bytes_def comp_def)
qed

lemma from_utf8_as_bytes: "utf8 s \<Longrightarrow> from_utf8 (as_bytes s) = Some s"
  by (simp add: from_utf8_def valid_utf8_iff)

lemma utf8_append: "utf8 s \<Longrightarrow> utf8 t \<Longrightarrow> utf8 (s @ t)"
  unfolding utf8_def
  by (elim exE, rule_tac x = "cs @ csa" in exI) (auto simp: from_chars_def)

lemma utf8_ascii:
  assumes "list_all (\<lambda>c. byte_of c < 128) s"
  shows "utf8 s"
  unfolding utf8_def
  by (rule exI [of _ "map byte_of s"])
    (use assms from_chars_ascii [OF assms] in \<open>auto simp: list_all_iff is_scalar_def\<close>)

section \<open>A concrete database\<close>

text \<open>One source with one record, and a leased job.\<close>

definition demo_ingest_db :: ingest_db where
  "demo_ingest_db =
    \<lparr>db_workspaces = [], db_accounts = [], db_usernames = [], db_invites = [], db_sessions = [],
     db_resets = [], db_login_attempts = [], db_subscriptions = [], db_removed_subscriptions = [],
     db_subscription_sources = [], db_feed_urls = [],
     db_sources = [(2, 0, \<lparr>src_id = 2, src_url = example_url, src_kind = XmlFeed, src_revision = 0\<rparr>)],
     db_source_urls = [], db_source_records = [(1, 3, example_record)],
     db_jobs = [(7, lease_job 3 5000000000 (new_job (ExtractFullText 1 3 example_url False) ''o'' 0))],
     db_source_health = [], db_activity = [], db_articles = [],
     db_dedup = [], db_origins = [], db_rules = [], db_rule_evaluations = [], db_history_links = [],
     db_auto_read_days = [], db_read_events = [], db_manifests = [], db_chunks = [],
     db_poll_state = [], db_refresh_failures = [], db_record_identity = [], db_backlog = [], db_search_text = []\<rparr>"

end
