(* ===== verification/Queue_Runs.thy ===== *)
theory Queue_Runs
  imports Work_Queue
begin

text \<open>
  Runs of the work queue: any sequence of queue operations at non-decreasing times, by any number of
  workers. The invariant bounds the active leases per origin, keeps one collector per source and
  never lets a recurring job end; fencing says that a worker that lost its lease changes nothing.
\<close>

section \<open>Jobs as a map\<close>

definition jobs_where :: "'a db \<Rightarrow> (ingest_job \<Rightarrow> bool) \<Rightarrow> job_id set" where
  "jobs_where db P = {i. \<exists>j. map_of (db_jobs db) i = Some j \<and> P j}"

lemma finite_jobs_where [simp]: "finite (jobs_where db P)"
proof -
  have "jobs_where db P \<subseteq> dom (map_of (db_jobs db))" by (auto simp: jobs_where_def)
  then show ?thesis by (rule finite_subset) (simp add: finite_dom_map_of)
qed

lemma filter_length_card:
  assumes "distinct (map fst xs)"
  shows "length (filter (\<lambda>(_, v). P v) xs) = card {k. \<exists>v. map_of xs k = Some v \<and> P v}"
proof -
  have "distinct (map fst (filter (\<lambda>(_, v). P v) xs))" using assms by (rule distinct_map_filter)
  then have "length (filter (\<lambda>(_, v). P v) xs) = card (fst ` set (filter (\<lambda>(_, v). P v) xs))"
    by (metis distinct_card length_map set_map)
  also have "fst ` set (filter (\<lambda>(_, v). P v) xs) = {k. \<exists>v. map_of xs k = Some v \<and> P v}"
    using assms by (force simp: image_iff)
  finally show ?thesis .
qed

lemma active_leases_card:
  "distinct (map fst (db_jobs db)) \<Longrightarrow>
    active_leases db t origin = card (jobs_where db (\<lambda>j. lease_active t j \<and> ij_origin_key j = origin))"
  unfolding active_leases_def jobs_where_def by (rule filter_length_card)

lemma map_of_put_job [simp]: "map_of (db_jobs (put_job db i j)) = (map_of (db_jobs db))(i \<mapsto> j)"
  by (simp add: put_job_def)

lemma distinct_put_job [simp]:
  "distinct (map fst (db_jobs db)) \<Longrightarrow> distinct (map fst (db_jobs (put_job db i j)))"
  by (simp add: put_job_def distinct_put)

lemma jobs_where_put: "jobs_where (put_job db i j) P \<subseteq> insert i (jobs_where db P)"
  by (auto simp: jobs_where_def)

lemma jobs_where_put_not: "\<not> P j \<Longrightarrow> jobs_where (put_job db i j) P \<subseteq> jobs_where db P"
  by (auto simp: jobs_where_def split: if_splits)

lemma jobs_where_put_old: "i \<in> jobs_where db P \<Longrightarrow> jobs_where (put_job db i j) P \<subseteq> jobs_where db P"
  using jobs_where_put by blast

lemma db_jobs_activity [simp]:
  "record_subscription_activity fresh db s b dur n dg at = Inr db' \<Longrightarrow> db_jobs db' = db_jobs db"
  by (auto simp: record_subscription_activity_def Let_def)

lemma db_jobs_failure [simp]:
  "record_source_failure fresh db s dg w = Inr db' \<Longrightarrow> db_jobs db' = db_jobs db"
  unfolding record_source_failure_def Let_def by (drule db_jobs_activity) simp

section \<open>The invariant\<close>

definition same_collector :: "ingest_job \<Rightarrow> ingest_job \<Rightarrow> bool" where
  "same_collector a b \<longleftrightarrow>
    (\<exists>s. collected_source (ij_item a) = Some s \<and> collected_source (ij_item b) = Some s)"

definition capacity_ok :: "scheduler \<Rightarrow> int \<Rightarrow> 'a db \<Rightarrow> bool" where
  "capacity_ok sch t db \<longleftrightarrow> (\<forall>origin. active_leases db t origin \<le> per_origin_concurrency sch)"

definition collectors_ok :: "int \<Rightarrow> 'a db \<Rightarrow> bool" where
  "collectors_ok t db \<longleftrightarrow>
    (\<forall>i j i' j'. map_of (db_jobs db) i = Some j \<longrightarrow> map_of (db_jobs db) i' = Some j' \<longrightarrow>
      lease_active t j \<longrightarrow> lease_active t j' \<longrightarrow> same_collector j j' \<longrightarrow> i = i')"

definition recurring_ok :: "'a db \<Rightarrow> bool" where
  "recurring_ok db \<longleftrightarrow>
    (\<forall>i j. map_of (db_jobs db) i = Some j \<longrightarrow> is_recurring (ij_item j) \<longrightarrow>
      ij_status j = Ready \<or> ij_status j = Leased)"

definition queue_inv :: "scheduler \<Rightarrow> int \<Rightarrow> 'a db \<Rightarrow> bool" where
  "queue_inv sch t db \<longleftrightarrow>
    distinct (map fst (db_jobs db)) \<and> capacity_ok sch t db \<and> collectors_ok t db \<and> recurring_ok db"

lemma collectors_okD:
  "collectors_ok t db \<Longrightarrow> map_of (db_jobs db) i = Some j \<Longrightarrow> map_of (db_jobs db) i' = Some j' \<Longrightarrow>
    lease_active t j \<Longrightarrow> lease_active t j' \<Longrightarrow> same_collector j j' \<Longrightarrow> i = i'"
  unfolding collectors_ok_def by blast

lemma queue_inv_jobs: "db_jobs db' = db_jobs db \<Longrightarrow> queue_inv sch t db' = queue_inv sch t db"
  by (simp add: queue_inv_def capacity_ok_def collectors_ok_def recurring_ok_def active_leases_def)

lemma lease_active_earlier: "lease_active t' j \<Longrightarrow> t \<le> t' \<Longrightarrow> lease_active t j"
  by (auto simp: lease_active_def split: option.splits)

lemma queue_inv_later:
  assumes "queue_inv sch t db" and "t \<le> t'"
  shows "queue_inv sch t' db"
proof -
  have d: "distinct (map fst (db_jobs db))" using assms(1) by (simp add: queue_inv_def)
  have "active_leases db t' origin \<le> active_leases db t origin" for origin
    unfolding active_leases_card [OF d]
    by (rule card_mono) (use assms(2) lease_active_earlier in \<open>auto simp: jobs_where_def\<close>)
  then have "capacity_ok sch t' db"
    using assms(1) order_trans unfolding queue_inv_def capacity_ok_def by blast
  moreover have "collectors_ok t' db"
    unfolding collectors_ok_def
    using assms(1) lease_active_earlier [OF _ assms(2)] by (auto simp: queue_inv_def dest: collectors_okD)
  ultimately show ?thesis using assms(1) by (simp add: queue_inv_def)
qed

text \<open>Rewriting a job keeps the invariant when it does not become an additional active lease.\<close>

lemma queue_inv_put:
  assumes "queue_inv sch t db"
    and active: "lease_active t j' \<Longrightarrow>
      \<exists>j. map_of (db_jobs db) i = Some j \<and> lease_active t j \<and> ij_origin_key j = ij_origin_key j'
        \<and> ij_item j = ij_item j'"
    and recurring: "is_recurring (ij_item j') \<Longrightarrow> ij_status j' = Ready \<or> ij_status j' = Leased"
  shows "queue_inv sch t (put_job db i j')"
proof -
  have d: "distinct (map fst (db_jobs db))" using assms(1) by (simp add: queue_inv_def)
  have "active_leases (put_job db i j') t origin \<le> active_leases db t origin" for origin
    unfolding active_leases_card [OF d] active_leases_card [OF distinct_put_job [OF d]]
    by (rule card_mono) (use active in \<open>auto simp: jobs_where_def split: if_splits\<close>)
  then have cap: "capacity_ok sch t (put_job db i j')"
    using assms(1) order_trans unfolding queue_inv_def capacity_ok_def by blast
  have "k = k'" if ab: "map_of (db_jobs (put_job db i j')) k = Some a"
    "map_of (db_jobs (put_job db i j')) k' = Some b" "lease_active t a" "lease_active t b"
    "same_collector a b" for k k' a b
  proof -
    obtain a' where a: "map_of (db_jobs db) k = Some a'" "lease_active t a'" "ij_item a' = ij_item a"
      using ab(1,3) active by (cases "k = i") auto
    obtain b' where b: "map_of (db_jobs db) k' = Some b'" "lease_active t b'" "ij_item b' = ij_item b"
      using ab(2,4) active by (cases "k' = i") auto
    have "same_collector a' b'" using ab(5) a(3) b(3) by (simp add: same_collector_def)
    with a(1,2) b(1,2) show ?thesis
      using assms(1) unfolding queue_inv_def by (intro collectors_okD [of t db k a' k' b']) auto
  qed
  then have "collectors_ok t (put_job db i j')" unfolding collectors_ok_def by blast
  moreover have "recurring_ok (put_job db i j')"
    using recurring assms(1) by (simp add: queue_inv_def recurring_ok_def)
  ultimately show ?thesis using cap d by (simp add: queue_inv_def)
qed

lemma queue_inv_lease:
  assumes inv: "queue_inv sch t db" and row: "map_of (db_jobs db) i = Some j"
    and cap: "active_leases db t (ij_origin_key j) < per_origin_concurrency sch"
    and free: "\<not> source_busy db t j"
  shows "queue_inv sch t (put_job db i (lease_job token until j))"
proof -
  let ?db = "put_job db i (lease_job token until j)"
  have d: "distinct (map fst (db_jobs db))" using inv by (simp add: queue_inv_def)
  have "active_leases ?db t origin \<le> per_origin_concurrency sch" for origin
  proof -
    let ?P = "\<lambda>j. lease_active t j \<and> ij_origin_key j = origin"
    have "card (jobs_where ?db ?P) \<le> card (insert i (jobs_where db ?P))"
      by (rule card_mono) (simp_all add: jobs_where_put)
    also have "\<dots> \<le> Suc (card (jobs_where db ?P))" by (simp add: card_insert_if)
    finally have *: "active_leases ?db t origin \<le> Suc (active_leases db t origin)"
      by (simp add: active_leases_card d)
    show ?thesis
    proof (cases "origin = ij_origin_key j")
      case True
      with * cap show ?thesis by simp
    next
      case False
      then have "card (jobs_where ?db ?P) \<le> card (jobs_where db ?P)"
        by (intro card_mono jobs_where_put_not) (auto simp: lease_job_def)
      moreover have "active_leases db t origin \<le> per_origin_concurrency sch"
        using inv by (simp add: queue_inv_def capacity_ok_def)
      ultimately show ?thesis by (simp add: active_leases_card d)
    qed
  qed
  then have "capacity_ok sch t ?db" unfolding capacity_ok_def by blast
  moreover have "k = k'" if ab: "map_of (db_jobs ?db) k = Some a" "map_of (db_jobs ?db) k' = Some b"
    "lease_active t a" "lease_active t b" "same_collector a b" for k k' a b
  proof -
    have other: False if "map_of (db_jobs db) m = Some c" "lease_active t c" "same_collector j c" for m c
    proof -
      from that(1) have "(m, c) \<in> set (db_jobs db)" by (rule map_of_SomeD)
      with that(2,3) free show False
        by (force simp: source_busy_def same_collector_def list_ex_iff split: option.splits)
    qed
    show ?thesis
    proof (rule ccontr)
      assume "k \<noteq> k'"
      then consider "k = i" "k' \<noteq> i" | "k \<noteq> i" "k' = i" | "k \<noteq> i" "k' \<noteq> i" by blast
      then show False
      proof cases
        case 1
        with ab other [of k' b] show False by (auto simp: lease_job_def same_collector_def)
      next
        case 2
        with ab(2,5) have "same_collector j a" by (auto simp: lease_job_def same_collector_def)
        with 2 ab(1,3) other [of k a] show False by simp
      next
        case 3
        with ab \<open>k \<noteq> k'\<close> inv show False by (auto simp: queue_inv_def dest: collectors_okD)
      qed
    qed
  qed
  then have "collectors_ok t ?db" unfolding collectors_ok_def by blast
  moreover have "recurring_ok ?db"
    using inv by (simp add: queue_inv_def recurring_ok_def lease_job_def)
  ultimately show ?thesis using d by (simp add: queue_inv_def)
qed

section \<open>The claim loop\<close>

lemma first_job_in: "first_job xs = Some x \<Longrightarrow> x \<in> set xs"
  by (induction xs arbitrary: x) (auto split: option.splits if_splits)

lemma first_job_None [simp]: "first_job xs = None \<longleftrightarrow> xs = []"
  by (cases xs) (auto split: option.splits)

lemma claim_query_Some:
  assumes "claim_query sch locked db t excluded = Some (i, j)" and "distinct (map fst (db_jobs db))"
  shows "map_of (db_jobs db) i = Some j" "claimable t j" "ij_origin_key j \<notin> set excluded"
    "active_leases db t (ij_origin_key j) < per_origin_concurrency sch" "\<not> source_busy db t j"
    "i \<notin> set locked"
proof -
  from first_job_in [OF assms(1) [unfolded claim_query_def]]
  have "(i, j) \<in> set (db_jobs db)" and rest: "claimable t j" "ij_origin_key j \<notin> set excluded"
    "active_leases db t (ij_origin_key j) < per_origin_concurrency sch" "\<not> source_busy db t j"
    "i \<notin> set locked" by auto
  with assms(2) show "map_of (db_jobs db) i = Some j" by simp
  show "claimable t j" "ij_origin_key j \<notin> set excluded"
    "active_leases db t (ij_origin_key j) < per_origin_concurrency sch" "\<not> source_busy db t j"
    "i \<notin> set locked" by (fact rest)+
qed

text \<open>The two ways in which one turn of the loop goes on: an origin is excluded because its advisory
  lock is taken, or an expired job is rewritten. The checks repeated after the lock never fail here,
  since the query has made them on the same state.\<close>

lemma claim_loop_turn:
  assumes "distinct (map fst (db_jobs db))"
  shows "claim_loop (Suc n) sch locked reserved fresh db now until token excluded =
    (case claim_query sch locked db (millis now) excluded of
       None \<Rightarrow> Some (Inr (None, db))
     | Some (i, j) \<Rightarrow>
         if \<not> reserved (ij_origin_key j)
         then claim_loop n sch locked reserved fresh db now until token (excluded @ [ij_origin_key j])
         else if retry_age_exceeded (ij_first_attempt_ms j) (millis (now - max_retry_age sch)) then
           (case (case work_source (ij_item j) of
                Some s \<Rightarrow> record_source_failure fresh (put_job db i (expire_job sch now j)) s
                  ''maximum retry age exceeded'' now
              | None \<Rightarrow> Inr (put_job db i (expire_job sch now j))) of
              Inl e \<Rightarrow> Some (Inl e)
            | Inr db' \<Rightarrow> claim_loop n sch locked reserved fresh db' now until token excluded)
         else
           Some (and_then (store_u32 (ij_attempt j) ''job attempt'') (\<lambda>attempt.
             Inr (Some \<lparr>lw_job_id = i, lw_item = ij_item j, lw_token = token, lw_deadline = until,
                    lw_attempt = attempt\<rparr>,
                  put_job db i (lease_job token until j)))))"
  using claim_query_Some [OF _ assms]
  by (simp add: Let_def origin_has_capacity_def split: option.split prod.split)

lemma expire_db_jobs:
  assumes "(case src of
      Some s \<Rightarrow> record_source_failure fresh (put_job db i j) s dg now | None \<Rightarrow> Inr (put_job db i j)) = Inr db'"
  shows "db_jobs db' = db_jobs (put_job db i j)"
  using assms by (auto split: option.splits)

lemma lease_active_expire [simp]: "\<not> lease_active t (expire_job sch now j)"
  by (auto simp: lease_active_def expire_job_def Let_def)

lemma expire_job_status [simp]:
  "is_recurring (ij_item j) \<Longrightarrow> ij_status (expire_job sch now j) = Ready"
  "ij_item (expire_job sch now j) = ij_item j"
  "ij_origin_key (expire_job sch now j) = ij_origin_key j"
  by (simp_all add: expire_job_def Let_def)

lemma claim_loop_keeps:
  assumes "claim_loop n sch locked reserved fresh db now until token excluded = Some (Inr (w, db'))"
    and "queue_inv sch (millis now) db"
  shows "queue_inv sch (millis now) db'"
  using assms
proof (induction n arbitrary: db excluded)
  case (Suc n)
  have d: "distinct (map fst (db_jobs db))" using Suc.prems(2) by (simp add: queue_inv_def)
  note turn = Suc.prems(1) [unfolded claim_loop_turn [OF d]]
  show ?case
  proof (cases "claim_query sch locked db (millis now) excluded")
    case None
    with turn Suc.prems(2) show ?thesis by simp
  next
    case (Some x)
    then obtain i j where q: "claim_query sch locked db (millis now) excluded = Some (i, j)"
      by (cases x) auto
    note row = claim_query_Some [OF q d]
    consider (skip) "\<not> reserved (ij_origin_key j)"
      | (expire) "reserved (ij_origin_key j)"
          "retry_age_exceeded (ij_first_attempt_ms j) (millis (now - max_retry_age sch))"
      | (lease) "reserved (ij_origin_key j)"
          "\<not> retry_age_exceeded (ij_first_attempt_ms j) (millis (now - max_retry_age sch))" by blast
    then show ?thesis
    proof cases
      case skip
      with turn q Suc.IH Suc.prems(2) show ?thesis by simp
    next
      case expire
      with turn q obtain db1 where step: "(case work_source (ij_item j) of
          Some s \<Rightarrow> record_source_failure fresh (put_job db i (expire_job sch now j)) s
            ''maximum retry age exceeded'' now
        | None \<Rightarrow> Inr (put_job db i (expire_job sch now j))) = Inr db1"
        and rest: "claim_loop n sch locked reserved fresh db1 now until token excluded = Some (Inr (w, db'))"
        by (simp split: sum.splits)
      have "queue_inv sch (millis now) (put_job db i (expire_job sch now j))"
        using Suc.prems(2) by (intro queue_inv_put) auto
      with queue_inv_jobs [OF expire_db_jobs [OF step]] Suc.IH [OF rest] show ?thesis by blast
    next
      case lease
      with turn q have "db' = put_job db i (lease_job token until j)" by auto
      with queue_inv_lease [OF Suc.prems(2) row(1,4,5)] show ?thesis by simp
    qed
  qed
qed simp

lemma claim_keeps:
  "claim n sch locked reserved fresh db now until token = Some (Inr (w, db')) \<Longrightarrow>
    queue_inv sch (millis now) db \<Longrightarrow> queue_inv sch (millis now) db'"
  unfolding claim_def by (auto split: if_splits intro: claim_loop_keeps)

section \<open>Operations on a lease keep the invariant\<close>

lemma live_lease_Some:
  "live_lease db i token t = Some j \<longleftrightarrow>
    map_of (db_jobs db) i = Some j \<and> lease_active t j \<and> ij_lease_token j = Some token"
  by (auto simp: live_lease_def lease_active_def split: option.splits if_splits)

lemma lease_update_effect:
  assumes "lease_update sch fresh db t wall i token status deadline run_at dg = Inr db'"
  obtains j j' where "live_lease db i token t = Some j" "db_jobs db' = db_jobs (put_job db i j')"
    "ij_item j' = ij_item j" "ij_origin_key j' = ij_origin_key j"
    "ij_status j' = (if status = Failed \<and> is_recurring (ij_item j) then Ready else status)"
    "ij_lease_deadline_ms j' = (if status = Failed \<and> is_recurring (ij_item j) then None else deadline)"
    "ij_lease_token j' = None \<or> ij_lease_token j' = Some token"
proof -
  from assms obtain j where live: "live_lease db i token t = Some j"
    by (auto simp: lease_update_def split: option.splits)
  then have "ij_lease_token j = Some token" by (simp add: live_lease_Some)
  with live assms that [of j] show ?thesis
    by (auto simp: lease_update_def Let_def split: option.splits if_splits)
qed

lemma lease_update_keeps:
  assumes "lease_update sch fresh db t wall i token status deadline run_at dg = Inr db'"
    and "queue_inv sch t db" and "status \<noteq> Completed"
  shows "queue_inv sch t db'"
proof -
  from assms(1) obtain j j' where eff: "live_lease db i token t = Some j"
    "db_jobs db' = db_jobs (put_job db i j')" "ij_item j' = ij_item j" "ij_origin_key j' = ij_origin_key j"
    "ij_status j' = (if status = Failed \<and> is_recurring (ij_item j) then Ready else status)"
    by (rule lease_update_effect)
  have "queue_inv sch t (put_job db i j')"
    using assms(2)
  proof (rule queue_inv_put)
    show "\<exists>j. map_of (db_jobs db) i = Some j \<and> lease_active t j \<and> ij_origin_key j = ij_origin_key j'
        \<and> ij_item j = ij_item j'"
      using eff(1,3,4) by (auto simp: live_lease_Some)
    show "is_recurring (ij_item j') \<Longrightarrow> ij_status j' = Ready \<or> ij_status j' = Leased"
      using eff(3,5) assms(3) by (cases status) auto
  qed
  with queue_inv_jobs [OF eff(2)] show ?thesis by simp
qed

lemma finish_effect:
  assumes "finish sch db wall i token = Inr db'"
  obtains j j' where "map_of (db_jobs db) i = Some j" "ij_status j = Leased" "ij_lease_token j = Some token"
    "db' = put_job db i j'" "ij_item j' = ij_item j" "ij_origin_key j' = ij_origin_key j"
    "ij_status j' = (if is_recurring (ij_item j) then Ready else Completed)" "ij_lease_token j' = None"
  using assms by (auto simp: finish_def Let_def split: option.splits if_splits)

lemma finish_keeps:
  assumes "finish sch db wall i token = Inr db'" and "queue_inv sch t db"
  shows "queue_inv sch t db'"
proof -
  from assms(1) obtain j j' where "map_of (db_jobs db) i = Some j" "db' = put_job db i j'"
    "ij_item j' = ij_item j" "ij_status j' = (if is_recurring (ij_item j) then Ready else Completed)"
    by (elim finish_effect) blast
  with assms(2) show ?thesis by (auto intro!: queue_inv_put simp: lease_active_def split: if_splits)
qed

lemma new_job_simps [simp]:
  "\<not> lease_active t (new_job item origin first)" "ij_status (new_job item origin first) = Ready"
  by (simp_all add: new_job_def lease_active_def)

lemma enqueue_work_keeps:
  "enqueue_work env db i item first = Inr db' \<Longrightarrow> queue_inv sch t db \<Longrightarrow> queue_inv sch t db'"
  by (auto simp: enqueue_work_def split: option.splits if_splits intro!: queue_inv_put)

lemma enqueue_work_tx_keeps:
  "enqueue_work_tx env db i item wall = Inr db' \<Longrightarrow> queue_inv sch t db \<Longrightarrow> queue_inv sch t db'"
  by (auto simp: enqueue_work_tx_def split: option.splits if_splits intro!: queue_inv_put)

lemma reprioritize_map:
  "map_of (db_jobs (snd (reprioritize_ready_jobs db))) i =
    map_option (\<lambda>j. if ij_status j = Ready \<and> ij_run_at_ms j = 0 \<and> initial_job_run_at (ij_item j) \<noteq> 0
      then j\<lparr>ij_run_at_ms := initial_job_run_at (ij_item j)\<rparr> else j) (map_of (db_jobs db) i)"
  by (simp add: reprioritize_ready_jobs_def Let_def map_of_map)

lemma reprioritize_keeps:
  assumes "queue_inv sch t db"
  shows "queue_inv sch t (snd (reprioritize_ready_jobs db))"
proof -
  let ?db = "snd (reprioritize_ready_jobs db)"
  have keys: "map fst (db_jobs ?db) = map fst (db_jobs db)"
    by (auto simp: reprioritize_ready_jobs_def Let_def)
  have pre: "\<exists>j. map_of (db_jobs db) i = Some j \<and> ij_status j = ij_status j' \<and> ij_item j = ij_item j'
      \<and> ij_lease_deadline_ms j = ij_lease_deadline_ms j' \<and> ij_origin_key j = ij_origin_key j'"
    if "map_of (db_jobs ?db) i = Some j'" for i j'
    using that by (auto simp: reprioritize_map)
  have d: "distinct (map fst (db_jobs db))" "distinct (map fst (db_jobs ?db))"
    using assms keys by (simp_all add: queue_inv_def)
  have "active_leases ?db t origin \<le> active_leases db t origin" for origin
    unfolding active_leases_card [OF d(1)] active_leases_card [OF d(2)]
    by (rule card_mono) (use pre in \<open>fastforce simp: jobs_where_def lease_active_def\<close>)+
  then have "capacity_ok sch t ?db"
    using assms order_trans unfolding queue_inv_def capacity_ok_def by blast
  moreover have "collectors_ok t ?db"
    unfolding collectors_ok_def
  proof (intro allI impI)
    fix i j i' j'
    assume j: "map_of (db_jobs ?db) i = Some j" "map_of (db_jobs ?db) i' = Some j'"
      "lease_active t j" "lease_active t j'" "same_collector j j'"
    obtain a where a: "map_of (db_jobs db) i = Some a" "lease_active t a" "ij_item a = ij_item j"
      using pre [OF j(1)] j(3) by (auto simp: lease_active_def)
    obtain b where b: "map_of (db_jobs db) i' = Some b" "lease_active t b" "ij_item b = ij_item j'"
      using pre [OF j(2)] j(4) by (auto simp: lease_active_def)
    show "i = i'"
      using assms a b j(5)
      by (intro collectors_okD [of t db i a i' b]) (simp_all add: queue_inv_def same_collector_def)
  qed
  moreover have "recurring_ok ?db"
    unfolding recurring_ok_def
  proof (intro allI impI)
    fix i j
    assume j: "map_of (db_jobs ?db) i = Some j" "is_recurring (ij_item j)"
    obtain a where "map_of (db_jobs db) i = Some a" "ij_status a = ij_status j" "ij_item a = ij_item j"
      using pre [OF j(1)] by blast
    with assms j(2) show "ij_status j = Ready \<or> ij_status j = Leased"
      unfolding queue_inv_def recurring_ok_def by metis
  qed
  ultimately show ?thesis using d by (simp add: queue_inv_def)
qed

section \<open>Runs\<close>

text \<open>One committed operation at time \<open>t\<close> (milliseconds); the last argument is the token that a claim
  draws. The stages of a worker change other tables; they appear as \<open>step_stage\<close>.\<close>

inductive queue_step ::
  "queue_env \<Rightarrow> scheduler \<Rightarrow> int \<Rightarrow> 'a db \<Rightarrow> lease_token option \<Rightarrow> 'a db \<Rightarrow> bool"
  for env sch t db
  where
  step_enqueue: "enqueue_work env db i item first = Inr db' \<Longrightarrow> queue_step env sch t db None db'"
| step_enqueue_tx: "enqueue_work_tx env db i item wall = Inr db' \<Longrightarrow> queue_step env sch t db None db'"
| step_claim: "millis now = t \<Longrightarrow>
    claim fuel sch locked reserved fresh db now until token = Some (Inr (w, db')) \<Longrightarrow>
    queue_step env sch t db (Some token) db'"
| step_renew: "renew sch fresh db t wall i token until = Inr db' \<Longrightarrow> queue_step env sch t db None db'"
| step_complete: "complete sch db wall i token = Inr db' \<Longrightarrow> queue_step env sch t db None db'"
| step_retry: "retry sch fresh db t wall i token run_at dg = Inr db' \<Longrightarrow> queue_step env sch t db None db'"
| step_fail: "fail sch fresh db t wall i token dg not_before = Inr db' \<Longrightarrow> queue_step env sch t db None db'"
| step_reprioritize: "reprioritize_ready_jobs db = (n, db') \<Longrightarrow> queue_step env sch t db None db'"
| step_stage: "db_jobs db' = db_jobs db \<Longrightarrow> queue_step env sch t db None db'"

inductive queue_run ::
  "queue_env \<Rightarrow> scheduler \<Rightarrow> int \<Rightarrow> 'a db \<Rightarrow> lease_token set \<Rightarrow> int \<Rightarrow> 'a db \<Rightarrow> bool"
  for env sch t0 db0
  where
  queue_start: "queue_run env sch t0 db0 {} t0 db0"
| queue_next: "queue_run env sch t0 db0 drawn t db \<Longrightarrow> t \<le> t' \<Longrightarrow> queue_step env sch t' db token db' \<Longrightarrow>
    queue_run env sch t0 db0 (drawn \<union> set_option token) t' db'"

lemma queue_step_keeps:
  assumes "queue_step env sch t db token db'" and "queue_inv sch t db"
  shows "queue_inv sch t db'"
  using assms(1)
proof cases
  case (step_claim now fuel locked reserved fresh until tok w)
  with claim_keeps assms(2) show ?thesis by blast
next
  case (step_reprioritize n)
  with reprioritize_keeps [OF assms(2)] show ?thesis by simp
next
  case step_stage
  with assms(2) queue_inv_jobs show ?thesis by blast
qed (use assms(2) in \<open>auto simp: renew_def complete_def retry_def fail_def
    intro: enqueue_work_keeps enqueue_work_tx_keeps lease_update_keeps finish_keeps\<close>)

lemma queue_run_inv:
  "queue_run env sch t0 db0 drawn t db \<Longrightarrow> queue_inv sch t0 db0 \<Longrightarrow> queue_inv sch t db \<and> t0 \<le> t"
proof (induction rule: queue_run.induct)
  case (queue_next drawn t db t' token db')
  with queue_step_keeps queue_inv_later show ?case by (metis order_trans)
qed simp

lemma queue_inv_empty: "db_jobs db = [] \<Longrightarrow> queue_inv sch t db"
  by (simp add: queue_inv_def capacity_ok_def collectors_ok_def recurring_ok_def active_leases_def)


text \<open>C6. Periodic collection is never lost: whatever fails, expires or is retried, a recurring job of a
  reachable queue is ready or leased, never completed or failed.\<close>

theorem recurring_jobs_live:
  assumes "queue_run env sch t0 db0 drawn t db" and "db_jobs db0 = []"
    and "map_of (db_jobs db) i = Some j" and "is_recurring (ij_item j)"
  shows "ij_status j = Ready \<or> ij_status j = Leased"
  using queue_run_inv [OF assms(1) queue_inv_empty [OF assms(2)]] assms(3,4)
  unfolding queue_inv_def recurring_ok_def by blast

section \<open>Fencing\<close>

definition holds_lease :: "'a db \<Rightarrow> job_id \<Rightarrow> lease_token \<Rightarrow> bool" where
  "holds_lease db i token \<longleftrightarrow>
    (\<exists>j. map_of (db_jobs db) i = Some j \<and> ij_status j = Leased \<and> ij_lease_token j = Some token)"

lemma holds_put:
  "holds_lease (put_job db k j) i token \<longleftrightarrow>
    (if k = i then ij_status j = Leased \<and> ij_lease_token j = Some token else holds_lease db i token)"
  by (auto simp: holds_lease_def)

lemma holds_jobs: "db_jobs db' = db_jobs db \<Longrightarrow> holds_lease db' i token = holds_lease db i token"
  by (simp add: holds_lease_def)

lemma claim_loop_holds:
  assumes "claim_loop n sch locked reserved fresh db now until token excluded = Some (Inr (w, db'))"
    and "distinct (map fst (db_jobs db))" and "\<not> holds_lease db i tok" and "tok \<noteq> token"
  shows "\<not> holds_lease db' i tok"
  using assms
proof (induction n arbitrary: db excluded)
  case (Suc n)
  note turn = Suc.prems(1) [unfolded claim_loop_turn [OF Suc.prems(2)]]
  show ?case
  proof (cases "claim_query sch locked db (millis now) excluded")
    case None
    with turn Suc.prems(3) show ?thesis by simp
  next
    case (Some x)
    obtain k j where x: "x = (k, j)" by (cases x)
    show ?thesis
    proof (cases "reserved (ij_origin_key j)
        \<and> retry_age_exceeded (ij_first_attempt_ms j) (millis (now - max_retry_age sch))")
      case True
      with turn Some x obtain db1 where step: "(case work_source (ij_item j) of
          Some s \<Rightarrow> record_source_failure fresh (put_job db k (expire_job sch now j)) s
            ''maximum retry age exceeded'' now
        | None \<Rightarrow> Inr (put_job db k (expire_job sch now j))) = Inr db1"
        and rest: "claim_loop n sch locked reserved fresh db1 now until token excluded = Some (Inr (w, db'))"
        by (simp split: sum.splits)
      note jobs = expire_db_jobs [OF step]
      have "\<not> holds_lease db1 i tok"
        using Suc.prems(3)
        by (simp add: holds_jobs [OF jobs] holds_put) (simp add: expire_job_def Let_def)
      moreover have "distinct (map fst (db_jobs db1))" using Suc.prems(2) by (simp add: jobs)
      ultimately show ?thesis using Suc.IH rest Suc.prems(4) by blast
    next
      case False
      with turn Some x Suc.IH [OF _ Suc.prems(2,3,4)] Suc.prems(3,4) show ?thesis
        by (auto simp: holds_put lease_job_def split: if_splits)
    qed
  qed
qed simp

lemma lease_update_holds:
  assumes "lease_update sch fresh db t wall k token status deadline run_at dg = Inr db'"
    and "\<not> holds_lease db i tok"
  shows "\<not> holds_lease db' i tok"
proof -
  from assms(1) obtain j j' where eff: "live_lease db k token t = Some j"
    "db_jobs db' = db_jobs (put_job db k j')"
    and tok: "ij_lease_token j' = None \<or> ij_lease_token j' = Some token"
    by (rule lease_update_effect)
  show ?thesis
  proof (cases "k = i \<and> tok = token")
    case True
    with eff(1) have "holds_lease db i tok" by (auto simp: live_lease_Some holds_lease_def lease_active_def)
    with assms(2) show ?thesis by simp
  next
    case False
    with tok assms(2) show ?thesis by (auto simp: holds_jobs [OF eff(2)] holds_put)
  qed
qed

lemma finish_holds:
  "finish sch db wall k token = Inr db' \<Longrightarrow> \<not> holds_lease db i tok \<Longrightarrow> \<not> holds_lease db' i tok"
  by (elim finish_effect) (simp add: holds_put)

lemma queue_step_holds:
  assumes "queue_step env sch t db drawn db'" and "queue_inv sch t db"
    and "\<not> holds_lease db i tok" and "tok \<notin> set_option drawn"
  shows "\<not> holds_lease db' i tok"
  using assms(1)
proof cases
  case (step_claim now fuel locked reserved fresh until token w)
  then have "claim_loop fuel sch locked reserved fresh db now until token [] = Some (Inr (w, db'))"
    by (auto simp: claim_def split: if_splits)
  from claim_loop_holds [OF this _ assms(3)] assms(2,4) step_claim(1) show ?thesis
    by (auto simp: queue_inv_def)
next
  case (step_renew fresh wall k token until)
  then show ?thesis by (auto simp: renew_def dest: lease_update_holds [OF _ assms(3)])
next
  case (step_retry fresh wall k token run_at dg)
  then show ?thesis by (auto simp: retry_def dest: lease_update_holds [OF _ assms(3)])
next
  case (step_fail fresh wall k token dg not_before)
  then show ?thesis by (auto simp: fail_def dest: lease_update_holds [OF _ assms(3)])
next
  case (step_complete wall k token)
  then show ?thesis by (auto simp: complete_def dest: finish_holds [OF _ assms(3)])
next
  case (step_reprioritize n)
  then have "db' = snd (reprioritize_ready_jobs db)" by simp
  with assms(3) show ?thesis by (auto simp: holds_lease_def reprioritize_map split: if_splits)
next
  case step_stage
  with assms(3) holds_jobs show ?thesis by blast
next
  case (step_enqueue k item first)
  with assms(3) show ?thesis
    by (auto simp: enqueue_work_def holds_put split: option.splits if_splits)
next
  case (step_enqueue_tx k item wall)
  with assms(3) show ?thesis
    by (auto simp: enqueue_work_tx_def holds_put split: option.splits if_splits)
qed

lemma queue_run_holds:
  assumes "queue_run env sch t0 db0 drawn t db" and "queue_inv sch t0 db0"
    and "\<not> holds_lease db0 i tok" and "tok \<notin> drawn"
  shows "\<not> holds_lease db i tok"
  using assms
proof (induction rule: queue_run.induct)
  case (queue_next drawn t db t' token db')
  with queue_run_inv [OF queue_next(1)] queue_inv_later queue_step_holds show ?case by blast
qed simp

lemma not_held_stale:
  assumes "\<not> holds_lease db i tok"
  shows "renew sch fresh db t wall i tok until = Inl StaleLease"
    and "complete sch db wall i tok = Inl StaleLease"
    and "retry sch fresh db t wall i tok run_at dg = Inl StaleLease"
    and "fail sch fresh db t wall i tok dg not_before = Inl StaleLease"
proof -
  have "live_lease db i tok t = None"
    using assms by (auto simp: live_lease_def holds_lease_def split: option.splits)
  then show "renew sch fresh db t wall i tok until = Inl StaleLease"
    and "retry sch fresh db t wall i tok run_at dg = Inl StaleLease"
    and "fail sch fresh db t wall i tok dg not_before = Inl StaleLease"
    by (simp_all add: renew_def retry_def fail_def lease_update_def)
  show "complete sch db wall i tok = Inl StaleLease"
    using assms by (auto simp: complete_def finish_def holds_lease_def split: option.splits)
qed

lemma assert_lease_held: "assert_lease db wall lease = Inr () \<Longrightarrow> holds_lease db (lw_job_id lease) (lw_token lease)"
  by (auto simp: assert_lease_def live_lease_Some holds_lease_def lease_active_def split: option.splits)

text \<open>C5. Lease tokens fence: once a worker's token no longer names the current lease of the job (the
  job was completed, retried, expired or claimed by another worker), and as long as no claim draws
  that token again, every later operation with it is refused as stale, including the lease check
  with which the ingest stages begin.\<close>

theorem stale_worker_fenced:
  assumes "queue_run env sch t0 db0 drawn t db" and "queue_inv sch t0 db0"
    and "\<not> holds_lease db0 (lw_job_id lease) (lw_token lease)" and "lw_token lease \<notin> drawn"
  shows "renew sch fresh db t wall (lw_job_id lease) (lw_token lease) until = Inl StaleLease
    \<and> complete sch db wall (lw_job_id lease) (lw_token lease) = Inl StaleLease
    \<and> retry sch fresh db t wall (lw_job_id lease) (lw_token lease) run_at dg = Inl StaleLease
    \<and> fail sch fresh db t wall (lw_job_id lease) (lw_token lease) dg not_before = Inl StaleLease
    \<and> assert_lease db wall lease = Inl StaleLease"
proof -
  note stale = queue_run_holds [OF assms]
  moreover have "assert_lease db wall lease = Inl StaleLease"
    using stale assert_lease_held [of db wall lease]
    by (cases "live_lease db (lw_job_id lease) (lw_token lease) (millis wall)")
      (auto simp: assert_lease_def)
  ultimately show ?thesis by (simp add: not_held_stale)
qed

section \<open>Termination and completeness of a claim\<close>

definition expired_jobs :: "'a db \<Rightarrow> int \<Rightarrow> job_id set" where
  "expired_jobs db oldest =
    jobs_where db (\<lambda>j. (ij_status j = Ready \<or> ij_status j = Leased) \<and> ij_first_attempt_ms j < oldest)"

definition open_origins :: "'a db \<Rightarrow> string list \<Rightarrow> string set" where
  "open_origins db excluded = {x. \<exists>k a. map_of (db_jobs db) k = Some a \<and> ij_origin_key a = x} - set excluded"

lemma finite_open_origins [simp]: "finite (open_origins db excluded)"
proof -
  have "{x. \<exists>k a. map_of (db_jobs db) k = Some a \<and> ij_origin_key a = x} \<subseteq> ij_origin_key ` ran (map_of (db_jobs db))"
    by (auto simp: ran_def)
  then show ?thesis unfolding open_origins_def
    by (meson finite_Diff finite_imageI finite_ran finite_subset finite_dom_map_of)
qed

lemma open_origins_put:
  assumes "map_of (db_jobs db) i = Some j" and "ij_origin_key j' = ij_origin_key j"
    and "db_jobs db' = db_jobs (put_job db i j')"
  shows "open_origins db' excluded = open_origins db excluded"
proof -
  have "(\<exists>k a. map_of (db_jobs db') k = Some a \<and> ij_origin_key a = x)
      \<longleftrightarrow> (\<exists>k a. map_of (db_jobs db) k = Some a \<and> ij_origin_key a = x)" (is "?l \<longleftrightarrow> ?r") for x
  proof
    assume ?l
    with assms show ?r by (auto split: if_splits)
  next
    assume ?r
    then obtain k a where a: "map_of (db_jobs db) k = Some a" "ij_origin_key a = x" by blast
    with assms show ?l by (cases "k = i") auto
  qed
  then show ?thesis by (simp add: open_origins_def)
qed

lemma claimable_status: "claimable t j \<Longrightarrow> ij_status j = Ready \<or> ij_status j = Leased"
  by (auto simp: claimable_def)

lemma expire_not_expired:
  assumes "0 \<le> poll_interval sch" and "0 \<le> max_retry_age sch"
  shows "\<not> ((ij_status (expire_job sch now j) = Ready \<or> ij_status (expire_job sch now j) = Leased)
    \<and> ij_first_attempt_ms (expire_job sch now j) < millis (now - max_retry_age sch))"
proof -
  have "millis (now - max_retry_age sch) \<le> millis (now + poll_interval sch)"
    using assms by (intro millis_mono) simp
  then show ?thesis by (auto simp: expire_job_def Let_def)
qed

lemma claim_loop_fuel:
  assumes "card (expired_jobs db (millis (now - max_retry_age sch))) + card (open_origins db excluded) < n"
    and "distinct (map fst (db_jobs db))" and "0 \<le> poll_interval sch" and "0 \<le> max_retry_age sch"
  shows "claim_loop n sch locked reserved fresh db now until token excluded \<noteq> None"
  using assms
proof (induction n arbitrary: db excluded)
  case (Suc n)
  let ?old = "millis (now - max_retry_age sch)"
  note turn = claim_loop_turn [OF Suc.prems(2)]
  show ?case
  proof (cases "claim_query sch locked db (millis now) excluded")
    case None
    then show ?thesis by (simp add: turn del: claim_loop.simps)
  next
    case (Some x)
    then obtain i j where q: "claim_query sch locked db (millis now) excluded = Some (i, j)"
      by (cases x) auto
    note row = claim_query_Some [OF q Suc.prems(2)]
    consider (skip) "\<not> reserved (ij_origin_key j)"
      | (expire) "reserved (ij_origin_key j)" "retry_age_exceeded (ij_first_attempt_ms j) ?old"
      | (lease) "reserved (ij_origin_key j)" "\<not> retry_age_exceeded (ij_first_attempt_ms j) ?old" by blast
    then show ?thesis
    proof cases
      case skip
      have "open_origins db (excluded @ [ij_origin_key j]) \<subset> open_origins db excluded"
        using row(1,3) by (auto simp: open_origins_def)
      then have "card (open_origins db (excluded @ [ij_origin_key j])) < card (open_origins db excluded)"
        by (intro psubset_card_mono) simp_all
      with Suc.prems skip q Suc.IH [of db "excluded @ [ij_origin_key j]"] show ?thesis
        by (simp add: turn del: claim_loop.simps)
    next
      case expire
      show ?thesis
      proof (cases "case work_source (ij_item j) of
          Some s \<Rightarrow> record_source_failure fresh (put_job db i (expire_job sch now j)) s
            ''maximum retry age exceeded'' now
        | None \<Rightarrow> Inr (put_job db i (expire_job sch now j))")
        case (Inl e)
        with expire q show ?thesis by (simp add: turn del: claim_loop.simps)
      next
        case (Inr db1)
        note jobs = expire_db_jobs [OF Inr]
        have "expired_jobs db1 ?old \<subset> expired_jobs db ?old"
        proof
          show "expired_jobs db1 ?old \<subseteq> expired_jobs db ?old"
            using expire_not_expired [OF Suc.prems(3,4)]
            by (auto simp: expired_jobs_def jobs_where_def jobs split: if_splits)
          have "i \<in> expired_jobs db ?old"
            using row(1) claimable_status [OF row(2)] expire(2)
            by (auto simp: expired_jobs_def jobs_where_def retry_age_exceeded_def)
          moreover have "i \<notin> expired_jobs db1 ?old"
            using expire_not_expired [OF Suc.prems(3,4), of now j]
            by (auto simp: expired_jobs_def jobs_where_def jobs)
          ultimately show "expired_jobs db1 ?old \<noteq> expired_jobs db ?old" by blast
        qed
        then have "card (expired_jobs db1 ?old) < card (expired_jobs db ?old)"
          by (intro psubset_card_mono) (simp_all add: expired_jobs_def)
        moreover have "open_origins db1 excluded = open_origins db excluded"
          by (rule open_origins_put [OF row(1) _ jobs]) simp
        moreover have "distinct (map fst (db_jobs db1))" using Suc.prems(2) by (simp add: jobs)
        ultimately show ?thesis using Suc.prems expire q Inr Suc.IH [of db1 excluded]
          by (simp add: turn del: claim_loop.simps)
      qed
    next
      case lease
      with q show ?thesis by (simp add: turn del: claim_loop.simps)
    qed
  qed
qed simp

lemma card_jobs_where: "card (jobs_where db P) \<le> length (db_jobs db)"
proof -
  have "jobs_where db P \<subseteq> set (map fst (db_jobs db))"
    by (force simp: jobs_where_def dest: map_of_SomeD)
  then have "card (jobs_where db P) \<le> card (set (map fst (db_jobs db)))" by (intro card_mono) simp_all
  also have "\<dots> \<le> length (db_jobs db)" by (metis card_length length_map)
  finally show ?thesis .
qed

lemma card_open_origins: "card (open_origins db excluded) \<le> length (db_jobs db)"
proof -
  have "open_origins db excluded \<subseteq> set (map (\<lambda>(_, j). ij_origin_key j) (db_jobs db))"
    by (force simp: open_origins_def dest: map_of_SomeD)
  then have "card (open_origins db excluded) \<le> card (set (map (\<lambda>(_, j). ij_origin_key j) (db_jobs db)))"
    by (intro card_mono) simp_all
  also have "\<dots> \<le> length (db_jobs db)" by (metis card_length length_map)
  finally show ?thesis .
qed

text \<open>C7. A claim always returns: its loop ends after at most two turns per job, because a turn that
  does not return either excludes a new origin or ends the attempt cycle of an overdue job.\<close>

theorem claim_terminates:
  assumes "distinct (map fst (db_jobs db))" and "validate_scheduler_limits sch = Inr ()"
    and "2 * length (db_jobs db) < fuel"
  shows "claim fuel sch locked reserved fresh db now until token \<noteq> None"
proof -
  let ?old = "millis (now - max_retry_age sch)"
  have "card (expired_jobs db ?old) + card (open_origins db []) < fuel"
    using add_mono [OF card_jobs_where card_open_origins] assms(3)
    unfolding expired_jobs_def mult_2 by (rule le_less_trans)
  moreover have "0 \<le> poll_interval sch" "0 \<le> max_retry_age sch"
    using assms(2) by (auto simp: validate_scheduler_limits_def split: if_splits)
  ultimately show ?thesis using claim_loop_fuel [OF _ assms(1)] by (auto simp: claim_def)
qed

lemma claim_loop_idle:
  assumes "claim_loop n sch locked reserved fresh db now until token excluded = Some (Inr (None, db'))"
    and "distinct (map fst (db_jobs db))" and "\<forall>x \<in> set excluded. \<not> reserved x"
    and "map_of (db_jobs db') i = Some j" and "claimable (millis now) j"
  shows "i \<in> set locked \<or> \<not> reserved (ij_origin_key j)
    \<or> per_origin_concurrency sch \<le> active_leases db' (millis now) (ij_origin_key j)
    \<or> source_busy db' (millis now) j"
  using assms
proof (induction n arbitrary: db excluded)
  case (Suc n)
  note turn = Suc.prems(1) [unfolded claim_loop_turn [OF Suc.prems(2)]]
  show ?case
  proof (cases "claim_query sch locked db (millis now) excluded")
    case None
    with turn have "db' = db" by simp
    moreover from None map_of_SomeD [OF Suc.prems(4)] Suc.prems(5) have "i \<in> set locked
        \<or> ij_origin_key j \<in> set excluded \<or> per_origin_concurrency sch \<le> active_leases db (millis now) (ij_origin_key j)
        \<or> source_busy db (millis now) j"
      unfolding \<open>db' = db\<close> claim_query_def by (force simp: filter_empty_conv not_less)
    ultimately show ?thesis using Suc.prems(3) by blast
  next
    case (Some x)
    obtain k a where x: "x = (k, a)" by (cases x)
    show ?thesis
    proof (cases "reserved (ij_origin_key a)
        \<and> retry_age_exceeded (ij_first_attempt_ms a) (millis (now - max_retry_age sch))")
      case True
      with turn Some x obtain db1 where step: "(case work_source (ij_item a) of
          Some s \<Rightarrow> record_source_failure fresh (put_job db k (expire_job sch now a)) s
            ''maximum retry age exceeded'' now
        | None \<Rightarrow> Inr (put_job db k (expire_job sch now a))) = Inr db1"
        and rest: "claim_loop n sch locked reserved fresh db1 now until token excluded = Some (Inr (None, db'))"
        by (simp split: sum.splits)
      have "distinct (map fst (db_jobs db1))" using Suc.prems(2) by (simp add: expire_db_jobs [OF step])
      with Suc.IH [OF rest _ Suc.prems(3-5)] show ?thesis by blast
    next
      case False
      with turn Some x have "\<not> reserved (ij_origin_key a)"
        and "claim_loop n sch locked reserved fresh db now until token (excluded @ [ij_origin_key a])
          = Some (Inr (None, db'))"
        by (auto split: if_splits)
      with Suc.IH [of db "excluded @ [ij_origin_key a]"] Suc.prems show ?thesis by simp
    qed
  qed
qed simp

text \<open>No due work is overlooked: when a claim reports that there is nothing to do, every due job of
  the queue is locked by another transaction, or its origin is reserved by another claim or at its
  concurrency limit, or its source is being collected.\<close>

theorem claim_idle_complete:
  assumes "claim fuel sch locked reserved fresh db now until token = Some (Inr (None, db'))"
    and "distinct (map fst (db_jobs db))"
    and "map_of (db_jobs db') i = Some j" and "claimable (millis now) j"
  shows "i \<in> set locked \<or> \<not> reserved (ij_origin_key j)
    \<or> per_origin_concurrency sch \<le> active_leases db' (millis now) (ij_origin_key j)
    \<or> source_busy db' (millis now) j"
proof -
  from assms(1) have "claim_loop fuel sch locked reserved fresh db now until token [] = Some (Inr (None, db'))"
    by (auto simp: claim_def split: if_splits)
  from claim_loop_idle [OF this assms(2) _ assms(3,4)] show ?thesis by simp
qed

lemma claim_loop_items:
  assumes "claim_loop n sch locked reserved fresh db now until token excluded = Some (Inr (w, db'))"
    and "distinct (map fst (db_jobs db))" and "map_of (db_jobs db) i = Some j"
  shows "\<exists>j'. map_of (db_jobs db') i = Some j' \<and> ij_item j' = ij_item j"
  using assms
proof (induction n arbitrary: db j excluded)
  case (Suc n)
  note turn = Suc.prems(1) [unfolded claim_loop_turn [OF Suc.prems(2)]]
  show ?case
  proof (cases "claim_query sch locked db (millis now) excluded")
    case None
    with turn Suc.prems(3) show ?thesis by simp
  next
    case (Some x)
    then obtain k a where q: "claim_query sch locked db (millis now) excluded = Some (k, a)"
      by (cases x) auto
    note row = claim_query_Some(1) [OF q Suc.prems(2)]
    show ?thesis
    proof (cases "reserved (ij_origin_key a)
        \<and> retry_age_exceeded (ij_first_attempt_ms a) (millis (now - max_retry_age sch))")
      case True
      with turn q obtain db1 where step: "(case work_source (ij_item a) of
          Some s \<Rightarrow> record_source_failure fresh (put_job db k (expire_job sch now a)) s
            ''maximum retry age exceeded'' now
        | None \<Rightarrow> Inr (put_job db k (expire_job sch now a))) = Inr db1"
        and rest: "claim_loop n sch locked reserved fresh db1 now until token excluded = Some (Inr (w, db'))"
        by (simp split: sum.splits)
      note jobs = expire_db_jobs [OF step]
      obtain j1 where "map_of (db_jobs db1) i = Some j1" "ij_item j1 = ij_item j"
        using Suc.prems(3) row by (cases "k = i") (auto simp: jobs)
      moreover have "distinct (map fst (db_jobs db1))" using Suc.prems(2) by (simp add: jobs)
      ultimately show ?thesis using Suc.IH [OF rest] by metis
    next
      case False
      with turn q Suc.IH [OF _ Suc.prems(2,3)] Suc.prems(3) row show ?thesis
        by (auto simp: lease_job_def split: if_splits)
    qed
  qed
qed simp

lemma put_job_item:
  assumes "map_of (db_jobs db) i = Some j" and "map_of (db_jobs db) k = Some a" and "ij_item a' = ij_item a"
  shows "\<exists>j'. map_of (db_jobs (put_job db k a')) i = Some j' \<and> ij_item j' = ij_item j"
  using assms by (cases "k = i") auto

lemma lease_update_items:
  assumes "lease_update sch fresh db t wall k token status deadline run_at dg = Inr db'"
    and "map_of (db_jobs db) i = Some j"
  shows "\<exists>j'. map_of (db_jobs db') i = Some j' \<and> ij_item j' = ij_item j"
proof -
  from assms(1) obtain a a' where "live_lease db k token t = Some a"
    and jobs: "db_jobs db' = db_jobs (put_job db k a')" and "ij_item a' = ij_item a"
    by (rule lease_update_effect)
  then show ?thesis
    unfolding jobs by (intro put_job_item [OF assms(2)]) (simp_all add: live_lease_Some)
qed

lemma finish_items:
  assumes "finish sch db wall k token = Inr db'" and "map_of (db_jobs db) i = Some j"
  shows "\<exists>j'. map_of (db_jobs db') i = Some j' \<and> ij_item j' = ij_item j"
proof -
  from assms(1) obtain a a' where "map_of (db_jobs db) k = Some a" "db' = put_job db k a'"
    "ij_item a' = ij_item a" by (elim finish_effect) blast
  then show ?thesis using put_job_item [OF assms(2)] by blast
qed

lemma queue_step_items:
  assumes "queue_step env sch t db token db'" and "queue_inv sch t db"
    and row: "map_of (db_jobs db) i = Some j"
  shows "\<exists>j'. map_of (db_jobs db') i = Some j' \<and> ij_item j' = ij_item j"
  using assms(1)
proof cases
  case (step_claim now fuel locked reserved fresh until tok w)
  then have "claim_loop fuel sch locked reserved fresh db now until tok [] = Some (Inr (w, db'))"
    by (auto simp: claim_def split: if_splits)
  with claim_loop_items [OF this _ row] assms(2) show ?thesis by (simp add: queue_inv_def)
next
  case (step_reprioritize n)
  then have "db' = snd (reprioritize_ready_jobs db)" by simp
  with row show ?thesis by (auto simp: reprioritize_map)
qed (use row in \<open>auto simp: renew_def complete_def retry_def fail_def enqueue_work_def enqueue_work_tx_def
    split: option.splits if_splits dest: lease_update_items finish_items\<close>)

lemma queue_run_items:
  assumes "queue_run env sch t0 db0 drawn t db" and "queue_inv sch t0 db0"
    and "map_of (db_jobs db0) i = Some j"
  shows "\<exists>j'. map_of (db_jobs db) i = Some j' \<and> ij_item j' = ij_item j"
  using assms
proof (induction rule: queue_run.induct)
  case (queue_next drawn t db t' token db')
  then obtain j1 where j1: "map_of (db_jobs db) i = Some j1" "ij_item j1 = ij_item j" by blast
  have "queue_inv sch t' db"
    using queue_run_inv [OF queue_next(1,5)] queue_next(2) queue_inv_later by blast
  from queue_step_items [OF queue_next(3) this j1(1)] j1(2) show ?case by simp
qed simp

text \<open>Enqueueing is idempotent and never changes a job that exists: repeating an enqueue leaves the
  queue as it is, whatever happened to the job in between, and an id that names different work is
  refused.\<close>

theorem enqueue_idempotent:
  assumes "enqueue_work env db i item first = Inr db1" and "queue_inv sch t0 db"
    and "queue_run env sch t0 db1 drawn t db2"
  shows "enqueue_work env db2 i item first' = Inr db2
    \<and> (item' \<noteq> item \<longrightarrow> enqueue_work env db2 i item' first' = Inl StoreConflict)"
proof -
  from assms(1) obtain j where j: "map_of (db_jobs db1) i = Some j" "ij_item j = item"
    by (auto simp: enqueue_work_def new_job_def split: option.splits if_splits)
  from queue_run_items [OF assms(3) enqueue_work_keeps [OF assms(1,2)] j(1)] j(2) show ?thesis
    by (auto simp: enqueue_work_def)
qed

section \<open>A concrete run\<close>

definition empty_reader_db :: reader_db where
  "empty_reader_db =
    \<lparr>db_workspaces = [], db_accounts = [], db_usernames = [], db_invites = [], db_sessions = [],
     db_resets = [], db_login_attempts = [], db_subscriptions = [], db_removed_subscriptions = [],
     db_subscription_sources = [], db_feed_urls = [], db_sources = [], db_source_urls = [],
     db_source_records = [], db_jobs = [], db_source_health = [], db_activity = [], db_articles = [],
     db_dedup = [], db_origins = [], db_rules = [], db_rule_evaluations = [], db_history_links = [],
     db_auto_read_days = [], db_read_events = [], db_manifests = [], db_chunks = []\<rparr>"

definition demo_queue_env :: queue_env where
  "demo_queue_env = \<lparr>origin_of = url_scheme, uuid_text = (\<lambda>_. []), job_hash = (\<lambda>_. 0),
    dedup_fingerprint = (\<lambda>k. dk_title k)\<rparr>"

definition demo_scheduler :: scheduler where
  "demo_scheduler = \<lparr>poll_interval = 60000000000, per_origin_concurrency = 1, max_retry_age = 60000000000\<rparr>"

definition demo_q0 :: reader_db where
  "demo_q0 = empty_reader_db\<lparr>db_sources :=
    [(1, 0, \<lparr>src_id = 1, src_url = example_url, src_kind = XmlFeed, src_revision = 0\<rparr>)]\<rparr>"

definition demo_job :: ingest_job where
  "demo_job = new_job (PollSource 1) ''https'' 0"

definition demo_q1 :: reader_db where
  "demo_q1 = demo_q0\<lparr>db_jobs := [(7, demo_job)]\<rparr>"

definition demo_q2 :: reader_db where
  "demo_q2 = demo_q0\<lparr>db_jobs := [(7, lease_job 3 5000000000 demo_job)]\<rparr>"

definition demo_q3 :: reader_db where
  "demo_q3 = demo_q0\<lparr>db_jobs := [(7, demo_job\<lparr>ij_run_at_ms := 60001, ij_first_attempt_ms := 60001, ij_revision := 2\<rparr>)]\<rparr>"

lemma demo_enqueue: "enqueue_work demo_queue_env demo_q0 7 (PollSource 1) 0 = Inr demo_q1"
  by (simp add: enqueue_work_def demo_q0_def demo_q1_def empty_reader_db_def source_origin_def store_doc_def
      http_origin_def is_http_def example_url_def demo_queue_env_def put_job_def put_def demo_job_def)

lemma demo_claim:
  "claim (Suc (Suc (Suc 0))) demo_scheduler [] (\<lambda>_. True) (\<lambda>_. 0) demo_q1 0 5000000000 3
    = Some (Inr (Some \<lparr>lw_job_id = 7, lw_item = PollSource 1, lw_token = 3, lw_deadline = 5000000000,
        lw_attempt = 0\<rparr>, demo_q2))"
  by (simp add: claim_def demo_scheduler_def i64_max_def claim_query_def demo_q1_def demo_q2_def
      demo_job_def new_job_def claimable_def millis_def active_leases_def lease_active_def source_busy_def
      retry_age_exceeded_def origin_has_capacity_def store_u32_def put_job_def put_def Let_def)

lemma demo_complete: "complete demo_scheduler demo_q2 1000000 7 3 = Inr demo_q3"
  by (simp add: complete_def finish_def demo_q2_def demo_q3_def lease_job_def demo_job_def new_job_def
      put_job_def put_def Let_def millis_def demo_scheduler_def)

lemma demo_run2: "queue_run demo_queue_env demo_scheduler 0 demo_q0 {3} 0 demo_q2"
proof -
  have "queue_run demo_queue_env demo_scheduler 0 demo_q0 ({} \<union> set_option None) 0 demo_q1"
    by (rule queue_next [OF queue_start _ step_enqueue [OF demo_enqueue]]) simp
  from queue_next [OF this _ step_claim [OF _ demo_claim], of 0] show ?thesis by (simp add: millis_def)
qed

lemma demo_start: "db_jobs demo_q0 = []"
  by (simp add: demo_q0_def empty_reader_db_def)


theorem recurring_jobs_live_witness:
  "ij_status (lease_job 3 5000000000 demo_job) = Ready \<or> ij_status (lease_job 3 5000000000 demo_job) = Leased"
  by (rule recurring_jobs_live [OF demo_run2 demo_start, of 7])
    (simp_all add: demo_q2_def lease_job_def demo_job_def new_job_def)

theorem stale_worker_fenced_witness:
  "complete demo_scheduler demo_q3 0 7 3 = Inl StaleLease"
proof -
  let ?lease = "\<lparr>lw_job_id = 7, lw_item = PollSource 1, lw_token = 3, lw_deadline = 0, lw_attempt = 0\<rparr>"
  have "queue_run demo_queue_env demo_scheduler 0 demo_q0 ({3} \<union> set_option None) 0 demo_q3"
    by (rule queue_next [OF demo_run2 _ step_complete [OF demo_complete]]) simp
  then have inv: "queue_inv demo_scheduler 0 demo_q3"
    using queue_run_inv [OF _ queue_inv_empty [OF demo_start]] by blast
  have "\<not> holds_lease demo_q3 (lw_job_id ?lease) (lw_token ?lease)"
    by (simp add: holds_lease_def demo_q3_def demo_job_def new_job_def)
  from stale_worker_fenced [OF queue_start inv this] show ?thesis by simp
qed

theorem claim_terminates_witness:
  "claim (Suc (Suc (Suc 0))) demo_scheduler [] (\<lambda>_. True) (\<lambda>_. 0) demo_q1 0 5000000000 3 \<noteq> None"
  by (rule claim_terminates)
    (simp_all add: demo_q1_def demo_scheduler_def validate_scheduler_limits_def)

lemma demo_idle:
  "claim (Suc (Suc (Suc 0))) demo_scheduler [7] (\<lambda>_. True) (\<lambda>_. 0) demo_q1 0 5000000000 3 = Some (Inr (None, demo_q1))"
  by (simp add: claim_def demo_scheduler_def i64_max_def claim_query_def demo_q1_def)

theorem claim_idle_complete_witness:
  "(7 :: job_id) \<in> set [7] \<or> per_origin_concurrency demo_scheduler \<le> active_leases demo_q1 (millis 0) (ij_origin_key demo_job)
    \<or> source_busy demo_q1 (millis 0) demo_job"
  using claim_idle_complete [OF demo_idle, of 7 demo_job]
  by (simp add: demo_q1_def demo_job_def new_job_def claimable_def millis_def)

theorem enqueue_idempotent_witness:
  "enqueue_work demo_queue_env demo_q1 7 (PollSource 1) 9 = Inr demo_q1
    \<and> enqueue_work demo_queue_env demo_q1 7 (RefreshSource 1) 9 = Inl StoreConflict"
  using enqueue_idempotent [OF demo_enqueue queue_inv_empty [OF demo_start] queue_start, of 9 "RefreshSource 1"]
  by simp

end
