(* ===== verification/Poll.thy ===== *)
theory Poll
  imports Ingest_Db Queue_Runs
begin

text \<open>
  \<open>ingest_store/poll.rs\<close> and \<open>ingest_store/backlog.rs\<close>: the state of a source's polls, the commit of a
  fetched page and the backlog of an initial page that is larger than one commit. A commit stores the
  records, their identities and the jobs that deliver and extract them in one transaction.

  The AI admission of new records (\<open>ai_bootstrap.rs\<close>) is called inside the transaction and works on
  its own tables only. The commit takes it as two functions to the extension of the database record;
  \<open>Admission\<close> models that module and provides them.
  The identifiers drawn for activity rows are a parameter as well (\<open>fresh\<close>).
\<close>

record 'a ai_hooks =
  ai_begin_poll :: "poll_commit \<Rightarrow> 'a idb \<Rightarrow> string + 'a"
  ai_finish_poll :: "source_id \<Rightarrow> bool \<Rightarrow> 'a idb \<Rightarrow> string + 'a"

definition with_ai :: "('a idb \<Rightarrow> string + 'a) \<Rightarrow> 'a idb \<Rightarrow> store_error + 'a idb" where
  "with_ai f db =
    and_then (map_err Unavailable (f db)) (\<lambda>x. Inr (ingest_db.more_update (\<lambda>_. x) db))"

section \<open>Reading the state of a source\<close>

definition poll_source :: "'a idb \<Rightarrow> source_id \<Rightarrow> store_error + source_definition" where
  "poll_source db s = store_doc (db_sources db) s"

definition has_committed_poll :: "'a idb \<Rightarrow> source_id \<Rightarrow> bool" where
  "has_committed_poll db s = (map_of (db_poll_state db) s \<noteq> None)"

definition source_validators :: "'a idb \<Rightarrow> source_id \<Rightarrow> cache_validators" where
  "source_validators db s =
    (case map_of (db_poll_state db) s of
       Some (PollState st) \<Rightarrow> ps_validators st
     | Some (BareValidators v) \<Rightarrow> v
     | None \<Rightarrow> \<lparr>etag = None, last_modified = None\<rparr>)"

definition active_delivery_count :: "'a idb \<Rightarrow> source_id \<Rightarrow> store_error + nat" where
  "active_delivery_count db source =
    try_fold (\<lambda>count s.
      case map_of (db_subscriptions db) s of
        None \<Rightarrow> Inr count
      | Some (_, sub) \<Rightarrow>
          and_then (store_doc (db_workspaces db) (sub_workspace sub)) (\<lambda>w.
            Inr (if sub_status sub = SubscriptionActive \<and> accepts_delivery w then count + 1 else count)))
      0 (map fst (filter (\<lambda>(_, src). src = source) (db_subscription_sources db)))"

definition poll_record :: "'a idb \<Rightarrow> source_record_id \<Rightarrow> store_error + source_record" where
  "poll_record db r = store_doc (db_source_records db) r"

definition record_by_upstream :: "'a idb \<Rightarrow> source_id \<Rightarrow> string \<Rightarrow> source_record option" where
  "record_by_upstream db source upstream =
    map_option (\<lambda>(_, _, _, r). r) (map_of (db_record_identity db) (source, upstream))"

section \<open>The backlog\<close>

definition source_backlog :: "'a idb \<Rightarrow> source_id \<Rightarrow> backlog_row list" where
  "source_backlog db source =
    sort_key bl_ordinal (map snd (filter (\<lambda>((s, _), _). s = source) (db_backlog db)))"

definition pending_poll :: "'a idb \<Rightarrow> source_id \<Rightarrow> nat \<Rightarrow> store_error + poll_commit option" where
  "pending_poll db source limit =
    (if limit = 0 then Inl (Unavailable ''backfill batch must be positive'')
     else if limit + 1 > i64_max then Inl (Unavailable ''backfill batch exceeds storage range'')
     else
       let fetched = take (limit + 1) (source_backlog db source) in
       case fetched of
         [] \<Rightarrow> Inr None
       | first # _ \<Rightarrow>
           let rows = take limit fetched; context = bl_context first in
           if list_ex (\<lambda>row. bl_context row \<noteq> context) rows
           then Inl (Unavailable ''mixed backfill generations'')
           else if list_ex (\<lambda>row. sr_source_id (bl_record row) \<noteq> source) rows
           then Inl (Unavailable ''backfill source identity mismatch'')
           else Inr (Some \<lparr>pc_source_id = source, pc_source_revision = bc_source_revision context,
             pc_records = map (\<lambda>row. \<lparr>po_record = bl_record row, po_action = bl_action row\<rparr>) rows,
             pc_remainder = [], pc_fetched_at = bc_fetched_at context, pc_final_url = bc_final_url context,
             pc_validators = bc_validators context, pc_incomplete = length fetched > limit,
             pc_duration_ms = 0\<rparr>))"

definition commit_context :: "poll_commit \<Rightarrow> backlog_context" where
  "commit_context c = \<lparr>bc_source_revision = pc_source_revision c, bc_fetched_at = pc_fetched_at c,
     bc_final_url = pc_final_url c, bc_validators = pc_validators c\<rparr>"

text \<open>The two keys of \<open>poll_backlog\<close> refuse a second row for a record or for an ordinal; the text of
  the refusal is PostgreSQL's.\<close>

definition backlog_insert ::
  "string \<Rightarrow> poll_commit \<Rightarrow> 'a idb \<Rightarrow> nat \<times> polled_record \<Rightarrow> store_error + 'a idb" where
  "backlog_insert duplicate c db entry =
    (let (ordinal, v) = entry; s = pc_source_id c; r = sr_id (po_record v) in
     if ordinal > i64_max then Inl (Unavailable ''out of range integral type conversion attempted'')
     else if map_of (db_backlog db) (s, r) \<noteq> None
       \<or> list_ex (\<lambda>((s', _), row). s' = s \<and> bl_ordinal row = ordinal) (db_backlog db)
     then Inl (Unavailable duplicate)
     else Inr (db\<lparr>db_backlog := put (s, r) \<lparr>bl_ordinal = ordinal, bl_record = po_record v,
       bl_action = po_action v, bl_context = commit_context c\<rparr> (db_backlog db)\<rparr>))"

definition backlog_acknowledge :: "source_id \<Rightarrow> 'a idb \<Rightarrow> polled_record \<Rightarrow> store_error + 'a idb" where
  "backlog_acknowledge s db v =
    (let key = (s, sr_id (po_record v)) in
     case map_of (db_backlog db) key of
       None \<Rightarrow> Inr db
     | Some row \<Rightarrow>
         if bl_record row \<noteq> po_record v \<or> bl_action row \<noteq> po_action v then Inl StoreConflict
         else Inr (db\<lparr>db_backlog := del key (db_backlog db)\<rparr>))"

definition backlog_persist :: "string \<Rightarrow> poll_commit \<Rightarrow> 'a idb \<Rightarrow> store_error + 'a idb" where
  "backlog_persist duplicate c db =
    (let values = map po_record (pc_records c @ pc_remainder c) in
     if pc_remainder c \<noteq> [] \<and> \<not> pc_incomplete c
     then Inl (Unavailable ''backfill cannot be complete with remaining records'')
     else if list_ex (\<lambda>r. sr_source_id r \<noteq> pc_source_id c) values \<or> \<not> distinct (map sr_upstream_id values)
     then Inl (Unavailable ''invalid backfill source or duplicate upstream identity'')
     else
       and_then (try_fold (backlog_insert duplicate c) db (List.enumerate 0 (pc_remainder c))) (\<lambda>db1.
       try_fold (backlog_acknowledge (pc_source_id c)) db1 (pc_records c)))"

section \<open>Committing a poll\<close>

definition extract_job :: "queue_env \<Rightarrow> source_record \<Rightarrow> instant \<Rightarrow> 'a idb \<Rightarrow> store_error + 'a idb" where
  "extract_job env r wall db =
    (case fetch_url (dk_location (sr_key r)) of
       None \<Rightarrow> Inr db
     | Some u \<Rightarrow>
         let i = record_job env ''fulltext'' (sr_id r) (sr_revision r);
             item = ExtractFullText (sr_id r) (sr_revision r) u False in
         case map_of (db_jobs db) i of
           Some j \<Rightarrow> if ij_item j \<noteq> item then Inl StoreConflict else Inr db
         | None \<Rightarrow> and_then (http_origin env u) (\<lambda>origin.
             Inr (put_job db i (new_job item origin (millis wall)))))"

definition commit_record ::
  "queue_env \<Rightarrow> instant \<Rightarrow> instant \<Rightarrow> 'a idb \<Rightarrow> polled_record \<Rightarrow> store_error + 'a idb" where
  "commit_record env wall observed db v =
    (let r = po_record v in
     and_then (store_i64 (sr_revision r) ''source record revision'') (\<lambda>revision.
     let db1 = db\<lparr>db_source_records := upsert_doc (db_source_records db) (sr_id r) revision r,
           db_record_identity := put (sr_source_id r, sr_upstream_id r) (sr_id r, millis observed, revision, r)
             (db_record_identity db)\<rparr> in
     and_then (if po_action v = Deliver \<or> po_action v = Regroup
        then enqueue_work env db1 (record_job env ''fanout'' (sr_id r) (sr_revision r))
          (FanOut (sr_source_id r) (sr_id r) None) (millis wall)
        else Inr db1) (\<lambda>db2.
     extract_job env r wall db2)))"

definition queue_backfill :: "queue_env \<Rightarrow> instant \<Rightarrow> poll_commit \<Rightarrow> 'a idb \<Rightarrow> store_error + 'a idb" where
  "queue_backfill env wall c db =
    (if \<not> pc_incomplete c then Inr db
     else if pc_records c = [] then Inl (Unavailable ''incomplete poll has no progress'')
     else enqueue_work env db
       (record_job env ''backfill'' (sr_id (po_record (last (pc_records c)))) (pc_source_revision c))
       (RefreshSource (pc_source_id c)) (millis wall))"

definition commit_poll ::
  "queue_env \<Rightarrow> 'a ai_hooks \<Rightarrow> string \<Rightarrow> (subscription_id \<Rightarrow> uuid) \<Rightarrow> 'a idb \<Rightarrow> instant \<Rightarrow> leased_work
    \<Rightarrow> poll_commit \<Rightarrow> store_error + 'a idb" where
  "commit_poll env ai duplicate fresh db wall lease c =
    and_then (assert_lease db wall lease) (\<lambda>_.
    and_then (with_ai (ai_begin_poll ai c) db) (\<lambda>db1.
    and_then (backlog_persist duplicate c db1) (\<lambda>db2.
    and_then (try_fold (commit_record env wall (pc_fetched_at c)) db2 (pc_records c)) (\<lambda>db3.
    let state = \<lparr>ps_validators = pc_validators c, ps_incomplete = pc_incomplete c,
          ps_last_success_ms = Some (millis (pc_fetched_at c))\<rparr>;
        db4 = db3\<lparr>db_poll_state := put (pc_source_id c) (PollState state) (db_poll_state db3)\<rparr>;
        db5 = record_source_success_state db4 (pc_source_id c) (pc_fetched_at c) (pc_incomplete c) in
    and_then (record_subscription_activity fresh db5 (pc_source_id c) True (Some (pc_duration_ms c))
      (Some (length (pc_records c))) None (pc_fetched_at c)) (\<lambda>db6.
    and_then (queue_backfill env wall c db6) (\<lambda>db7.
    with_ai (ai_finish_poll ai (pc_source_id c) (pc_incomplete c)) db7))))))"

definition record_source_success ::
  "'a ai_hooks \<Rightarrow> (subscription_id \<Rightarrow> uuid) \<Rightarrow> 'a idb \<Rightarrow> instant \<Rightarrow> leased_work \<Rightarrow> source_id \<Rightarrow> instant \<Rightarrow> bool \<Rightarrow> u64
    \<Rightarrow> store_error + 'a idb" where
  "record_source_success ai fresh db wall lease source at incomplete duration =
    and_then (assert_lease db wall lease) (\<lambda>_.
    and_then (with_ai (ai_finish_poll ai source incomplete) (record_source_success_state db source at incomplete)) (\<lambda>db1.
    record_subscription_activity fresh db1 source True (Some duration) None None at))"

section \<open>A commit is an outbox\<close>

text \<open>Later steps keep what is stored and queued.\<close>

definition poll_kept :: "'a idb \<Rightarrow> 'a idb \<Rightarrow> bool" where
  "poll_kept db db' \<longleftrightarrow>
    db_source_records db' = db_source_records db \<and> db_record_identity db' = db_record_identity db
    \<and> db_poll_state db' = db_poll_state db \<and> db_backlog db' = db_backlog db
    \<and> (\<forall>i j. map_of (db_jobs db) i = Some j \<longrightarrow> (\<exists>j'. map_of (db_jobs db') i = Some j' \<and> ij_item j' = ij_item j))"

lemma poll_kept_refl [simp]: "poll_kept db db"
  by (simp add: poll_kept_def)

lemma poll_keptD:
  assumes "poll_kept db db'"
  shows "db_source_records db' = db_source_records db" "db_record_identity db' = db_record_identity db"
    "db_poll_state db' = db_poll_state db" "db_backlog db' = db_backlog db"
    "map_of (db_jobs db) i = Some j \<Longrightarrow> \<exists>j'. map_of (db_jobs db') i = Some j' \<and> ij_item j' = ij_item j"
  using assms unfolding poll_kept_def by blast+

lemma poll_keptI:
  "db_source_records db' = db_source_records db \<Longrightarrow> db_record_identity db' = db_record_identity db \<Longrightarrow>
    db_poll_state db' = db_poll_state db \<Longrightarrow> db_backlog db' = db_backlog db \<Longrightarrow>
    (\<And>i j. map_of (db_jobs db) i = Some j \<Longrightarrow> \<exists>j'. map_of (db_jobs db') i = Some j' \<and> ij_item j' = ij_item j) \<Longrightarrow>
    poll_kept db db'"
  unfolding poll_kept_def by blast

lemma poll_kept_trans: "poll_kept db db1 \<Longrightarrow> poll_kept db1 db2 \<Longrightarrow> poll_kept db db2"
proof -
  assume k: "poll_kept db db1" "poll_kept db1 db2"
  have "\<exists>j'. map_of (db_jobs db2) i = Some j' \<and> ij_item j' = ij_item j" if "map_of (db_jobs db) i = Some j" for i j
  proof -
    from poll_keptD(5) [OF k(1) that] obtain j1 where j1: "map_of (db_jobs db1) i = Some j1" "ij_item j1 = ij_item j"
      by blast
    from poll_keptD(5) [OF k(2) j1(1)] j1(2) show ?thesis by simp
  qed
  then show ?thesis by (rule poll_keptI [rotated -1]) (simp_all add: poll_keptD(1-4) [OF k(1)] poll_keptD(1-4) [OF k(2)])
qed

lemma poll_kept_same:
  "db_source_records db' = db_source_records db \<Longrightarrow> db_record_identity db' = db_record_identity db \<Longrightarrow>
    db_poll_state db' = db_poll_state db \<Longrightarrow> db_backlog db' = db_backlog db \<Longrightarrow> db_jobs db' = db_jobs db \<Longrightarrow> poll_kept db db'"
  by (simp add: poll_kept_def)

lemma poll_kept_put_job: "map_of (db_jobs db) i = None \<Longrightarrow> poll_kept db (put_job db i j)"
  by (auto simp: poll_kept_def put_job_def)

lemma poll_kept_enqueue: "enqueue_work env db i item first = Inr db' \<Longrightarrow> poll_kept db db'"
  by (auto simp: enqueue_work_def poll_kept_put_job split: option.splits if_splits)

lemma poll_kept_with_ai: "with_ai f db = Inr db' \<Longrightarrow> poll_kept db db'"
  by (auto simp: with_ai_def intro!: poll_kept_same)

lemma poll_kept_activity:
  "record_subscription_activity fresh db s ok duration discovered diagnostic at = Inr db' \<Longrightarrow> poll_kept db db'"
  unfolding record_subscription_activity_def Let_def and_then_eq_Inr [where y = db']
  by (elim exE conjE, drule Inr_inject, erule subst) (rule poll_kept_same; simp)

lemma poll_kept_backfill: "queue_backfill env wall c db = Inr db' \<Longrightarrow> poll_kept db db'"
  by (auto simp: queue_backfill_def poll_kept_enqueue split: if_splits)

lemma poll_kept_success: "poll_kept db (record_source_success_state db s at incomplete)"
  by (auto simp: record_source_success_state_def Let_def intro!: poll_kept_same)

text \<open>A record of a commit, with the jobs that its action asks for.\<close>

definition queued :: "'a idb \<Rightarrow> job_id \<Rightarrow> work_item \<Rightarrow> bool" where
  "queued db i item \<longleftrightarrow> (\<exists>j. map_of (db_jobs db) i = Some j \<and> ij_item j = item)"

definition committed :: "queue_env \<Rightarrow> 'a idb \<Rightarrow> polled_record \<Rightarrow> bool" where
  "committed env db v \<longleftrightarrow>
    (let r = po_record v in
     poll_record db (sr_id r) = Inr r
     \<and> record_by_upstream db (sr_source_id r) (sr_upstream_id r) = Some r
     \<and> (po_action v = Deliver \<or> po_action v = Regroup \<longrightarrow>
          queued db (record_job env ''fanout'' (sr_id r) (sr_revision r)) (FanOut (sr_source_id r) (sr_id r) None))
     \<and> (\<forall>u. fetch_url (dk_location (sr_key r)) = Some u \<longrightarrow>
          queued db (record_job env ''fulltext'' (sr_id r) (sr_revision r))
            (ExtractFullText (sr_id r) (sr_revision r) u False)))"

lemma queued_kept: "queued db i item \<Longrightarrow> poll_kept db db' \<Longrightarrow> queued db' i item"
  using poll_keptD(5) [of db db' i] by (fastforce simp: queued_def)

lemma committed_kept: "committed env db v \<Longrightarrow> poll_kept db db' \<Longrightarrow> committed env db' v"
  using queued_kept [of db _ _ db'] poll_keptD(1,2) [of db db']
  by (auto simp: committed_def Let_def poll_record_def record_by_upstream_def)

lemma enqueue_work_queued: "enqueue_work env db i item first = Inr db' \<Longrightarrow> queued db' i item"
  by (auto simp: enqueue_work_def queued_def put_job_def new_job_def split: option.splits if_splits)

lemma extract_job_kept:
  assumes "extract_job env r wall db = Inr db'"
  shows "poll_kept db db'"
    and "fetch_url (dk_location (sr_key r)) = Some u \<Longrightarrow>
      queued db' (record_job env ''fulltext'' (sr_id r) (sr_revision r)) (ExtractFullText (sr_id r) (sr_revision r) u False)"
  using assms
  by (auto simp: extract_job_def Let_def queued_def new_job_def poll_kept_put_job split: option.splits if_splits)

lemma commit_record_steps:
  assumes "commit_record env wall observed db v = Inr db'"
  obtains db1 where "db1 = db\<lparr>db_source_records :=
        upsert_doc (db_source_records db) (sr_id (po_record v)) (sr_revision (po_record v)) (po_record v),
      db_record_identity := put (sr_source_id (po_record v), sr_upstream_id (po_record v))
        (sr_id (po_record v), millis observed, sr_revision (po_record v), po_record v) (db_record_identity db)\<rparr>"
    and "poll_kept db1 db'" and "committed env db' v"
proof -
  let ?r = "po_record v"
  let ?db1 = "db\<lparr>db_source_records := upsert_doc (db_source_records db) (sr_id ?r) (sr_revision ?r) ?r,
      db_record_identity := put (sr_source_id ?r, sr_upstream_id ?r)
        (sr_id ?r, millis observed, sr_revision ?r, ?r) (db_record_identity db)\<rparr>"
  from assms obtain db2 where st: "(if po_action v = Deliver \<or> po_action v = Regroup
        then enqueue_work env ?db1 (record_job env ''fanout'' (sr_id ?r) (sr_revision ?r))
          (FanOut (sr_source_id ?r) (sr_id ?r) None) (millis wall)
        else Inr ?db1) = Inr db2" "extract_job env ?r wall db2 = Inr db'"
    by (auto simp: commit_record_def Let_def)
  have k2: "poll_kept ?db1 db2" using st(1) poll_kept_enqueue by (auto split: if_splits)
  have fan: "po_action v = Deliver \<or> po_action v = Regroup \<Longrightarrow>
      queued db2 (record_job env ''fanout'' (sr_id ?r) (sr_revision ?r)) (FanOut (sr_source_id ?r) (sr_id ?r) None)"
    using st(1) enqueue_work_queued by (auto split: if_splits)
  have k: "poll_kept ?db1 db'" using poll_kept_trans [OF k2 extract_job_kept(1) [OF st(2)]] .
  then have "committed env db' v"
    using fan queued_kept [OF _ extract_job_kept(1) [OF st(2)]] extract_job_kept(2) [OF st(2)]
      poll_keptD(1,2) [OF k]
    by (auto simp: committed_def Let_def poll_record_def record_by_upstream_def upsert_doc_def)
  with k that show thesis by blast
qed

lemma commit_record_other:
  assumes "commit_record env wall observed db u = Inr db'" and "committed env db v"
    and "sr_id (po_record u) \<noteq> sr_id (po_record v)" and "sr_upstream_id (po_record u) \<noteq> sr_upstream_id (po_record v)"
  shows "committed env db' v"
  using assms(1)
proof (cases rule: commit_record_steps)
  case (1 db1)
  have "committed env db1 v"
    using assms(2-4)
    by (auto simp: 1(1) committed_def Let_def poll_record_def record_by_upstream_def upsert_doc_def queued_def)
  then show ?thesis using 1(2) by (rule committed_kept)
qed

lemma commit_records_all:
  assumes "try_fold (commit_record env wall observed) db vs = Inr db'"
    and "distinct (map (\<lambda>v. sr_id (po_record v)) vs)" and "distinct (map (\<lambda>v. sr_upstream_id (po_record v)) vs)"
  shows "\<forall>v \<in> set vs. committed env db' v"
  using assms
proof (induction vs arbitrary: db)
  case (Cons u vs)
  from Cons.prems(1) obtain db1 where one: "commit_record env wall observed db u = Inr db1"
    and rest: "try_fold (commit_record env wall observed) db1 vs = Inr db'" by auto
  from one have "committed env db1 u" by (cases rule: commit_record_steps) blast
  then have "committed env db' u"
  proof (rule try_fold_keeps [OF rest])
    fix s x s'
    assume x: "x \<in> set vs" "committed env s u" "commit_record env wall observed s x = Inr s'"
    have "sr_id (po_record x) \<noteq> sr_id (po_record u)" "sr_upstream_id (po_record x) \<noteq> sr_upstream_id (po_record u)"
      using Cons.prems(2,3) imageI [OF x(1), of "\<lambda>v. sr_id (po_record v)"]
        imageI [OF x(1), of "\<lambda>v. sr_upstream_id (po_record v)"] by auto
    with commit_record_other [OF x(3,2)] show "committed env s' u" by blast
  qed
  with Cons.IH [OF rest] Cons.prems(2,3) show ?case by simp
qed simp

lemma backlog_persist_checks:
  assumes "backlog_persist duplicate c db = Inr db'"
  shows "distinct (map (\<lambda>v. sr_upstream_id (po_record v)) (pc_records c @ pc_remainder c))"
    and "v \<in> set (pc_records c @ pc_remainder c) \<Longrightarrow> sr_source_id (po_record v) = pc_source_id c"
proof -
  have ok: "\<not> (list_ex (\<lambda>r. sr_source_id r \<noteq> pc_source_id c) (map po_record (pc_records c @ pc_remainder c))
    \<or> \<not> distinct (map sr_upstream_id (map po_record (pc_records c @ pc_remainder c))))"
  proof
    assume bad: "list_ex (\<lambda>r. sr_source_id r \<noteq> pc_source_id c) (map po_record (pc_records c @ pc_remainder c))
      \<or> \<not> distinct (map sr_upstream_id (map po_record (pc_records c @ pc_remainder c)))"
    show False
      using assms unfolding backlog_persist_def Let_def if_P [OF bad] by (simp split: if_split_asm)
  qed
  then have dist: "distinct (map sr_upstream_id (map po_record (pc_records c @ pc_remainder c)))"
    and src: "\<not> list_ex (\<lambda>r. sr_source_id r \<noteq> pc_source_id c) (map po_record (pc_records c @ pc_remainder c))"
    by blast+
  have eq: "map (\<lambda>v. sr_upstream_id (po_record v)) vs = map sr_upstream_id (map po_record vs)" for vs by simp
  show "distinct (map (\<lambda>v. sr_upstream_id (po_record v)) (pc_records c @ pc_remainder c))" unfolding eq by (rule dist)
  show "sr_source_id (po_record v) = pc_source_id c" if "v \<in> set (pc_records c @ pc_remainder c)"
  proof -
    have "po_record v \<in> set (map po_record (pc_records c @ pc_remainder c))"
      unfolding set_map using that by (rule imageI)
    with src show ?thesis unfolding list_ex_iff by blast
  qed
qed

text \<open>The parts of a commit.\<close>

abbreviation poll_state_saved :: "poll_commit \<Rightarrow> 'a idb \<Rightarrow> 'a idb" where
  "poll_state_saved c db \<equiv> db\<lparr>db_poll_state := put (pc_source_id c) (PollState \<lparr>ps_validators = pc_validators c,
     ps_incomplete = pc_incomplete c, ps_last_success_ms = Some (millis (pc_fetched_at c))\<rparr>) (db_poll_state db)\<rparr>"

lemma commit_poll_steps:
  assumes "commit_poll env ai duplicate fresh db wall lease c = Inr db'"
  obtains db1 db2 db3 where "poll_kept db db1" "backlog_persist duplicate c db1 = Inr db2"
    "try_fold (commit_record env wall (pc_fetched_at c)) db2 (pc_records c) = Inr db3"
    "poll_kept (poll_state_saved c db3) db'"
proof -
  from assms obtain db1 db2 db3 db6 db7 where st:
    "with_ai (ai_begin_poll ai c) db = Inr db1" "backlog_persist duplicate c db1 = Inr db2"
    "try_fold (commit_record env wall (pc_fetched_at c)) db2 (pc_records c) = Inr db3"
    "record_subscription_activity fresh (record_source_success_state (poll_state_saved c db3)
        (pc_source_id c) (pc_fetched_at c) (pc_incomplete c)) (pc_source_id c) True (Some (pc_duration_ms c))
      (Some (length (pc_records c))) None (pc_fetched_at c) = Inr db6"
    "queue_backfill env wall c db6 = Inr db7"
    "with_ai (ai_finish_poll ai (pc_source_id c) (pc_incomplete c)) db7 = Inr db'"
    unfolding commit_poll_def Let_def and_then_eq_Inr by (elim exE conjE) (rule that)
  have "poll_kept (poll_state_saved c db3) db'"
    using poll_kept_success poll_kept_activity [OF st(4)] poll_kept_backfill [OF st(5)] poll_kept_with_ai [OF st(6)]
    by (meson poll_kept_trans)
  with that poll_kept_with_ai [OF st(1)] st(2,3) show ?thesis by blast
qed

text \<open>A committed poll is an outbox: every record of the page is stored and found again by its
  upstream identity, its delivery is queued (unless only its content changed) and so is the extraction of
  its text when it has a URL, all in the same transaction; and the validators of the page are those the
  next conditional fetch sends.\<close>

theorem commit_poll_outbox:
  assumes "commit_poll env ai duplicate fresh db wall lease c = Inr db'"
    and "distinct (map (\<lambda>v. sr_id (po_record v)) (pc_records c))"
  shows "(\<forall>v \<in> set (pc_records c). committed env db' v \<and> sr_source_id (po_record v) = pc_source_id c)
    \<and> has_committed_poll db' (pc_source_id c) \<and> source_validators db' (pc_source_id c) = pc_validators c"
proof -
  from assms(1) obtain db1 db2 db3 where st: "backlog_persist duplicate c db1 = Inr db2"
    "try_fold (commit_record env wall (pc_fetched_at c)) db2 (pc_records c) = Inr db3"
    and kept: "poll_kept (poll_state_saved c db3) db'"
    by (rule commit_poll_steps)
  note checks = backlog_persist_checks [OF st(1)]
  have "\<forall>v \<in> set (pc_records c). committed env db3 v"
    by (rule commit_records_all [OF st(2) assms(2)]) (use checks(1) in simp)
  then have "\<forall>v \<in> set (pc_records c). committed env (poll_state_saved c db3) v"
    by (simp add: committed_def Let_def poll_record_def record_by_upstream_def queued_def)
  then have "\<forall>v \<in> set (pc_records c). committed env db' v" using kept committed_kept by blast
  moreover have "map_of (db_poll_state db') (pc_source_id c) = Some (PollState \<lparr>ps_validators = pc_validators c,
      ps_incomplete = pc_incomplete c, ps_last_success_ms = Some (millis (pc_fetched_at c))\<rparr>)"
    using poll_keptD(3) [OF kept] by simp
  ultimately show ?thesis using checks(2) by (simp add: has_committed_poll_def source_validators_def)
qed

section \<open>Draining the backlog\<close>

text \<open>The rows of one source, as a reference model: a queue of records with one context.\<close>

definition backlog_ok :: "'a idb \<Rightarrow> source_id \<Rightarrow> backlog_context \<Rightarrow> bool" where
  "backlog_ok db s context \<longleftrightarrow>
    distinct (map fst (db_backlog db))
    \<and> (\<forall>r row. map_of (db_backlog db) (s, r) = Some row \<longrightarrow>
        sr_id (bl_record row) = r \<and> sr_source_id (bl_record row) = s \<and> bl_context row = context)
    \<and> distinct (map (\<lambda>row. sr_upstream_id (bl_record row)) (source_backlog db s))"

definition row_record :: "backlog_row \<Rightarrow> polled_record" where
  "row_record row = \<lparr>po_record = bl_record row, po_action = bl_action row\<rparr>"

lemma source_backlog_mem:
  assumes "distinct (map fst (db_backlog db))"
  shows "row \<in> set (source_backlog db s) \<longleftrightarrow> (\<exists>r. map_of (db_backlog db) (s, r) = Some row)"
  using assms by (force simp: source_backlog_def dest: map_of_SomeD)

lemma backlog_ids_distinct:
  assumes "backlog_ok db s context"
  shows "distinct (map (\<lambda>row. sr_id (bl_record row)) (source_backlog db s))"
proof -
  let ?rows = "filter (\<lambda>((s', _), _). s' = s) (db_backlog db)"
  have keys: "distinct (map fst ?rows)"
    using assms by (intro distinct_map_filter) (simp add: backlog_ok_def)
  have "fst x = (s, sr_id (bl_record (snd x)))" if "x \<in> set ?rows" for x
  proof -
    obtain s' r row where "x = ((s', r), row)" by (cases x) auto
    with that have x: "x = ((s, r), row)" by simp
    with that have "map_of (db_backlog db) (s, r) = Some row" using assms by (simp add: backlog_ok_def)
    with assms x show ?thesis by (simp add: backlog_ok_def)
  qed
  then have "map fst ?rows = map (\<lambda>i. (s, i)) (map (\<lambda>x. sr_id (bl_record (snd x))) ?rows)"
    unfolding map_map by (intro map_cong) auto
  with keys have "distinct (map (\<lambda>i. (s, i)) (map (\<lambda>x. sr_id (bl_record (snd x))) ?rows))" by simp
  then have "distinct (map (\<lambda>x. sr_id (bl_record (snd x))) ?rows)" by (metis distinct_map)
  then have "distinct (map (\<lambda>row. sr_id (bl_record row)) (map snd ?rows))" by (simp add: comp_def)
  then show ?thesis unfolding source_backlog_def distinct_map_sort_key .
qed

text \<open>Acknowledging records that are on the backlog removes exactly their rows.\<close>

lemma acknowledge_rows:
  assumes "backlog_ok db s context" and "set rows \<subseteq> set (source_backlog db s)"
    and "distinct (map (\<lambda>row. sr_id (bl_record row)) rows)"
  shows "\<exists>db'. try_fold (backlog_acknowledge s) db (map row_record rows) = Inr db'
    \<and> db_backlog db' = filter (\<lambda>(k, _). k \<notin> (\<lambda>row. (s, sr_id (bl_record row))) ` set rows) (db_backlog db)"
  using assms
proof (induction rows arbitrary: db)
  case (Cons row rows)
  let ?k = "(s, sr_id (bl_record row))"
  let ?db = "db\<lparr>db_backlog := del ?k (db_backlog db)\<rparr>"
  have dist: "distinct (map fst (db_backlog db))" using Cons.prems(1) by (simp add: backlog_ok_def)
  from Cons.prems(2) source_backlog_mem [OF dist] obtain r where "map_of (db_backlog db) (s, r) = Some row" by auto
  with Cons.prems(1) have look: "map_of (db_backlog db) ?k = Some row" by (auto simp: backlog_ok_def)
  then have one: "backlog_acknowledge s db (row_record row) = Inr ?db"
    by (simp add: backlog_acknowledge_def row_record_def)
  have del: "db_backlog ?db = filter (\<lambda>(k, _). k \<noteq> ?k) (db_backlog db)"
    by (auto simp: del_def AList.delete_eq intro!: filter_cong)
  have sub: "source_backlog ?db s = filter (\<lambda>x. sr_id (bl_record x) \<noteq> sr_id (bl_record row)) (source_backlog db s)"
  proof -
    let ?rows = "filter (\<lambda>((s', _), _). s' = s) (db_backlog db)"
    have key: "sr_id (bl_record x) = r" if "((s, r), x) \<in> set (db_backlog db)" for r x
      using that Cons.prems(1) dist by (simp add: backlog_ok_def)
    have "filter (\<lambda>((s', _), _). s' = s) (db_backlog ?db) = filter (\<lambda>x. sr_id (bl_record (snd x)) \<noteq> sr_id (bl_record row)) ?rows"
      unfolding del filter_filter by (rule filter_cong [OF refl]) (auto simp: key)
    then show ?thesis by (simp add: source_backlog_def filter_sort filter_map comp_def)
  qed
  have ok: "backlog_ok ?db s context"
    unfolding backlog_ok_def
  proof (intro conjI)
    show "distinct (map fst (db_backlog ?db))" unfolding del by (rule distinct_map_filter [OF dist])
    show "\<forall>r x. map_of (db_backlog ?db) (s, r) = Some x \<longrightarrow>
        sr_id (bl_record x) = r \<and> sr_source_id (bl_record x) = s \<and> bl_context x = context"
    proof (intro allI impI)
      fix r x
      assume "map_of (db_backlog ?db) (s, r) = Some x"
      then have "map_of (db_backlog db) (s, r) = Some x" by (simp add: del_def delete_conv' split: if_splits)
      with Cons.prems(1) show "sr_id (bl_record x) = r \<and> sr_source_id (bl_record x) = s \<and> bl_context x = context"
        by (simp add: backlog_ok_def)
    qed
  next
    show "distinct (map (\<lambda>row. sr_upstream_id (bl_record row)) (source_backlog ?db s))"
      unfolding sub by (rule distinct_map_filter) (use Cons.prems(1) in \<open>simp add: backlog_ok_def\<close>)
  qed
  have "set rows \<subseteq> set (source_backlog ?db s)"
  proof
    fix x
    assume x: "x \<in> set rows"
    then have "sr_id (bl_record x) \<noteq> sr_id (bl_record row)"
      using Cons.prems(3) by (auto simp: image_iff)
    with x Cons.prems(2) show "x \<in> set (source_backlog ?db s)" unfolding sub by auto
  qed
  from Cons.IH [OF ok this] Cons.prems(3) obtain db' where rest:
    "try_fold (backlog_acknowledge s) ?db (map row_record rows) = Inr db'"
    "db_backlog db' = filter (\<lambda>(k, _). k \<notin> (\<lambda>row. (s, sr_id (bl_record row))) ` set rows) (db_backlog ?db)" by auto
  have "db_backlog db' = filter (\<lambda>(k, _). k \<notin> (\<lambda>row. (s, sr_id (bl_record row))) ` set (row # rows)) (db_backlog db)"
    unfolding rest(2) del filter_filter by (rule filter_cong) auto
  with one rest(1) show ?case by auto
qed simp

lemma filter_not_taken:
  "distinct (map f xs) \<Longrightarrow> filter (\<lambda>x. f x \<notin> f ` set (take n xs)) xs = drop n xs"
proof (induction xs arbitrary: n)
  case (Cons x xs)
  show ?case
  proof (cases n)
    case (Suc m)
    have "filter (\<lambda>y. f y \<notin> f ` set (take n (x # xs))) xs = filter (\<lambda>y. f y \<notin> f ` set (take m xs)) xs"
      using Cons.prems by (intro filter_cong) (auto simp: Suc image_iff)
    with Cons Suc show ?thesis by simp
  qed simp
qed simp

text \<open>One turn of the backfill: the pending page is the head of the queue, and committing it leaves the
  tail.\<close>

lemma drain_turn:
  assumes ok: "backlog_ok db s context" and limit: "0 < limit" "limit < i64_max"
    and rows: "source_backlog db s \<noteq> []"
  obtains c db' where "pending_poll db s limit = Inr (Some c)"
    and "pc_records c = map row_record (take limit (source_backlog db s))"
    and "pc_incomplete c \<longleftrightarrow> drop limit (source_backlog db s) \<noteq> []"
    and "backlog_persist duplicate c db = Inr db'" and "backlog_ok db' s context"
    and "source_backlog db' s = drop limit (source_backlog db s)"
proof -
  define q where "q = source_backlog db s"
  have dist: "distinct (map fst (db_backlog db))" using ok by (simp add: backlog_ok_def)
  have row: "sr_source_id (bl_record x) = s \<and> bl_context x = context" if "x \<in> set q" for x
    using that source_backlog_mem [OF dist, of x s] ok by (auto simp: q_def backlog_ok_def)
  obtain x xs where q: "q = x # xs" using rows by (cases q) (auto simp: q_def)
  let ?c = "\<lparr>pc_source_id = s, pc_source_revision = bc_source_revision context,
     pc_records = map row_record (take limit q), pc_remainder = [], pc_fetched_at = bc_fetched_at context,
     pc_final_url = bc_final_url context, pc_validators = bc_validators context,
     pc_incomplete = length (take (limit + 1) q) > limit, pc_duration_ms = 0\<rparr>"
  have taken: "take limit (take (limit + 1) q) = take limit q" by simp
  have sub: "set (take limit q) \<subseteq> set q" by (rule set_take_subset)
  have pending: "pending_poll db s limit = Inr (Some ?c)"
    using limit sub row q unfolding pending_poll_def q_def [symmetric] Let_def taken
    by (auto simp: list_ex_iff row_record_def)
  have ids: "distinct (map (\<lambda>row. sr_id (bl_record row)) q)"
    unfolding q_def by (rule backlog_ids_distinct [OF ok])
  have ups: "distinct (map (\<lambda>row. sr_upstream_id (bl_record row)) q)"
    using ok by (simp add: q_def backlog_ok_def)
  have "distinct (map (\<lambda>row. sr_id (bl_record row)) (take limit q))" using ids by (simp add: take_map [symmetric] distinct_take)
  with acknowledge_rows [OF ok, of "take limit q"] sub obtain db' where ack:
    "try_fold (backlog_acknowledge s) db (map row_record (take limit q)) = Inr db'"
    "db_backlog db' = filter (\<lambda>(k, _). k \<notin> (\<lambda>row. (s, sr_id (bl_record row))) ` set (take limit q)) (db_backlog db)"
    by (auto simp: q_def)
  have persist: "backlog_persist duplicate ?c db = Inr db'"
  proof -
    have vals: "map po_record (pc_records ?c @ pc_remainder ?c) = map bl_record (take limit q)"
      by (simp add: row_record_def comp_def)
    have "distinct (map sr_upstream_id (map bl_record (take limit q)))"
      using ups by (simp add: take_map [symmetric] distinct_take comp_def)
    moreover have "\<not> list_ex (\<lambda>r. sr_source_id r \<noteq> s) (map bl_record (take limit q))"
      using row sub by (auto simp: list_ex_iff)
    ultimately show ?thesis unfolding backlog_persist_def Let_def vals using ack(1) by simp
  qed
  have left: "source_backlog db' s = drop limit q"
  proof -
    have key: "sr_id (bl_record y) = r" if "((s, r), y) \<in> set (db_backlog db)" for r y
      using that ok dist by (simp add: backlog_ok_def)
    have "filter (\<lambda>((s', _), _). s' = s) (db_backlog db') = filter (\<lambda>y. sr_id (bl_record (snd y)) \<notin>
        (\<lambda>row. sr_id (bl_record row)) ` set (take limit q)) (filter (\<lambda>((s', _), _). s' = s) (db_backlog db))"
      unfolding ack(2) filter_filter by (rule filter_cong [OF refl]) (auto simp: key image_iff)
    then have "source_backlog db' s = filter (\<lambda>y. sr_id (bl_record y) \<notin>
        (\<lambda>row. sr_id (bl_record row)) ` set (take limit q)) q"
      by (simp add: source_backlog_def q_def filter_sort filter_map comp_def)
    also have "\<dots> = drop limit q" by (rule filter_not_taken [OF ids])
    finally show ?thesis .
  qed
  have "backlog_ok db' s context"
    unfolding backlog_ok_def left
  proof (intro conjI allI impI)
    show "distinct (map fst (db_backlog db'))" unfolding ack(2) by (rule distinct_map_filter [OF dist])
    show "distinct (map (\<lambda>row. sr_upstream_id (bl_record row)) (drop limit q))"
      using ups by (simp add: drop_map [symmetric] distinct_drop)
  next
    fix r y
    assume "map_of (db_backlog db') (s, r) = Some y"
    then have "((s, r), y) \<in> set (db_backlog db)" unfolding ack(2) by (auto dest: map_of_SomeD)
    then have "map_of (db_backlog db) (s, r) = Some y" using dist by simp
    with ok show "sr_id (bl_record y) = r" "sr_source_id (bl_record y) = s" "bl_context y = context"
      by (simp_all add: backlog_ok_def)
  qed
  moreover have "pc_incomplete ?c \<longleftrightarrow> drop limit q \<noteq> []" by auto
  ultimately show thesis using that [OF pending] persist left by (simp add: q_def)
qed

text \<open>The refresh jobs of a source, one after the other: read the pending page, acknowledge it, until
  nothing is pending. \<open>None\<close> means that the fuel ran out.\<close>

fun drain :: "nat \<Rightarrow> string \<Rightarrow> nat \<Rightarrow> source_id \<Rightarrow> 'a idb \<Rightarrow> (store_error + polled_record list \<times> 'a idb) option" where
  "drain 0 duplicate limit s db = None"
| "drain (Suc n) duplicate limit s db =
    (case pending_poll db s limit of
       Inl e \<Rightarrow> Some (Inl e)
     | Inr None \<Rightarrow> Some (Inr ([], db))
     | Inr (Some c) \<Rightarrow>
         (case backlog_persist duplicate c db of
            Inl e \<Rightarrow> Some (Inl e)
          | Inr db1 \<Rightarrow> map_option (\<lambda>r. and_then r (\<lambda>(rs, db2). Inr (pc_records c @ rs, db2)))
              (drain n duplicate limit s db1)))"

lemma drain_all:
  assumes "backlog_ok db s context" and "0 < limit" "limit < i64_max" and "length (source_backlog db s) < fuel"
  shows "\<exists>db'. drain fuel duplicate limit s db = Some (Inr (map row_record (source_backlog db s), db'))
    \<and> source_backlog db' s = []"
  using assms
proof (induction fuel arbitrary: db)
  case (Suc n)
  show ?case
  proof (cases "source_backlog db s = []")
    case True
    then have "pending_poll db s limit = Inr None" using Suc.prems by (simp add: pending_poll_def)
    with True show ?thesis by simp
  next
    case False
    from drain_turn [OF Suc.prems(1-3) False, of duplicate] obtain c db1 where turn:
      "pending_poll db s limit = Inr (Some c)" "pc_records c = map row_record (take limit (source_backlog db s))"
      "backlog_persist duplicate c db = Inr db1" "backlog_ok db1 s context"
      "source_backlog db1 s = drop limit (source_backlog db s)" by blast
    have "length (source_backlog db1 s) < n"
      using Suc.prems(2,4) False unfolding turn(5) by (cases "source_backlog db s") auto
    from Suc.IH [OF turn(4) Suc.prems(2,3) this] obtain db' where
      "drain n duplicate limit s db1 = Some (Inr (map row_record (source_backlog db1 s), db'))" "source_backlog db' s = []"
      by blast
    then show ?thesis by (simp add: turn(1-3,5) flip: map_append)
  qed
qed simp

text \<open>Storing the remainder of an initial page.\<close>

abbreviation remainder_row where
  "remainder_row c i v \<equiv> \<lparr>bl_ordinal = i, bl_record = po_record v, bl_action = po_action v, bl_context = commit_context c\<rparr>"

lemma insert_remainder:
  assumes "try_fold (backlog_insert duplicate c) db (List.enumerate n vs) = Inr db'"
  shows "db_backlog db' = db_backlog db @ map (\<lambda>(i, v). ((pc_source_id c, sr_id (po_record v)), remainder_row c i v)) (List.enumerate n vs)"
  using assms
proof (induction vs arbitrary: db n)
  case (Cons v vs)
  from Cons.prems obtain db1 where one: "backlog_insert duplicate c db (n, v) = Inr db1"
    and rest: "try_fold (backlog_insert duplicate c) db1 (List.enumerate (Suc n) vs) = Inr db'" by auto
  from one have "map_of (db_backlog db) (pc_source_id c, sr_id (po_record v)) = None"
    and db1: "db_backlog db1 = put (pc_source_id c, sr_id (po_record v)) (remainder_row c n v) (db_backlog db)"
    by (auto simp: backlog_insert_def Let_def split: if_splits)
  then have "(pc_source_id c, sr_id (po_record v)) \<notin> fst ` set (db_backlog db)" by (simp add: map_of_eq_None_iff)
  with Cons.IH [OF rest] show ?case by (simp add: db1 put_append)
qed simp

lemma insert_remainder_keys:
  assumes "try_fold (backlog_insert duplicate c) db (List.enumerate n vs) = Inr db'" and "distinct (map fst (db_backlog db))"
  shows "distinct (map fst (db_backlog db'))"
  by (rule try_fold_keeps [OF assms(1)])
    (use assms(2) in \<open>auto simp: backlog_insert_def Let_def distinct_put split: if_splits\<close>)

lemma persist_initial:
  assumes "backlog_persist duplicate c db = Inr db'" and "source_backlog db (pc_source_id c) = []"
    and "distinct (map fst (db_backlog db))"
    and "distinct (map (\<lambda>v. sr_id (po_record v)) (pc_records c @ pc_remainder c))"
  shows "backlog_ok db' (pc_source_id c) (commit_context c)
    \<and> map row_record (source_backlog db' (pc_source_id c)) = pc_remainder c"
proof -
  let ?s = "pc_source_id c" and ?e = "List.enumerate 0 (pc_remainder c)"
  let ?new = "map (\<lambda>(i, v). ((?s, sr_id (po_record v)), remainder_row c i v)) ?e"
  from assms(1) obtain db1 where ins: "try_fold (backlog_insert duplicate c) db ?e = Inr db1"
    and ack: "try_fold (backlog_acknowledge ?s) db1 (pc_records c) = Inr db'"
    by (auto simp: backlog_persist_def Let_def split: if_splits)
  have b1: "db_backlog db1 = db_backlog db @ ?new" by (rule insert_remainder [OF ins])
  have old: "filter (\<lambda>((s', _), _). s' = ?s) (db_backlog db) = []"
  proof -
    have "length (map snd (filter (\<lambda>((s', _), _). s' = ?s) (db_backlog db))) = length (source_backlog db ?s)"
      unfolding source_backlog_def by simp
    with assms(2) show ?thesis by simp
  qed
  have none: "map_of (db_backlog db1) (?s, r) = None" if "r \<notin> (\<lambda>v. sr_id (po_record v)) ` set (pc_remainder c)" for r
  proof -
    have "(?s, r) \<notin> fst ` set (db_backlog db)" using old by (force simp: filter_empty_conv)
    moreover have "(?s, r) \<notin> fst ` set ?new" using that by (force simp: in_set_enumerate_eq)
    ultimately show ?thesis by (simp add: b1 map_of_eq_None_iff image_Un)
  qed
  have "db' = db1"
  proof (rule try_fold_keeps [OF ack])
    fix st v st'
    assume v: "v \<in> set (pc_records c)" "st = db1" "backlog_acknowledge ?s st v = Inr st'"
    have "sr_id (po_record v) \<notin> (\<lambda>v. sr_id (po_record v)) ` set (pc_remainder c)"
      using assms(4) v(1) by auto
    with none v(2,3) show "st' = db1" by (auto simp: backlog_acknowledge_def)
  qed simp
  moreover have queue: "source_backlog db1 ?s = map (\<lambda>(i, v). remainder_row c i v) ?e"
  proof -
    have "filter (\<lambda>((s', _), _). s' = ?s) (db_backlog db1) = ?new"
      unfolding b1 filter_append old by (simp add: filter_id_conv case_prod_unfold)
    then have "source_backlog db1 ?s = sort_key bl_ordinal (map (\<lambda>(i, v). remainder_row c i v) ?e)"
      by (simp add: source_backlog_def comp_def case_prod_unfold)
    moreover have "map bl_ordinal (map (\<lambda>(i, v). remainder_row c i v) ?e) = map fst ?e"
      by (simp add: comp_def case_prod_unfold)
    then have "sorted (map bl_ordinal (map (\<lambda>(i, v). remainder_row c i v) ?e))"
      unfolding map_fst_enumerate by (simp only: sorted_upt)
    ultimately show ?thesis by (simp only: sort_key_id_if_sorted)
  qed
  moreover have "row_record (remainder_row c i v) = v" for i v by (cases v) (simp add: row_record_def)
  then have "map row_record (map (\<lambda>(i, v). remainder_row c i v) ?e) = map snd ?e"
    by (simp add: comp_def case_prod_unfold)
  moreover have "backlog_ok db1 ?s (commit_context c)"
    unfolding backlog_ok_def
  proof (intro conjI allI impI)
    show "distinct (map fst (db_backlog db1))" by (rule insert_remainder_keys [OF ins assms(3)])
    have "map (\<lambda>row. sr_upstream_id (bl_record row)) (source_backlog db1 ?s) = map (\<lambda>v. sr_upstream_id (po_record v)) (map snd ?e)"
      unfolding queue by (simp add: comp_def case_prod_unfold del: map_snd_enumerate)
    then show "distinct (map (\<lambda>row. sr_upstream_id (bl_record row)) (source_backlog db1 ?s))"
      using backlog_persist_checks(1) [OF assms(1)] by (simp only: map_snd_enumerate) simp
  next
    fix r row
    assume "map_of (db_backlog db1) (?s, r) = Some row"
    then have "((?s, r), row) \<in> set (db_backlog db1)" by (rule map_of_SomeD)
    with old have "((?s, r), row) \<in> set ?new" by (force simp: b1 filter_empty_conv)
    then obtain i v where "r = sr_id (po_record v)" "row = remainder_row c i v" "v \<in> set (pc_remainder c)"
      by (auto simp: in_set_enumerate_eq)
    with backlog_persist_checks(2) [OF assms(1)] show "sr_id (bl_record row) = r" "sr_source_id (bl_record row) = ?s"
      "bl_context row = commit_context c" by simp_all
  qed
  ultimately show ?thesis by (simp only: map_snd_enumerate)
qed

text \<open>C15. No record of a large initial page is lost or reordered: the part of the page that exceeds one
  commit goes to the backlog, and the refresh jobs that follow, in batches of any size, hand out exactly
  those records in their order, each once, until the backlog of the source is empty.\<close>

theorem initial_poll_drains:
  assumes "backlog_persist duplicate c db = Inr db1" and "source_backlog db (pc_source_id c) = []"
    and "distinct (map fst (db_backlog db))"
    and "distinct (map (\<lambda>v. sr_id (po_record v)) (pc_records c @ pc_remainder c))"
    and "0 < limit" and "limit < i64_max" and "length (pc_remainder c) < fuel"
  shows "\<exists>db2. drain fuel duplicate limit (pc_source_id c) db1 = Some (Inr (pc_remainder c, db2))
    \<and> source_backlog db2 (pc_source_id c) = []"
proof -
  note init = persist_initial [OF assms(1-4)]
  then have "length (source_backlog db1 (pc_source_id c)) = length (pc_remainder c)"
    by (metis length_map)
  with init drain_all [of db1 "pc_source_id c" "commit_context c" limit fuel duplicate] assms(5-7) show ?thesis by auto
qed

section \<open>A concrete poll\<close>

definition demo_poll_env :: queue_env where
  "demo_poll_env = demo_queue_env\<lparr>job_hash := (\<lambda>s. if take 2 s = ''fa'' then 1 else if take 2 s = ''fu'' then 2 else 3)\<rparr>"

definition demo_hooks :: "unit ai_hooks" where
  "demo_hooks = \<lparr>ai_begin_poll = (\<lambda>_ db. Inr (ingest_db.more db)), ai_finish_poll = (\<lambda>_ _ db. Inr (ingest_db.more db))\<rparr>"

definition demo_polled :: "source_record_id \<Rightarrow> string \<Rightarrow> polled_record" where
  "demo_polled i upstream = \<lparr>po_record = example_record\<lparr>sr_id := i, sr_upstream_id := upstream\<rparr>, po_action = Deliver\<rparr>"

definition demo_commit_page :: poll_commit where
  "demo_commit_page = \<lparr>pc_source_id = 2, pc_source_revision = 0, pc_records = [demo_polled 21 ''a''],
     pc_remainder = [demo_polled 22 ''b'', demo_polled 23 ''c''], pc_fetched_at = 0, pc_final_url = example_url,
     pc_validators = \<lparr>etag = Some ''e'', last_modified = None\<rparr>, pc_incomplete = True, pc_duration_ms = 1\<rparr>"

definition demo_poll_lease :: leased_work where
  "demo_poll_lease = \<lparr>lw_job_id = 7, lw_item = PollSource 2, lw_token = 3, lw_deadline = 5000000000, lw_attempt = 0\<rparr>"

lemma demo_persist: "\<exists>db. backlog_persist ''dup'' demo_commit_page demo_ingest_db = Inr db"
  by (simp add: backlog_persist_def demo_commit_page_def demo_polled_def example_record_def Let_def
      backlog_insert_def backlog_acknowledge_def demo_ingest_db_def i64_max_def put_def commit_context_def)

theorem initial_poll_drains_witness:
  "\<exists>db1 db2. backlog_persist ''dup'' demo_commit_page demo_ingest_db = Inr db1
    \<and> drain 4 ''dup'' 1 2 db1 = Some (Inr ([demo_polled 22 ''b'', demo_polled 23 ''c''], db2))"
proof -
  obtain db1 where run: "backlog_persist ''dup'' demo_commit_page demo_ingest_db = Inr db1" using demo_persist by blast
  have "source_backlog demo_ingest_db (pc_source_id demo_commit_page) = []" "distinct (map fst (db_backlog demo_ingest_db))"
    by (simp_all add: source_backlog_def demo_ingest_db_def)
  moreover have "distinct (map (\<lambda>v. sr_id (po_record v)) (pc_records demo_commit_page @ pc_remainder demo_commit_page))"
    by (simp add: demo_commit_page_def demo_polled_def)
  moreover have "length (pc_remainder demo_commit_page) < 4" by (simp add: demo_commit_page_def)
  ultimately obtain db2 where "drain 4 ''dup'' 1 (pc_source_id demo_commit_page) db1 = Some (Inr (pc_remainder demo_commit_page, db2))"
    using initial_poll_drains [OF run, of 1 4] by (auto simp: i64_max_def)
  with run show ?thesis by (auto simp: demo_commit_page_def)
qed

lemma demo_persisted:
  "backlog_persist ''dup'' demo_commit_page demo_ingest_db = Inr (demo_ingest_db\<lparr>db_backlog :=
     [((2, 22), remainder_row demo_commit_page 0 (demo_polled 22 ''b'')),
      ((2, 23), remainder_row demo_commit_page (Suc 0) (demo_polled 23 ''c''))]\<rparr>)"
  by (simp add: backlog_persist_def demo_commit_page_def demo_polled_def example_record_def Let_def
      backlog_insert_def backlog_acknowledge_def demo_ingest_db_def i64_max_def put_def commit_context_def)

lemma demo_job [simp]:
  "record_job demo_poll_env ''fanout'' r n = 1" "record_job demo_poll_env ''fulltext'' r n = 2"
  "record_job demo_poll_env ''backfill'' r n = 3"
  by (simp_all add: record_job_def demo_poll_env_def)

lemma demo_origin [simp]: "http_origin env example_url = Inr (origin_of env example_url)"
  by (simp add: http_origin_def is_http_def example_url_def)

lemma demo_commit_record:
  "\<exists>db. commit_record demo_poll_env 0 0 (demo_ingest_db\<lparr>db_backlog := b\<rparr>) (demo_polled 21 ''a'') = Inr db
    \<and> db_subscription_sources db = [] \<and> map_of (db_jobs db) 3 = None \<and> db_sources db = db_sources demo_ingest_db"
  by (simp add: commit_record_def demo_polled_def example_record_def demo_ingest_db_def fits_i64_def
      enqueue_work_def source_origin_def store_doc_def extract_job_def put_job_def Let_def location_url_def put_def
      i64_max_def)

lemma activity_without_subscriptions:
  assumes "db_subscription_sources db = []"
  shows "record_subscription_activity fresh db s ok d n e at = Inr (db\<lparr>db_activity :=
    filter (\<lambda>a. \<not> millis (sa_occurred_at a) < millis (at - days_30)) (db_activity db)\<rparr>)"
  unfolding record_subscription_activity_def Let_def assms by simp

lemma demo_backfill:
  assumes "map_of (db_jobs db) 3 = None" and "db_sources db = db_sources demo_ingest_db"
  shows "\<exists>db'. queue_backfill demo_poll_env 0 demo_commit_page db = Inr db'"
  using assms by (simp add: queue_backfill_def demo_commit_page_def enqueue_work_def source_origin_def store_doc_def
      demo_ingest_db_def)

lemma demo_commit_poll:
  "\<exists>db. commit_poll demo_poll_env demo_hooks ''dup'' (\<lambda>_. 0) demo_ingest_db 0 demo_poll_lease demo_commit_page = Inr db"
proof -
  have lease: "assert_lease demo_ingest_db 0 demo_poll_lease = Inr ()"
    by (simp add: assert_lease_def live_lease_def demo_ingest_db_def lease_job_def new_job_def millis_def demo_poll_lease_def)
  have ai: "with_ai (ai_begin_poll demo_hooks c) db = Inr db" "with_ai (ai_finish_poll demo_hooks s b) db = Inr db"
    for c s b and db :: ingest_db
    by (simp_all add: with_ai_def demo_hooks_def)
  obtain db3 where recorded: "try_fold (commit_record demo_poll_env 0 0) (demo_ingest_db\<lparr>db_backlog :=
      [((2, 22), remainder_row demo_commit_page 0 (demo_polled 22 ''b'')),
       ((2, 23), remainder_row demo_commit_page (Suc 0) (demo_polled 23 ''c''))]\<rparr>) (pc_records demo_commit_page) = Inr db3"
    and db3: "db_subscription_sources db3 = []" "map_of (db_jobs db3) 3 = None" "db_sources db3 = db_sources demo_ingest_db"
    using demo_commit_record by (auto simp: demo_commit_page_def)
  have fetched: "pc_fetched_at demo_commit_page = 0" by (simp add: demo_commit_page_def)
  define db5 where "db5 = record_source_success_state
    (db3\<lparr>db_poll_state := put (pc_source_id demo_commit_page)
      (PollState \<lparr>ps_validators = pc_validators demo_commit_page, ps_incomplete = pc_incomplete demo_commit_page,
         ps_last_success_ms = Some (millis 0)\<rparr>) (db_poll_state db3)\<rparr>)
    (pc_source_id demo_commit_page) 0 (pc_incomplete demo_commit_page)"
  have "db_subscription_sources db5 = []" "map_of (db_jobs db5) 3 = None" "db_sources db5 = db_sources demo_ingest_db"
    using db3 by (simp_all add: db5_def record_source_success_state_def)
  note db5 = this
  define db6 where "db6 = db5\<lparr>db_activity := filter (\<lambda>a. \<not> millis (sa_occurred_at a) < millis (0 - days_30)) (db_activity db5)\<rparr>"
  have "record_subscription_activity (\<lambda>_. 0) db5 (pc_source_id demo_commit_page) True
      (Some (pc_duration_ms demo_commit_page)) (Some (length (pc_records demo_commit_page))) None 0 = Inr db6"
    unfolding db6_def by (rule activity_without_subscriptions [OF db5(1)])
  moreover obtain db7 where "queue_backfill demo_poll_env 0 demo_commit_page db6 = Inr db7"
    using demo_backfill [of db6] db5(2,3) by (auto simp: db6_def)
  ultimately show ?thesis
    unfolding commit_poll_def lease ai demo_persisted fetched by (simp add: demo_persisted recorded ai Let_def flip: db5_def)
qed

theorem commit_poll_outbox_witness:
  "\<exists>db. commit_poll demo_poll_env demo_hooks ''dup'' (\<lambda>_. 0) demo_ingest_db 0 demo_poll_lease demo_commit_page = Inr db
    \<and> committed demo_poll_env db (demo_polled 21 ''a'')"
proof -
  obtain db where run: "commit_poll demo_poll_env demo_hooks ''dup'' (\<lambda>_. 0) demo_ingest_db 0 demo_poll_lease demo_commit_page = Inr db"
    using demo_commit_poll by blast
  have "distinct (map (\<lambda>v. sr_id (po_record v)) (pc_records demo_commit_page))" by (simp add: demo_commit_page_def)
  moreover have "demo_polled 21 ''a'' \<in> set (pc_records demo_commit_page)" by (simp add: demo_commit_page_def)
  ultimately show ?thesis using commit_poll_outbox [OF run] run by blast
qed

end
