(* ===== verification/Library.thy ===== *)
theory Library
  imports Work_Queue
begin

text \<open>
  \<open>ingest_store/delivery.rs\<close> and the rule queueing of \<open>ingest_store/rules.rs\<close>: delivering a source
  record into the library of a workspace. The library has three linked tables: the articles, the
  index from the fingerprint of a deduplication key to the article, and the origins that link an
  article to the subscriptions and records it came from.

  A record whose key changed is moved: it leaves the articles it was part of, and its readers' state
  goes with it. The transaction starts with the check of the lease. Rows that a query returns without
  an order are taken in table order.
\<close>

definition insert_row :: "'a \<Rightarrow> 'a list \<Rightarrow> 'a list" where
  "insert_row x t = (if x \<in> set t then t else t @ [x])"

definition active_subscription :: "subscription \<Rightarrow> bool" where
  "active_subscription s \<longleftrightarrow> sub_status s = SubscriptionActive"

definition delivery_targets ::
  "'a db \<Rightarrow> source_id \<Rightarrow> subscription_id option \<Rightarrow> nat \<Rightarrow> store_error + delivery_target list" where
  "delivery_targets db source after limit =
    (if limit > i64_max then Inl (Unavailable ''out of range integral type conversion attempted'')
     else
       let links = sort (map fst (filter (\<lambda>(s, src). src = source
             \<and> (case after of None \<Rightarrow> True | Some a \<Rightarrow> a < s) \<and> map_of (db_subscriptions db) s \<noteq> None)
             (db_subscription_sources db)))
       in try_fold (\<lambda>targets s.
            and_then (store_doc (db_subscriptions db) s) (\<lambda>sub.
            if \<not> active_subscription sub then Inr targets
            else
              and_then (store_doc (db_workspaces db) (sub_workspace sub)) (\<lambda>w.
              Inr (if accepts_delivery w
                   then targets @ [\<lparr>dt_workspace_id = sub_workspace sub, dt_subscription_id = sub_id sub\<rparr>]
                   else targets)))) [] (take limit links))"

definition collision_error :: "queue_env \<Rightarrow> workspace_id \<Rightarrow> store_error" where
  "collision_error env w = Unavailable (''dedup fingerprint collision in workspace '' @ uuid_text env w)"

definition upsert_article ::
  "queue_env \<Rightarrow> 'a db \<Rightarrow> workspace_id \<Rightarrow> article \<Rightarrow> dedup_key \<Rightarrow> store_error + 'a db" where
  "upsert_article env db w a key =
    and_then (store_i64 (art_revision a) ''article revision'') (\<lambda>revision.
    let slot = (w, dedup_fingerprint env key);
        db' = db\<lparr>db_articles := put (w, art_id a) (revision, a) (db_articles db),
          db_dedup := put slot (key, art_id a) (db_dedup db)\<rparr>
    in case map_of (db_dedup db) slot of
         Some (stored, _) \<Rightarrow> if stored = key then Inr db' else Inl (collision_error env w)
       | None \<Rightarrow> Inr db')"

text \<open>The articles of the workspace that hold the record, in the order of their ids, with the linked
  subscriptions (\<open>prior_by_article\<close>, a \<open>BTreeMap\<close>).\<close>

definition prior_by_article ::
  "'a db \<Rightarrow> workspace_id \<Rightarrow> source_record_id \<Rightarrow> (article_id \<times> subscription_id list) list" where
  "prior_by_article db w rec =
    (let rows = filter (\<lambda>(w', _, _, r). w' = w \<and> r = rec) (db_origins db)
     in map (\<lambda>a. (a, map (\<lambda>(_, _, s, _). s) (filter (\<lambda>(_, a', _, _). a' = a) rows)))
       (sort (remdups (map (\<lambda>(_, a, _, _). a) rows))))"

record regroup =
  rg_inherited :: "(article_state \<times> instant) list"
  rg_moved_articles :: "article_id list"
  rg_moved_subscriptions :: "subscription_id list"
  rg_retained :: "article option"

definition delete_dedup :: "queue_env \<Rightarrow> workspace_id \<Rightarrow> dedup_key \<Rightarrow> 'a db \<Rightarrow> 'a db" where
  "delete_dedup env w key db =
    (let slot = (w, dedup_fingerprint env key)
     in case map_of (db_dedup db) slot of
          Some (stored, _) \<Rightarrow> if stored = key then db\<lparr>db_dedup := del slot (db_dedup db)\<rparr> else db
        | None \<Rightarrow> db)"

definition delete_origins :: "workspace_id \<Rightarrow> article_id \<Rightarrow> source_record_id \<Rightarrow> 'a db \<Rightarrow> 'a db" where
  "delete_origins w a rec db =
    db\<lparr>db_origins := filter (\<lambda>(w', a', _, r). \<not> (w' = w \<and> a' = a \<and> r = rec)) (db_origins db)\<rparr>"

text \<open>One turn of the loop over \<open>prior_by_article\<close>.\<close>

definition leave_article ::
  "queue_env \<Rightarrow> workspace_id \<Rightarrow> source_record \<Rightarrow> 'a db \<times> regroup \<Rightarrow> article_id \<times> subscription_id list
    \<Rightarrow> store_error + 'a db \<times> regroup" where
  "leave_article env w rec st prior =
    (let (db, g) = st; (old_id, subscriptions) = prior
     in case map_of (db_articles db) (w, old_id) of
       None \<Rightarrow> Inl (Unavailable ''library origin references a missing article'')
     | Some (_, old) \<Rightarrow>
         if art_key old = sr_key rec then Inr (db, g)
         else
           let old' = snd (detach_origin (sr_id rec) old);
               g' = \<lparr>rg_inherited = rg_inherited g @ [(art_state old, art_first_arrived_at old)],
                 rg_moved_articles = rg_moved_articles g @ [art_id old],
                 rg_moved_subscriptions = push_new (rg_moved_subscriptions g) subscriptions,
                 rg_retained = (if art_origins old' = [] \<and> rg_retained g = None
                   then Some (old'\<lparr>art_key := sr_key rec\<rparr>) else rg_retained g)\<rparr>;
               db1 = delete_origins w old_id (sr_id rec) db
           in if art_origins old' = []
              then Inr (delete_dedup env w (art_key old')
                (db1\<lparr>db_articles := del (w, old_id) (db_articles db1)\<rparr>), g')
              else and_then (upsert_article env db1 w old' (art_key old')) (\<lambda>db2. Inr (db2, g')))"

text \<open>The article the index names for the record's key.\<close>

definition indexed_article ::
  "queue_env \<Rightarrow> 'a db \<Rightarrow> workspace_id \<Rightarrow> source_record \<Rightarrow> store_error + article option" where
  "indexed_article env db w rec =
    (case map_of (db_dedup db) (w, dedup_fingerprint env (sr_key rec)) of
       None \<Rightarrow> Inr None
     | Some (stored, i) \<Rightarrow>
         if stored \<noteq> sr_key rec then Inl (collision_error env w)
         else case map_of (db_articles db) (w, i) of
           None \<Rightarrow> Inl (Unavailable ''dedup index references a missing article'')
         | Some (_, a) \<Rightarrow>
             if art_id a \<noteq> i \<or> art_key a \<noteq> sr_key rec
             then Inl (Unavailable ''dedup index disagrees with article identity'')
             else Inr (Some a))"

definition inherit_state :: "delivery_commit \<Rightarrow> regroup \<Rightarrow> article option \<Rightarrow> article option" where
  "inherit_state commit g found =
    (let time = min_opt (map snd (rg_inherited g));
         state = article_state_merge (map fst (rg_inherited g))
     in case (found, state) of
          (Some a, Some s) \<Rightarrow>
            Some (a\<lparr>art_state := the (article_state_merge [art_state a, s]),
              art_first_arrived_at := (case time of Some t \<Rightarrow> min (art_first_arrived_at a) t
                | None \<Rightarrow> art_first_arrived_at a)\<rparr>)
        | (Some a, None) \<Rightarrow> Some a
        | (None, Some s) \<Rightarrow>
            let a = (case rg_retained g of Some r \<Rightarrow> r
              | None \<Rightarrow> \<lparr>art_id = dc_proposed_article_id commit, art_key = sr_key (dc_record commit),
                  art_state = s,
                  art_first_arrived_at = (case time of Some t \<Rightarrow> t | None \<Rightarrow> dc_delivered_at commit),
                  art_origins = [], art_revision = 0\<rparr>)
            in Some (a\<lparr>art_state := s, art_first_arrived_at :=
              (case time of Some t \<Rightarrow> t | None \<Rightarrow> art_first_arrived_at a)\<rparr>)
        | (None, None) \<Rightarrow> None)"

definition default_state :: article_state where
  "default_state = \<lparr>as_read = False, as_later = False, as_protect_unread = False\<rparr>"

definition fresh_article :: "delivery_commit \<Rightarrow> article" where
  "fresh_article commit =
    \<lparr>art_id = dc_proposed_article_id commit, art_key = sr_key (dc_record commit),
     art_state = default_state, art_first_arrived_at = dc_delivered_at commit, art_origins = [],
     art_revision = 0\<rparr>"

text \<open>The automatic reading age, for first insertions only. Stored publication dates are validated, so
  \<open>publication_day\<close> is defined on them.\<close>

definition automatically_read ::
  "date_env \<Rightarrow> 'a db \<Rightarrow> delivery_commit \<Rightarrow> store_error + bool" where
  "automatically_read dates db commit =
    (case map_of (db_auto_read_days db) (dt_workspace_id (dc_target commit)) of
       Some (Some days) \<Rightarrow>
         if days \<le> 0 then Inl (Unavailable ''invalid automatic reading age'')
         else Inr (case sr_published_at (dc_record commit) of
           None \<Rightarrow> False
         | Some d \<Rightarrow>
             (case publication_day dates d of
                Some day \<Rightarrow> dc_delivered_at commit div nanos_per_day - day > days
              | None \<Rightarrow> False))
     | _ \<Rightarrow> Inr False)"

definition migrate_evaluations :: "workspace_id \<Rightarrow> article_id \<Rightarrow> article_id \<Rightarrow> 'a db \<Rightarrow> 'a db" where
  "migrate_evaluations w article old db =
    (let rows = filter (\<lambda>((w', a, _, _), _). w' = w \<and> a = old) (db_rule_evaluations db)
     in fold (\<lambda>((_, _, rule, version), document) db.
          let target = (w, article, rule, version);
              merged = (case map_of (db_rule_evaluations db) target of
                Some current \<Rightarrow> MergedProvenance current document | None \<Rightarrow> document)
          in db\<lparr>db_rule_evaluations := del (w, old, rule, version)
               (put target merged (db_rule_evaluations db))\<rparr>) rows db)"

definition migrate_rule_provenance ::
  "workspace_id \<Rightarrow> article_id \<Rightarrow> article_id list \<Rightarrow> 'a db \<Rightarrow> 'a db" where
  "migrate_rule_provenance w article moved db =
    fold (\<lambda>old db. if old = article then db else migrate_evaluations w article old db) moved db"

definition link_history :: "workspace_id \<Rightarrow> article_id \<Rightarrow> article_id list \<Rightarrow> 'a db \<Rightarrow> 'a db" where
  "link_history w article moved db =
    fold (\<lambda>old db. if old = article then db else
      let ancestors = old # map (\<lambda>(_, _, h). h)
            (filter (\<lambda>(w', a, _). w' = w \<and> a = old) (db_history_links db))
      in db\<lparr>db_history_links := fold (\<lambda>h. insert_row (w, article, h)) ancestors (db_history_links db)\<rparr>)
      moved db"

definition rule_error_text :: "rule_validation_error \<Rightarrow> string" where
  "rule_error_text e =
    (case e of InvalidPhrase \<Rightarrow> ''a v1 rule must contain exactly one non-blank literal phrase'')"

definition enabled_rules :: "'a db \<Rightarrow> workspace_id \<Rightarrow> store_error + rule list" where
  "enabled_rules db w =
    try_fold (\<lambda>rules r.
      and_then (map_err (\<lambda>e. Unavailable (rule_error_text e)) (rule_validate r)) (\<lambda>_.
        Inr (if rule_enabled r then rules @ [r] else rules)))
      [] (map (\<lambda>(_, _, r). r) (filter (\<lambda>((w', _), _). w' = w) (db_rules db)))"

definition enqueue_article_rule_jobs ::
  "queue_env \<Rightarrow> 'a db \<Rightarrow> instant \<Rightarrow> workspace_id \<Rightarrow> subscription \<Rightarrow> article \<Rightarrow> source_record
    \<Rightarrow> subscription_id list \<Rightarrow> store_error + 'a db" where
  "enqueue_article_rule_jobs env db wall w sub a rec subscriptions =
    and_then (enabled_rules db w) (\<lambda>rules.
    try_fold (\<lambda>db linked.
      let evaluations = map (\<lambda>r. \<lparr>pre_rule = rule_id r, pre_version = rule_version r,
            pre_subscription = rule_subscription r\<rparr>)
          (filter (\<lambda>r. rule_subscription r = linked) rules)
      in if evaluations = [] then Inr db
         else enqueue_work env db (article_rule_job env (art_id a) linked (sr_id rec) (sr_revision rec))
           (EvaluateArticleRules (sub_workspace sub) (art_id a) evaluations) (millis wall))
      db subscriptions)"

text \<open>The part of \<open>deliver\<close> after the target has been found active.\<close>

definition deliver_active ::
  "queue_env \<Rightarrow> date_env \<Rightarrow> 'a db \<Rightarrow> instant \<Rightarrow> delivery_commit \<Rightarrow> subscription
    \<Rightarrow> store_error + delivery_result \<times> 'a db" where
  "deliver_active env dates db wall commit sub =
    (let w = dt_workspace_id (dc_target commit); rec = dc_record commit;
         g0 = \<lparr>rg_inherited = [], rg_moved_articles = [], rg_moved_subscriptions = [], rg_retained = None\<rparr>
     in
     and_then (try_fold (leave_article env w rec) (db, g0) (prior_by_article db w (sr_id rec))) (\<lambda>(db1, g).
     and_then (indexed_article env db1 w rec) (\<lambda>indexed.
     let found = inherit_state commit g indexed in
     and_then (case found of Some _ \<Rightarrow> Inr False | None \<Rightarrow> automatically_read dates db1 commit) (\<lambda>auto.
     let base = (case found of Some a \<Rightarrow> a | None \<Rightarrow> fresh_article commit);
         result = (case found of Some a \<Rightarrow> AlreadyDelivered (art_id a)
           | None \<Rightarrow> Delivered (dc_proposed_article_id commit));
         marked = (if auto then base\<lparr>art_state := (art_state base)\<lparr>as_read := True\<rparr>\<rparr> else base);
         article = attach_origin (sr_id rec) marked in
     and_then (upsert_article env db1 w article (sr_key rec)) (\<lambda>db2.
     let db3 = (if auto then db2\<lparr>db_read_events :=
           db_read_events db2 @ [(w, art_id article, art_revision article, AutomaticAge)]\<rparr> else db2);
         subs = push_new (rg_moved_subscriptions g) [dt_subscription_id (dc_target commit)];
         db4 = db3\<lparr>db_origins := fold (\<lambda>s. insert_row (w, art_id article, s, sr_id rec)) subs (db_origins db3)\<rparr>;
         db5 = link_history w (art_id article) (rg_moved_articles g)
           (migrate_rule_provenance w (art_id article) (rg_moved_articles g) db4) in
     and_then (enqueue_article_rule_jobs env db5 wall w sub article rec subs) (\<lambda>db6.
       Inr (result, db6)))))))"

definition deliver ::
  "queue_env \<Rightarrow> date_env \<Rightarrow> 'a db \<Rightarrow> instant \<Rightarrow> leased_work \<Rightarrow> delivery_commit
    \<Rightarrow> store_error + delivery_result \<times> 'a db" where
  "deliver env dates db wall lease commit =
    and_then (assert_lease db wall lease) (\<lambda>_.
    let w = dt_workspace_id (dc_target commit); s = dt_subscription_id (dc_target commit) in
    case map_of (db_subscriptions db) s of
      None \<Rightarrow>
        and_then (store_doc (db_removed_subscriptions db) s) (\<lambda>removed.
          if sub_workspace removed \<noteq> w then Inl StoreNotFound else Inr (SkippedInactive, db))
    | Some (_, sub) \<Rightarrow>
        and_then (store_doc (db_workspaces db) w) (\<lambda>workspace.
        if sub_workspace sub \<noteq> w \<or> ws_id workspace \<noteq> w then Inl StoreNotFound
        else if \<not> active_subscription sub \<or> \<not> accepts_delivery workspace then Inr (SkippedInactive, db)
        else deliver_active env dates db wall commit sub))"

definition advance_fanout ::
  "queue_env \<Rightarrow> 'a db \<Rightarrow> instant \<Rightarrow> leased_work \<Rightarrow> subscription_id \<Rightarrow> store_error + 'a db" where
  "advance_fanout env db wall lease after =
    (case lw_item lease of
       FanOut source rec _ \<Rightarrow>
         and_then (assert_lease db wall lease) (\<lambda>_.
           enqueue_work env db
             (job_hash env (''fanout-continuation/'' @ uuid_text env (lw_job_id lease) @ ''/''
               @ uuid_text env after))
             (FanOut source rec (Some after)) (millis wall))
     | _ \<Rightarrow> Inr db)"

end
