(* ===== verification/Library_Inv.thy ===== *)
theory Library_Inv
  imports Library Queue_Runs
begin

text \<open>
  The invariant of a workspace library and what delivery guarantees. The invariant ties the three
  library tables together: the index has exactly one entry per article, under the fingerprint of its
  key; origin rows and the origins of the articles agree; a record belongs to one article of a
  workspace. It follows that no workspace holds two articles with the same key.
\<close>

section \<open>The invariant\<close>

type_synonym article_map = "workspace_id \<times> article_id \<Rightarrow> (u64 \<times> article) option"
type_synonym dedup_map = "workspace_id \<times> string \<Rightarrow> (dedup_key \<times> article_id) option"
type_synonym origin_set = "(workspace_id \<times> article_id \<times> subscription_id \<times> source_record_id) set"

definition articles_ok :: "(dedup_key \<Rightarrow> string) \<Rightarrow> article_map \<Rightarrow> dedup_map \<Rightarrow> bool" where
  "articles_ok h A D \<longleftrightarrow>
    (\<forall>w i r a. A (w, i) = Some (r, a) \<longrightarrow>
      art_id a = i \<and> art_revision a = r \<and> distinct (art_origins a)
      \<and> D (w, h (art_key a)) = Some (art_key a, i))"

definition dedup_ok :: "(dedup_key \<Rightarrow> string) \<Rightarrow> article_map \<Rightarrow> dedup_map \<Rightarrow> bool" where
  "dedup_ok h A D \<longleftrightarrow>
    (\<forall>w x k i. D (w, x) = Some (k, i) \<longrightarrow> x = h k \<and> (\<exists>r a. A (w, i) = Some (r, a) \<and> art_key a = k))"

definition origins_ok :: "article_map \<Rightarrow> origin_set \<Rightarrow> bool" where
  "origins_ok A R \<longleftrightarrow>
    (\<forall>w i s q. (w, i, s, q) \<in> R \<longrightarrow> (\<exists>r a. A (w, i) = Some (r, a) \<and> q \<in> set (art_origins a)))
    \<and> (\<forall>w i r a q. A (w, i) = Some (r, a) \<longrightarrow> q \<in> set (art_origins a) \<longrightarrow> (\<exists>s. (w, i, s, q) \<in> R))"

definition single_home :: "origin_set \<Rightarrow> bool" where
  "single_home R \<longleftrightarrow> (\<forall>w i s i' s' q. (w, i, s, q) \<in> R \<longrightarrow> (w, i', s', q) \<in> R \<longrightarrow> i = i')"

definition library_inv :: "queue_env \<Rightarrow> 'a db \<Rightarrow> bool" where
  "library_inv env db \<longleftrightarrow>
    articles_ok (dedup_fingerprint env) (map_of (db_articles db)) (map_of (db_dedup db))
    \<and> dedup_ok (dedup_fingerprint env) (map_of (db_articles db)) (map_of (db_dedup db))
    \<and> origins_ok (map_of (db_articles db)) (set (db_origins db))
    \<and> single_home (set (db_origins db))"

lemma articles_okD:
  assumes "articles_ok h A D" and "A (w, i) = Some (r, a)"
  shows "art_id a = i" "art_revision a = r" "distinct (art_origins a)"
    "D (w, h (art_key a)) = Some (art_key a, i)"
  using assms unfolding articles_ok_def by blast+

lemma dedup_okE:
  assumes "dedup_ok h A D" and "D (w, x) = Some (k, i)"
  obtains r a where "x = h k" "A (w, i) = Some (r, a)" "art_key a = k"
  using assms unfolding dedup_ok_def by blast

lemma origins_okE:
  assumes "origins_ok A R" and "(w, i, s, q) \<in> R"
  obtains r a where "A (w, i) = Some (r, a)" "q \<in> set (art_origins a)"
  using assms unfolding origins_ok_def by blast

lemma origins_okE':
  assumes "origins_ok A R" and "A (w, i) = Some (r, a)" and "q \<in> set (art_origins a)"
  obtains s where "(w, i, s, q) \<in> R"
  using assms unfolding origins_ok_def by blast

section \<open>Writing one article\<close>

lemma upsert_article_Inr:
  "upsert_article env db w a key = Inr db' \<longleftrightarrow>
    fits_i64 (art_revision a)
    \<and> (\<forall>k i. map_of (db_dedup db) (w, dedup_fingerprint env key) = Some (k, i) \<longrightarrow> k = key)
    \<and> db' = db\<lparr>db_articles := put (w, art_id a) (art_revision a, a) (db_articles db),
        db_dedup := put (w, dedup_fingerprint env key) (key, art_id a) (db_dedup db)\<rparr>"
  by (auto simp: upsert_article_def Let_def split: option.splits if_splits)

text \<open>Rewriting an article under its own key and id, or adding one under a free id and slot.\<close>

lemma articles_ok_put:
  assumes "articles_ok h A D" and "dedup_ok h A D"
    and "distinct (art_origins a)"
    and slot: "(\<exists>r b. A (w, art_id a) = Some (r, b) \<and> art_key b = art_key a)
      \<or> A (w, art_id a) = None \<and> D (w, h (art_key a)) = None"
  defines "A' \<equiv> A((w, art_id a) \<mapsto> (art_revision a, a))"
    and "D' \<equiv> D((w, h (art_key a)) \<mapsto> (art_key a, art_id a))"
  shows "articles_ok h A' D'" and "dedup_ok h A' D'"
proof -
  show "articles_ok h A' D'"
    unfolding articles_ok_def
  proof (intro allI impI)
    fix v i r b
    assume b: "A' (v, i) = Some (r, b)"
    show "art_id b = i \<and> art_revision b = r \<and> distinct (art_origins b)
        \<and> D' (v, h (art_key b)) = Some (art_key b, i)"
    proof (cases "(v, i) = (w, art_id a)")
      case True
      with b assms(3) show ?thesis by (auto simp: A'_def D'_def)
    next
      case False
      with b have old: "A (v, i) = Some (r, b)" by (auto simp: A'_def split: if_splits)
      note ok = articles_okD [OF assms(1) old]
      have "(v, h (art_key b)) \<noteq> (w, h (art_key a))"
      proof
        assume eq: "(v, h (art_key b)) = (w, h (art_key a))"
        with ok(4) have "D (w, h (art_key a)) = Some (art_key b, i)" by simp
        with slot articles_okD(4) [OF assms(1)] have "i = art_id a" by fastforce
        with False eq show False by simp
      qed
      with ok show ?thesis by (auto simp: D'_def)
    qed
  qed
  show "dedup_ok h A' D'"
    unfolding dedup_ok_def
  proof (intro allI impI)
    fix v x k i
    assume d: "D' (v, x) = Some (k, i)"
    show "x = h k \<and> (\<exists>r b. A' (v, i) = Some (r, b) \<and> art_key b = k)"
    proof (cases "(v, x) = (w, h (art_key a))")
      case True
      with d show ?thesis by (auto simp: A'_def D'_def)
    next
      case False
      with d have old: "D (v, x) = Some (k, i)" by (auto simp: D'_def split: if_splits)
      from assms(2) old obtain r b where b: "x = h k" "A (v, i) = Some (r, b)" "art_key b = k"
        by (rule dedup_okE)
      show ?thesis
      proof (cases "(v, i) = (w, art_id a)")
        case True
        with b slot have "art_key a = k" by auto
        with True b show ?thesis by (auto simp: A'_def)
      next
        case False
        with b show ?thesis by (auto simp: A'_def)
      qed
    qed
  qed
qed

text \<open>Deleting an article together with its index entry.\<close>

lemma articles_ok_drop:
  assumes "articles_ok h A D" and "dedup_ok h A D" and row: "A (w, i) = Some (r, old)"
  defines "A' \<equiv> A((w, i) := None)" and "D' \<equiv> D((w, h (art_key old)) := None)"
  shows "articles_ok h A' D'" and "dedup_ok h A' D'"
proof -
  note old = articles_okD [OF assms(1) row]
  show "articles_ok h A' D'"
    unfolding articles_ok_def
  proof (intro allI impI)
    fix v j r b
    assume "A' (v, j) = Some (r, b)"
    then have b: "A (v, j) = Some (r, b)" "(v, j) \<noteq> (w, i)" by (auto simp: A'_def split: if_splits)
    note okb = articles_okD [OF assms(1) b(1)]
    have "(v, h (art_key b)) \<noteq> (w, h (art_key old))" using okb(4) old(4) b(2) by auto
    with okb show "art_id b = j \<and> art_revision b = r \<and> distinct (art_origins b)
        \<and> D' (v, h (art_key b)) = Some (art_key b, j)" by (auto simp: D'_def)
  qed
  show "dedup_ok h A' D'"
    unfolding dedup_ok_def
  proof (intro allI impI)
    fix v x k j
    assume "D' (v, x) = Some (k, j)"
    then have d: "D (v, x) = Some (k, j)" "(v, x) \<noteq> (w, h (art_key old))"
      by (auto simp: D'_def split: if_splits)
    from assms(2) d(1) obtain r b where b: "x = h k" "A (v, j) = Some (r, b)" "art_key b = k"
      by (rule dedup_okE)
    have "(v, j) \<noteq> (w, i)" using b d(2) row by auto
    with b show "x = h k \<and> (\<exists>r b. A' (v, j) = Some (r, b) \<and> art_key b = k)" by (auto simp: A'_def)
  qed
qed

lemma origins_okI:
  assumes "\<And>w i s q. (w, i, s, q) \<in> R \<Longrightarrow> \<exists>r a. A (w, i) = Some (r, a) \<and> q \<in> set (art_origins a)"
    and "\<And>w i r a q. A (w, i) = Some (r, a) \<Longrightarrow> q \<in> set (art_origins a) \<Longrightarrow> \<exists>s. (w, i, s, q) \<in> R"
  shows "origins_ok A R"
  using assms unfolding origins_ok_def by blast

lemma origins_ok_drop_origin:
  assumes ok: "origins_ok A R" and row: "A (w, i) = Some (r, a)"
    and new: "\<forall>p. A' p = (if p = (w, i) then new else A p)"
    and old: "\<And>r' a'. new = Some (r', a') \<Longrightarrow> set (art_origins a') = set (art_origins a) - {q}"
    and none: "new = None \<Longrightarrow> set (art_origins a) = {q}"
  shows "origins_ok A' {x \<in> R. \<not> (\<exists>s. x = (w, i, s, q))}"
proof (rule origins_okI)
  fix v j s p
  assume "(v, j, s, p) \<in> {x \<in> R. \<not> (\<exists>s. x = (w, i, s, q))}"
  then have x: "(v, j, s, p) \<in> R" "\<not> (v = w \<and> j = i \<and> p = q)" by auto
  from ok x(1) obtain rb b where b: "A (v, j) = Some (rb, b)" "p \<in> set (art_origins b)"
    by (rule origins_okE)
  show "\<exists>r a. A' (v, j) = Some (r, a) \<and> p \<in> set (art_origins a)"
  proof (cases "(v, j) = (w, i)")
    case True
    with b row x(2) have p: "p \<in> set (art_origins a)" "p \<noteq> q" by auto
    have "new \<noteq> None" using none p by (cases new) auto
    then obtain r' a' where "new = Some (r', a')" by auto
    with old p True new show ?thesis by auto
  next
    case False
    with b new show ?thesis by auto
  qed
next
  fix v j r b p
  assume b: "A' (v, j) = Some (r, b)" "p \<in> set (art_origins b)"
  show "\<exists>s. (v, j, s, p) \<in> {x \<in> R. \<not> (\<exists>s. x = (w, i, s, q))}"
  proof (cases "(v, j) = (w, i)")
    case True
    with b new have "new = Some (r, b)" by auto
    with old b(2) have p: "p \<in> set (art_origins a)" "p \<noteq> q" by auto
    from ok row p(1) obtain s where "(w, i, s, p) \<in> R" by (rule origins_okE')
    with p(2) True show ?thesis by auto
  next
    case False
    with b(1) new have "A (v, j) = Some (r, b)" by auto
    from ok this b(2) obtain s where "(v, j, s, p) \<in> R" by (rule origins_okE')
    with False show ?thesis by auto
  qed
qed

lemma single_home_subset: "single_home R \<Longrightarrow> R' \<subseteq> R \<Longrightarrow> single_home R'"
  unfolding single_home_def by blast

lemma detach_origin_props:
  assumes "distinct (art_origins a)"
  shows "set (art_origins (snd (detach_origin q a))) = set (art_origins a) - {q}"
    and "distinct (art_origins (snd (detach_origin q a)))"
    and "art_id (snd (detach_origin q a)) = art_id a" and "art_key (snd (detach_origin q a)) = art_key a"
  using assms remove_at_distinct [OF assms] position_Some [of "\<lambda>v. v = q" "art_origins a"]
    position_None [of "\<lambda>v. v = q" "art_origins a"]
  by (auto simp: detach_origin_def split: option.splits)

lemma delete_origins_set:
  "set (db_origins (delete_origins w a q db)) = {x \<in> set (db_origins db). \<not> (\<exists>s. x = (w, a, s, q))}"
  by (auto simp: delete_origins_def)

text \<open>After the record has left its article, the invariant holds and no article of the workspace holds
  the record.\<close>

lemma leave_article_ok:
  assumes inv: "library_inv env db" and row: "map_of (db_articles db) (w, i) = Some (r, old)"
    and key: "art_key old \<noteq> sr_key rec" and mem: "(w, i, s, sr_id rec) \<in> set (db_origins db)"
    and step: "leave_article env w rec (db, g) (i, subs) = Inr (db1, g1)" and "rg_retained g = None"
  shows "library_inv env db1" and "\<forall>j s'. (w, j, s', sr_id rec) \<notin> set (db_origins db1)"
    and "\<forall>j. map_of (db_articles db) (w, j) = None \<longrightarrow> map_of (db_articles db1) (w, j) = None"
    and "\<forall>a. rg_retained g1 = Some a \<longrightarrow> map_of (db_articles db1) (w, art_id a) = None
      \<and> art_origins a = [] \<and> art_key a = sr_key rec"
    and "rg_inherited g1 = rg_inherited g @ [(art_state old, art_first_arrived_at old)]"
proof -
  let ?q = "sr_id rec" and ?h = "dedup_fingerprint env"
  let ?A = "map_of (db_articles db)" and ?D = "map_of (db_dedup db)" and ?R = "set (db_origins db)"
  let ?R' = "{x \<in> ?R. \<not> (\<exists>s. x = (w, i, s, ?q))}"
  have ok: "articles_ok ?h ?A ?D" "dedup_ok ?h ?A ?D" "origins_ok ?A ?R" "single_home ?R"
    using inv by (simp_all add: library_inv_def)
  note old = articles_okD [OF ok(1) row]
  define old' where "old' = snd (detach_origin ?q old)"
  have det: "set (art_origins old') = set (art_origins old) - {?q}" "distinct (art_origins old')"
    "art_id old' = i" "art_key old' = art_key old"
    using detach_origin_props [OF old(3), of ?q] old(1) by (simp_all add: old'_def)
  have home: "single_home ?R'" using ok(4) by (rule single_home_subset) blast
  have gone: "(w, j, s', ?q) \<notin> ?R'" for j s'
    using ok(4) mem unfolding single_home_def by blast
  have qin: "?q \<in> set (art_origins old)"
    using origins_okE [OF ok(3) mem] row by auto
  have "library_inv env db1 \<and> set (db_origins db1) = ?R'
    \<and> (\<forall>j. ?A (w, j) = None \<longrightarrow> map_of (db_articles db1) (w, j) = None)
    \<and> (\<forall>a. rg_retained g1 = Some a \<longrightarrow> map_of (db_articles db1) (w, art_id a) = None
      \<and> art_origins a = [] \<and> art_key a = sr_key rec)
    \<and> rg_inherited g1 = rg_inherited g @ [(art_state old, art_first_arrived_at old)]"
  proof (cases "art_origins old' = []")
    case True
    then have only: "set (art_origins old) = {?q}" using det(1) qin by auto
    have db1: "db1 = delete_dedup env w (art_key old')
        ((delete_origins w i ?q db)\<lparr>db_articles := del (w, i) (db_articles (delete_origins w i ?q db))\<rparr>)"
      and g1: "rg_retained g1 = Some (old'\<lparr>art_key := sr_key rec\<rparr>)"
      "rg_inherited g1 = rg_inherited g @ [(art_state old, art_first_arrived_at old)]"
      using step row key True assms(6) by (auto simp: leave_article_def Let_def old'_def)
    have D1: "map_of (db_dedup db1) = ?D((w, ?h (art_key old)) := None)"
      using old(4) by (simp add: db1 delete_dedup_def delete_origins_def det(4) Let_def)
    have A1: "map_of (db_articles db1) = ?A((w, i) := None)"
      by (simp add: db1 delete_dedup_def delete_origins_def Let_def split: option.split)
    have R1: "set (db_origins db1) = ?R'"
      using delete_origins_set [of w i ?q db]
      by (simp add: db1 delete_dedup_def Let_def split: option.split)
    note drop = articles_ok_drop [OF ok(1,2) row]
    have "origins_ok (?A((w, i) := None)) ?R'"
      by (rule origins_ok_drop_origin [OF ok(3) row, of _ None]) (use only in auto)
    with drop home det(3) True show ?thesis by (simp add: library_inv_def A1 D1 R1 g1)
  next
    case False
    let ?db = "delete_origins w i ?q db"
    from step row key False have up: "upsert_article env ?db w old' (art_key old') = Inr db1"
      and g1: "rg_retained g1 = None" "rg_inherited g1 = rg_inherited g @ [(art_state old, art_first_arrived_at old)]"
      using assms(6) by (auto simp: leave_article_def Let_def old'_def)
    have tabs: "db_articles ?db = db_articles db" "db_dedup ?db = db_dedup db"
      by (simp_all add: delete_origins_def)
    from up have db1: "map_of (db_articles db1) = ?A((w, art_id old') \<mapsto> (art_revision old', old'))"
      "map_of (db_dedup db1) = ?D((w, ?h (art_key old')) \<mapsto> (art_key old', art_id old'))"
      "set (db_origins db1) = ?R'"
      using delete_origins_set [of w i ?q db] by (auto simp: upsert_article_Inr tabs)
    have slot: "(\<exists>r b. ?A (w, art_id old') = Some (r, b) \<and> art_key b = art_key old')
      \<or> ?A (w, art_id old') = None \<and> ?D (w, ?h (art_key old')) = None"
      using row det(3,4) by simp
    note put = articles_ok_put [OF ok(1,2) det(2) slot]
    have "origins_ok (?A((w, i) \<mapsto> (art_revision old', old'))) ?R'"
      by (rule origins_ok_drop_origin [OF ok(3) row, of _ "Some (art_revision old', old')"]) (use det(1) in auto)
    with put home det(3) row show ?thesis by (auto simp: library_inv_def db1 g1)
  qed
  with gone show "library_inv env db1" and "\<forall>j s'. (w, j, s', ?q) \<notin> set (db_origins db1)"
    and "\<forall>j. ?A (w, j) = None \<longrightarrow> map_of (db_articles db1) (w, j) = None"
    and "\<forall>a. rg_retained g1 = Some a \<longrightarrow> map_of (db_articles db1) (w, art_id a) = None
      \<and> art_origins a = [] \<and> art_key a = sr_key rec"
    and "rg_inherited g1 = rg_inherited g @ [(art_state old, art_first_arrived_at old)]"
    by auto
qed

section \<open>Regrouping\<close>

lemma prior_by_article_cases:
  assumes "single_home (set (db_origins db))"
  obtains (none) "prior_by_article db w q = []" and "\<forall>j s. (w, j, s, q) \<notin> set (db_origins db)"
  | (one) i s subs where "prior_by_article db w q = [(i, subs)]" and "(w, i, s, q) \<in> set (db_origins db)"
proof -
  let ?rows = "filter (\<lambda>(w', _, _, r). w' = w \<and> r = q) (db_origins db)"
  define ids where "ids = remdups (map (\<lambda>(_, a, _, _). a) ?rows)"
  have ids: "i \<in> set ids \<longleftrightarrow> (\<exists>s. (w, i, s, q) \<in> set (db_origins db))" for i
    unfolding ids_def by force
  have prior: "prior_by_article db w q =
      map (\<lambda>a. (a, map (\<lambda>(_, _, s, _). s) (filter (\<lambda>(_, a', _, _). a' = a) ?rows))) (sort ids)"
    by (simp add: prior_by_article_def ids_def Let_def)
  show thesis
  proof (cases ids)
    case Nil
    with prior ids show thesis by (intro none) auto
  next
    case (Cons i rest)
    have "j = i" if "j \<in> set ids" for j
    proof -
      have "i \<in> set ids" using Cons by simp
      with that ids obtain s s' where "(w, j, s, q) \<in> set (db_origins db)"
        "(w, i, s', q) \<in> set (db_origins db)" by blast
      with assms show ?thesis unfolding single_home_def by blast
    qed
    moreover have "distinct ids" by (simp add: ids_def)
    ultimately have "rest = []" using Cons by (cases rest) auto
    with Cons prior have "prior_by_article db w q =
      [(i, map (\<lambda>(_, _, s, _). s) (filter (\<lambda>(_, a', _, _). a' = i) ?rows))]" by simp
    moreover obtain s where "(w, i, s, q) \<in> set (db_origins db)" using ids [of i] Cons by auto
    ultimately show thesis by (rule one)
  qed
qed

definition no_regroup :: regroup where
  "no_regroup = \<lparr>rg_inherited = [], rg_moved_articles = [], rg_moved_subscriptions = [], rg_retained = None\<rparr>"

text \<open>What holds when the record has left every article of another key.\<close>

definition regrouped :: "queue_env \<Rightarrow> workspace_id \<Rightarrow> source_record \<Rightarrow> 'a db \<Rightarrow> regroup \<Rightarrow> bool" where
  "regrouped env w rec db g \<longleftrightarrow>
    library_inv env db
    \<and> (\<forall>j s. (w, j, s, sr_id rec) \<in> set (db_origins db) \<longrightarrow>
        (\<exists>r a. map_of (db_articles db) (w, j) = Some (r, a) \<and> art_key a = sr_key rec))
    \<and> (\<forall>a. rg_retained g = Some a \<longrightarrow> map_of (db_articles db) (w, art_id a) = None
        \<and> art_origins a = [] \<and> art_key a = sr_key rec)"

lemma leave_articles_ok:
  assumes inv: "library_inv env db"
    and run: "try_fold (leave_article env w rec) (db, no_regroup) (prior_by_article db w (sr_id rec)) = Inr (db1, g)"
  shows "regrouped env w rec db1 g"
    and "\<forall>j. map_of (db_articles db) (w, j) = None \<longrightarrow> map_of (db_articles db1) (w, j) = None"
proof -
  have ok: "origins_ok (map_of (db_articles db)) (set (db_origins db))" "single_home (set (db_origins db))"
    using inv by (simp_all add: library_inv_def)
  have "regrouped env w rec db1 g
    \<and> (\<forall>j. map_of (db_articles db) (w, j) = None \<longrightarrow> map_of (db_articles db1) (w, j) = None)"
    using ok(2)
  proof (cases rule: prior_by_article_cases [where w = w and q = "sr_id rec"])
    case none
    with run inv show ?thesis by (auto simp: regrouped_def no_regroup_def)
  next
    case (one i s subs)
    from ok(1) one(2) obtain r old where row: "map_of (db_articles db) (w, i) = Some (r, old)"
      by (rule origins_okE)
    from run one(1) have step: "leave_article env w rec (db, no_regroup) (i, subs) = Inr (db1, g)" by simp
    show ?thesis
    proof (cases "art_key old = sr_key rec")
      case True
      then have "db1 = db" "g = no_regroup" using step row by (auto simp: leave_article_def)
      moreover have "j = i" if "(w, j, s', sr_id rec) \<in> set (db_origins db)" for j s'
        using ok(2) one(2) that unfolding single_home_def by blast
      ultimately show ?thesis using inv row True by (auto simp: regrouped_def no_regroup_def)
    next
      case False
      have "rg_retained no_regroup = None" by (simp add: no_regroup_def)
      from leave_article_ok [OF inv row False one(2) step this] show ?thesis by (auto simp: regrouped_def)
    qed
  qed
  then show "regrouped env w rec db1 g"
    and "\<forall>j. map_of (db_articles db) (w, j) = None \<longrightarrow> map_of (db_articles db1) (w, j) = None" by blast+
qed

section \<open>Attaching the record\<close>

text \<open>An article that can take the record: stored under the record's key, or new under a free id and a
  free index slot.\<close>

definition attachable :: "queue_env \<Rightarrow> workspace_id \<Rightarrow> source_record \<Rightarrow> 'a db \<Rightarrow> article \<Rightarrow> bool" where
  "attachable env w rec db a \<longleftrightarrow>
    art_key a = sr_key rec
    \<and> ((\<exists>r b. map_of (db_articles db) (w, art_id a) = Some (r, b) \<and> art_key b = sr_key rec
          \<and> art_origins b = art_origins a)
      \<or> map_of (db_articles db) (w, art_id a) = None
        \<and> map_of (db_dedup db) (w, dedup_fingerprint env (sr_key rec)) = None \<and> art_origins a = [])"

lemma indexed_article_Some:
  "indexed_article env db w rec = Inr (Some a) \<Longrightarrow>
    \<exists>r. map_of (db_articles db) (w, art_id a) = Some (r, a) \<and> art_key a = sr_key rec"
  by (auto simp: indexed_article_def split: option.splits if_splits)

lemma indexed_article_None:
  "indexed_article env db w rec = Inr None \<longleftrightarrow>
    map_of (db_dedup db) (w, dedup_fingerprint env (sr_key rec)) = None"
  by (auto simp: indexed_article_def split: option.splits if_splits)

definition deliver_base :: "delivery_commit \<Rightarrow> regroup \<Rightarrow> article option \<Rightarrow> article" where
  "deliver_base commit g ix = (case inherit_state commit g ix of Some a \<Rightarrow> a | None \<Rightarrow> fresh_article commit)"

lemma deliver_base_attachable:
  assumes "regrouped env w rec db g" and "indexed_article env db w rec = Inr ix"
    and "dc_record commit = rec" and "map_of (db_articles db) (w, dc_proposed_article_id commit) = None"
  shows "attachable env w rec db (deliver_base commit g ix)"
proof (cases ix)
  case None
  with assms show ?thesis
    by (auto simp: attachable_def deliver_base_def inherit_state_def fresh_article_def regrouped_def
        indexed_article_None Let_def split: option.splits)
next
  case (Some a)
  with assms indexed_article_Some [of env db w rec a] show ?thesis
    by (auto simp: attachable_def deliver_base_def inherit_state_def Let_def split: option.splits)
qed

lemma attach_origin_simps [simp]:
  "art_id (attach_origin q a) = art_id a" "art_key (attach_origin q a) = art_key a"
  "art_state (attach_origin q a) = art_state a"
  "art_first_arrived_at (attach_origin q a) = art_first_arrived_at a"
  "set (art_origins (attach_origin q a)) = insert q (set (art_origins a))"
  "distinct (art_origins (attach_origin q a)) = distinct (art_origins a)"
  by (auto simp: attach_origin_def)

lemma origins_ok_add_origin:
  assumes ok: "origins_ok A R" and S: "S \<noteq> {}"
    and base: "(\<exists>r b. A (w, i) = Some (r, b) \<and> set (art_origins b) = Q) \<or> A (w, i) = None \<and> Q = {}"
    and new: "set (art_origins a) = insert q Q"
  shows "origins_ok (A((w, i) \<mapsto> (r', a))) (R \<union> {(w, i, s, q) |s. s \<in> S})"
proof (rule origins_okI)
  fix v j s p
  assume "(v, j, s, p) \<in> R \<union> {(w, i, s, q) |s. s \<in> S}"
  then show "\<exists>r b. (A((w, i) \<mapsto> (r', a))) (v, j) = Some (r, b) \<and> p \<in> set (art_origins b)"
  proof
    assume "(v, j, s, p) \<in> R"
    with ok obtain r b where b: "A (v, j) = Some (r, b)" "p \<in> set (art_origins b)" by (rule origins_okE)
    with base new show ?thesis by (cases "(v, j) = (w, i)") auto
  qed (use new in auto)
next
  fix v j r b p
  assume b: "(A((w, i) \<mapsto> (r', a))) (v, j) = Some (r, b)" "p \<in> set (art_origins b)"
  show "\<exists>s. (v, j, s, p) \<in> R \<union> {(w, i, s, q) |s. s \<in> S}"
  proof (cases "(v, j) = (w, i)")
    case True
    with b new have "p = q \<or> p \<in> Q" by auto
    then show ?thesis
    proof
      assume "p \<in> Q"
      with base obtain r b where "A (w, i) = Some (r, b)" "p \<in> set (art_origins b)" by auto
      with ok obtain s where "(w, i, s, p) \<in> R" by (rule origins_okE')
      with True show ?thesis by auto
    qed (use S True in auto)
  next
    case False
    with b(1) have "A (v, j) = Some (r, b)" by (auto split: if_splits)
    from ok this b(2) obtain s where "(v, j, s, p) \<in> R" by (rule origins_okE')
    then show ?thesis by blast
  qed
qed

text \<open>Two articles of a workspace never share a key.\<close>

lemma library_key_unique:
  assumes "library_inv env db"
    and "map_of (db_articles db) (w, i) = Some (r, a)" and "map_of (db_articles db) (w, j) = Some (r', b)"
    and "art_key a = art_key b"
  shows "i = j"
proof -
  have ok: "articles_ok (dedup_fingerprint env) (map_of (db_articles db)) (map_of (db_dedup db))"
    using assms(1) by (simp add: library_inv_def)
  from articles_okD(4) [OF ok assms(2)] articles_okD(4) [OF ok assms(3)] assms(4) show ?thesis by simp
qed

lemma attach_record_ok:
  assumes reg: "regrouped env w rec db g" and base: "attachable env w rec db b" and S: "S \<noteq> {}"
    and up: "upsert_article env db w (attach_origin (sr_id rec) b) (sr_key rec) = Inr db2"
    and tabs: "db_articles db' = db_articles db2" "db_dedup db' = db_dedup db2"
      "set (db_origins db') = set (db_origins db2) \<union> {(w, art_id b, s, sr_id rec) |s. s \<in> S}"
  shows "library_inv env db'"
    and "map_of (db_articles db') (w, art_id b)
      = Some (art_revision (attach_origin (sr_id rec) b), attach_origin (sr_id rec) b)"
proof -
  let ?q = "sr_id rec" and ?h = "dedup_fingerprint env" and ?a = "attach_origin (sr_id rec) b"
  let ?A = "map_of (db_articles db)" and ?D = "map_of (db_dedup db)" and ?R = "set (db_origins db)"
  let ?S = "{(w, art_id b, s, ?q) |s. s \<in> S}"
  have inv: "library_inv env db" using reg by (simp add: regrouped_def)
  then have ok: "articles_ok ?h ?A ?D" "dedup_ok ?h ?A ?D" "origins_ok ?A ?R" "single_home ?R"
    by (simp_all add: library_inv_def)
  have key: "art_key b = sr_key rec" using base by (simp add: attachable_def)
  have A: "map_of (db_articles db') = ?A((w, art_id ?a) \<mapsto> (art_revision ?a, ?a))"
    and D: "map_of (db_dedup db') = ?D((w, ?h (art_key ?a)) \<mapsto> (art_key ?a, art_id ?a))"
    and R: "set (db_origins db') = ?R \<union> ?S"
    using up tabs key by (auto simp: upsert_article_Inr)
  have "distinct (art_origins ?a)"
    using base articles_okD(3) [OF ok(1)] by (fastforce simp: attachable_def)
  moreover have "(\<exists>r c. ?A (w, art_id ?a) = Some (r, c) \<and> art_key c = art_key ?a)
    \<or> ?A (w, art_id ?a) = None \<and> ?D (w, ?h (art_key ?a)) = None"
    using base by (auto simp: attachable_def)
  ultimately have put: "articles_ok ?h (map_of (db_articles db')) (map_of (db_dedup db'))"
    "dedup_ok ?h (map_of (db_articles db')) (map_of (db_dedup db'))"
    unfolding A D by (rule articles_ok_put [OF ok(1,2)])+
  have org: "origins_ok (map_of (db_articles db')) (?R \<union> ?S)"
    unfolding A
    by (simp, rule origins_ok_add_origin [OF ok(3) S, where Q = "set (art_origins b)"])
      (use base in \<open>auto simp: attachable_def\<close>)
  have at: "j = art_id b" if "(w, j, s, ?q) \<in> ?R" for j s
  proof -
    from reg that obtain r a where a: "?A (w, j) = Some (r, a)" "art_key a = sr_key rec"
      by (auto simp: regrouped_def)
    from articles_okD(4) [OF ok(1) a(1)] a(2) base obtain r' c
      where "?A (w, art_id b) = Some (r', c)" "art_key c = sr_key rec" by (auto simp: attachable_def)
    with library_key_unique [OF inv a(1)] a(2) show ?thesis by simp
  qed
  have home: "single_home (?R \<union> ?S)"
    using ok(4) at unfolding single_home_def by blast
  show "library_inv env db'" using put org home by (simp add: library_inv_def R)
  show "map_of (db_articles db') (w, art_id b) = Some (art_revision ?a, ?a)" by (simp add: A)
qed

end
