(* ===== verification/Delivery.thy ===== *)
theory Delivery
  imports Library_Inv
begin

text \<open>
  What \<open>deliver\<close> guarantees: it keeps the invariant of the library, the delivered record belongs to
  exactly one article of the workspace afterwards, a repeated delivery changes nothing, and a record
  whose key changed takes its readers' state with it. The last section is about a delivery that is
  repeated after a rule of the subscription changed.
\<close>

section \<open>What a delivery leaves alone\<close>

lemma fold_same:
  "(\<And>x s. x \<in> set xs \<Longrightarrow> f (g x s) = f s) \<Longrightarrow> f (fold g xs s) = f s"
  by (induction xs arbitrary: s) auto

text \<open>The tables of the library, and those a delivery only reads.\<close>

definition library_tables where
  "library_tables db = (db_articles db, db_dedup db, db_origins db)"

definition read_tables where
  "read_tables db = (db_subscriptions db, db_workspaces db, db_rules db, db_sources db, db_subscription_sources db,
     db_source_records db)"

lemma migrate_evaluations_tables [simp]:
  "library_tables (migrate_evaluations w a old db) = library_tables db"
  "read_tables (migrate_evaluations w a old db) = read_tables db"
  "db_jobs (migrate_evaluations w a old db) = db_jobs db"
  unfolding migrate_evaluations_def Let_def
  by (rule fold_same, simp add: library_tables_def read_tables_def split: prod.splits)+

lemma migrate_rule_provenance_tables [simp]:
  "library_tables (migrate_rule_provenance w a moved db) = library_tables db"
  "read_tables (migrate_rule_provenance w a moved db) = read_tables db"
  "db_jobs (migrate_rule_provenance w a moved db) = db_jobs db"
  unfolding migrate_rule_provenance_def by (rule fold_same, simp)+

lemma link_history_tables [simp]:
  "library_tables (link_history w a moved db) = library_tables db"
  "read_tables (link_history w a moved db) = read_tables db"
  "db_jobs (link_history w a moved db) = db_jobs db"
  unfolding link_history_def by (rule fold_same, simp add: library_tables_def read_tables_def Let_def)+

lemma enqueue_work_frame:
  assumes "enqueue_work env db i item first = Inr db'"
  shows "library_tables db' = library_tables db" "read_tables db' = read_tables db"
  using assms
  by (auto simp: enqueue_work_def put_job_def library_tables_def read_tables_def
      split: option.splits if_splits)

text \<open>Enqueueing keeps every queued item and adds its own.\<close>

lemma enqueue_work_items:
  assumes "enqueue_work env db i item first = Inr db'"
  shows "\<exists>j. map_of (db_jobs db') i = Some j \<and> ij_item j = item"
    and "map_of (db_jobs db) k = Some j \<Longrightarrow> \<exists>j'. map_of (db_jobs db') k = Some j' \<and> ij_item j' = ij_item j"
  using assms
  by (auto simp: enqueue_work_def put_job_def new_job_def split: option.splits if_splits)

definition rule_item :: "rule list \<Rightarrow> subscription \<Rightarrow> article \<Rightarrow> subscription_id \<Rightarrow> work_item" where
  "rule_item rules sub a linked = EvaluateArticleRules (sub_workspace sub) (art_id a)
    (map (\<lambda>r. \<lparr>pre_rule = rule_id r, pre_version = rule_version r, pre_subscription = rule_subscription r\<rparr>)
      (filter (\<lambda>r. rule_subscription r = linked) rules))"

definition rule_steps where
  "rule_steps env wall sub a rec rules =
    (\<lambda>db linked. if filter (\<lambda>r. rule_subscription r = linked) rules = [] then Inr db
      else enqueue_work env db (article_rule_job env (art_id a) linked (sr_id rec) (sr_revision rec))
        (rule_item rules sub a linked) (millis wall))"

lemma enqueue_article_rule_jobs_steps:
  "enqueue_article_rule_jobs env db wall w sub a rec subs =
    and_then (enabled_rules db w) (\<lambda>rules. try_fold (rule_steps env wall sub a rec rules) db subs)"
  unfolding enqueue_article_rule_jobs_def rule_steps_def rule_item_def Let_def map_is_Nil_conv ..

lemma rule_steps_frame:
  assumes "try_fold (rule_steps env wall sub a rec rules) db subs = Inr db'"
  shows "library_tables db' = library_tables db" "read_tables db' = read_tables db"
proof -
  have "library_tables db' = library_tables db \<and> read_tables db' = read_tables db"
    by (rule try_fold_keeps [OF assms]) (auto simp: rule_steps_def enqueue_work_frame split: if_splits)
  then show "library_tables db' = library_tables db" "read_tables db' = read_tables db" by auto
qed

lemma rule_steps_keep_item:
  assumes "try_fold (rule_steps env wall sub a rec rules) db subs = Inr db'"
    and "map_of (db_jobs db) k = Some j"
  shows "\<exists>j'. map_of (db_jobs db') k = Some j' \<and> ij_item j' = ij_item j"
  by (rule try_fold_keeps [OF assms(1)])
    (use assms(2) in \<open>fastforce simp: rule_steps_def dest: enqueue_work_items(2) split: if_splits\<close>)+

lemma rule_steps_item:
  assumes "try_fold (rule_steps env wall sub a rec rules) db subs = Inr db'" and "linked \<in> set subs"
    and "filter (\<lambda>r. rule_subscription r = linked) rules \<noteq> []"
  shows "\<exists>j. map_of (db_jobs db') (article_rule_job env (art_id a) linked (sr_id rec) (sr_revision rec)) = Some j
    \<and> ij_item j = rule_item rules sub a linked"
  using assms
proof (induction subs arbitrary: db)
  case (Cons s subs)
  from Cons.prems(1) obtain db1 where one: "rule_steps env wall sub a rec rules db s = Inr db1"
    and rest: "try_fold (rule_steps env wall sub a rec rules) db1 subs = Inr db'" by auto
  show ?case
  proof (cases "s = linked")
    case True
    with one Cons.prems(3) obtain j
      where "map_of (db_jobs db1) (article_rule_job env (art_id a) linked (sr_id rec) (sr_revision rec)) = Some j"
        "ij_item j = rule_item rules sub a linked"
      using enqueue_work_items(1) by (force simp: rule_steps_def)
    with rule_steps_keep_item [OF rest] show ?thesis by fastforce
  qed (use Cons rest in auto)
qed simp

section \<open>One delivery, step by step\<close>

lemma fold_insert_row_set [simp]: "set (fold (\<lambda>s. insert_row (f s)) xs t) = set t \<union> f ` set xs"
  by (induction xs arbitrary: t) (auto simp: insert_row_def)

lemma library_tables_eqD:
  assumes "library_tables db' = library_tables db"
  shows "db_articles db' = db_articles db" "db_dedup db' = db_dedup db" "db_origins db' = db_origins db"
  using assms by (simp_all add: library_tables_def)

lemma read_tables_eqD:
  assumes "read_tables db' = read_tables db"
  shows "db_subscriptions db' = db_subscriptions db" "db_workspaces db' = db_workspaces db"
    "db_rules db' = db_rules db" "db_sources db' = db_sources db"
    "db_subscription_sources db' = db_subscription_sources db" "db_source_records db' = db_source_records db"
  using assms by (simp_all add: read_tables_def)

text \<open>The article a delivery writes, before the record is attached.\<close>

definition marked_base :: "delivery_commit \<Rightarrow> regroup \<Rightarrow> article option \<Rightarrow> bool \<Rightarrow> article" where
  "marked_base commit g ix auto = (let b = deliver_base commit g ix
    in if auto then b\<lparr>art_state := (art_state b)\<lparr>as_read := True\<rparr>\<rparr> else b)"

lemma marked_base_simps [simp]:
  "art_id (marked_base commit g ix auto) = art_id (deliver_base commit g ix)"
  "art_key (marked_base commit g ix auto) = art_key (deliver_base commit g ix)"
  "art_origins (marked_base commit g ix auto) = art_origins (deliver_base commit g ix)"
  "art_first_arrived_at (marked_base commit g ix auto) = art_first_arrived_at (deliver_base commit g ix)"
  "marked_base commit g ix False = deliver_base commit g ix"
  by (simp_all add: marked_base_def Let_def)

lemma deliver_base_id:
  "inherit_state commit g ix = None \<Longrightarrow> art_id (deliver_base commit g ix) = dc_proposed_article_id commit"
  by (simp add: deliver_base_def fresh_article_def)

fun delivered_to :: "delivery_result \<Rightarrow> article_id option" where
  "delivered_to (Delivered i) = Some i"
| "delivered_to (AlreadyDelivered i) = Some i"
| "delivered_to SkippedInactive = None"

lemma deliver_activeE:
  fixes commit :: delivery_commit
  defines "w \<equiv> dt_workspace_id (dc_target commit)" and "rec \<equiv> dc_record commit"
  assumes "deliver_active env dates db wall commit sub = Inr (res, db')"
  obtains db1 g ix auto a db2 subs rules db5 where
    "try_fold (leave_article env w rec) (db, no_regroup) (prior_by_article db w (sr_id rec)) = Inr (db1, g)"
    "indexed_article env db1 w rec = Inr ix"
    "auto \<longrightarrow> inherit_state commit g ix = None"
    "a = attach_origin (sr_id rec) (marked_base commit g ix auto)"
    "upsert_article env db1 w a (sr_key rec) = Inr db2"
    "subs = push_new (rg_moved_subscriptions g) [dt_subscription_id (dc_target commit)]"
    "res = (if inherit_state commit g ix = None then Delivered (art_id a) else AlreadyDelivered (art_id a))"
    "db_articles db5 = db_articles db2" "db_dedup db5 = db_dedup db2"
    "db_origins db5 = fold (\<lambda>s. insert_row (w, art_id a, s, sr_id rec)) subs (db_origins db2)"
    "read_tables db5 = read_tables db2" "enabled_rules db5 w = Inr rules"
    "try_fold (rule_steps env wall sub a rec rules) db5 subs = Inr db'"
proof -
  let ?subs = "\<lambda>g. push_new (rg_moved_subscriptions g) [dt_subscription_id (dc_target commit)]"
  from assms(3) obtain db1 g ix auto db2 rules db5 a where run:
    "try_fold (leave_article env w rec) (db, no_regroup) (prior_by_article db w (sr_id rec)) = Inr (db1, g)"
    "indexed_article env db1 w rec = Inr ix"
    "(case inherit_state commit g ix of Some _ \<Rightarrow> Inr False | None \<Rightarrow> automatically_read dates db1 commit) = Inr auto"
    "a = attach_origin (sr_id rec) (marked_base commit g ix auto)"
    "upsert_article env db1 w a (sr_key rec) = Inr db2"
    "res = (case inherit_state commit g ix of Some b \<Rightarrow> AlreadyDelivered (art_id b)
      | None \<Rightarrow> Delivered (dc_proposed_article_id commit))"
    "db5 = link_history w (art_id a) (rg_moved_articles g)
      (migrate_rule_provenance w (art_id a) (rg_moved_articles g)
        (let db3 = (if auto then db2\<lparr>db_read_events :=
           db_read_events db2 @ [(w, art_id a, art_revision a, AutomaticAge)]\<rparr> else db2)
         in db3\<lparr>db_origins := fold (\<lambda>s. insert_row (w, art_id a, s, sr_id rec)) (?subs g) (db_origins db3)\<rparr>))"
    "enabled_rules db5 w = Inr rules"
    "try_fold (rule_steps env wall sub a rec rules) db5 (?subs g) = Inr db'"
    unfolding deliver_active_def Let_def enqueue_article_rule_jobs_steps no_regroup_def [symmetric]
      marked_base_def deliver_base_def w_def rec_def
    by (auto simp del: push_new.simps)
  have tabs: "library_tables db5 = (db_articles db2, db_dedup db2,
      fold (\<lambda>s. insert_row (w, art_id a, s, sr_id rec)) (?subs g) (db_origins db2))"
    "read_tables db5 = read_tables db2"
    unfolding run(7) by (simp_all add: Let_def, simp_all add: library_tables_def read_tables_def)
  show thesis
  proof (rule that [OF run(1,2) _ run(4,5) refl])
    show "auto \<longrightarrow> inherit_state commit g ix = None" using run(3) by (auto split: option.splits)
    show "res = (if inherit_state commit g ix = None then Delivered (art_id a) else AlreadyDelivered (art_id a))"
      using run(4,6) by (auto simp: deliver_base_id split: option.splits) (simp add: deliver_base_def)
  qed (use run(8,9) tabs in \<open>simp_all add: library_tables_def\<close>)
qed

section \<open>The invariant and the place of a record\<close>

text \<open>The target of a delivery accepts it: the guard of \<open>deliver\<close> before it touches the library.\<close>

definition accepting_target :: "'a db \<Rightarrow> delivery_target \<Rightarrow> subscription \<Rightarrow> bool" where
  "accepting_target db target sub \<longleftrightarrow>
    (\<exists>r. map_of (db_subscriptions db) (dt_subscription_id target) = Some (r, sub))
    \<and> sub_workspace sub = dt_workspace_id target \<and> active_subscription sub
    \<and> (\<exists>r ws. map_of (db_workspaces db) (dt_workspace_id target) = Some (r, ws)
        \<and> ws_id ws = dt_workspace_id target \<and> accepts_delivery ws)"

lemma deliver_cases:
  assumes "deliver env dates db wall lease commit = Inr (res, db')"
  obtains (skipped) "res = SkippedInactive" "db' = db"
  | (active) sub where "assert_lease db wall lease = Inr ()" "accepting_target db (dc_target commit) sub"
      "deliver_active env dates db wall commit sub = Inr (res, db')"
  using assms
  by (auto simp: deliver_def Let_def accepting_target_def store_doc_def split: option.splits if_splits)

lemma deliver_accepting:
  assumes "assert_lease db wall lease = Inr ()" and "accepting_target db (dc_target commit) sub"
  shows "deliver env dates db wall lease commit = deliver_active env dates db wall commit sub"
  using assms by (auto simp: deliver_def Let_def accepting_target_def store_doc_def)

lemma deliver_active_result:
  assumes inv: "library_inv env db"
    and fresh: "map_of (db_articles db) (dt_workspace_id (dc_target commit), dc_proposed_article_id commit) = None"
    and run: "deliver_active env dates db wall commit sub = Inr (res, db')"
  defines "w \<equiv> dt_workspace_id (dc_target commit)" and "rec \<equiv> dc_record commit"
  shows "library_inv env db'"
    and "\<exists>a. delivered_to res = Some (art_id a) \<and> map_of (db_articles db') (w, art_id a) = Some (art_revision a, a)
      \<and> fits_i64 (art_revision a) \<and> art_key a = sr_key rec \<and> sr_id rec \<in> set (art_origins a)
      \<and> (w, art_id a, dt_subscription_id (dc_target commit), sr_id rec) \<in> set (db_origins db')"
proof -
  from run [unfolded w_def [symmetric]] obtain db1 g ix auto a db2 subs rules db5 where st:
    "try_fold (leave_article env w rec) (db, no_regroup) (prior_by_article db w (sr_id rec)) = Inr (db1, g)"
    "indexed_article env db1 w rec = Inr ix"
    "a = attach_origin (sr_id rec) (marked_base commit g ix auto)"
    "upsert_article env db1 w a (sr_key rec) = Inr db2"
    "subs = push_new (rg_moved_subscriptions g) [dt_subscription_id (dc_target commit)]"
    "res = (if inherit_state commit g ix = None then Delivered (art_id a) else AlreadyDelivered (art_id a))"
    "db_articles db5 = db_articles db2" "db_dedup db5 = db_dedup db2"
    "db_origins db5 = fold (\<lambda>s. insert_row (w, art_id a, s, sr_id rec)) subs (db_origins db2)"
    "try_fold (rule_steps env wall sub a rec rules) db5 subs = Inr db'"
    unfolding w_def rec_def by (rule deliver_activeE)
  note leave = leave_articles_ok [OF inv st(1)]
  have free: "map_of (db_articles db1) (w, dc_proposed_article_id commit) = None"
    using leave(2) fresh by (simp add: w_def)
  have "attachable env w rec db1 (deliver_base commit g ix)"
    by (rule deliver_base_attachable [OF leave(1) st(2) _ free]) (simp add: rec_def)
  then have base: "attachable env w rec db1 (marked_base commit g ix auto)" by (simp add: attachable_def)
  note tabs = library_tables_eqD [OF rule_steps_frame(1) [OF st(10)]]
  have orgs: "set (db_origins db') = set (db_origins db2) \<union> {(w, art_id (marked_base commit g ix auto), s, sr_id rec) |s. s \<in> set subs}"
    using st(3) by (auto simp: tabs st(9))
  have "set subs \<noteq> {}" by (auto simp: st(5))
  note attach = attach_record_ok [OF leave(1) base this st(4) [unfolded st(3)] _ _ orgs]
  show "library_inv env db'" by (rule attach) (simp_all add: tabs st)
  have "map_of (db_articles db') (w, art_id a) = Some (art_revision a, a)"
    using attach(2) st(3) by (simp add: tabs st(7,8))
  moreover have "fits_i64 (art_revision a)" using st(4) by (simp add: upsert_article_Inr)
  moreover have "art_key a = sr_key rec" using base by (simp add: st(3) attachable_def)
  moreover have "(w, art_id a, dt_subscription_id (dc_target commit), sr_id rec) \<in> set (db_origins db')"
    using orgs st(3,5) by auto
  moreover have "delivered_to res = Some (art_id a)" "sr_id rec \<in> set (art_origins a)"
    by (simp_all add: st(6)) (simp add: st(3))
  ultimately show "\<exists>a. delivered_to res = Some (art_id a) \<and> map_of (db_articles db') (w, art_id a) = Some (art_revision a, a)
      \<and> fits_i64 (art_revision a) \<and> art_key a = sr_key rec \<and> sr_id rec \<in> set (art_origins a)
      \<and> (w, art_id a, dt_subscription_id (dc_target commit), sr_id rec) \<in> set (db_origins db')" by blast
qed

text \<open>C8. A delivery keeps the library consistent (index, origins and articles agree, a record belongs to
  one article of a workspace), whatever key change it has to follow, and afterwards no two articles of
  a workspace share a deduplication key.\<close>

theorem deliver_keeps_library:
  assumes "library_inv env db" and "deliver env dates db wall lease commit = Inr (res, db')"
    and "map_of (db_articles db) (dt_workspace_id (dc_target commit), dc_proposed_article_id commit) = None"
  shows "library_inv env db'
    \<and> (\<forall>w i j r a r' b. map_of (db_articles db') (w, i) = Some (r, a) \<longrightarrow>
        map_of (db_articles db') (w, j) = Some (r', b) \<longrightarrow> art_key a = art_key b \<longrightarrow> i = j)"
proof -
  have "library_inv env db'"
    using assms(2) by (cases rule: deliver_cases) (use assms(1,3) deliver_active_result(1) in auto)
  with library_key_unique show ?thesis by blast
qed

text \<open>After a delivery that was not skipped, the returned article carries the record's current key, has
  the record among its origins and is linked to the target subscription, and no other article of the
  workspace holds the record.\<close>

theorem deliver_places_record:
  fixes commit :: delivery_commit
  defines "w \<equiv> dt_workspace_id (dc_target commit)" and "rec \<equiv> dc_record commit"
  assumes "library_inv env db" and "deliver env dates db wall lease commit = Inr (res, db')"
    and "map_of (db_articles db) (w, dc_proposed_article_id commit) = None"
    and "res \<noteq> SkippedInactive"
  shows "\<exists>i r a. delivered_to res = Some i \<and> map_of (db_articles db') (w, i) = Some (r, a)
    \<and> art_key a = sr_key rec \<and> sr_id rec \<in> set (art_origins a)
    \<and> (w, i, dt_subscription_id (dc_target commit), sr_id rec) \<in> set (db_origins db')
    \<and> (\<forall>j r' b. map_of (db_articles db') (w, j) = Some (r', b) \<longrightarrow> sr_id rec \<in> set (art_origins b) \<longrightarrow> j = i)"
  using assms(4)
proof (cases rule: deliver_cases)
  case (active sub)
  note result = deliver_active_result [OF assms(3) assms(5) [unfolded w_def] active(3), folded w_def rec_def]
  from result(2) obtain a where a: "delivered_to res = Some (art_id a)"
    "map_of (db_articles db') (w, art_id a) = Some (art_revision a, a)" "art_key a = sr_key rec"
    "sr_id rec \<in> set (art_origins a)"
    "(w, art_id a, dt_subscription_id (dc_target commit), sr_id rec) \<in> set (db_origins db')" by blast
  have ok: "origins_ok (map_of (db_articles db')) (set (db_origins db'))" "single_home (set (db_origins db'))"
    using result(1) by (simp_all add: library_inv_def)
  have "j = art_id a"
    if "map_of (db_articles db') (w, j) = Some (r', b)" "sr_id rec \<in> set (art_origins b)" for j r' b
  proof -
    from ok(1) that obtain s where "(w, j, s, sr_id rec) \<in> set (db_origins db')" by (rule origins_okE')
    with ok(2) a(5) show ?thesis unfolding single_home_def by blast
  qed
  with a show ?thesis by blast
qed (use assms(6) in simp)

section \<open>Repeated deliveries\<close>

lemma put_same: "map_of t k = Some v \<Longrightarrow> put k v t = t"
  unfolding put_def by (induction t) (auto split: if_splits)

lemma upsert_article_same:
  assumes "map_of (db_articles db) (w, art_id a) = Some (art_revision a, a)" and "fits_i64 (art_revision a)"
    and "map_of (db_dedup db) (w, dedup_fingerprint env (art_key a)) = Some (art_key a, art_id a)"
  shows "upsert_article env db w a (art_key a) = Inr db"
  using assms by (simp add: upsert_article_Inr put_same)

lemma leave_article_read_tables:
  "leave_article env w rec st p = Inr st' \<Longrightarrow> read_tables (fst st') = read_tables (fst st)"
  by (auto simp: leave_article_def Let_def upsert_article_Inr delete_dedup_def delete_origins_def
      read_tables_def split: option.splits if_splits prod.splits)

lemma enabled_rules_cong: "db_rules db' = db_rules db \<Longrightarrow> enabled_rules db' w = enabled_rules db w"
  by (simp add: enabled_rules_def)

lemma deliver_active_rules:
  assumes "deliver_active env dates db wall commit sub = Inr (res, db')"
  defines "w \<equiv> dt_workspace_id (dc_target commit)" and "s \<equiv> dt_subscription_id (dc_target commit)"
    and "rec \<equiv> dc_record commit"
  shows "read_tables db' = read_tables db"
    and "\<exists>rules. enabled_rules db' w = Inr rules \<and>
      (filter (\<lambda>r. rule_subscription r = s) rules \<noteq> [] \<longrightarrow> (\<exists>i a j. delivered_to res = Some i \<and> art_id a = i \<and>
        map_of (db_jobs db') (article_rule_job env i s (sr_id rec) (sr_revision rec)) = Some j
        \<and> ij_item j = rule_item rules sub a s))"
proof -
  from assms(1) obtain db1 g ix auto a db2 subs rules db5 where st:
    "try_fold (leave_article env w rec) (db, no_regroup) (prior_by_article db w (sr_id rec)) = Inr (db1, g)"
    "upsert_article env db1 w a (sr_key rec) = Inr db2"
    "subs = push_new (rg_moved_subscriptions g) [s]"
    "res = (if inherit_state commit g ix = None then Delivered (art_id a) else AlreadyDelivered (art_id a))"
    "read_tables db5 = read_tables db2" "enabled_rules db5 w = Inr rules"
    "try_fold (rule_steps env wall sub a rec rules) db5 subs = Inr db'"
    unfolding w_def rec_def s_def by (rule deliver_activeE)
  have "read_tables (fst (db1, g)) = read_tables db"
    by (rule try_fold_keeps [OF st(1)]) (simp_all add: leave_article_read_tables)
  moreover have "read_tables db2 = read_tables db1"
    using st(2) by (auto simp: upsert_article_Inr read_tables_def)
  ultimately show "read_tables db' = read_tables db"
    using rule_steps_frame(2) [OF st(7)] st(5) by simp
  have "enabled_rules db' w = Inr rules"
    using enabled_rules_cong [OF read_tables_eqD(3) [OF rule_steps_frame(2) [OF st(7)]]] st(6) by simp
  moreover have "delivered_to res = Some (art_id a)" by (simp add: st(4))
  moreover have "s \<in> set subs" by (simp add: st(3))
  ultimately show "\<exists>rules. enabled_rules db' w = Inr rules \<and>
      (filter (\<lambda>r. rule_subscription r = s) rules \<noteq> [] \<longrightarrow> (\<exists>i a j. delivered_to res = Some i \<and> art_id a = i \<and>
        map_of (db_jobs db') (article_rule_job env i s (sr_id rec) (sr_revision rec)) = Some j
        \<and> ij_item j = rule_item rules sub a s))"
    using rule_steps_item [OF st(7)] by blast
qed

lemma prior_by_article_home:
  assumes "single_home (set (db_origins db))" and "(w, i, s, q) \<in> set (db_origins db)"
  shows "\<exists>subs. prior_by_article db w q = [(i, subs)]"
  using assms(1)
proof (cases rule: prior_by_article_cases [where w = w and q = q])
  case (one j s' subs)
  with assms have "j = i" unfolding single_home_def by blast
  with one show ?thesis by blast
qed (use assms(2) in blast)

text \<open>Delivering a record that its article already holds, for a subscription it is already linked to.\<close>

lemma redeliver_active:
  fixes commit :: delivery_commit
  assumes inv: "library_inv env db"
  defines "w \<equiv> dt_workspace_id (dc_target commit)" and "s \<equiv> dt_subscription_id (dc_target commit)"
    and "rec \<equiv> dc_record commit"
  assumes a: "map_of (db_articles db) (w, art_id a) = Some (art_revision a, a)" "fits_i64 (art_revision a)"
      "art_key a = sr_key rec" "sr_id rec \<in> set (art_origins a)"
    and row: "(w, art_id a, s, sr_id rec) \<in> set (db_origins db)"
  shows "deliver_active env dates db wall commit sub =
    and_then (enqueue_article_rule_jobs env db wall w sub a rec [s]) (\<lambda>db'. Inr (AlreadyDelivered (art_id a), db'))"
proof -
  have ok: "articles_ok (dedup_fingerprint env) (map_of (db_articles db)) (map_of (db_dedup db))"
    "single_home (set (db_origins db))" using inv by (simp_all add: library_inv_def)
  have slot: "map_of (db_dedup db) (w, dedup_fingerprint env (sr_key rec)) = Some (sr_key rec, art_id a)"
    using articles_okD(4) [OF ok(1) a(1)] a(3) by simp
  obtain subs where prior: "prior_by_article db w (sr_id rec) = [(art_id a, subs)]"
    using prior_by_article_home [OF ok(2) row] by blast
  have leave: "leave_article env w rec (db, g) (art_id a, subs) = Inr (db, g)" for g
    using a(1,3) by (simp add: leave_article_def)
  have index: "indexed_article env db w rec = Inr (Some a)"
    using slot a(1,3) by (simp add: indexed_article_def)
  have attach: "attach_origin (sr_id rec) a = a" using a(4) by (simp add: attach_origin_def)
  have up: "upsert_article env db w a (sr_key rec) = Inr db"
    using upsert_article_same [OF a(1,2)] slot a(3) by simp
  show ?thesis
    unfolding deliver_active_def Let_def w_def [symmetric] s_def [symmetric] rec_def [symmetric] prior
    by (simp add: leave index inherit_state_def article_state_merge_def attach up row insert_row_def
        migrate_rule_provenance_def link_history_def)
qed

text \<open>C9. Deliveries are idempotent: repeating one under a valid lease, with the rules unchanged, succeeds,
  reports the same article as already delivered and leaves the whole database as it was, whatever new
  article id it proposes and whatever the time.\<close>

theorem redeliver_idempotent:
  fixes commit :: delivery_commit
  assumes "library_inv env db" and "deliver env dates db wall lease commit = Inr (res, db')"
    and "map_of (db_articles db) (dt_workspace_id (dc_target commit), dc_proposed_article_id commit) = None"
    and "res \<noteq> SkippedInactive"
    and "assert_lease db' wall' lease' = Inr ()"
  shows "\<exists>i. delivered_to res = Some i \<and>
    deliver env dates db' wall' lease' (commit\<lparr>dc_proposed_article_id := p, dc_delivered_at := t\<rparr>)
      = Inr (AlreadyDelivered i, db')"
  using assms(2)
proof (cases rule: deliver_cases)
  case (active sub)
  let ?w = "dt_workspace_id (dc_target commit)" and ?s = "dt_subscription_id (dc_target commit)"
  let ?rec = "dc_record commit" and ?c = "commit\<lparr>dc_proposed_article_id := p, dc_delivered_at := t\<rparr>"
  note result = deliver_active_result [OF assms(1,3) active(3)]
  note kept = deliver_active_rules [OF active(3)]
  from result(2) obtain a where a: "delivered_to res = Some (art_id a)"
    "map_of (db_articles db') (?w, art_id a) = Some (art_revision a, a)" "fits_i64 (art_revision a)"
    "art_key a = sr_key ?rec" "sr_id ?rec \<in> set (art_origins a)"
    "(?w, art_id a, ?s, sr_id ?rec) \<in> set (db_origins db')" by blast
  have target: "accepting_target db' (dc_target ?c) sub"
    using active(2) read_tables_eqD [OF kept(1)] by (simp add: accepting_target_def)
  have "deliver env dates db' wall' lease' ?c = and_then (enqueue_article_rule_jobs env db' wall' ?w sub a ?rec [?s])
      (\<lambda>db''. Inr (AlreadyDelivered (art_id a), db''))"
    using deliver_accepting [OF assms(5) target] redeliver_active [OF result(1), of ?c] a by simp
  moreover have "enqueue_article_rule_jobs env db' wall' ?w sub a ?rec [?s] = Inr db'"
    using kept(2) a(1) by (auto simp: enqueue_article_rule_jobs_steps rule_steps_def enqueue_work_def rule_item_def)
  ultimately show ?thesis using a(1) by simp
qed (use assms(4) in simp)

section \<open>Moving a record with its state\<close>

lemma leave_article_others:
  assumes "leave_article env w rec (db, g) (i, subs) = Inr (db1, g1)" and "library_inv env db" and "j \<noteq> i"
  shows "map_of (db_articles db1) (w, j) = map_of (db_articles db) (w, j)"
proof -
  have "art_id (snd (detach_origin (sr_id rec) old)) = i" if "map_of (db_articles db) (w, i) = Some (r, old)" for r old
    using that articles_okD(1,3) [of "dedup_fingerprint env" "map_of (db_articles db)" "map_of (db_dedup db)" w i r old]
      assms(2) detach_origin_props(3) by (simp add: library_inv_def)
  with assms(1,3) show ?thesis
    by (auto simp: leave_article_def Let_def upsert_article_Inr delete_dedup_def delete_origins_def
        split: option.splits if_splits prod.splits)
qed

lemma indexed_article_holder:
  assumes "library_inv env db" and "indexed_article env db w rec = Inr ix"
  shows "map_of (db_articles db) (w, j) = Some (r, b) \<Longrightarrow> art_key b = sr_key rec \<Longrightarrow> ix = Some b"
    and "\<nexists>j r b. map_of (db_articles db) (w, j) = Some (r, b) \<and> art_key b = sr_key rec \<Longrightarrow> ix = None"
proof -
  have ok: "articles_ok (dedup_fingerprint env) (map_of (db_articles db)) (map_of (db_dedup db))"
    "dedup_ok (dedup_fingerprint env) (map_of (db_articles db)) (map_of (db_dedup db))"
    using assms(1) by (simp_all add: library_inv_def)
  show "ix = Some b" if b: "map_of (db_articles db) (w, j) = Some (r, b)" "art_key b = sr_key rec"
    using articles_okD [OF ok(1) b(1)] b assms(2) by (simp add: indexed_article_def)
  show "ix = None" if "\<nexists>j r b. map_of (db_articles db) (w, j) = Some (r, b) \<and> art_key b = sr_key rec"
    using that assms(2) indexed_article_Some by (cases ix) blast+
qed

text \<open>The state after a record with the state \<open>s\<close> and arrival \<open>t\<close> moved into an article or into one of
  its own.\<close>

definition joined :: "article option \<Rightarrow> article_state \<Rightarrow> instant \<Rightarrow> article_state \<times> instant" where
  "joined target s t =
    (case target of
       None \<Rightarrow> (s, t)
     | Some b \<Rightarrow> (\<lparr>as_read = (as_read (art_state b) \<and> as_read s), as_later = (as_later (art_state b) \<or> as_later s),
         as_protect_unread = (as_protect_unread (art_state b) \<or> as_protect_unread s)\<rparr>,
         min (art_first_arrived_at b) t))"

lemma deliver_base_joined:
  assumes "rg_inherited g = [(s, t)]"
  shows "inherit_state commit g ix \<noteq> None"
    and "(art_state (deliver_base commit g ix), art_first_arrived_at (deliver_base commit g ix)) = joined ix s t"
  using assms
  by (auto simp: inherit_state_def deliver_base_def article_state_merge_def min_opt_def joined_def Let_def
      split: option.splits)

text \<open>C10. A record whose key changed takes its reader's state with it. When an article with the new key
  exists, the result is read only if both were read, is kept for later or protected if one of them was,
  and keeps the earlier arrival; otherwise the state and the arrival time move unchanged.\<close>

theorem moved_record_keeps_state:
  fixes commit :: delivery_commit
  defines "w \<equiv> dt_workspace_id (dc_target commit)" and "rec \<equiv> dc_record commit"
  assumes "library_inv env db" and "deliver env dates db wall lease commit = Inr (res, db')"
    and "map_of (db_articles db) (w, dc_proposed_article_id commit) = None"
    and "res \<noteq> SkippedInactive"
    and old: "map_of (db_articles db) (w, i) = Some (r, old)" "sr_id rec \<in> set (art_origins old)"
      "art_key old \<noteq> sr_key rec"
    and target: "case target of
        Some b \<Rightarrow> \<exists>j r. map_of (db_articles db) (w, j) = Some (r, b) \<and> art_key b = sr_key rec
      | None \<Rightarrow> (\<nexists>j r b. map_of (db_articles db) (w, j) = Some (r, b) \<and> art_key b = sr_key rec)"
  shows "\<exists>j r a. res = AlreadyDelivered j \<and> map_of (db_articles db') (w, j) = Some (r, a)
    \<and> (art_state a, art_first_arrived_at a) = joined target (art_state old) (art_first_arrived_at old)"
  using assms(4)
proof (cases rule: deliver_cases)
  case (active sub)
  from active(3) obtain db1 g ix auto a db2 subs rules db5 where st:
    "try_fold (leave_article env w rec) (db, no_regroup) (prior_by_article db w (sr_id rec)) = Inr (db1, g)"
    "indexed_article env db1 w rec = Inr ix" "auto \<longrightarrow> inherit_state commit g ix = None"
    "a = attach_origin (sr_id rec) (marked_base commit g ix auto)"
    "upsert_article env db1 w a (sr_key rec) = Inr db2"
    "res = (if inherit_state commit g ix = None then Delivered (art_id a) else AlreadyDelivered (art_id a))"
    "db_articles db5 = db_articles db2"
    "try_fold (rule_steps env wall sub a rec rules) db5 subs = Inr db'"
    unfolding w_def rec_def by (rule deliver_activeE)
  have ok: "origins_ok (map_of (db_articles db)) (set (db_origins db))" "single_home (set (db_origins db))"
    "articles_ok (dedup_fingerprint env) (map_of (db_articles db)) (map_of (db_dedup db))"
    using assms(3) by (simp_all add: library_inv_def)
  from ok(1) old(1,2) obtain s where row: "(w, i, s, sr_id rec) \<in> set (db_origins db)" by (rule origins_okE')
  with st(1) ok(2) obtain subs where leave: "leave_article env w rec (db, no_regroup) (i, subs) = Inr (db1, g)"
    using prior_by_article_home by fastforce
  have g: "rg_inherited g = [(art_state old, art_first_arrived_at old)]" and inv1: "library_inv env db1"
    using leave_article_ok [OF assms(3) old(1,3) row leave] by (simp_all add: no_regroup_def)
  have same: "map_of (db_articles db1) (w, j) = Some (r, b) \<longleftrightarrow> map_of (db_articles db) (w, j) = Some (r, b)"
    if "art_key b = sr_key rec" for j r b
  proof (cases "j = i")
    case True
    have "art_key b = art_key old" if "map_of (db_articles db1) (w, i) = Some (r, b)"
      using that leave old(1,3) articles_okD(1) [OF ok(3) old(1)]
      by (auto simp: leave_article_def Let_def upsert_article_Inr delete_dedup_def delete_origins_def
          detach_origin_def split: option.splits if_splits prod.splits)
    with True that old show ?thesis by auto
  qed (use leave_article_others [OF leave assms(3)] in simp)
  have "ix = target"
  proof (cases target)
    case None
    have "\<not> (map_of (db_articles db1) (w, j) = Some (r, b) \<and> art_key b = sr_key rec)" for j r b
      using target None same [of b j r] by auto
    with indexed_article_holder(2) [OF inv1 st(2)] None show ?thesis by blast
  next
    case (Some b)
    with indexed_article_holder(1) [OF inv1 st(2)] target same show ?thesis by auto
  qed
  with deliver_base_joined [OF g, of commit ix] st(3,4)
  have "inherit_state commit g ix \<noteq> None"
    "(art_state a, art_first_arrived_at a) = joined target (art_state old) (art_first_arrived_at old)" by auto
  moreover have "map_of (db_articles db') (w, art_id a) = Some (art_revision a, a)"
    using st(5,7) library_tables_eqD(1) [OF rule_steps_frame(1) [OF st(8)]] by (simp add: upsert_article_Inr)
  ultimately show ?thesis using st(6) by simp
qed (use assms(6) in simp)

section \<open>Rejected deliveries\<close>

text \<open>A delivery under a lost lease fails as stale. Under a valid lease, a target that does not accept
  deliveries (a removed or paused subscription, an archived workspace, or a workspace that is not the
  subscription's) is skipped or not found, and nothing is written.\<close>

theorem deliver_rejected:
  "(assert_lease db wall lease = Inl e \<longrightarrow> deliver env dates db wall lease commit = Inl StaleLease)
    \<and> (assert_lease db wall lease = Inr () \<longrightarrow> (\<nexists>sub. accepting_target db (dc_target commit) sub) \<longrightarrow>
        deliver env dates db wall lease commit \<in> {Inr (SkippedInactive, db), Inl StoreNotFound})"
  by (auto simp: deliver_def Let_def accepting_target_def store_doc_def assert_lease_def split: option.splits)


section \<open>A concrete library\<close>

definition demo_rule :: "u64 \<Rightarrow> rule" where
  "demo_rule v = \<lparr>rule_id = 1, rule_subscription = 2, rule_version = v, rule_enabled = True,
     rule_field = RuleTitle, rule_needles = [''ad''], rule_action = MarkRead\<rparr>"

definition demo_target :: delivery_target where
  "demo_target = \<lparr>dt_workspace_id = 1, dt_subscription_id = 2\<rparr>"

definition demo_commit :: delivery_commit where
  "demo_commit = \<lparr>dc_target = demo_target, dc_record = example_record, dc_proposed_article_id = 50,
     dc_delivered_at = 10\<rparr>"

definition demo_leased :: leased_work where
  "demo_leased = \<lparr>lw_job_id = 7, lw_item = FanOut 2 1 None, lw_token = 3, lw_deadline = 5000000000, lw_attempt = 0\<rparr>"

definition demo_lib :: reader_db where
  "demo_lib = empty_reader_db
    \<lparr>db_workspaces := [(1, 0, workspace_new 1 9 ''w'')],
     db_subscriptions := [(2, 0, subscription_new 0 2 1 example_url ''s'')],
     db_rules := [((1, 1), 0, demo_rule 0)],
     db_jobs := [(7, lease_job 3 5000000000 (new_job (FanOut 2 1 None) ''o'' 0))]\<rparr>"

definition demo_article :: "dedup_key \<Rightarrow> u64 \<Rightarrow> article" where
  "demo_article key revision = \<lparr>art_id = 50, art_key = key, art_state = default_state, art_first_arrived_at = 10,
     art_origins = [1], art_revision = revision\<rparr>"

definition demo_evaluation :: "u64 \<Rightarrow> work_item" where
  "demo_evaluation v = EvaluateArticleRules 1 50 [\<lparr>pre_rule = 1, pre_version = v, pre_subscription = 2\<rparr>]"

definition demo_lib1 :: reader_db where
  "demo_lib1 = demo_lib
    \<lparr>db_articles := [((1, 50), 1, demo_article (sr_key example_record) 1)],
     db_dedup := [((1, ''t''), sr_key example_record, 50)],
     db_origins := [(1, 50, 2, 1)],
     db_jobs := db_jobs demo_lib @ [(0, new_job (demo_evaluation 0) ''internal:workspace:'' 0)]\<rparr>"

lemmas demo_lib_simps = demo_lib_def empty_reader_db_def demo_commit_def demo_target_def demo_leased_def
  workspace_new_def subscription_new_def lease_job_def new_job_def

lemma demo_rule_validate: "rule_validate (demo_rule v) = Inr ()"
  by (simp add: rule_validate_def demo_rule_def trim_ascii is_whitespace_def)

lemma demo_enabled:
  "db_rules db = [((1, 1), r, demo_rule v)] \<Longrightarrow> enabled_rules db 1 = Inr [demo_rule v]"
  by (simp add: enabled_rules_def demo_rule_validate) (simp add: demo_rule_def)

lemma demo_lease: "assert_lease demo_lib 0 demo_leased = Inr ()" "assert_lease demo_lib1 0 demo_leased = Inr ()"
  by (simp_all add: assert_lease_def live_lease_def demo_lib1_def demo_lib_simps millis_def)

lemma demo_inv: "library_inv demo_queue_env demo_lib"
  by (simp add: library_inv_def articles_ok_def dedup_ok_def origins_ok_def single_home_def demo_lib_def
      empty_reader_db_def)

lemma demo_lib_tables [simp]:
  "db_articles demo_lib = []" "db_dedup demo_lib = []" "db_origins demo_lib = []" "db_auto_read_days demo_lib = []"
  "db_rules demo_lib = [((1, 1), 0, demo_rule 0)]" "map_of (db_jobs demo_lib) 0 = None"
  by (simp_all add: demo_lib_def empty_reader_db_def)

lemma demo_steps:
  "prior_by_article demo_lib 1 q = []" "indexed_article env demo_lib 1 rec = Inr None"
  "inherit_state demo_commit no_regroup None = None" "automatically_read example_dates demo_lib demo_commit = Inr False"
  "attach_origin 1 (fresh_article demo_commit) = demo_article (sr_key example_record) 1"
  by (simp_all add: prior_by_article_def indexed_article_def inherit_state_def article_state_merge_def no_regroup_def
      automatically_read_def attach_origin_def fresh_article_def demo_article_def demo_commit_def)

lemma demo_deliver:
  "deliver demo_queue_env example_dates demo_lib 0 demo_leased demo_commit = Inr (Delivered 50, demo_lib1)"
proof -
  let ?sub = "subscription_new 0 2 1 example_url ''s''"
  have target: "accepting_target demo_lib (dc_target demo_commit) ?sub"
    by (simp add: accepting_target_def demo_lib_simps active_subscription_def accepts_delivery_def)
  have commit: "dt_workspace_id (dc_target demo_commit) = 1" "dt_subscription_id (dc_target demo_commit) = 2"
    "dc_record demo_commit = example_record" "sr_id example_record = 1" "dc_proposed_article_id demo_commit = 50"
    by (simp_all add: demo_commit_def demo_target_def example_record_def)
  let ?a = "demo_article (sr_key example_record) 1"
  let ?db2 = "demo_lib\<lparr>db_articles := [((1, 50), 1, ?a)], db_dedup := [((1, ''t''), sr_key example_record, 50)]\<rparr>"
  have up: "upsert_article demo_queue_env demo_lib 1 ?a (sr_key example_record) = Inr ?db2"
    by (simp add: upsert_article_Inr demo_article_def put_def fits_i64_def i64_max_def demo_queue_env_def
        example_record_def)
  have rules: "enqueue_article_rule_jobs demo_queue_env (?db2\<lparr>db_origins := [(1, 50, 2, 1)]\<rparr>) 0 1 ?sub ?a
      example_record [2] = Inr demo_lib1"
    unfolding enqueue_article_rule_jobs_def
    by (simp add: demo_enabled) (simp add: enqueue_work_def demo_rule_def demo_article_def subscription_new_def
        article_rule_job_def demo_queue_env_def put_job_def demo_lib1_def demo_evaluation_def put_def
        workspace_origin_def millis_def demo_lib_def empty_reader_db_def)
  have id: "art_id ?a = 50" "art_id (fresh_article demo_commit) = 50"
    by (simp_all add: demo_article_def fresh_article_def commit)
  show ?thesis
    unfolding deliver_accepting [OF demo_lease(1) target] deliver_active_def commit demo_steps Let_def
      no_regroup_def [symmetric]
    by (simp add: demo_steps up commit id insert_row_def migrate_rule_provenance_def link_history_def rules)
      (simp add: no_regroup_def migrate_rule_provenance_def link_history_def insert_row_def rules id)
qed

lemma demo_fresh:
  "map_of (db_articles demo_lib) (dt_workspace_id (dc_target demo_commit), dc_proposed_article_id demo_commit) = None"
  by simp

theorem deliver_keeps_library_witness: "library_inv demo_queue_env demo_lib1"
  using deliver_keeps_library [OF demo_inv demo_deliver demo_fresh] by blast

theorem deliver_places_record_witness: "(1, 50, 2, 1) \<in> set (db_origins demo_lib1)"
  using deliver_places_record [OF demo_inv demo_deliver demo_fresh]
  by (auto simp: demo_commit_def demo_target_def example_record_def)

theorem redeliver_idempotent_witness:
  "deliver demo_queue_env example_dates demo_lib1 0 demo_leased
      (demo_commit\<lparr>dc_proposed_article_id := 51, dc_delivered_at := 20\<rparr>)
    = Inr (AlreadyDelivered 50, demo_lib1)"
  using redeliver_idempotent [OF demo_inv demo_deliver demo_fresh _ demo_lease(2)] by simp

theorem deliver_rejected_witness:
  "deliver demo_queue_env example_dates empty_reader_db 0 demo_leased demo_commit = Inl StaleLease"
  using deliver_rejected [of empty_reader_db 0 demo_leased StaleLease demo_queue_env example_dates demo_commit]
  by (simp add: assert_lease_def live_lease_def empty_reader_db_def)


text \<open>The same record with another title: article 50 moves to the new key.\<close>

definition demo_key :: dedup_key where
  "demo_key = (sr_key example_record)\<lparr>dk_title := ''n''\<rparr>"

definition demo_renamed :: delivery_commit where
  "demo_renamed = demo_commit\<lparr>dc_record := example_record\<lparr>sr_key := demo_key, sr_revision := 4\<rparr>,
    dc_proposed_article_id := 51\<rparr>"

lemma demo_renamed_succeeds:
  "\<exists>db. deliver demo_queue_env example_dates (demo_lib1\<lparr>db_rules := []\<rparr>) 0 demo_leased demo_renamed = Inr (AlreadyDelivered 50, db)"
proof -
  let ?db = "demo_lib1\<lparr>db_rules := []\<rparr>" and ?sub = "subscription_new 0 2 1 example_url ''s''"
  have lease: "assert_lease ?db 0 demo_leased = Inr ()"
    using demo_lease(2) by (simp add: assert_lease_def live_lease_def)
  have target: "accepting_target ?db (dc_target demo_renamed) ?sub"
    by (simp add: accepting_target_def demo_lib1_def demo_renamed_def demo_lib_simps active_subscription_def
        accepts_delivery_def)
  have commit: "dt_workspace_id (dc_target demo_renamed) = 1" "dt_subscription_id (dc_target demo_renamed) = 2"
    "sr_id (dc_record demo_renamed) = 1" "sr_key (dc_record demo_renamed) = demo_key"
    by (simp_all add: demo_renamed_def demo_commit_def demo_target_def example_record_def)
  have prior: "prior_by_article ?db 1 1 = [(50, [2])]"
    by (simp add: prior_by_article_def demo_lib1_def)
  let ?old = "demo_article (sr_key example_record) 1"
  have key: "demo_key \<noteq> sr_key example_record" by (simp add: demo_key_def example_record_def)
  let ?db1 = "?db\<lparr>db_articles := [], db_dedup := [], db_origins := []\<rparr>"
  let ?g = "\<lparr>rg_inherited = [(default_state, 10)], rg_moved_articles = [50], rg_moved_subscriptions = [2],
    rg_retained = Some (?old\<lparr>art_key := demo_key, art_origins := [], art_revision := 2\<rparr>)\<rparr>"
  have leave: "leave_article demo_queue_env 1 (dc_record demo_renamed) (?db, no_regroup) (50, [2]) = Inr (?db1, ?g)"
    using key
    by (simp add: leave_article_def commit demo_lib1_def demo_article_def detach_origin_def no_regroup_def
        delete_origins_def delete_dedup_def del_def demo_queue_env_def Let_def)
      (simp add: example_record_def remove_at_def)
  have index: "indexed_article demo_queue_env ?db1 1 (dc_record demo_renamed) = Inr None"
    by (simp add: indexed_article_def)
  let ?b = "?old\<lparr>art_key := demo_key, art_origins := [], art_revision := 2\<rparr>"
  have inherit: "inherit_state demo_renamed ?g None = Some ?b"
    by (simp add: inherit_state_def article_state_merge_def min_opt_def demo_article_def default_state_def)
  have attach: "attach_origin 1 ?b = demo_article demo_key 3"
    by (simp add: attach_origin_def demo_article_def)
  obtain db2 where up: "upsert_article demo_queue_env ?db1 1 (demo_article demo_key 3) demo_key = Inr db2"
    and rules: "db_rules db2 = []"
    by (auto simp: upsert_article_Inr demo_article_def fits_i64_def i64_max_def)
  have frame: "enqueue_article_rule_jobs demo_queue_env db 0 1 ?sub a rec subs = Inr db" if "db_rules db = []" for a rec subs and db :: reader_db
    using that by (induction subs) (auto simp: enqueue_article_rule_jobs_steps enabled_rules_def rule_steps_def)
  have "\<exists>db. deliver_active demo_queue_env example_dates ?db 0 demo_renamed ?sub = Inr (AlreadyDelivered 50, db)"
    unfolding deliver_active_def Let_def commit prior no_regroup_def [symmetric]
    using leave index inherit attach up rules
    by (simp add: frame link_history_def migrate_rule_provenance_def) (simp add: demo_article_def frame)
  then show ?thesis unfolding deliver_accepting [OF lease target] .
qed

theorem moved_record_keeps_state_witness:
  "\<exists>db r a. deliver demo_queue_env example_dates (demo_lib1\<lparr>db_rules := []\<rparr>) 0 demo_leased demo_renamed = Inr (AlreadyDelivered 50, db)
    \<and> map_of (db_articles db) (1, 50) = Some (r, a) \<and> art_state a = default_state \<and> art_first_arrived_at a = 10"
proof -
  let ?db = "demo_lib1\<lparr>db_rules := []\<rparr>"
  obtain db where run: "deliver demo_queue_env example_dates ?db 0 demo_leased demo_renamed = Inr (AlreadyDelivered 50, db)"
    using demo_renamed_succeeds by blast
  have commit: "dt_workspace_id (dc_target demo_renamed) = 1" "sr_id (dc_record demo_renamed) = 1"
    "sr_key (dc_record demo_renamed) = demo_key" "dc_proposed_article_id demo_renamed = 51"
    by (simp_all add: demo_renamed_def demo_commit_def demo_target_def example_record_def)
  have inv: "library_inv demo_queue_env ?db"
    using deliver_active_result(1) [OF demo_inv demo_fresh] demo_deliver
    by (cases rule: deliver_cases [OF demo_deliver]) (auto simp: library_inv_def)
  have key: "demo_key \<noteq> sr_key example_record" by (simp add: demo_key_def example_record_def)
  have row: "map_of (db_articles ?db) (1, 50) = Some (1, demo_article (sr_key example_record) 1)"
    and none: "\<nexists>j r b. map_of (db_articles ?db) (1, j) = Some (r, b) \<and> art_key b = demo_key"
    using key by (auto simp: demo_lib1_def demo_article_def split: if_splits)
  have "\<exists>j r a. AlreadyDelivered 50 = AlreadyDelivered j \<and> map_of (db_articles db) (1, j) = Some (r, a)
      \<and> (art_state a, art_first_arrived_at a) = joined None default_state 10"
    using moved_record_keeps_state [OF inv run, of 50 1 "demo_article (sr_key example_record) 1" None] row none key
    by (simp add: commit) (simp add: demo_lib1_def demo_article_def)
  with run show ?thesis by (auto simp: joined_def)
qed

end
