(* ===== verification/Content.thy ===== *)
theory Content
  imports Ingest_Db Queue_Runs
begin

text \<open>
  \<open>ingest_store/content.rs\<close>, \<open>content_snapshot.rs\<close> and the publishing part of \<open>search/projection.rs\<close>:
  the full text of a record is staged in chunks under a refresh id, a manifest switches readers to it,
  and older generations are cleaned up later. The inputs of the content operations that come from
  other packages are the fields of \<open>content_env\<close>: the plain text of an HTML document, the text of a
  protocol error of sqlx, and the text with which PostgreSQL refuses an insert that touches one row twice.
\<close>

record content_env =
  article_plain_text :: "string \<Rightarrow> string"
  protocol_text :: "string \<Rightarrow> string"
  repeated_row_text :: string

definition protocol_error :: "content_env \<Rightarrow> string \<Rightarrow> store_error" where
  "protocol_error cenv s = Unavailable (protocol_text cenv s)"

section \<open>Publishing\<close>

definition manifest_is_current_or_newer :: "content_manifest_pointer \<Rightarrow> content_revision \<Rightarrow> bool" where
  "manifest_is_current_or_newer current candidate \<longleftrightarrow>
    cm_source_revision current > cr_source_revision candidate
    \<or> cm_source_revision current = cr_source_revision candidate
      \<and> cm_fetched_at current \<ge> cr_fetched_at candidate"

text \<open>One \<open>INSERT ... ON CONFLICT DO UPDATE\<close> of at most \<open>65535 / 5\<close> rows.\<close>

definition stage_batch ::
  "content_env \<Rightarrow> source_record_id \<Rightarrow> uuid \<Rightarrow> string \<Rightarrow> 'a idb \<Rightarrow> content_chunk list \<Rightarrow> store_error + 'a idb" where
  "stage_batch cenv rec refresh representation db batch =
    (if distinct (map ch_ordinal batch)
     then Inr (db\<lparr>db_chunks :=
       fold (\<lambda>c. put (rec, refresh, representation, ch_ordinal c) (ch_bytes c)) batch (db_chunks db)\<rparr>)
     else Inl (Unavailable (repeated_row_text cenv)))"

definition stage_chunks ::
  "content_env \<Rightarrow> source_record_id \<Rightarrow> uuid \<Rightarrow> string \<Rightarrow> content_chunk list \<Rightarrow> 'a idb \<Rightarrow> store_error + 'a idb" where
  "stage_chunks cenv rec refresh representation chunks db =
    try_fold (stage_batch cenv rec refresh representation) db (slices (65535 div 5) chunks)"

definition publish_search :: "content_env \<Rightarrow> content_revision \<Rightarrow> 'a idb \<Rightarrow> store_error + 'a idb" where
  "publish_search cenv v db =
    (if map (\<lambda>c. unat (ch_ordinal c)) (cr_safe_html_chunks v) \<noteq> [0..<length (cr_safe_html_chunks v)]
     then Inl (protocol_error cenv ''search projection: noncontiguous content'')
     else case from_utf8 (concat (map ch_bytes (cr_safe_html_chunks v))) of
       None \<Rightarrow> Inl (protocol_error cenv ''search projection: invalid source UTF-8'')
     | Some html \<Rightarrow>
         Inr (db\<lparr>db_search_text := put (cr_record_id v) (article_plain_text cenv html) (db_search_text db)\<rparr>))"

definition publish_content ::
  "queue_env \<Rightarrow> content_env \<Rightarrow> 'a idb \<Rightarrow> instant \<Rightarrow> leased_work \<Rightarrow> content_revision \<Rightarrow> store_error + 'a idb" where
  "publish_content env cenv db wall lease v =
    and_then (assert_lease db wall lease) (\<lambda>_.
    let rec = cr_record_id v; refresh = cr_refresh_id v in
    if (case map_of (db_manifests db) rec of
          Some (_, current) \<Rightarrow> manifest_is_current_or_newer current v | None \<Rightarrow> False)
    then Inr db
    else
      and_then (stage_chunks cenv rec refresh ''raw'' (cr_raw_chunks v) db) (\<lambda>db1.
      and_then (stage_chunks cenv rec refresh ''safe'' (cr_safe_html_chunks v) db1) (\<lambda>db2.
      and_then (store_i64 (cr_source_revision v) ''content source revision'') (\<lambda>revision.
      and_then (publish_search cenv v
        (db2\<lparr>db_manifests := upsert_doc (db_manifests db2) rec revision (manifest_of v)\<rparr>)) (\<lambda>db3.
      enqueue_work env (db3\<lparr>db_refresh_failures := del rec (db_refresh_failures db3)\<rparr>)
        (cleanup_job env rec refresh) (CleanupContent rec refresh) (millis wall))))))"

definition cleanup_content ::
  "'a idb \<Rightarrow> instant \<Rightarrow> leased_work \<Rightarrow> source_record_id \<Rightarrow> store_error + 'a idb" where
  "cleanup_content db wall lease rec =
    and_then (assert_lease db wall lease) (\<lambda>_.
    case map_of (db_manifests db) rec of
      None \<Rightarrow> Inl (Unavailable ''content cleanup has no current manifest'')
    | Some (_, current) \<Rightarrow>
        Inr (db\<lparr>db_chunks :=
          filter (\<lambda>((r, refresh, _, _), _). \<not> (r = rec \<and> refresh \<noteq> cm_refresh_id current)) (db_chunks db)\<rparr>))"

definition record_refresh_failure ::
  "'a idb \<Rightarrow> instant \<Rightarrow> leased_work \<Rightarrow> source_record_id \<Rightarrow> string \<Rightarrow> store_error + 'a idb" where
  "record_refresh_failure db wall lease rec diagnostic =
    and_then (assert_lease db wall lease) (\<lambda>_.
    let revision = (case map_of (db_refresh_failures db) rec of Some (r, _) \<Rightarrow> r + 1 | None \<Rightarrow> 1)
    in Inr (db\<lparr>db_refresh_failures := put rec (revision, diagnostic, lw_job_id lease) (db_refresh_failures db)\<rparr>))"

section \<open>Reading\<close>

record content_snapshot =
  cs_record :: source_record_id
  cs_pointer :: content_manifest_pointer
  cs_html :: string

text \<open>The lateral join: the safe chunks of a generation, ordered by their ordinals.\<close>

definition safe_rows :: "'a idb \<Rightarrow> source_record_id \<Rightarrow> uuid \<Rightarrow> (u32 \<times> u8 list) list" where
  "safe_rows db rec refresh =
    map (\<lambda>((_, _, _, ordinal), bytes). (ordinal, bytes))
      (filter (\<lambda>((r, f, p, _), _). r = rec \<and> f = refresh \<and> p = ''safe'') (db_chunks db))"

text \<open>\<open>decode\<close>; the error is the text of the protocol error.\<close>

definition decode_snapshot ::
  "queue_env \<Rightarrow> content_env \<Rightarrow> 'a idb \<Rightarrow> source_record_id \<Rightarrow> content_manifest_pointer \<Rightarrow> string + content_snapshot" where
  "decode_snapshot env cenv db rec pointer =
    (let rows = sort_key fst (safe_rows db rec (cm_refresh_id pointer));
         invalid = Inl (protocol_text cenv (''invalid published content generation for record '' @ uuid_text env rec))
     in if cm_record_id pointer \<noteq> rec \<or> length rows \<noteq> unat (cm_safe_html_chunks pointer) then invalid
        else if map (\<lambda>(ordinal, _). unat ordinal) rows \<noteq> [0..<length rows] then invalid
        else case from_utf8 (concat (map snd rows)) of
          None \<Rightarrow> invalid
        | Some html \<Rightarrow> Inr \<lparr>cs_record = rec, cs_pointer = pointer, cs_html = html\<rparr>)"

text \<open>\<open>read_origins\<close>: the generations of the given records, in their order.\<close>

definition read_origins ::
  "queue_env \<Rightarrow> content_env \<Rightarrow> 'a idb \<Rightarrow> source_record_id list \<Rightarrow> string + content_snapshot list" where
  "read_origins env cenv db records =
    try_map (\<lambda>(r, m). decode_snapshot env cenv db r m)
      (List.map_filter (\<lambda>r. map_option (\<lambda>(_, m). (r, m)) (map_of (db_manifests db) r)) records)"

text \<open>\<open>read\<close>: of the generations an article's origins have, the one fetched last.\<close>

definition provenance_workspace :: "'a idb \<Rightarrow> subscription_id \<Rightarrow> workspace_id \<Rightarrow> bool" where
  "provenance_workspace db s w \<longleftrightarrow>
    (case map_of (db_subscriptions db) s of Some (_, sub) \<Rightarrow> sub_workspace sub = w | None \<Rightarrow> False)
    \<or> (case map_of (db_removed_subscriptions db) s of Some (_, sub) \<Rightarrow> sub_workspace sub = w | None \<Rightarrow> False)"

definition snapshot_candidates ::
  "'a idb \<Rightarrow> workspace_id \<Rightarrow> article_id \<Rightarrow> (source_record_id \<times> content_manifest_pointer) list" where
  "snapshot_candidates db w a =
    List.map_filter (\<lambda>(w', a', s, r).
      if w' = w \<and> a' = a \<and> provenance_workspace db s w
      then map_option (\<lambda>(_, m). (r, m)) (map_of (db_manifests db) r) else None) (db_origins db)"

fun latest_candidate ::
  "(source_record_id \<times> content_manifest_pointer) list \<Rightarrow> (source_record_id \<times> content_manifest_pointer) option" where
  "latest_candidate [] = None"
| "latest_candidate ((r, m) # xs) =
    (case latest_candidate xs of
       None \<Rightarrow> Some (r, m)
     | Some (r', m') \<Rightarrow>
         if cm_fetched_at m > cm_fetched_at m' \<or> cm_fetched_at m = cm_fetched_at m' \<and> r > r'
         then Some (r, m) else Some (r', m'))"

definition read_snapshot ::
  "queue_env \<Rightarrow> content_env \<Rightarrow> 'a idb \<Rightarrow> workspace_id \<Rightarrow> article_id \<Rightarrow> string + content_snapshot option" where
  "read_snapshot env cenv db w a =
    (case latest_candidate (snapshot_candidates db w a) of
       None \<Rightarrow> Inr None
     | Some (r, m) \<Rightarrow> and_then (decode_snapshot env cenv db r m) (\<lambda>s. Inr (Some s)))"

text \<open>\<open>chunks\<close> of the worker (\<open>engine/mod.rs\<close>).\<close>

definition chunks :: "u8 list \<Rightarrow> nat \<Rightarrow> content_chunk list" where
  "chunks bytes n =
    map (\<lambda>(i, bs). \<lparr>ch_ordinal = of_nat i, ch_bytes = bs\<rparr>) (List.enumerate 0 (slices n bytes))"

section \<open>Staged rows\<close>

lemma filter_put_other: "(\<And>v. \<not> P (k, v)) \<Longrightarrow> filter P (put k v t) = filter P t"
  unfolding put_def by (induction t) auto

abbreviation chunk_row where
  "chunk_row rec refresh representation c \<equiv> ((rec, refresh, representation, ch_ordinal c), ch_bytes c)"

lemma fold_put_append:
  assumes "distinct (map ch_ordinal cs)"
    and "\<And>c. c \<in> set cs \<Longrightarrow> (rec, refresh, p, ch_ordinal c) \<notin> fst ` set t"
  shows "fold (\<lambda>c. put (rec, refresh, p, ch_ordinal c) (ch_bytes c)) cs t = t @ map (chunk_row rec refresh p) cs"
  using assms
proof (induction cs arbitrary: t)
  case (Cons c cs)
  then have "put (rec, refresh, p, ch_ordinal c) (ch_bytes c) t = t @ [chunk_row rec refresh p c]"
    by (intro put_append) simp
  moreover have "(rec, refresh, p, ch_ordinal d) \<notin> fst ` set (t @ [chunk_row rec refresh p c])"
    if "d \<in> set cs" for d
  proof -
    have "ch_ordinal d \<noteq> ch_ordinal c" using Cons.prems(1) imageI [OF that, of ch_ordinal] by auto
    with Cons.prems(2) [of d] that show ?thesis by simp
  qed
  ultimately show ?case using Cons.IH [of "t @ [chunk_row rec refresh p c]"] Cons.prems(1) by simp
qed simp

lemma stage_batch_Inr:
  "stage_batch cenv rec refresh p db batch = Inr db' \<longleftrightarrow> distinct (map ch_ordinal batch) \<and>
    db' = db\<lparr>db_chunks := fold (\<lambda>c. put (rec, refresh, p, ch_ordinal c) (ch_bytes c)) batch (db_chunks db)\<rparr>"
  by (auto simp: stage_batch_def)

text \<open>Staging touches the chunk table only, and there only rows of its generation and representation.\<close>

lemma stage_chunks_frame:
  assumes "stage_chunks cenv rec refresh p cs db = Inr db'"
  shows "\<exists>t. db' = db\<lparr>db_chunks := t\<rparr>"
    and "(\<And>k v. P (k, v) \<Longrightarrow> \<nexists>o'. k = (rec, refresh, p, o')) \<Longrightarrow>
      filter P (db_chunks db') = filter P (db_chunks db)"
    and "distinct (map fst (db_chunks db)) \<Longrightarrow> distinct (map fst (db_chunks db'))"
proof -
  show "\<exists>t. db' = db\<lparr>db_chunks := t\<rparr>"
    by (rule try_fold_keeps [OF assms [unfolded stage_chunks_def]])
      (auto simp: stage_batch_Inr intro: exI [of _ "db_chunks db"])
  show "filter P (db_chunks db') = filter P (db_chunks db)"
    if P: "\<And>k v. P (k, v) \<Longrightarrow> \<nexists>o'. k = (rec, refresh, p, o')"
  proof (rule try_fold_keeps [OF assms [unfolded stage_chunks_def]])
    fix s x s'
    assume old: "filter P (db_chunks s) = filter P (db_chunks db)" and "stage_batch cenv rec refresh p s x = Inr s'"
    then have "db_chunks s' = fold (\<lambda>c. put (rec, refresh, p, ch_ordinal c) (ch_bytes c)) x (db_chunks s)"
      by (simp add: stage_batch_Inr)
    moreover have "filter P (fold (\<lambda>c. put (rec, refresh, p, ch_ordinal c) (ch_bytes c)) x t) = filter P t" for t
    proof (induction x arbitrary: t)
      case (Cons c x)
      have "filter P (put (rec, refresh, p, ch_ordinal c) (ch_bytes c) t) = filter P t"
        by (rule filter_put_other) (use P in blast)
      with Cons show ?case by simp
    qed simp
    ultimately show "filter P (db_chunks s') = filter P (db_chunks db)" using old by simp
  qed simp
  show "distinct (map fst (db_chunks db'))" if "distinct (map fst (db_chunks db))"
  proof (rule try_fold_keeps [OF assms [unfolded stage_chunks_def]])
    fix s x s'
    assume "distinct (map fst (db_chunks s))" and "stage_batch cenv rec refresh p s x = Inr s'"
    moreover have "distinct (map fst (fold (\<lambda>c. put (rec, refresh, p, ch_ordinal c) (ch_bytes c)) x t))"
      if "distinct (map fst t)" for t
      using that by (induction x arbitrary: t) (auto simp: distinct_put)
    ultimately show "distinct (map fst (db_chunks s'))" by (simp add: stage_batch_Inr)
  qed (rule that)
qed

text \<open>Staging a new generation with distinct ordinals appends its rows.\<close>

lemma stage_batches_new:
  assumes "try_fold (stage_batch cenv rec refresh p) db batches = Inr db'"
    and "distinct (map ch_ordinal (concat batches))"
    and "\<And>c. c \<in> set (concat batches) \<Longrightarrow> (rec, refresh, p, ch_ordinal c) \<notin> fst ` set (db_chunks db)"
  shows "db_chunks db' = db_chunks db @ map (chunk_row rec refresh p) (concat batches)"
  using assms
proof (induction batches arbitrary: db)
  case (Cons b bs)
  from Cons.prems(1) obtain db1 where one: "stage_batch cenv rec refresh p db b = Inr db1"
    and rest: "try_fold (stage_batch cenv rec refresh p) db1 bs = Inr db'" by auto
  have db1: "db_chunks db1 = db_chunks db @ map (chunk_row rec refresh p) b"
    using one Cons.prems(2,3) by (auto simp: stage_batch_Inr intro!: fold_put_append)
  have "(rec, refresh, p, ch_ordinal c) \<notin> fst ` set (db_chunks db1)" if "c \<in> set (concat bs)" for c
  proof -
    have "ch_ordinal c \<notin> set (map ch_ordinal b)" using that Cons.prems(2) by auto
    with Cons.prems(3) [of c] that show ?thesis by (auto simp: db1 image_iff)
  qed
  with Cons.IH [OF rest] Cons.prems(2) show ?case by (simp add: db1)
qed simp

lemma stage_chunks_new:
  assumes "stage_chunks cenv rec refresh p cs db = Inr db'" and "distinct (map ch_ordinal cs)"
    and "\<And>c. c \<in> set cs \<Longrightarrow> (rec, refresh, p, ch_ordinal c) \<notin> fst ` set (db_chunks db)"
  shows "db_chunks db' = db_chunks db @ map (chunk_row rec refresh p) cs"
  using stage_batches_new [OF assms(1) [unfolded stage_chunks_def]] assms(2,3) by (simp add: concat_slices)

section \<open>Published generations\<close>

lemma enqueue_work_only_jobs:
  "enqueue_work env db i item first = Inr db' \<Longrightarrow> \<exists>t. db' = db\<lparr>db_jobs := t\<rparr>"
  by (auto simp: enqueue_work_def put_job_def split: option.splits if_splits intro: exI [of _ "db_jobs db"])

definition superseded :: "'a idb \<Rightarrow> content_revision \<Rightarrow> bool" where
  "superseded db v \<longleftrightarrow> (case map_of (db_manifests db) (cr_record_id v) of
     Some (_, current) \<Rightarrow> manifest_is_current_or_newer current v | None \<Rightarrow> False)"

definition fresh_refresh :: "'a idb \<Rightarrow> content_revision \<Rightarrow> bool" where
  "fresh_refresh db v \<longleftrightarrow> (\<forall>p o'. (cr_record_id v, cr_refresh_id v, p, o') \<notin> fst ` set (db_chunks db))"

lemma publish_cases:
  assumes "publish_content env cenv db wall lease v = Inr db'"
  obtains (stale) "superseded db v" "db' = db"
  | (published) db1 db2 html where "\<not> superseded db v"
      "stage_chunks cenv (cr_record_id v) (cr_refresh_id v) ''raw'' (cr_raw_chunks v) db = Inr db1"
      "stage_chunks cenv (cr_record_id v) (cr_refresh_id v) ''safe'' (cr_safe_html_chunks v) db1 = Inr db2"
      "map (\<lambda>c. unat (ch_ordinal c)) (cr_safe_html_chunks v) = [0..<length (cr_safe_html_chunks v)]"
      "from_utf8 (concat (map ch_bytes (cr_safe_html_chunks v))) = Some html"
      "db_chunks db' = db_chunks db2"
      "db_manifests db' = put (cr_record_id v) (cr_source_revision v, manifest_of v) (db_manifests db)"
proof (cases "superseded db v")
  case True
  have "db' = db"
    using assms unfolding publish_content_def Let_def superseded_def [symmetric] and_then_eq_Inr if_P [OF True]
    by simp
  with True show thesis by (rule stale)
next
  case False
  from assms obtain db1 db2 db3 where st:
    "stage_chunks cenv (cr_record_id v) (cr_refresh_id v) ''raw'' (cr_raw_chunks v) db = Inr db1"
    "stage_chunks cenv (cr_record_id v) (cr_refresh_id v) ''safe'' (cr_safe_html_chunks v) db1 = Inr db2"
    "publish_search cenv v (db2\<lparr>db_manifests :=
      upsert_doc (db_manifests db2) (cr_record_id v) (cr_source_revision v) (manifest_of v)\<rparr>) = Inr db3"
    "enqueue_work env (db3\<lparr>db_refresh_failures := del (cr_record_id v) (db_refresh_failures db3)\<rparr>)
      (cleanup_job env (cr_record_id v) (cr_refresh_id v)) (CleanupContent (cr_record_id v) (cr_refresh_id v))
      (millis wall) = Inr db'"
    unfolding publish_content_def Let_def superseded_def [symmetric] and_then_eq_Inr if_not_P [OF False]
    by (elim exE conjE) simp
  obtain t1 t2 where "db1 = db\<lparr>db_chunks := t1\<rparr>" "db2 = db1\<lparr>db_chunks := t2\<rparr>"
    using stage_chunks_frame(1) [OF st(1)] stage_chunks_frame(1) [OF st(2)] by blast
  then have m: "db_manifests db2 = db_manifests db" by simp
  from st(3) obtain html where search:
    "map (\<lambda>c. unat (ch_ordinal c)) (cr_safe_html_chunks v) = [0..<length (cr_safe_html_chunks v)]"
    "from_utf8 (concat (map ch_bytes (cr_safe_html_chunks v))) = Some html"
    and db3: "db_chunks db3 = db_chunks db2"
      "db_manifests db3 = put (cr_record_id v) (cr_source_revision v, manifest_of v) (db_manifests db2)"
    by (auto simp: publish_search_def upsert_doc_def split: if_splits option.splits)
  obtain t where "db' = db3\<lparr>db_refresh_failures := del (cr_record_id v) (db_refresh_failures db3), db_jobs := t\<rparr>"
    using enqueue_work_only_jobs [OF st(4)] by blast
  then have "db_chunks db' = db_chunks db2"
    "db_manifests db' = put (cr_record_id v) (cr_source_revision v, manifest_of v) (db_manifests db)"
    using db3 m by simp_all
  with published [OF False st(1,2) search] show thesis .
qed

lemma safe_rows_filter: "safe_rows db rec refresh = map (\<lambda>((_, _, _, ordinal), bytes). (ordinal, bytes))
    (filter (\<lambda>((r, f, p, _), _). r = rec \<and> f = refresh \<and> p = ''safe'') (db_chunks db))"
  by (simp add: safe_rows_def)

text \<open>A publication writes the rows of its generation and leaves those of every other alone.\<close>

lemma publish_safe_rows:
  assumes "stage_chunks cenv rec refresh ''raw'' raw db = Inr db1"
    and "stage_chunks cenv rec refresh ''safe'' safe db1 = Inr db2"
  shows "(r, f) \<noteq> (rec, refresh) \<Longrightarrow> safe_rows db2 r f = safe_rows db r f"
    and "(\<And>p o'. (rec, refresh, p, o') \<notin> fst ` set (db_chunks db)) \<Longrightarrow> distinct (map ch_ordinal safe) \<Longrightarrow>
      safe_rows db2 rec refresh = map (\<lambda>c. (ch_ordinal c, ch_bytes c)) safe"
proof -
  show "safe_rows db2 r f = safe_rows db r f" if "(r, f) \<noteq> (rec, refresh)"
  proof -
    let ?P = "\<lambda>((r', f', p, _ :: u32), _ :: u8 list). r' = r \<and> f' = f \<and> p = ''safe''"
    have "filter ?P (db_chunks db2) = filter ?P (db_chunks db1)"
      by (rule stage_chunks_frame(2) [OF assms(2)]) (use that in auto)
    also have "\<dots> = filter ?P (db_chunks db)"
      by (rule stage_chunks_frame(2) [OF assms(1)]) auto
    finally show ?thesis by (simp add: safe_rows_filter)
  qed
  show "safe_rows db2 rec refresh = map (\<lambda>c. (ch_ordinal c, ch_bytes c)) safe"
    if fresh: "\<And>p o'. (rec, refresh, p, o') \<notin> fst ` set (db_chunks db)" and dist: "distinct (map ch_ordinal safe)"
  proof -
    let ?Q = "\<lambda>((r', f', p, _ :: u32), _ :: u8 list). r' = rec \<and> f' = refresh \<and> p = ''safe''"
    have "filter ?Q (db_chunks db1) = filter ?Q (db_chunks db)"
      by (rule stage_chunks_frame(2) [OF assms(1)]) auto
    also have "\<dots> = []" using fresh by (force simp: filter_empty_conv)
    finally have none: "filter ?Q (db_chunks db1) = []" .
    then have "(rec, refresh, ''safe'', o') \<notin> fst ` set (db_chunks db1)" for o'
      by (force simp: filter_empty_conv)
    then have "db_chunks db2 = db_chunks db1 @ map (chunk_row rec refresh ''safe'') safe"
      by (intro stage_chunks_new [OF assms(2) dist])
    with none show ?thesis by (simp add: safe_rows_filter comp_def filter_map)
  qed
qed

lemma contiguous_ordinals:
  assumes "map (\<lambda>c. unat (ch_ordinal c)) cs = [0..<length cs]"
  shows "distinct (map ch_ordinal cs)" "sorted (map ch_ordinal cs)"
proof -
  have nat: "map unat (map ch_ordinal cs) = [0..<length cs]" using assms by (simp add: comp_def)
  then have "distinct (map unat (map ch_ordinal cs))" by (simp only: distinct_upt)
  then show "distinct (map ch_ordinal cs)" by (simp only: distinct_map)
  have "sorted (map unat (map ch_ordinal cs))" by (simp only: nat sorted_upt)
  then show "sorted (map ch_ordinal cs)"
    by (simp add: sorted_map word_le_nat_alt comp_def)
qed

lemma decode_snapshot_cong:
  "safe_rows db' rec (cm_refresh_id m) = safe_rows db rec (cm_refresh_id m) \<Longrightarrow>
    decode_snapshot env cenv db' rec m = decode_snapshot env cenv db rec m"
  by (simp add: decode_snapshot_def)

lemma decode_snapshot_new:
  assumes "safe_rows db (cr_record_id v) (cr_refresh_id v) = map (\<lambda>c. (ch_ordinal c, ch_bytes c)) (cr_safe_html_chunks v)"
    and ord: "map (\<lambda>c. unat (ch_ordinal c)) (cr_safe_html_chunks v) = [0..<length (cr_safe_html_chunks v)]"
    and "length (cr_safe_html_chunks v) < 2 ^ 32"
    and "from_utf8 (concat (map ch_bytes (cr_safe_html_chunks v))) = Some html"
  shows "decode_snapshot env cenv db (cr_record_id v) (manifest_of v)
    = Inr \<lparr>cs_record = cr_record_id v, cs_pointer = manifest_of v, cs_html = html\<rparr>"
proof -
  let ?rows = "map (\<lambda>c. (ch_ordinal c, ch_bytes c)) (cr_safe_html_chunks v)"
  have "sort_key fst ?rows = ?rows"
    by (rule sort_key_id_if_sorted) (use contiguous_ordinals(2) [OF ord] in \<open>simp add: comp_def\<close>)
  moreover have "unat (of_nat (length (cr_safe_html_chunks v)) :: u32) = length (cr_safe_html_chunks v)"
    using assms(3) by (simp add: unat_of_nat)
  ultimately show ?thesis
    using assms by (simp add: decode_snapshot_def manifest_of_def Let_def comp_def)
qed

section \<open>Content is never torn\<close>

definition content_inv :: "queue_env \<Rightarrow> content_env \<Rightarrow> 'a idb \<Rightarrow> bool" where
  "content_inv env cenv db \<longleftrightarrow>
    (\<forall>rec r m. map_of (db_manifests db) rec = Some (r, m) \<longrightarrow> is_ok (decode_snapshot env cenv db rec m))"

definition not_older :: "content_manifest_pointer \<Rightarrow> content_manifest_pointer \<Rightarrow> bool" where
  "not_older m m' \<longleftrightarrow> cm_source_revision m < cm_source_revision m'
    \<or> cm_source_revision m = cm_source_revision m' \<and> cm_fetched_at m \<le> cm_fetched_at m'"

inductive content_step :: "queue_env \<Rightarrow> content_env \<Rightarrow> 'a idb \<Rightarrow> 'a idb \<Rightarrow> bool" for env cenv where
  step_publish: "publish_content env cenv db wall lease v = Inr db' \<Longrightarrow> fresh_refresh db v \<Longrightarrow>
    length (cr_safe_html_chunks v) < 2 ^ 32 \<Longrightarrow> content_step env cenv db db'"
| step_cleanup: "cleanup_content db wall lease rec = Inr db' \<Longrightarrow> content_step env cenv db db'"
| step_failure: "record_refresh_failure db wall lease rec diagnostic = Inr db' \<Longrightarrow> content_step env cenv db db'"

inductive content_run :: "queue_env \<Rightarrow> content_env \<Rightarrow> 'a idb \<Rightarrow> 'a idb \<Rightarrow> bool" for env cenv db where
  content_start: "content_run env cenv db db"
| content_next: "content_run env cenv db db1 \<Longrightarrow> content_step env cenv db1 db2 \<Longrightarrow> content_run env cenv db db2"

lemma publish_keeps:
  assumes inv: "content_inv env cenv db" and run: "publish_content env cenv db wall lease v = Inr db'"
    and fresh: "fresh_refresh db v" and len: "length (cr_safe_html_chunks v) < 2 ^ 32"
  shows "content_inv env cenv db'"
    and "map_of (db_manifests db) rec = Some (r, m) \<Longrightarrow>
      \<exists>r' m'. map_of (db_manifests db') rec = Some (r', m') \<and> not_older m m'"
proof -
  have "content_inv env cenv db' \<and> (map_of (db_manifests db) rec = Some (r, m) \<longrightarrow>
      (\<exists>r' m'. map_of (db_manifests db') rec = Some (r', m') \<and> not_older m m'))"
    using run
  proof (cases rule: publish_cases)
    case stale
    with inv show ?thesis by (auto simp: not_older_def)
  next
    case (published db1 db2 html)
    let ?rec = "cr_record_id v"
    have rows: "safe_rows db' r f = safe_rows db2 r f" for r f using published(6) by (simp add: safe_rows_def)
    note kept = publish_safe_rows(1) [OF published(2,3)]
    have new: "safe_rows db2 ?rec (cr_refresh_id v) = map (\<lambda>c. (ch_ordinal c, ch_bytes c)) (cr_safe_html_chunks v)"
      by (rule publish_safe_rows(2) [OF published(2,3) _ contiguous_ordinals(1) [OF published(4)]])
        (use fresh in \<open>simp add: fresh_refresh_def\<close>)
    have "is_ok (decode_snapshot env cenv db' k p)" if p: "map_of (db_manifests db') k = Some (q, p)" for k q p
    proof (cases "k = ?rec")
      case True
      with p published(7) have "p = manifest_of v" by simp
      with True decode_snapshot_new [OF _ published(4) len published(5), of db' env cenv] rows new
      show ?thesis by (simp add: is_ok_def)
    next
      case False
      with p published(7) have "map_of (db_manifests db) k = Some (q, p)" by simp
      with inv have "is_ok (decode_snapshot env cenv db k p)" by (simp add: content_inv_def)
      with False decode_snapshot_cong [of db' k p db env cenv] rows kept [of k "cm_refresh_id p"]
      show ?thesis by simp
    qed
    then have "content_inv env cenv db'" by (simp add: content_inv_def)
    moreover have "not_older m (manifest_of v)" if "map_of (db_manifests db) ?rec = Some (r, m)" for r m
      using published(1) that
      by (auto simp: superseded_def manifest_is_current_or_newer_def not_older_def manifest_of_def)
    ultimately show ?thesis using published(7) by (auto simp: not_older_def)
  qed
  then show "content_inv env cenv db'" and "map_of (db_manifests db) rec = Some (r, m) \<Longrightarrow>
      \<exists>r' m'. map_of (db_manifests db') rec = Some (r', m') \<and> not_older m m'" by blast+
qed

lemma cleanup_safe_rows:
  assumes "cleanup_content db wall lease rec = Inr db'" and "map_of (db_manifests db) k = Some (r, m)"
  shows "safe_rows db' k (cm_refresh_id m) = safe_rows db k (cm_refresh_id m)"
    and "db_manifests db' = db_manifests db"
proof -
  from assms(1) obtain q current where current: "map_of (db_manifests db) rec = Some (q, current)"
    and db': "db' = db\<lparr>db_chunks :=
      filter (\<lambda>((r, refresh, _, _), _). \<not> (r = rec \<and> refresh \<noteq> cm_refresh_id current)) (db_chunks db)\<rparr>"
    by (auto simp: cleanup_content_def split: option.splits)
  have "filter (\<lambda>((r, f, p, _), _). r = k \<and> f = cm_refresh_id m \<and> p = ''safe'') (db_chunks db')
      = filter (\<lambda>((r, f, p, _), _). r = k \<and> f = cm_refresh_id m \<and> p = ''safe'') (db_chunks db)"
    unfolding db' using assms(2) current by (auto simp: filter_filter intro!: filter_cong)
  then show "safe_rows db' k (cm_refresh_id m) = safe_rows db k (cm_refresh_id m)" by (simp add: safe_rows_def)
  show "db_manifests db' = db_manifests db" by (simp add: db')
qed

lemma content_step_keeps:
  assumes "content_step env cenv db db'" and "content_inv env cenv db"
  shows "content_inv env cenv db' \<and> (\<forall>rec r m. map_of (db_manifests db) rec = Some (r, m) \<longrightarrow>
      (\<exists>r' m'. map_of (db_manifests db') rec = Some (r', m') \<and> not_older m m'))"
  using assms
proof (cases rule: content_step.cases)
  case (step_publish wall lease v)
  from publish_keeps [OF assms(2) step_publish] show ?thesis by blast
next
  case (step_cleanup wall lease rec)
  have same: "db_manifests db' = db_manifests db"
    using step_cleanup by (auto simp: cleanup_content_def split: option.splits)
  have "is_ok (decode_snapshot env cenv db' k m)" if "map_of (db_manifests db) k = Some (r, m)" for k r m
    using decode_snapshot_cong [OF cleanup_safe_rows(1) [OF step_cleanup that], of env cenv] that assms(2)
    by (simp add: content_inv_def)
  with same show ?thesis by (simp add: content_inv_def not_older_def)
next
  case (step_failure wall lease rec diagnostic)
  then obtain t where "db' = db\<lparr>db_refresh_failures := t\<rparr>"
    by (auto simp: record_refresh_failure_def Let_def)
  then have "db_manifests db' = db_manifests db" "db_chunks db' = db_chunks db" by simp_all
  with assms(2) show ?thesis by (simp add: content_inv_def not_older_def decode_snapshot_def safe_rows_def)
qed

lemma content_run_keeps:
  assumes "content_run env cenv db db'" and "content_inv env cenv db"
  shows "content_inv env cenv db' \<and> (\<forall>rec r m. map_of (db_manifests db) rec = Some (r, m) \<longrightarrow>
      (\<exists>r' m'. map_of (db_manifests db') rec = Some (r', m') \<and> not_older m m'))"
  using assms
proof (induction rule: content_run.induct)
  case content_start
  then show ?case by (auto simp: not_older_def)
next
  case (content_next db1 db2)
  then have IH: "content_inv env cenv db1" "\<forall>rec r m. map_of (db_manifests db) rec = Some (r, m) \<longrightarrow>
      (\<exists>r' m'. map_of (db_manifests db1) rec = Some (r', m') \<and> not_older m m')" by blast+
  note step = content_step_keeps [OF content_next.hyps(2) IH(1)]
  have "\<exists>r' m'. map_of (db_manifests db2) rec = Some (r', m') \<and> not_older m m'"
    if "map_of (db_manifests db) rec = Some (r, m)" for rec r m
  proof -
    from IH(2) that obtain r1 m1 where m1: "map_of (db_manifests db1) rec = Some (r1, m1)" "not_older m m1" by blast
    with step obtain r2 m2 where "map_of (db_manifests db2) rec = Some (r2, m2)" "not_older m1 m2" by blast
    with m1(2) show ?thesis by (auto simp: not_older_def)
  qed
  with step show ?case by blast
qed

lemma try_map_ok: "(\<And>x. x \<in> set xs \<Longrightarrow> is_ok (f x)) \<Longrightarrow> is_ok (try_map f xs)"
  by (induction xs) (fastforce simp: is_ok_iff)+

lemma latest_candidate_mem: "latest_candidate xs = Some x \<Longrightarrow> x \<in> set xs"
  by (induction xs arbitrary: x rule: latest_candidate.induct) (auto split: option.splits if_splits)

lemma content_inv_reads:
  assumes "content_inv env cenv db"
  shows "is_ok (read_origins env cenv db records)" and "is_ok (read_snapshot env cenv db w a)"
proof -
  show "is_ok (read_origins env cenv db records)"
    unfolding read_origins_def
    by (rule try_map_ok) (use assms in \<open>auto simp: content_inv_def map_filter_def\<close>)
  have "is_ok (decode_snapshot env cenv db r m)" if "latest_candidate (snapshot_candidates db w a) = Some (r, m)" for r m
    using latest_candidate_mem [OF that] assms
    by (auto simp: content_inv_def snapshot_candidates_def map_filter_def split: if_splits)
  then show "is_ok (read_snapshot env cenv db w a)"
    by (auto simp: read_snapshot_def is_ok_def split: option.splits sum.splits)
qed

text \<open>C12. Content is never torn: after any sequence of publications (each under a new refresh id),
  cleanups and recorded failures, in any order and by any workers, the content of every article and the
  content of any list of records can be read, complete and in order.\<close>

theorem content_never_torn:
  assumes "content_run env cenv db0 db" and "db_manifests db0 = []"
  shows "is_ok (read_snapshot env cenv db w a) \<and> is_ok (read_origins env cenv db records)"
proof -
  have "content_inv env cenv db0" using assms(2) by (simp add: content_inv_def)
  with content_run_keeps [OF assms(1)] have "content_inv env cenv db" by blast
  then show ?thesis by (simp add: content_inv_reads)
qed

text \<open>C13. Published content never goes back: whatever a slow worker publishes later, the manifest of a
  record stays and never moves to an older source revision or to an older fetch of the same revision.\<close>

theorem content_never_goes_back:
  assumes "content_run env cenv db0 db" and "db_manifests db0 = []" and "content_run env cenv db db'"
    and "map_of (db_manifests db) rec = Some (r, m)"
  shows "\<exists>r' m'. map_of (db_manifests db') rec = Some (r', m') \<and> not_older m m'"
proof -
  have "content_inv env cenv db0" using assms(2) by (simp add: content_inv_def)
  with content_run_keeps [OF assms(1)] have "content_inv env cenv db" by blast
  with content_run_keeps [OF assms(3)] assms(4) show ?thesis by blast
qed

section \<open>What is published is what is read\<close>

lemma chunks_simps:
  "map ch_bytes (chunks bytes n) = slices n bytes"
  "length (chunks bytes n) = length (slices n bytes)"
  by (simp_all add: chunks_def comp_def case_prod_unfold map_snd_enumerate)

lemma chunks_ordinals:
  assumes "length (slices n bytes) < 2 ^ 32"
  shows "map (\<lambda>c. unat (ch_ordinal c)) (chunks bytes n) = [0..<length (chunks bytes n)]"
proof -
  let ?e = "List.enumerate 0 (slices n bytes)"
  have "map (\<lambda>c. unat (ch_ordinal c)) (chunks bytes n) = map (\<lambda>x. unat (of_nat (fst x) :: u32)) ?e"
    by (simp add: chunks_def comp_def case_prod_unfold)
  also have "\<dots> = map (\<lambda>i. unat (of_nat i :: u32)) (map fst ?e)"
    unfolding map_map comp_def ..
  also have "\<dots> = map (\<lambda>i. unat (of_nat i :: u32)) [0..<length (slices n bytes)]"
    by (simp only: map_fst_enumerate add_0)
  also have "\<dots> = map (\<lambda>i. i) [0..<length (slices n bytes)]"
    using assms by (intro map_cong) (auto simp: unat_of_nat)
  finally show ?thesis by (simp add: chunks_simps)
qed

text \<open>Extracted text that is split into chunks of any size and published is what readers get back,
  byte for byte, unless a newer generation was already there; cleaning up old generations changes
  nothing for them.\<close>

theorem published_content_read_back:
  assumes "publish_content env cenv db wall lease v = Inr db'" and "\<not> superseded db v"
    and "fresh_refresh db v"
    and "cr_safe_html_chunks v = chunks (as_bytes html) n" and "0 < n" and "utf8 html"
    and "length (slices n (as_bytes html)) < 2 ^ 32"
  shows "decode_snapshot env cenv db' (cr_record_id v) (manifest_of v)
      = Inr \<lparr>cs_record = cr_record_id v, cs_pointer = manifest_of v, cs_html = html\<rparr>
    \<and> map_of (db_manifests db') (cr_record_id v) = Some (cr_source_revision v, manifest_of v)
    \<and> (\<forall>wall lease db''. cleanup_content db' wall lease (cr_record_id v) = Inr db'' \<longrightarrow>
        decode_snapshot env cenv db'' (cr_record_id v) (manifest_of v)
          = decode_snapshot env cenv db' (cr_record_id v) (manifest_of v))"
  using assms(1)
proof (cases rule: publish_cases)
  case (published db1 db2 t)
  have rows: "safe_rows db' (cr_record_id v) (cr_refresh_id v)
      = map (\<lambda>c. (ch_ordinal c, ch_bytes c)) (cr_safe_html_chunks v)"
    using publish_safe_rows(2) [OF published(2,3) _ contiguous_ordinals(1) [OF published(4)]] assms(3) published(6)
    by (simp add: fresh_refresh_def safe_rows_def)
  have html: "from_utf8 (concat (map ch_bytes (cr_safe_html_chunks v))) = Some html"
    using assms(4-6) by (simp add: chunks_simps concat_slices from_utf8_as_bytes)
  have stored: "map_of (db_manifests db') (cr_record_id v) = Some (cr_source_revision v, manifest_of v)"
    using published(7) by simp
  have "length (cr_safe_html_chunks v) < 2 ^ 32" using assms(4,7) by (simp add: chunks_simps)
  from decode_snapshot_new [OF rows published(4) this html] stored
    decode_snapshot_cong [OF cleanup_safe_rows(1) [OF _ stored]]
  show ?thesis by blast
qed (use assms(2) in blast)

section \<open>A concrete publication\<close>

definition demo_content_env :: content_env where
  "demo_content_env = \<lparr>article_plain_text = id, protocol_text = id, repeated_row_text = ''twice''\<rparr>"

definition demo_revision :: content_revision where
  "demo_revision =
    \<lparr>cr_reddit_flair = None, cr_video = None, cr_publication = [], cr_record_id = 1, cr_source_revision = 3,
     cr_refresh_id = 8, cr_raw_chunks = [], cr_safe_html_chunks = chunks (as_bytes ''abc'') 2,
     cr_fetched_at = 5, cr_final_url = example_url\<rparr>"

definition demo_extraction :: leased_work where
  "demo_extraction = \<lparr>lw_job_id = 7, lw_item = ExtractFullText 1 3 example_url False, lw_token = 3,
     lw_deadline = 5000000000, lw_attempt = 0\<rparr>"

definition demo_published :: ingest_db where
  "demo_published = (case publish_content demo_queue_env demo_content_env demo_ingest_db 0 demo_extraction demo_revision of
     Inr db \<Rightarrow> db | Inl _ \<Rightarrow> demo_ingest_db)"

lemma demo_chunks:
  "chunks (as_bytes ''abc'') 2 = [\<lparr>ch_ordinal = 0, ch_bytes = [97, 98]\<rparr>, \<lparr>ch_ordinal = 1, ch_bytes = [99]\<rparr>]"
  by (simp add: chunks_def as_bytes_def)

lemma demo_utf8: "utf8 ''abc''"
  by (rule utf8_ascii) simp

lemma demo_publish:
  "\<exists>db. publish_content demo_queue_env demo_content_env demo_ingest_db 0
    demo_extraction demo_revision = Inr db"
proof -
  have bytes: "from_utf8 [97, 98, 99] = Some ''abc''"
    using from_utf8_as_bytes [OF demo_utf8] by (simp add: as_bytes_def)
  show ?thesis
    by (simp add: publish_content_def assert_lease_def live_lease_def demo_ingest_db_def demo_extraction_def lease_job_def new_job_def
        millis_def demo_revision_def stage_chunks_def demo_chunks stage_batch_def publish_search_def bytes
        Let_def fits_i64_def i64_max_def enqueue_work_def cleanup_job_def demo_queue_env_def store_doc_def
        source_origin_def http_origin_def is_http_def example_url_def example_record_def upsert_doc_def)
qed

lemma demo_fresh_refresh: "fresh_refresh demo_ingest_db demo_revision" "\<not> superseded demo_ingest_db demo_revision"
  "db_manifests demo_ingest_db = []"
  by (simp_all add: fresh_refresh_def superseded_def demo_ingest_db_def)

lemma demo_slices: "length (slices 2 (as_bytes ''abc'')) < 2 ^ 32"
  by (simp add: as_bytes_def)

lemma demo_run:
  "publish_content demo_queue_env demo_content_env demo_ingest_db 0 demo_extraction demo_revision = Inr demo_published"
  using demo_publish by (auto simp: demo_published_def)

lemma demo_content_run: "content_run demo_queue_env demo_content_env demo_ingest_db demo_published"
proof -
  have "length (cr_safe_html_chunks demo_revision) < 2 ^ 32" by (simp add: demo_revision_def demo_chunks)
  from step_publish [OF demo_run demo_fresh_refresh(1) this] content_next [OF content_start] show ?thesis by blast
qed

lemma demo_manifest: "map_of (db_manifests demo_published) 1 = Some (3, manifest_of demo_revision)"
proof -
  have v: "cr_record_id demo_revision = 1" "cr_source_revision demo_revision = 3"
    by (simp_all add: demo_revision_def)
  show ?thesis using demo_run by (cases rule: publish_cases) (simp_all add: demo_fresh_refresh v)
qed

theorem published_content_read_back_witness:
  "decode_snapshot demo_queue_env demo_content_env demo_published 1 (manifest_of demo_revision)
    = Inr \<lparr>cs_record = 1, cs_pointer = manifest_of demo_revision, cs_html = ''abc''\<rparr>"
proof -
  have v: "cr_safe_html_chunks demo_revision = chunks (as_bytes ''abc'') 2" and r: "cr_record_id demo_revision = 1"
    by (simp_all add: demo_revision_def)
  from published_content_read_back [OF demo_run demo_fresh_refresh(2,1) v _ demo_utf8 demo_slices]
  show ?thesis by (simp add: r)
qed

theorem content_never_torn_witness:
  "is_ok (read_origins demo_queue_env demo_content_env demo_published [1])
    \<and> map_of (db_manifests demo_published) 1 = Some (3, manifest_of demo_revision)"
  using content_never_torn [OF demo_content_run demo_fresh_refresh(3)] demo_manifest by blast

theorem content_never_goes_back_witness:
  "\<exists>r m. map_of (db_manifests demo_published) 1 = Some (r, m) \<and> not_older (manifest_of demo_revision) m"
  by (rule content_never_goes_back [OF demo_content_run demo_fresh_refresh(3) content_start demo_manifest])

end
