(* ===== verification/Rule_Runs.thy ===== *)
theory Rule_Runs
  imports Content Delivery
begin

text \<open>
  \<open>ingest_store/rules.rs\<close> and the rule operations of \<open>repository/rule.rs\<close>: evaluating the rules that a
  delivery pinned, and applying one rule to the articles that already exist, page by page. The lower
  casing of strings is a parameter. A page is taken in the order of the article ids.
\<close>

section \<open>Inputs of an evaluation\<close>

definition article_full_text ::
  "queue_env \<Rightarrow> content_env \<Rightarrow> 'a idb \<Rightarrow> article \<Rightarrow> store_error + string option \<times> uuid list" where
  "article_full_text env cenv db a =
    and_then (map_err Unavailable (read_origins env cenv db (art_origins a))) (\<lambda>snapshots.
    let txt = concat (map cs_html snapshots)
    in Inr (if txt = [] then None else Some txt, map (\<lambda>s. cm_refresh_id (cs_pointer s)) snapshots))"

definition ensure_rule_content ::
  "(string \<Rightarrow> string) \<Rightarrow> rule \<Rightarrow> article \<Rightarrow> string option \<Rightarrow> store_error + unit" where
  "ensure_rule_content lower r a full_text =
    (if full_text = None \<and> (rule_field r = RuleText
        \<or> rule_field r = RuleBoth \<and> \<not> rule_matches lower r (dk_title (art_key a)) None)
     then Inl (Unavailable ''rule evaluation awaits fulltext'') else Inr ())"

definition upsert_rule_evaluation ::
  "workspace_id \<Rightarrow> article_id \<Rightarrow> rule_id \<Rightarrow> u64 \<Rightarrow> evaluation_reason \<Rightarrow> 'a idb \<Rightarrow> store_error + 'a idb" where
  "upsert_rule_evaluation w a r version reason db =
    and_then (store_i64 version ''rule version'') (\<lambda>v.
      Inr (db\<lparr>db_rule_evaluations := put (w, a, r, v) reason (db_rule_evaluations db)\<rparr>))"

text \<open>\<open>saturating_add(1)\<close> and the update of the article when its state changed.\<close>

definition sat_succ :: "u64 \<Rightarrow> u64" where
  "sat_succ r = (if r = - 1 then r else r + 1)"

definition save_state ::
  "workspace_id \<Rightarrow> article_id \<Rightarrow> article_state \<Rightarrow> article \<Rightarrow> 'a idb \<Rightarrow> store_error + article \<times> 'a idb" where
  "save_state w i original a db =
    (if art_state a = original then Inr (a, db)
     else
       let a' = a\<lparr>art_revision := sat_succ (art_revision a)\<rparr>
       in and_then (store_i64 (art_revision a') ''article revision'') (\<lambda>revision.
         Inr (a', if map_of (db_articles db) (w, i) = None then db
           else db\<lparr>db_articles := put (w, i) (revision, a') (db_articles db)\<rparr>)))"

section \<open>Evaluating pinned rules\<close>

definition evaluate_pending ::
  "(string \<Rightarrow> string) \<Rightarrow> workspace_id \<Rightarrow> article_id \<Rightarrow> string option \<Rightarrow> uuid list
    \<Rightarrow> article \<times> 'a idb \<Rightarrow> pending_rule_evaluation \<Rightarrow> store_error + article \<times> 'a idb" where
  "evaluate_pending lower w i full_text generations st pending =
    (let (a, db) = st in
     case map_of (db_rules db) (w, pre_rule pending) of
       None \<Rightarrow> Inr st
     | Some (_, r) \<Rightarrow>
         and_then (map_err (\<lambda>e. Unavailable (rule_error_text e)) (rule_validate r)) (\<lambda>_.
         if \<not> still_valid_for pending r then Inr st
         else
           and_then (ensure_rule_content lower r a full_text) (\<lambda>_.
           let matched = rule_matches lower r (dk_title (art_key a)) full_text;
               after = (if matched then rule_apply r (art_state a) else art_state a)
           in and_then (upsert_rule_evaluation w i (rule_id r) (rule_version r)
                (EvaluationReason matched (rule_action r) (art_state a \<noteq> after)
                  (matched \<and> art_state a = after) (Some generations)) db) (\<lambda>db'.
              Inr (a\<lparr>art_state := after\<rparr>, db')))))"

definition evaluate_article_rules ::
  "queue_env \<Rightarrow> content_env \<Rightarrow> (string \<Rightarrow> string) \<Rightarrow> 'a idb \<Rightarrow> instant \<Rightarrow> leased_work \<Rightarrow> workspace_id
    \<Rightarrow> article_id \<Rightarrow> pending_rule_evaluation list \<Rightarrow> store_error + 'a idb" where
  "evaluate_article_rules env cenv lower db wall lease w i evaluations =
    and_then (assert_lease db wall lease) (\<lambda>_.
    case map_of (db_articles db) (w, i) of
      None \<Rightarrow> Inr db
    | Some (_, a) \<Rightarrow>
        and_then (article_full_text env cenv db a) (\<lambda>(full_text, generations).
        and_then (try_fold (evaluate_pending lower w i full_text generations) (a, db) evaluations) (\<lambda>(a', db').
        and_then (save_state w i (art_state a) a' db') (\<lambda>(_, db''). Inr db''))))"

section \<open>Applying a rule to existing articles\<close>

text \<open>\<open>enqueue_rule_application\<close> pins the boundary: the largest article id of the workspace.\<close>

definition workspace_articles :: "'a idb \<Rightarrow> workspace_id \<Rightarrow> (article_id \<times> article) list" where
  "workspace_articles db w =
    sort_key fst (map (\<lambda>((_, i), _, a). (i, a)) (filter (\<lambda>((w', _), _). w' = w) (db_articles db)))"

definition max_article :: "article_id list \<Rightarrow> article_id option" where
  "max_article is = (case is of [] \<Rightarrow> None | i # js \<Rightarrow> Some (fold max js i))"

definition enqueue_rule_application ::
  "queue_env \<Rightarrow> 'a idb \<Rightarrow> instant \<Rightarrow> workspace_id \<Rightarrow> rule \<Rightarrow> repository_error + job_id \<times> 'a idb" where
  "enqueue_rule_application env db wall w r =
    and_then (map_err (\<lambda>e. Storage (rule_error_text e)) (rule_validate r)) (\<lambda>_.
    let i = job_hash env (''apply-rule/'' @ uuid_text env w @ ''/'' @ uuid_text env (rule_id r) @ ''/''
          @ nat_text (unat (rule_version r)));
        through = max_article (map (\<lambda>(_, a). art_id a) (workspace_articles db w))
    in and_then (enqueue_work_tx env db i (ApplyRule w (rule_id r) (rule_version r) None through) wall) (\<lambda>db'.
      Inr (i, db')))"

text \<open>One article of a page.\<close>

definition apply_rule_to ::
  "queue_env \<Rightarrow> content_env \<Rightarrow> (string \<Rightarrow> string) \<Rightarrow> workspace_id \<Rightarrow> rule \<Rightarrow> 'a idb \<Rightarrow> article_id \<times> article
    \<Rightarrow> store_error + 'a idb" where
  "apply_rule_to env cenv lower w r db row =
    (let (i, a) = row in
     and_then (article_full_text env cenv db a) (\<lambda>(full_text, _).
     and_then (ensure_rule_content lower r a full_text) (\<lambda>_.
     let matched = rule_matches lower r (dk_title (art_key a)) full_text;
         after = (if matched then rule_apply r (art_state a) else art_state a)
     in and_then (save_state w i (art_state a) (a\<lparr>art_state := after\<rparr>) db) (\<lambda>(a', db').
        upsert_rule_evaluation w (art_id a') (rule_id r) (rule_version r)
          (EvaluationReason matched (rule_action r) (art_state a \<noteq> after) (matched \<and> art_state a = after) None)
          db'))))"

definition rule_page ::
  "'a idb \<Rightarrow> workspace_id \<Rightarrow> article_id option \<Rightarrow> article_id \<Rightarrow> nat \<Rightarrow> (article_id \<times> article) list" where
  "rule_page db w after through limit =
    take limit (filter (\<lambda>(i, _). (case after of None \<Rightarrow> True | Some c \<Rightarrow> c < i) \<and> i \<le> through)
      (workspace_articles db w))"

definition rule_boundary :: "'a idb \<Rightarrow> workspace_id \<Rightarrow> article_id option \<Rightarrow> article_id option" where
  "rule_boundary db w through =
    (case through of Some t \<Rightarrow> Some t | None \<Rightarrow> max_article (map fst (workspace_articles db w)))"

definition apply_rule_batch ::
  "queue_env \<Rightarrow> content_env \<Rightarrow> (string \<Rightarrow> string) \<Rightarrow> 'a idb \<Rightarrow> instant \<Rightarrow> leased_work \<Rightarrow> workspace_id \<Rightarrow> rule_id
    \<Rightarrow> u64 \<Rightarrow> article_id option \<Rightarrow> article_id option \<Rightarrow> nat \<Rightarrow> store_error + article_id option \<times> 'a idb" where
  "apply_rule_batch env cenv lower db wall lease w rule version after through limit =
    and_then (assert_lease db wall lease) (\<lambda>_.
    case map_of (db_rules db) (w, rule) of
      None \<Rightarrow> Inr (None, db)
    | Some (_, r) \<Rightarrow>
        and_then (map_err (\<lambda>e. Unavailable (rule_error_text e)) (rule_validate r)) (\<lambda>_.
        if \<not> rule_enabled r \<or> rule_version r \<noteq> version then Inr (None, db)
        else case rule_boundary db w through of
          None \<Rightarrow> Inr (None, db)
        | Some bound \<Rightarrow>
            if limit > i64_max then Inl (Unavailable ''out of range integral type conversion attempted'')
            else
              let page = rule_page db w after bound limit in
              and_then (try_fold (apply_rule_to env cenv lower w r) db page) (\<lambda>db'.
              let cursor = (if page = [] then None else Some (art_id (snd (last page)))) in
              case cursor of
                Some c \<Rightarrow>
                  if length page = limit \<and> c \<noteq> bound
                  then and_then (enqueue_work env db' (rule_job env (rule_id r) version c)
                      (ApplyRule w (rule_id r) version (Some c) (Some bound)) (millis wall)) (\<lambda>db''.
                    Inr (Some c, db''))
                  else Inr (Some c, db')
              | None \<Rightarrow> Inr (None, db'))))"

section \<open>Rules only mark articles read\<close>

definition marked :: "article \<Rightarrow> article \<Rightarrow> bool" where
  "marked a a' \<longleftrightarrow> \<not> as_read (art_state a) \<and> \<not> as_protect_unread (art_state a)
    \<and> a' = a\<lparr>art_state := (art_state a)\<lparr>as_read := True\<rparr>, art_revision := sat_succ (art_revision a)\<rparr>"

lemma rule_apply_cases: "rule_apply r s = s \<or> \<not> as_read s \<and> \<not> as_protect_unread s \<and> rule_apply r s = s\<lparr>as_read := True\<rparr>"
  by (cases "rule_action r") (auto simp: rule_apply_def)

text \<open>The tables a rule run never writes, apart from its evaluations, the articles and the queue.\<close>

definition rule_frame where
  "rule_frame db = (db_dedup db, db_origins db, db_manifests db, db_chunks db, db_rules db)"

lemma upsert_rule_evaluation_Inr:
  "upsert_rule_evaluation w i r v reason db = Inr db' \<longleftrightarrow>
    fits_i64 v \<and> db' = db\<lparr>db_rule_evaluations := put (w, i, r, v) reason (db_rule_evaluations db)\<rparr>"
  by (auto simp: upsert_rule_evaluation_def)

lemma save_state_cases:
  assumes "save_state w i original a db = Inr (a', db')" and "map_of (db_articles db) (w, i) = Some row"
  obtains (same) "art_state a = original" "a' = a" "db' = db"
  | (saved) "art_state a \<noteq> original" "a' = a\<lparr>art_revision := sat_succ (art_revision a)\<rparr>"
      "db' = db\<lparr>db_articles := put (w, i) (art_revision a', a') (db_articles db)\<rparr>"
  using assms by (auto simp: save_state_def Let_def split: if_splits)

lemma article_full_text_cong:
  "rule_frame db' = rule_frame db \<Longrightarrow> article_full_text env cenv db' a = article_full_text env cenv db a"
  by (simp add: rule_frame_def article_full_text_def read_origins_def decode_snapshot_def safe_rows_def)

text \<open>What one rule does to an article, and the evaluation it records.\<close>

definition rule_outcome ::
  "queue_env \<Rightarrow> content_env \<Rightarrow> (string \<Rightarrow> string) \<Rightarrow> 'a idb \<Rightarrow> rule \<Rightarrow> article \<Rightarrow> bool \<times> article" where
  "rule_outcome env cenv lower db r a =
    (let full_text = (case article_full_text env cenv db a of Inr (t, _) \<Rightarrow> t | Inl _ \<Rightarrow> None);
         matched = rule_matches lower r (dk_title (art_key a)) full_text;
         after = (if matched then rule_apply r (art_state a) else art_state a)
     in (matched, if after = art_state a then a
       else a\<lparr>art_state := after, art_revision := sat_succ (art_revision a)\<rparr>))"

lemma rule_outcome_marked: "snd (rule_outcome env cenv lower db r a) = a \<or> marked a (snd (rule_outcome env cenv lower db r a))"
  using rule_apply_cases [of r "art_state a"] by (auto simp: rule_outcome_def marked_def Let_def)

lemma rule_outcome_read:
  "fst (rule_outcome env cenv lower db r a) \<Longrightarrow> \<not> as_protect_unread (art_state a) \<Longrightarrow>
    as_read (art_state (snd (rule_outcome env cenv lower db r a)))"
proof (cases "rule_action r")
  case MarkRead
  assume "fst (rule_outcome env cenv lower db r a)" and "\<not> as_protect_unread (art_state a)"
  moreover have "s\<lparr>as_read := True\<rparr> = s \<Longrightarrow> as_read s" for s :: article_state
    by (metis article_state.select_convs(1) article_state.surjective article_state.update_convs(1))
  ultimately show ?thesis using MarkRead by (auto simp: rule_outcome_def rule_apply_def Let_def)
qed

lemma apply_rule_to_Inr:
  assumes "apply_rule_to env cenv lower w r db (i, a) = Inr db'"
    and "map_of (db_articles db) (w, i) = Some (q, a)" and "art_id a = i"
  shows "rule_frame db' = rule_frame db" and "db_jobs db' = db_jobs db"
    and "db_articles db' = (let b = snd (rule_outcome env cenv lower db r a)
      in if b = a then db_articles db else put (w, i) (art_revision b, b) (db_articles db))"
    and "\<exists>reason. db_rule_evaluations db' = put (w, i, rule_id r, rule_version r) reason (db_rule_evaluations db)"
proof -
  from assms(1) obtain ft gens a' db1 reason where st:
    "article_full_text env cenv db a = Inr (ft, gens)"
    "save_state w i (art_state a) (a\<lparr>art_state := (if rule_matches lower r (dk_title (art_key a)) ft
      then rule_apply r (art_state a) else art_state a)\<rparr>) db = Inr (a', db1)"
    "upsert_rule_evaluation w (art_id a') (rule_id r) (rule_version r) reason db1 = Inr db'"
    unfolding apply_rule_to_def Let_def by auto
  have "rule_frame db' = rule_frame db \<and> db_jobs db' = db_jobs db
    \<and> db_articles db' = (let b = snd (rule_outcome env cenv lower db r a)
      in if b = a then db_articles db else put (w, i) (art_revision b, b) (db_articles db))
    \<and> db_rule_evaluations db' = put (w, i, rule_id r, rule_version r) reason (db_rule_evaluations db)"
    using st(2) assms(2)
  proof (cases rule: save_state_cases)
    case same
    then have "snd (rule_outcome env cenv lower db r a) = a" by (simp add: rule_outcome_def st(1) Let_def)
    with same st(3) assms(3) show ?thesis by (simp add: upsert_rule_evaluation_Inr rule_frame_def)
  next
    case saved
    then have a': "a' = snd (rule_outcome env cenv lower db r a)"
      by (simp add: rule_outcome_def st(1) Let_def)
    have "art_state a' \<noteq> art_state a" using saved(1,2) by simp
    then have "a' \<noteq> a" by blast
    have "art_id a' = i" using saved(2) assms(3) by simp
    with saved(3) st(3) a' \<open>a' \<noteq> a\<close> show ?thesis by (simp add: upsert_rule_evaluation_Inr rule_frame_def Let_def)
  qed
  then show "rule_frame db' = rule_frame db" and "db_jobs db' = db_jobs db"
    and "db_articles db' = (let b = snd (rule_outcome env cenv lower db r a)
      in if b = a then db_articles db else put (w, i) (art_revision b, b) (db_articles db))"
    and "\<exists>reason. db_rule_evaluations db' = put (w, i, rule_id r, rule_version r) reason (db_rule_evaluations db)"
    by auto
qed

section \<open>One page\<close>

lemma rule_outcome_cong:
  "rule_frame db' = rule_frame db \<Longrightarrow> rule_outcome env cenv lower db' r a = rule_outcome env cenv lower db r a"
  using article_full_text_cong [of db' db env cenv a] by (simp add: rule_outcome_def)

definition after_rule ::
  "queue_env \<Rightarrow> content_env \<Rightarrow> (string \<Rightarrow> string) \<Rightarrow> 'a idb \<Rightarrow> rule \<Rightarrow> (u64 \<times> article) option \<Rightarrow> (u64 \<times> article) option" where
  "after_rule env cenv lower db r row = map_option (\<lambda>(q, a). let b = snd (rule_outcome env cenv lower db r a)
    in if b = a then (q, a) else (art_revision b, b)) row"

definition page_done ::
  "queue_env \<Rightarrow> content_env \<Rightarrow> (string \<Rightarrow> string) \<Rightarrow> workspace_id \<Rightarrow> rule \<Rightarrow> article_id list \<Rightarrow> 'a idb \<Rightarrow> 'a idb \<Rightarrow> bool" where
  "page_done env cenv lower w r is db db' \<longleftrightarrow>
    rule_frame db' = rule_frame db
    \<and> (\<forall>v i. map_of (db_articles db') (v, i) =
        (if v = w \<and> i \<in> set is then after_rule env cenv lower db r (map_of (db_articles db) (v, i))
         else map_of (db_articles db) (v, i)))
    \<and> dom (map_of (db_rule_evaluations db')) =
        dom (map_of (db_rule_evaluations db)) \<union> (\<lambda>i. (w, i, rule_id r, rule_version r)) ` set is"

lemma apply_page:
  assumes "try_fold (apply_rule_to env cenv lower w r) db page = Inr db'" and "distinct (map fst page)"
    and "\<And>i a. (i, a) \<in> set page \<Longrightarrow> (\<exists>q. map_of (db_articles db) (w, i) = Some (q, a)) \<and> art_id a = i"
  shows "page_done env cenv lower w r (map fst page) db db'"
  using assms
proof (induction page arbitrary: db)
  case Nil
  then show ?case by (simp add: page_done_def)
next
  case (Cons row page)
  obtain j b where row: "row = (j, b)" by fastforce
  from Cons.prems(1) obtain db1 where one: "apply_rule_to env cenv lower w r db (j, b) = Inr db1"
    and rest: "try_fold (apply_rule_to env cenv lower w r) db1 page = Inr db'" by (auto simp: row)
  obtain q where b: "map_of (db_articles db) (w, j) = Some (q, b)" "art_id b = j"
    using Cons.prems(3) [of j b] by (auto simp: row)
  note step = apply_rule_to_Inr [OF one b]
  have art: "map_of (db_articles db1) k = (if k = (w, j)
      then after_rule env cenv lower db r (Some (q, b)) else map_of (db_articles db) k)" for k
    using b(1) by (simp add: step(3) after_rule_def Let_def)
  have out: "after_rule env cenv lower db1 r x = after_rule env cenv lower db r x" for x
    unfolding after_rule_def rule_outcome_cong [OF step(1)] ..
  have fresh: "j \<notin> set (map fst page)" using Cons.prems(2) by (simp add: row)
  have IH: "page_done env cenv lower w r (map fst page) db1 db'"
  proof (rule Cons.IH [OF rest])
    fix i a
    assume mem: "(i, a) \<in> set page"
    then have "i \<noteq> j" using fresh by force
    with Cons.prems(3) [of i a] mem show "(\<exists>q. map_of (db_articles db1) (w, i) = Some (q, a)) \<and> art_id a = i"
      by (simp add: art)
  qed (use Cons.prems(2) in simp)
  have evals: "dom (map_of (db_rule_evaluations db1)) =
      insert (w, j, rule_id r, rule_version r) (dom (map_of (db_rule_evaluations db)))"
    using step(4) by auto
  show ?case
    using IH step(1) evals fresh b(1) unfolding page_done_def
    by (auto simp: art out row)
qed

lemma workspace_articles_set:
  assumes "distinct (map fst (db_articles db))"
  shows "(i, a) \<in> set (workspace_articles db w) \<longleftrightarrow> (\<exists>q. map_of (db_articles db) (w, i) = Some (q, a))"
  using assms by (force simp: workspace_articles_def dest: map_of_SomeD)

lemma workspace_articles_order:
  assumes "distinct (map fst (db_articles db))"
  shows "sorted_wrt (<) (map fst (workspace_articles db w))"
proof -
  let ?rows = "filter (\<lambda>((w', _), _). w' = w) (db_articles db)"
  let ?pairs = "map (\<lambda>((_, i), _, a). (i, a)) ?rows"
  have "distinct (map fst ?rows)" using assms by (rule distinct_map_filter)
  moreover have "map fst ?rows = map (\<lambda>i. (w, i)) (map fst ?pairs)"
    by (induction "db_articles db") auto
  ultimately have "distinct (map (\<lambda>i. (w, i)) (map fst ?pairs))" by simp
  then have "distinct (map fst ?pairs)" by (metis distinct_map)
  then have "distinct (map fst (workspace_articles db w))"
    unfolding workspace_articles_def distinct_map_sort_key .
  moreover have "sorted (map fst (workspace_articles db w))" by (simp add: workspace_articles_def)
  ultimately show ?thesis by (simp add: strict_sorted_iff)
qed

text \<open>The rows of a page and of what is left behind it.\<close>

lemma rule_page_rows:
  assumes "distinct (map fst (db_articles db))" and "library_inv env db"
  shows "distinct (map fst (rule_page db w after bound limit))"
    and "(i, a) \<in> set (rule_page db w after bound limit) \<Longrightarrow>
      (\<exists>q. map_of (db_articles db) (w, i) = Some (q, a)) \<and> art_id a = i"
proof -
  let ?P = "\<lambda>(i, _). (case after of None \<Rightarrow> True | Some c \<Rightarrow> c < i) \<and> i \<le> bound"
  have order: "sorted_wrt (<) (map fst (workspace_articles db w))" by (rule workspace_articles_order [OF assms(1)])
  then have "distinct (map fst (workspace_articles db w))" by (simp add: strict_sorted_iff)
  then have "distinct (map fst (filter ?P (workspace_articles db w)))" by (rule distinct_map_filter)
  then show "distinct (map fst (rule_page db w after bound limit))"
    by (simp add: rule_page_def take_map [symmetric] distinct_take)
  show "(\<exists>q. map_of (db_articles db) (w, i) = Some (q, a)) \<and> art_id a = i"
    if "(i, a) \<in> set (rule_page db w after bound limit)"
  proof -
    have "(i, a) \<in> set (workspace_articles db w)"
      using that by (auto simp: rule_page_def dest: in_set_takeD)
    then obtain q where "map_of (db_articles db) (w, i) = Some (q, a)"
      using workspace_articles_set [OF assms(1)] by blast
    moreover have "articles_ok (dedup_fingerprint env) (map_of (db_articles db)) (map_of (db_dedup db))"
      using assms(2) by (simp add: library_inv_def)
    ultimately show ?thesis using articles_okD(1) by blast
  qed
qed

lemma sorted_filter_map: "sorted_wrt (<) (map fst xs) \<Longrightarrow> sorted_wrt (<) (map fst (filter P xs))"
  by (induction xs) auto

lemma rule_page_left:
  assumes "distinct (map fst (db_articles db))" and "map_of (db_articles db) (w, i) = Some (q, a)"
    and "case after of None \<Rightarrow> True | Some c \<Rightarrow> c < i" and "i \<le> bound" and "0 < limit"
    and "i \<notin> fst ` set (rule_page db w after bound limit)"
  shows "length (rule_page db w after bound limit) = limit" and "rule_page db w after bound limit \<noteq> []"
    and "fst (last (rule_page db w after bound limit)) < i"
proof -
  let ?P = "\<lambda>(i, _). (case after of None \<Rightarrow> True | Some c \<Rightarrow> c < i) \<and> i \<le> bound"
  define xs where "xs = filter ?P (workspace_articles db w)"
  have page: "rule_page db w after bound limit = take limit xs" by (simp add: rule_page_def xs_def)
  have "(i, a) \<in> set xs"
    using workspace_articles_set [OF assms(1), of i a w] assms(2-4) by (auto simp: xs_def)
  moreover have "(i, a) \<notin> set (take limit xs)" using assms(6) by (force simp: page)
  ultimately have mem: "(i, a) \<in> set (drop limit xs)"
    by (metis Un_iff append_take_drop_id set_append)
  then have "limit < length xs" by (metis drop_eq_Nil empty_iff list.set(1) not_le)
  then show len: "length (rule_page db w after bound limit) = limit" by (simp add: page)
  then show ne: "rule_page db w after bound limit \<noteq> []" using assms(5) by auto
  have "sorted_wrt (<) (map fst xs)"
    unfolding xs_def by (rule sorted_filter_map [OF workspace_articles_order [OF assms(1)]])
  then have "sorted_wrt (<) (map fst (take limit xs) @ map fst (drop limit xs))"
    by (simp flip: map_append)
  then have "\<forall>x \<in> set (map fst (take limit xs)). \<forall>y \<in> set (map fst (drop limit xs)). x < y"
    by (simp add: sorted_wrt_append)
  moreover have "fst (last (take limit xs)) \<in> set (map fst (take limit xs))"
    using ne page by simp
  moreover have "i \<in> set (map fst (drop limit xs))" using mem by force
  ultimately have "fst (last (take limit xs)) < i" by blast
  then show "fst (last (rule_page db w after bound limit)) < i" by (simp only: page)
qed

text \<open>A batch under a current rule: its page, and the continuation when the page was full.\<close>

lemma apply_rule_batch_cases:
  assumes "apply_rule_batch env cenv lower db wall lease w rule version after through limit = Inr (cursor, db')"
  obtains (cancelled) "cursor = None" "db' = db"
  | (page) q r bound db1 where "map_of (db_rules db) (w, rule) = Some (q, r)" "rule_enabled r" "rule_version r = version"
      "rule_boundary db w through = Some bound"
      "try_fold (apply_rule_to env cenv lower w r) db (rule_page db w after bound limit) = Inr db1"
      "cursor = (if rule_page db w after bound limit = [] then None
        else Some (art_id (snd (last (rule_page db w after bound limit)))))"
      "db' = db1 \<or> (\<exists>c. cursor = Some c \<and> length (rule_page db w after bound limit) = limit \<and> c \<noteq> bound
        \<and> enqueue_work env db1 (rule_job env (rule_id r) version c)
            (ApplyRule w (rule_id r) version (Some c) (Some bound)) (millis wall) = Inr db')"
      "\<And>c. cursor = Some c \<Longrightarrow> length (rule_page db w after bound limit) = limit \<Longrightarrow> c \<noteq> bound \<Longrightarrow>
        enqueue_work env db1 (rule_job env (rule_id r) version c)
            (ApplyRule w (rule_id r) version (Some c) (Some bound)) (millis wall) = Inr db'"
proof (cases "cursor = None \<and> db' = db")
  case True
  with cancelled show thesis by blast
next
  case False
  with assms obtain q r bound where r: "map_of (db_rules db) (w, rule) = Some (q, r)" "rule_enabled r"
    "rule_version r = version" "rule_boundary db w through = Some bound"
    by (auto simp: apply_rule_batch_def split: option.splits if_splits)
  from assms r obtain db1 where
    "try_fold (apply_rule_to env cenv lower w r) db (rule_page db w after bound limit) = Inr db1"
    "(case (if rule_page db w after bound limit = [] then None
        else Some (art_id (snd (last (rule_page db w after bound limit))))) of
        Some c \<Rightarrow> if length (rule_page db w after bound limit) = limit \<and> c \<noteq> bound
          then and_then (enqueue_work env db1 (rule_job env (rule_id r) version c)
            (ApplyRule w (rule_id r) version (Some c) (Some bound)) (millis wall)) (\<lambda>db''. Inr (Some c, db''))
          else Inr (Some c, db1)
      | None \<Rightarrow> Inr (None, db1)) = Inr (cursor, db')"
    by (auto simp: apply_rule_batch_def Let_def split: if_splits)
  then show thesis
    by (intro page [OF r]) (auto split: if_splits)
qed

section \<open>What rule runs guarantee\<close>

text \<open>Applying a rule to the existing articles skips none. A batch of a current, enabled rule
  evaluates exactly the articles of its page (each is marked read if the rule matches it and the user
  has not protected it, and has an evaluation on record); every other article is as before; and
  every article of the range that is not on the page comes after the cursor of a queued continuation.\<close>

theorem apply_rule_batch_complete:
  assumes "library_inv env db" and "distinct (map fst (db_articles db))"
    and "map_of (db_rules db) (w, rule) = Some (q, r)" and "rule_enabled r" and "rule_version r = version"
    and "0 < limit"
    and "apply_rule_batch env cenv lower db wall lease w rule version after (Some bound) limit = Inr (cursor, db')"
    and "(cursor, db') \<noteq> (None, db)"
  shows "\<exists>ids. page_done env cenv lower w r ids db db'
    \<and> (\<forall>i row. map_of (db_articles db) (w, i) = Some row \<longrightarrow> (case after of None \<Rightarrow> True | Some c \<Rightarrow> c < i) \<longrightarrow>
        i \<le> bound \<longrightarrow> i \<in> set ids
        \<or> (\<exists>c j. cursor = Some c \<and> c < i
          \<and> map_of (db_jobs db') (rule_job env (rule_id r) version c) = Some j
          \<and> ij_item j = ApplyRule w (rule_id r) version (Some c) (Some bound)))"
  using assms(7)
proof (cases rule: apply_rule_batch_cases)
  case (page q' r' bound' db1)
  let ?page = "rule_page db w after bound limit"
  have same: "r' = r" "bound' = bound" using page(1,4) assms(3) by (auto simp: rule_boundary_def)
  note rows = rule_page_rows [OF assms(2,1), where w = w and after = after and bound = bound and limit = limit]
  have done1: "page_done env cenv lower w r (map fst ?page) db db1"
    by (rule apply_page [OF page(5) [unfolded same] rows])
  have "\<exists>t. db' = db1\<lparr>db_jobs := t\<rparr>"
    using page(7) by (auto dest!: enqueue_work_only_jobs intro: exI [of _ "db_jobs db1"])
  then obtain t where "db' = db1\<lparr>db_jobs := t\<rparr>" by blast
  then have "page_done env cenv lower w r (map fst ?page) db db'"
    using done1 by (simp add: page_done_def rule_frame_def)
  moreover have "\<exists>c j. cursor = Some c \<and> c < i
      \<and> map_of (db_jobs db') (rule_job env (rule_id r) version c) = Some j
      \<and> ij_item j = ApplyRule w (rule_id r) version (Some c) (Some bound)"
    if i: "map_of (db_articles db) (w, i) = Some row" "case after of None \<Rightarrow> True | Some c \<Rightarrow> c < i" "i \<le> bound"
      "i \<notin> set (map fst ?page)" for i row
  proof -
    obtain q a where "row = (q, a)" by fastforce
    with i have left: "length ?page = limit" "?page \<noteq> []" "fst (last ?page) < i"
      using rule_page_left [OF assms(2), of w i q a after bound limit] assms(6) by auto
    obtain j b where last: "last ?page = (j, b)" by fastforce
    with rows(2) [of j b] left(2) have id: "art_id b = j" using last_in_set [of ?page] by simp
    have c: "cursor = Some j" using page(6) left(2) by (simp add: same last id)
    have "j < i" "j \<noteq> bound" using left(3) last i(3) by auto
    from page(8) [unfolded same, OF c left(1) this(2)] enqueue_work_items(1)
    obtain job where "map_of (db_jobs db') (rule_job env (rule_id r) version j) = Some job"
      "ij_item job = ApplyRule w (rule_id r) version (Some j) (Some bound)" by blast
    with c \<open>j < i\<close> show ?thesis by blast
  qed
  ultimately show ?thesis by blast
qed (use assms(8) in simp)

text \<open>A rule that an evaluation may act on: stored, unchanged since the delivery, enabled and matching.\<close>

definition acting_rule ::
  "(string \<Rightarrow> string) \<Rightarrow> 'a idb \<Rightarrow> workspace_id \<Rightarrow> article \<Rightarrow> string option \<Rightarrow> pending_rule_evaluation \<Rightarrow> bool" where
  "acting_rule lower db w a full_text p \<longleftrightarrow>
    (case map_of (db_rules db) (w, pre_rule p) of
       Some (_, r) \<Rightarrow> still_valid_for p r \<and> rule_matches lower r (dk_title (art_key a)) full_text
     | None \<Rightarrow> False)"

lemma evaluate_pending_step:
  assumes "evaluate_pending lower w i ft gens (a1, db1) p = Inr (a2, db2)"
  shows "db2 = db1\<lparr>db_rule_evaluations := db_rule_evaluations db2\<rparr>"
    and "a2 = a1 \<or> acting_rule lower db1 w a1 ft p \<and> \<not> as_read (art_state a1) \<and> \<not> as_protect_unread (art_state a1)
      \<and> a2 = a1\<lparr>art_state := (art_state a1)\<lparr>as_read := True\<rparr>\<rparr>"
proof -
  show "db2 = db1\<lparr>db_rule_evaluations := db_rule_evaluations db2\<rparr>"
    using assms by (auto simp: evaluate_pending_def Let_def upsert_rule_evaluation_Inr split: option.splits if_splits)
  show "a2 = a1 \<or> acting_rule lower db1 w a1 ft p \<and> \<not> as_read (art_state a1) \<and> \<not> as_protect_unread (art_state a1)
      \<and> a2 = a1\<lparr>art_state := (art_state a1)\<lparr>as_read := True\<rparr>\<rparr>"
  proof (cases "map_of (db_rules db1) (w, pre_rule p)")
    case None
    with assms show ?thesis by (simp add: evaluate_pending_def)
  next
    case (Some row)
    then obtain q r where r: "map_of (db_rules db1) (w, pre_rule p) = Some (q, r)" by (cases row) simp
    with assms rule_apply_cases [of r "art_state a1"] show ?thesis
      by (auto simp: evaluate_pending_def Let_def acting_rule_def split: if_splits)
  qed
qed

lemma evaluate_fold:
  assumes "try_fold (evaluate_pending lower w i ft gens) (a, db) ps = Inr (a', db')"
  shows "db' = db\<lparr>db_rule_evaluations := db_rule_evaluations db'\<rparr> \<and> (a' = a \<or>
      (\<exists>p \<in> set ps. acting_rule lower db w a ft p) \<and> \<not> as_read (art_state a) \<and> \<not> as_protect_unread (art_state a)
      \<and> a' = a\<lparr>art_state := (art_state a)\<lparr>as_read := True\<rparr>\<rparr>)"
proof -
  let ?Q = "\<lambda>(a', db'). db' = db\<lparr>db_rule_evaluations := db_rule_evaluations db'\<rparr> \<and> (a' = a \<or>
      (\<exists>p \<in> set ps. acting_rule lower db w a ft p) \<and> \<not> as_read (art_state a) \<and> \<not> as_protect_unread (art_state a)
      \<and> a' = a\<lparr>art_state := (art_state a)\<lparr>as_read := True\<rparr>\<rparr>)"
  have "?Q (a', db')"
  proof (rule try_fold_keeps [OF assms, where P = ?Q])
    fix st p st'
    assume p: "p \<in> set ps" and Q: "?Q st" and step: "evaluate_pending lower w i ft gens st p = Inr st'"
    obtain a1 db1 a2 db2 where st: "st = (a1, db1)" "st' = (a2, db2)" by fastforce
    note one = evaluate_pending_step [OF step [unfolded st]]
    have db1: "db1 = db\<lparr>db_rule_evaluations := db_rule_evaluations db1\<rparr>" using Q st by simp
    have "db2 = db1\<lparr>db_rule_evaluations := db_rule_evaluations db2\<rparr>" by (rule one(1))
    also have "\<dots> = db\<lparr>db_rule_evaluations := db_rule_evaluations db2\<rparr>" by (subst db1) simp
    finally have db2: "db2 = db\<lparr>db_rule_evaluations := db_rule_evaluations db2\<rparr>" .
    have "db_rules db1 = db_rules db" by (subst db1) simp
    then have act: "acting_rule lower db1 w a1 ft p = acting_rule lower db w a1 ft p" by (simp add: acting_rule_def)
    show "?Q st'"
    proof (cases "a2 = a1")
      case True
      with Q db2 st show ?thesis by simp
    next
      case False
      with one(2) act have new: "acting_rule lower db w a1 ft p" "\<not> as_read (art_state a1)"
        "\<not> as_protect_unread (art_state a1)" "a2 = a1\<lparr>art_state := (art_state a1)\<lparr>as_read := True\<rparr>\<rparr>" by auto
      with Q st have "a1 = a" by auto
      with new p db2 st show ?thesis by auto
    qed
  qed simp
  then show ?thesis by simp
qed

lemma library_inv_marked:
  assumes "library_inv env db" and "db_dedup db' = db_dedup db" and "db_origins db' = db_origins db"
    and "\<And>k. map_of (db_articles db') k = map_of (db_articles db) k
      \<or> (\<exists>q a a'. map_of (db_articles db) k = Some (q, a) \<and> marked a a' \<and> map_of (db_articles db') k = Some (art_revision a', a'))"
  shows "library_inv env db'"
proof -
  let ?A = "map_of (db_articles db)" and ?A' = "map_of (db_articles db')"
  have down: "\<exists>q b. ?A k = Some (q, b) \<and> art_id b = art_id a \<and> art_key b = art_key a \<and> art_origins b = art_origins a
      \<and> (q = art_revision b \<longrightarrow> p = art_revision a)" if "?A' k = Some (p, a)" for k p a
    using assms(4) [of k]
  proof
    assume "map_of (db_articles db') k = map_of (db_articles db) k"
    with that have "?A k = Some (p, a)" by simp
    then show ?thesis by auto
  qed (use that in \<open>auto simp: marked_def\<close>)
  have up: "\<exists>q b. ?A' k = Some (q, b) \<and> art_key b = art_key a \<and> art_origins b = art_origins a"
    if "?A k = Some (p, a)" for k p a
    using assms(4) [of k] that by (auto simp: marked_def)
  have ok: "articles_ok (dedup_fingerprint env) ?A (map_of (db_dedup db))"
    "dedup_ok (dedup_fingerprint env) ?A (map_of (db_dedup db))" "origins_ok ?A (set (db_origins db))"
    using assms(1) by (simp_all add: library_inv_def)
  have "articles_ok (dedup_fingerprint env) ?A' (map_of (db_dedup db))"
    unfolding articles_ok_def
  proof (intro allI impI)
    fix w i r a
    assume "?A' (w, i) = Some (r, a)"
    from down [OF this] obtain q b where b: "?A (w, i) = Some (q, b)" "art_id b = art_id a" "art_key b = art_key a"
      "art_origins b = art_origins a" "q = art_revision b \<longrightarrow> r = art_revision a" by blast
    from articles_okD [OF ok(1) b(1)] b show "art_id a = i \<and> art_revision a = r \<and> distinct (art_origins a)
        \<and> map_of (db_dedup db) (w, dedup_fingerprint env (art_key a)) = Some (art_key a, i)" by simp
  qed
  moreover have "dedup_ok (dedup_fingerprint env) ?A' (map_of (db_dedup db))"
    unfolding dedup_ok_def
  proof (intro allI impI)
    fix w x k i
    assume "map_of (db_dedup db) (w, x) = Some (k, i)"
    with ok(2) obtain r a where "x = dedup_fingerprint env k" "?A (w, i) = Some (r, a)" "art_key a = k"
      by (rule dedup_okE)
    with up [OF this(2)] show "x = dedup_fingerprint env k \<and> (\<exists>r a. ?A' (w, i) = Some (r, a) \<and> art_key a = k)" by auto
  qed
  moreover have "origins_ok ?A' (set (db_origins db))"
  proof (rule origins_okI)
    fix w i s q
    assume "(w, i, s, q) \<in> set (db_origins db)"
    with ok(3) obtain r a where "?A (w, i) = Some (r, a)" "q \<in> set (art_origins a)" by (rule origins_okE)
    with up [OF this(1)] show "\<exists>r a. ?A' (w, i) = Some (r, a) \<and> q \<in> set (art_origins a)" by auto
  next
    fix w i r a q
    assume a: "?A' (w, i) = Some (r, a)" "q \<in> set (art_origins a)"
    from down [OF a(1)] a(2) obtain p b where "?A (w, i) = Some (p, b)" "q \<in> set (art_origins b)" by auto
    with ok(3) show "\<exists>s. (w, i, s, q) \<in> set (db_origins db)" by (meson origins_okE')
  qed
  ultimately show ?thesis using assms(1-3) by (simp add: library_inv_def)
qed

text \<open>Evaluating the rules of a delivered article changes nothing but that article, and that only by
  marking it read: it was unread and not protected, and one of the pinned rules still exists unchanged
  and enabled and matches it. A rule that was edited, disabled or deleted in the meantime has no
  effect. The library stays consistent.\<close>

theorem evaluation_marks_only_matched:
  assumes "library_inv env db"
    and "evaluate_article_rules env cenv lower db wall lease w i evaluations = Inr db'"
  shows "library_inv env db'
    \<and> (\<forall>k. map_of (db_articles db') k = map_of (db_articles db) k
        \<or> k = (w, i) \<and> (\<exists>q a a' full_text gens p. map_of (db_articles db) k = Some (q, a) \<and> marked a a'
            \<and> map_of (db_articles db') k = Some (art_revision a', a')
            \<and> article_full_text env cenv db a = Inr (full_text, gens)
            \<and> p \<in> set evaluations \<and> acting_rule lower db w a full_text p))"
proof (cases "map_of (db_articles db) (w, i)")
  case None
  with assms show ?thesis by (auto simp: evaluate_article_rules_def)
next
  case (Some row)
  then obtain q a where a: "map_of (db_articles db) (w, i) = Some (q, a)" by (cases row) simp
  with assms(2) obtain ft gens a1 db1 a2 where st: "article_full_text env cenv db a = Inr (ft, gens)"
    "try_fold (evaluate_pending lower w i ft gens) (a, db) evaluations = Inr (a1, db1)"
    "save_state w i (art_state a) a1 db1 = Inr (a2, db')"
    by (auto simp: evaluate_article_rules_def)
  note ev = evaluate_fold [OF st(2)]
  then have db1: "db1 = db\<lparr>db_rule_evaluations := db_rule_evaluations db1\<rparr>" by blast
  then have tabs: "db_articles db1 = db_articles db" "db_dedup db1 = db_dedup db" "db_origins db1 = db_origins db"
    by (metis reader_db.select_convs reader_db.surjective reader_db.update_convs)+
  have row: "map_of (db_articles db1) (w, i) = Some (q, a)" by (simp add: tabs a)
  have eff: "db_dedup db' = db_dedup db \<and> db_origins db' = db_origins db
    \<and> (\<forall>k. map_of (db_articles db') k = map_of (db_articles db) k
        \<or> k = (w, i) \<and> (\<exists>a' p. marked a a' \<and> map_of (db_articles db') k = Some (art_revision a', a')
            \<and> p \<in> set evaluations \<and> acting_rule lower db w a ft p))"
    using st(3) row
  proof (cases rule: save_state_cases)
    case same
    with tabs show ?thesis by simp
  next
    case saved
    then have "a1 \<noteq> a" by auto
    with ev saved(2) have "marked a a2" "\<exists>p \<in> set evaluations. acting_rule lower db w a ft p"
      by (auto simp: marked_def)
    with saved(3) tabs show ?thesis by auto
  qed
  have "library_inv env db'"
  proof (rule library_inv_marked [OF assms(1)])
    fix k
    show "map_of (db_articles db') k = map_of (db_articles db) k
      \<or> (\<exists>q a a'. map_of (db_articles db) k = Some (q, a) \<and> marked a a' \<and> map_of (db_articles db') k = Some (art_revision a', a'))"
      using eff a by blast
  qed (use eff in blast)+
  with eff a st(1) show ?thesis by blast
qed

section \<open>A rule applied to existing articles ignores its subscription\<close>

definition demo_scope_db :: ingest_db where
  "demo_scope_db = demo_ingest_db
    \<lparr>db_articles := [((1, 50), 1, demo_article (sr_key example_record) 1)],
     db_dedup := [((1, ''t''), sr_key example_record, 50)],
     db_origins := [(1, 50, 9, 1)],
     db_rules := [((1, 1), 0, (demo_rule 0)\<lparr>rule_needles := [''t'']\<rparr>)]\<rparr>"

definition demo_apply_lease :: leased_work where
  "demo_apply_lease = \<lparr>lw_job_id = 7, lw_item = ApplyRule 1 1 0 None (Some 50), lw_token = 3,
     lw_deadline = 5000000000, lw_attempt = 0\<rparr>"


lemma demo_scope_inv: "library_inv demo_queue_env demo_scope_db" "distinct (map fst (db_articles demo_scope_db))"
  by (auto simp: library_inv_def articles_ok_def dedup_ok_def origins_ok_def single_home_def demo_scope_db_def
      demo_article_def demo_queue_env_def example_record_def split: if_splits)

definition demo_pending :: pending_rule_evaluation where
  "demo_pending = \<lparr>pre_rule = 1, pre_version = 0, pre_subscription = 2\<rparr>"

lemma demo_evaluate:
  "\<exists>db. evaluate_article_rules demo_queue_env demo_content_env id demo_scope_db 0 demo_apply_lease 1 50 [demo_pending] = Inr db
    \<and> map_option (\<lambda>(_, a). as_read (art_state a)) (map_of (db_articles db) (1, 50)) = Some True"
  by (simp add: evaluate_article_rules_def evaluate_pending_def still_valid_for_def demo_pending_def assert_lease_def
      live_lease_def demo_scope_db_def demo_ingest_db_def demo_apply_lease_def lease_job_def new_job_def millis_def
      demo_rule_def rule_validate_def trim_ascii is_whitespace_def i64_max_def article_full_text_def read_origins_def
      map_filter_def ensure_rule_content_def rule_matches_def demo_article_def example_record_def default_state_def
      rule_apply_def save_state_def sat_succ_def upsert_rule_evaluation_def fits_i64_def Let_def)

theorem evaluation_marks_only_matched_witness:
  "\<exists>db. evaluate_article_rules demo_queue_env demo_content_env id demo_scope_db 0 demo_apply_lease 1 50 [demo_pending] = Inr db
    \<and> library_inv demo_queue_env db
    \<and> map_option (\<lambda>(_, a). as_read (art_state a)) (map_of (db_articles db) (1, 50)) = Some True"
  using demo_evaluate evaluation_marks_only_matched [OF demo_scope_inv(1)] by blast

lemma demo_apply:
  "\<exists>db. apply_rule_batch demo_queue_env demo_content_env id demo_scope_db 0 demo_apply_lease 1 1 0 None (Some 60) 1
      = Inr (Some 50, db)"
  by (simp add: apply_rule_batch_def assert_lease_def live_lease_def demo_scope_db_def demo_ingest_db_def
      demo_apply_lease_def lease_job_def new_job_def millis_def demo_rule_def rule_validate_def rule_boundary_def
      trim_ascii is_whitespace_def i64_max_def rule_page_def workspace_articles_def apply_rule_to_def
      article_full_text_def read_origins_def map_filter_def ensure_rule_content_def rule_matches_def
      demo_article_def example_record_def default_state_def rule_apply_def save_state_def sat_succ_def
      upsert_rule_evaluation_def fits_i64_def enqueue_work_def rule_job_def demo_queue_env_def Let_def)

theorem apply_rule_batch_complete_witness:
  "\<exists>db ids. page_done demo_queue_env demo_content_env id 1 ((demo_rule 0)\<lparr>rule_needles := [''t'']\<rparr>) ids demo_scope_db db
    \<and> 50 \<in> set ids"
proof -
  let ?r = "(demo_rule 0)\<lparr>rule_needles := [''t'']\<rparr>"
  obtain db where run: "apply_rule_batch demo_queue_env demo_content_env id demo_scope_db 0 demo_apply_lease 1 1 0
      None (Some 60) 1 = Inr (Some 50, db)" using demo_apply by blast
  have r: "map_of (db_rules demo_scope_db) (1, 1) = Some (0, ?r)" "rule_enabled ?r" "rule_version ?r = 0"
    by (simp_all add: demo_scope_db_def demo_rule_def)
  have a: "map_of (db_articles demo_scope_db) (1, 50) = Some (1, demo_article (sr_key example_record) 1)"
    by (simp add: demo_scope_db_def)
  from apply_rule_batch_complete [OF demo_scope_inv r _ run] a show ?thesis by fastforce
qed

end
