(* ===== verification/Worker.thy ===== *)
theory Worker
  imports Poll Delivery Rule_Runs
begin

text \<open>
  The ingest worker (\<open>reader-ingest/src/engine/mod.rs\<close>): its policy, the claim of one job, the handler of
  every kind of work and the settlement of the outcome. A handler runs several transactions one after
  the other, and what an earlier one committed stays when a later one fails; so a handler is a function
  on the database that returns its result together with the database it leaves.

  The network (\<open>FeedFetcher\<close>, \<open>FullTextExtractor\<close>, \<open>BrowserCollector\<close>), the feed parsers, the HTML
  functions, the clock and the random identifiers are fields of \<open>worker_env\<close>. Every transaction draws the
  next reading of the clock, so that time may pass arbitrarily between two of them. The heartbeat that
  renews the lease beside the handler is not interleaved with it here; the renewal itself is part of the
  queue's step relation.
\<close>

section \<open>Errors and pages\<close>


datatype fetch_error = Rejected string | Http u16 | RetryAfter u16 instant

record fetched_page =
  fp_final_url :: url
  fp_content_type :: "string option"
  fp_body :: "u8 list"
  fp_validators :: cache_validators
  fp_not_modified :: bool

datatype browser_capability = BrowserAvailable | BrowserDegradedCapability

datatype ingest_error =
  IngestStore store_error
| IngestFetch fetch_error
| IngestParse string
| BrowserDegraded
| InvalidLeaseDuration
| InvalidRetryPolicy

primrec store_error_text :: "store_error \<Rightarrow> string" where
  "store_error_text StoreNotFound = ''record not found''"
| "store_error_text StaleLease = ''lease is stale or belongs to another worker''"
| "store_error_text StoreConflict = ''concurrent revision conflict''"
| "store_error_text (Unavailable s) = ''storage unavailable: '' @ s"

primrec fetch_error_text :: "(instant \<Rightarrow> string) \<Rightarrow> fetch_error \<Rightarrow> string" where
  "fetch_error_text show (Rejected s) = ''outbound request was rejected: '' @ s"
| "fetch_error_text show (Http n) = ''remote server returned HTTP '' @ nat_text (unat n)"
| "fetch_error_text show (RetryAfter n t) =
    ''remote server returned HTTP '' @ nat_text (unat n) @ ''; retry after '' @ show t"

fun diagnostic :: "(instant \<Rightarrow> string) \<Rightarrow> ingest_error \<Rightarrow> string" where
  "diagnostic show (IngestStore e) = ''storage: '' @ store_error_text e"
| "diagnostic show (IngestFetch (RetryAfter status not_before)) =
    ''remote_http_status: '' @ nat_text (unat status) @ ''; retry_after: '' @ show not_before"
| "diagnostic show (IngestFetch (Http status)) = ''remote_http_status: '' @ nat_text (unat status)"
| "diagnostic show (IngestFetch (Rejected reason)) = ''outbound_rejected: '' @ reason"
| "diagnostic show (IngestParse reason) =
    (if reason = ''web_feed_empty_after_success'' then reason else ''feed_parse: '' @ reason)"
| "diagnostic show BrowserDegraded = ''browser_degraded''"
| "diagnostic show InvalidLeaseDuration = ''invalid_lease_duration''"
| "diagnostic show InvalidRetryPolicy = ''invalid_retry_policy''"

section \<open>The policy of a worker\<close>

text \<open>Durations are nanoseconds. A \<open>chrono\<close> duration holds at most \<open>i64::MAX\<close> milliseconds.\<close>

record ingest_worker =
  wk_limits :: ingest_limits
  wk_lease_duration :: int
  wk_renew_interval :: int
  wk_retry_attempts :: u32
  wk_rate_limit_delay :: int
  wk_retry_jitter :: int

definition second :: int where
  "second = 1000000000"

definition millisecond :: int where
  "millisecond = 1000000"

definition time_delta_max :: int where
  "time_delta_max = 9223372036854775807 * millisecond"

definition checked_add_delta :: "int \<Rightarrow> int \<Rightarrow> int option" where
  "checked_add_delta a b = (if abs (a + b) \<le> time_delta_max then Some (a + b) else None)"

text \<open>The representable instants, as the bounds of \<open>DateTime<Utc>\<close>.\<close>

type_synonym utc_range = "instant \<times> instant"

definition checked_add_utc :: "utc_range \<Rightarrow> instant \<Rightarrow> int \<Rightarrow> instant option" where
  "checked_add_utc bounds t d = (if fst bounds \<le> t + d \<and> t + d \<le> snd bounds then Some (t + d) else None)"

definition worker_new :: "ingest_limits \<Rightarrow> int \<Rightarrow> ingest_error + ingest_worker" where
  "worker_new limits lease_duration =
    (if lease_duration \<le> 0 then Inl InvalidLeaseDuration
     else Inr \<lparr>wk_limits = limits, wk_lease_duration = lease_duration, wk_renew_interval = lease_duration div 3,
       wk_retry_attempts = - 1, wk_rate_limit_delay = 0, wk_retry_jitter = 0\<rparr>)"

definition with_runtime_policy ::
  "utc_range \<Rightarrow> instant \<Rightarrow> ingest_worker \<Rightarrow> int \<Rightarrow> u32 \<Rightarrow> int \<Rightarrow> int \<Rightarrow> ingest_error + ingest_worker" where
  "with_runtime_policy bounds wall wk renew_interval retry_attempts rate_limit_delay retry_jitter =
    (if renew_interval \<le> 0 \<or> renew_interval \<ge> wk_lease_duration wk \<or> retry_attempts = 0
     then Inl InvalidLeaseDuration
     else if rate_limit_delay \<le> 0 \<or> retry_jitter < 0
       \<or> Option.bind (checked_add_delta (max rate_limit_delay (1024 * second)) retry_jitter)
           (checked_add_utc bounds wall) = None
     then Inl InvalidRetryPolicy
     else Inr (wk\<lparr>wk_renew_interval := renew_interval, wk_retry_attempts := retry_attempts,
       wk_rate_limit_delay := rate_limit_delay, wk_retry_jitter := retry_jitter\<rparr>))"

section \<open>The time of a retry\<close>

definition not_before_of :: "ingest_error \<Rightarrow> instant option" where
  "not_before_of e = (case e of IngestFetch (RetryAfter _ t) \<Rightarrow> Some t | _ \<Rightarrow> None)"

definition rate_limited :: "ingest_error \<Rightarrow> bool" where
  "rate_limited e \<longleftrightarrow>
    (case e of IngestFetch (Http n) \<Rightarrow> n = 429 | IngestFetch (RetryAfter n _) \<Rightarrow> n = 429 | _ \<Rightarrow> False)"

definition retry_delay :: "ingest_worker \<Rightarrow> ingest_error \<Rightarrow> u32 \<Rightarrow> int" where
  "retry_delay wk e attempt =
    max (2 ^ unat (min attempt 10) * second) (if rate_limited e then wk_rate_limit_delay wk else 0)"

definition retry_jitter_of :: "ingest_worker \<Rightarrow> job_id \<Rightarrow> int" where
  "retry_jitter_of wk job =
    (let spread = wk_retry_jitter wk div millisecond
     in if spread > 0 then (uint job mod spread) * millisecond else 0)"

definition retry_at ::
  "utc_range \<Rightarrow> ingest_worker \<Rightarrow> instant \<Rightarrow> instant \<Rightarrow> leased_work \<Rightarrow> ingest_error \<Rightarrow> ingest_error + instant" where
  "retry_at bounds wk wall now lease e =
    and_then (ok_or (Option.bind (checked_add_utc bounds (max wall now) (retry_delay wk e (lw_attempt lease)))
        (\<lambda>t. checked_add_utc bounds t (retry_jitter_of wk (lw_job_id lease)))) InvalidLeaseDuration) (\<lambda>t.
      Inr (max t (case not_before_of e of Some b \<Rightarrow> b | None \<Rightarrow> now)))"

section \<open>The outside of a worker\<close>

record 'a worker_env =
  we_queue :: queue_env
  we_content :: content_env
  we_ai :: "'a ai_hooks"
  we_dates :: date_env
  we_lower :: "string \<Rightarrow> string"
  we_url :: url_parser
  we_duplicate :: string
  we_show :: "instant \<Rightarrow> string"
  we_bounds :: utc_range
  we_clock :: "nat \<Rightarrow> instant"
  we_fresh :: "nat \<Rightarrow> uuid"
  we_activity :: "nat \<Rightarrow> subscription_id \<Rightarrow> uuid"
  we_elapsed :: "nat \<Rightarrow> nat"
  we_fetch :: "url \<Rightarrow> cache_validators \<Rightarrow> fetch_error + fetched_page"
  we_extract :: "url \<Rightarrow> fetch_error + fetched_page"
  we_capability :: browser_capability
  we_collect :: "source_definition \<Rightarrow> fetch_error + source_record list"
  we_parse_rss :: "u8 list \<Rightarrow> url \<Rightarrow> string + parsed_record list \<times> nat"
  we_parse_xml :: "u8 list \<Rightarrow> url \<Rightarrow> string + parsed_record list"
  we_parse_json :: "u8 list \<Rightarrow> url \<Rightarrow> string + parsed_record list"
  we_decode_html :: "u8 list \<Rightarrow> string option \<Rightarrow> fetch_error + string"
  we_publication :: "string \<Rightarrow> url \<Rightarrow> publication_evidence list"
  we_flair :: "string \<Rightarrow> url \<Rightarrow> string option"
  we_video :: "string \<Rightarrow> url \<Rightarrow> fetch_error + video_metadata option"
  we_readable :: "string \<Rightarrow> string"
  we_sanitize :: "string \<Rightarrow> string"

section \<open>Handlers\<close>

text \<open>The state is the database and the number of readings of the clock so far.\<close>

type_synonym ('a, 'r) handler = "'a idb \<times> nat \<Rightarrow> (ingest_error + 'r) \<times> 'a idb \<times> nat"

definition give :: "'r \<Rightarrow> ('a, 'r) handler" where
  "give x st = (Inr x, st)"

definition lift_result :: "ingest_error + 'r \<Rightarrow> ('a, 'r) handler" where
  "lift_result r st = (r, st)"

definition then_do :: "('a, 'r) handler \<Rightarrow> ('r \<Rightarrow> ('a, 's) handler) \<Rightarrow> ('a, 's) handler" where
  "then_do m k st = (case m st of (Inl e, st') \<Rightarrow> (Inl e, st') | (Inr x, st') \<Rightarrow> k x st')"

text \<open>A read leaves the database; a transaction that fails leaves it too.\<close>

definition query :: "('a idb \<Rightarrow> store_error + 'r) \<Rightarrow> ('a, 'r) handler" where
  "query f st = (map_err IngestStore (f (fst st)), st)"

definition transact :: "('a idb \<Rightarrow> nat \<Rightarrow> store_error + 'r \<times> 'a idb) \<Rightarrow> ('a, 'r) handler" where
  "transact f st =
    (case f (fst st) (snd st) of
       Inl e \<Rightarrow> (Inl (IngestStore e), fst st, Suc (snd st))
     | Inr (x, db) \<Rightarrow> (Inr x, db, Suc (snd st)))"

definition transact_unit :: "('a idb \<Rightarrow> nat \<Rightarrow> store_error + 'a idb) \<Rightarrow> ('a, unit) handler" where
  "transact_unit f = transact (\<lambda>db n. and_then (f db n) (\<lambda>db'. Inr ((), db')))"

definition on_error :: "('a, 'r) handler \<Rightarrow> (ingest_error \<Rightarrow> ('a, unit) handler) \<Rightarrow> ('a, 'r) handler" where
  "on_error m k st =
    (case m st of
       (Inl e, st') \<Rightarrow> (case k e st' of (Inl e', st'') \<Rightarrow> (Inl e', st'') | (Inr _, st'') \<Rightarrow> (Inl e, st''))
     | (Inr x, st') \<Rightarrow> (Inr x, st'))"

definition elapsed_ms :: "'a worker_env \<Rightarrow> string \<Rightarrow> ('a, u64) handler" where
  "elapsed_ms E what st =
    (if we_elapsed E (snd st) < 2 ^ 64 then (Inr (of_nat (we_elapsed E (snd st))), st)
     else (Inl (IngestParse (what @ '' duration exceeds u64 milliseconds'')), st))"

definition commit_page :: "'a worker_env \<Rightarrow> leased_work \<Rightarrow> poll_commit \<Rightarrow> ('a, unit) handler" where
  "commit_page E lease c =
    transact_unit (\<lambda>db n. commit_poll (we_queue E) (we_ai E) (we_duplicate E) (we_activity E n) db (we_clock E n) lease c)"

section \<open>Polling a feed\<close>

definition ascii_whitespace_byte :: "u8 \<Rightarrow> bool" where
  "ascii_whitespace_byte b \<longleftrightarrow> b \<in> {9, 10, 12, 13, 32}"

definition looks_like_json :: "fetched_page \<Rightarrow> bool" where
  "looks_like_json page \<longleftrightarrow>
    (case fp_content_type page of Some v \<Rightarrow> contains (map ascii_lower_char v) ''json'' | None \<Rightarrow> False)
    \<or> find (\<lambda>b. \<not> ascii_whitespace_byte b) (fp_body page) = Some 123"

definition parse_page :: "'a worker_env \<Rightarrow> source_definition \<Rightarrow> fetched_page \<Rightarrow> ingest_error + parsed_record list" where
  "parse_page E source page =
    (let xml = map_err IngestParse (we_parse_xml E (fp_body page) (fp_final_url page));
         json = map_err IngestParse (we_parse_json E (fp_body page) (fp_final_url page))
     in case src_kind source of
       RssCoalesceIdentical \<Rightarrow>
         and_then (map_err IngestParse (we_parse_rss E (fp_body page) (fp_final_url page))) (\<lambda>(records, _). Inr records)
     | XmlFeed \<Rightarrow> xml
     | JsonFeed \<Rightarrow> json
     | AutoKind \<Rightarrow> if looks_like_json page then json else xml
     | _ \<Rightarrow> Inl (IngestParse ''Web feed source must use CollectWebFeed''))"

definition polled_of :: "record_revision \<Rightarrow> polled_record option" where
  "polled_of revision =
    (case rr_effect revision of
       Unchanged \<Rightarrow> None
     | RefreshContent \<Rightarrow> Some \<lparr>po_record = rr_record revision, po_action = PollRefreshContent\<rparr>
     | RegroupAndRefresh \<Rightarrow> Some \<lparr>po_record = rr_record revision, po_action = Regroup\<rparr>)"

definition feed_record ::
  "'a worker_env \<Rightarrow> 'a idb \<Rightarrow> source_id \<Rightarrow> nat \<Rightarrow> parsed_record \<Rightarrow> ingest_error + polled_record option" where
  "feed_record E db source n p =
    (case record_by_upstream db source (pa_upstream_id p) of
       Some existing \<Rightarrow>
         and_then (map_err (\<lambda>e. IngestParse (model_error_text e)) (source_record_revise (we_url E) existing p))
           (\<lambda>revision. Inr (polled_of revision))
     | None \<Rightarrow>
         and_then (map_err (\<lambda>e. IngestParse (model_error_text e))
             (source_record_from_parsed (we_url E) (we_fresh E n) source p))
           (\<lambda>r. Inr (Some \<lparr>po_record = r, po_action = Deliver\<rparr>)))"

text \<open>The loop over a page, shared by both kinds of collection: a repeated upstream identity is an error.\<close>

fun page_records ::
  "string \<Rightarrow> ('x \<Rightarrow> string) \<Rightarrow> (nat \<Rightarrow> 'x \<Rightarrow> ingest_error + polled_record option) \<Rightarrow> string list \<Rightarrow> nat \<Rightarrow> 'x list
    \<Rightarrow> ingest_error + polled_record list" where
  "page_records what upstream f seen n [] = Inr []"
| "page_records what upstream f seen n (p # ps) =
    (if upstream p \<in> set seen then Inl (IngestParse (''duplicate upstream identity in '' @ what))
     else and_then (f n p) (\<lambda>v.
       and_then (page_records what upstream f (upstream p # seen) (Suc n) ps) (\<lambda>vs.
         Inr (case v of None \<Rightarrow> vs | Some r \<Rightarrow> r # vs))))"

definition split_initial :: "bool \<Rightarrow> nat \<Rightarrow> 'x list \<Rightarrow> 'x list \<times> 'x list" where
  "split_initial is_initial limit records =
    (if is_initial \<and> length records > limit then (take limit records, drop limit records) else (records, []))"

definition collect_page ::
  "'a worker_env \<Rightarrow> ingest_limits \<Rightarrow> leased_work \<Rightarrow> source_definition \<Rightarrow> source_id \<Rightarrow> instant \<Rightarrow> string \<Rightarrow> url
    \<Rightarrow> cache_validators \<Rightarrow> nat \<Rightarrow> bool \<Rightarrow> polled_record list \<Rightarrow> ('a, unit) handler" where
  "collect_page E limits lease source source_id now what final_url validators found is_initial records =
    (let (taken, remainder) = split_initial is_initial (initial_feed_items limits) records in
     then_do (elapsed_ms E what) (\<lambda>duration.
       commit_page E lease
         \<lparr>pc_source_id = source_id, pc_source_revision = src_revision source, pc_records = taken,
          pc_remainder = remainder, pc_fetched_at = now, pc_final_url = final_url, pc_validators = validators,
          pc_incomplete = is_initial \<and> found > initial_feed_items limits, pc_duration_ms = duration\<rparr>))"

definition worker_poll ::
  "'a worker_env \<Rightarrow> ingest_limits \<Rightarrow> leased_work \<Rightarrow> source_id \<Rightarrow> instant \<Rightarrow> ('a, unit) handler" where
  "worker_poll E limits lease source_id now =
    then_do (query (\<lambda>db. active_delivery_count db source_id)) (\<lambda>count.
    if count = 0 then give ()
    else then_do (query (\<lambda>db. pending_poll db source_id (fanout_batch limits))) (\<lambda>pending.
    case pending of
      Some c \<Rightarrow> commit_page E lease c
    | None \<Rightarrow>
        then_do (query (\<lambda>db. poll_source db source_id)) (\<lambda>source.
        then_do (query (\<lambda>db. Inr (source_validators db source_id))) (\<lambda>validators.
        then_do (lift_result (map_err IngestFetch (we_fetch E (src_url source) validators))) (\<lambda>page.
        if length (fp_body page) > max_input_bytes limits
        then lift_result (Inl (IngestParse ''feed exceeds configured max_input_bytes''))
        else if fp_not_modified page then
          then_do (elapsed_ms E ''poll'') (\<lambda>duration.
            transact_unit (\<lambda>db n. record_source_success (we_ai E) (we_activity E n) db (we_clock E n) lease source_id now
              False duration))
        else
          then_do (lift_result (parse_page E source page)) (\<lambda>parsed (db, n).
            let is_initial = \<not> has_committed_poll db source_id in
            then_do (lift_result (page_records ''feed response'' pa_upstream_id (feed_record E db source_id) [] n parsed))
              (collect_page E limits lease source source_id now ''poll'' (fp_final_url page) (fp_validators page)
                (length parsed) is_initial)
              (db, n + length parsed)))))))"

section \<open>Collecting through the browser\<close>

definition listed_record ::
  "'a worker_env \<Rightarrow> 'a idb \<Rightarrow> source_definition \<Rightarrow> source_id \<Rightarrow> source_record \<Rightarrow> ingest_error + polled_record option" where
  "listed_record E db source source_id proposed =
    (case record_by_upstream db source_id (sr_upstream_id proposed) of
       Some existing \<Rightarrow>
         and_then (map_err (\<lambda>e. IngestParse (model_error_text e))
             (case src_kind source of
                BuiltIn Dropbox \<Rightarrow> revise_from_dropbox_listing (we_dates E) existing proposed
              | _ \<Rightarrow> source_record_revise_from_record existing proposed))
           (\<lambda>revision. Inr (polled_of revision))
     | None \<Rightarrow> Inr (Some \<lparr>po_record = proposed, po_action = Deliver\<rparr>))"

definition browser_error :: "fetch_error \<Rightarrow> ingest_error" where
  "browser_error e = (if e = Rejected ''browser_degraded'' then BrowserDegraded else IngestFetch e)"

definition collect_web_feed ::
  "'a worker_env \<Rightarrow> ingest_limits \<Rightarrow> leased_work \<Rightarrow> source_id \<Rightarrow> instant \<Rightarrow> ('a, unit) handler" where
  "collect_web_feed E limits lease source_id now =
    then_do (query (\<lambda>db. active_delivery_count db source_id)) (\<lambda>count.
    if count = 0 then give ()
    else then_do (query (\<lambda>db. pending_poll db source_id (fanout_batch limits))) (\<lambda>pending.
    case pending of
      Some c \<Rightarrow> commit_page E lease c
    | None \<Rightarrow>
        if we_capability E = BrowserDegradedCapability then lift_result (Inl BrowserDegraded)
        else
          then_do (query (\<lambda>db. poll_source db source_id)) (\<lambda>source (db, n).
            let is_initial = \<not> has_committed_poll db source_id in
            then_do (lift_result (map_err browser_error (we_collect E source))) (\<lambda>collected.
              if \<not> is_initial \<and> collected = [] then lift_result (Inl (IngestParse ''web_feed_empty_after_success''))
              else
                then_do (lift_result (page_records ''collection'' sr_upstream_id
                    (\<lambda>_. listed_record E db source source_id) [] n collected))
                  (collect_page E limits lease source source_id now ''collection'' (src_url source)
                    \<lparr>etag = None, last_modified = None\<rparr> (length collected) is_initial))
              (db, n))))"

section \<open>Fan-out\<close>

definition deliver_to ::
  "'a worker_env \<Rightarrow> leased_work \<Rightarrow> source_record \<Rightarrow> instant \<Rightarrow> delivery_target \<Rightarrow> ('a, delivery_result) handler" where
  "deliver_to E lease rec now target =
    transact (\<lambda>db n. deliver (we_queue E) (we_dates E) db (we_clock E n) lease
      \<lparr>dc_target = target, dc_record = rec, dc_proposed_article_id = we_fresh E n, dc_delivered_at = now\<rparr>)"

fun deliver_all ::
  "'a worker_env \<Rightarrow> leased_work \<Rightarrow> source_record \<Rightarrow> instant \<Rightarrow> subscription_id option \<Rightarrow> delivery_target list
    \<Rightarrow> ('a, subscription_id option) handler" where
  "deliver_all E lease rec now latest [] = give latest"
| "deliver_all E lease rec now latest (target # targets) =
    then_do (deliver_to E lease rec now target)
      (\<lambda>_. deliver_all E lease rec now (Some (dt_subscription_id target)) targets)"

definition fanout ::
  "'a worker_env \<Rightarrow> ingest_limits \<Rightarrow> leased_work \<Rightarrow> source_id \<Rightarrow> source_record_id \<Rightarrow> subscription_id option \<Rightarrow> instant
    \<Rightarrow> ('a, unit) handler" where
  "fanout E limits lease source_id record_id after now =
    then_do (query (\<lambda>db. poll_record db record_id)) (\<lambda>rec.
    then_do (query (\<lambda>db. delivery_targets db source_id after (fanout_batch limits))) (\<lambda>targets.
    then_do (deliver_all E lease rec now None targets) (\<lambda>last.
    case last of
      None \<Rightarrow> give ()
    | Some subscription \<Rightarrow>
        transact_unit (\<lambda>db n. advance_fanout (we_queue E) db (we_clock E n) lease subscription))))"

section \<open>Full text\<close>

definition embedded_kind :: "source_kind \<Rightarrow> bool" where
  "embedded_kind kind \<longleftrightarrow> (case kind of BuiltIn (Telegram _) \<Rightarrow> True | BuiltIn (Zhihu _) \<Rightarrow> True | _ \<Rightarrow> False)"

definition fulltext_page ::
  "'a worker_env \<Rightarrow> source_record \<Rightarrow> source_definition \<Rightarrow> u64 \<Rightarrow> url \<Rightarrow> ingest_error + fetched_page" where
  "fulltext_page E rec source source_revision u =
    (if embedded_kind (src_kind source) then
       if sr_revision rec \<noteq> source_revision then Inl (IngestParse ''embedded_content_revision_changed'')
       else and_then (ok_or (sr_feed_content_html rec) (IngestParse ''embedded_stored_body_missing'')) (\<lambda>html.
         Inr \<lparr>fp_final_url = u, fp_content_type = Some ''text/html; charset=utf-8'', fp_body = as_bytes html,
           fp_validators = \<lparr>etag = None, last_modified = None\<rparr>, fp_not_modified = False\<rparr>)
     else map_err IngestFetch (we_extract E u))"

definition career_category :: "source_record \<Rightarrow> string option" where
  "career_category rec = Option.bind (sr_categories rec) (find (\<lambda>c. c = ''Career''))"

definition content_of_page ::
  "'a worker_env \<Rightarrow> ingest_limits \<Rightarrow> source_record \<Rightarrow> bool \<Rightarrow> source_record_id \<Rightarrow> u64 \<Rightarrow> instant \<Rightarrow> uuid \<Rightarrow> fetched_page
    \<Rightarrow> ingest_error + content_revision" where
  "content_of_page E limits rec embedded record_id source_revision now refresh page =
    (if length (fp_body page) > max_input_bytes limits
     then Inl (IngestParse ''fulltext response exceeds configured max_input_bytes'')
     else
       and_then (map_err (\<lambda>e. IngestParse (fetch_error_text (we_show E) e))
           (we_decode_html E (fp_body page) (fp_content_type page))) (\<lambda>html.
       and_then (map_err IngestFetch (we_video E html (fp_final_url page))) (\<lambda>video.
       let readable = (if embedded then html else we_readable E html) in
       if length readable > max_extracted_bytes limits
       then Inl (IngestParse ''extracted content exceeds configured max_extracted_bytes'')
       else Inr
         \<lparr>cr_reddit_flair = (case we_flair E html (fp_final_url page) of
             Some flair \<Rightarrow> Some flair | None \<Rightarrow> career_category rec),
          cr_video = video, cr_publication = we_publication E html (fp_final_url page), cr_record_id = record_id,
          cr_source_revision = source_revision, cr_refresh_id = refresh,
          cr_raw_chunks = chunks (fp_body page) (content_chunk_bytes limits),
          cr_safe_html_chunks = chunks (as_bytes (we_sanitize E readable)) (content_chunk_bytes limits),
          cr_fetched_at = now, cr_final_url = fp_final_url page\<rparr>)))"

definition fulltext_publish ::
  "'a worker_env \<Rightarrow> ingest_limits \<Rightarrow> leased_work \<Rightarrow> source_record_id \<Rightarrow> u64 \<Rightarrow> url \<Rightarrow> instant \<Rightarrow> ('a, unit) handler" where
  "fulltext_publish E limits lease record_id source_revision u now =
    then_do (query (\<lambda>db. poll_record db record_id)) (\<lambda>rec.
    then_do (query (\<lambda>db. poll_source db (sr_source_id rec))) (\<lambda>source.
    then_do (lift_result (fulltext_page E rec source source_revision u)) (\<lambda>page (db, n).
    then_do (lift_result (content_of_page E limits rec (embedded_kind (src_kind source)) record_id source_revision now
        (we_fresh E n) page)) (\<lambda>revision.
      transact_unit (\<lambda>db n. publish_content (we_queue E) (we_content E) db (we_clock E n) lease revision))
      (db, n))))"

definition worker_fulltext ::
  "'a worker_env \<Rightarrow> ingest_limits \<Rightarrow> leased_work \<Rightarrow> source_record_id \<Rightarrow> u64 \<Rightarrow> url \<Rightarrow> instant \<Rightarrow> ('a, unit) handler" where
  "worker_fulltext E limits lease record_id source_revision u now =
    on_error (fulltext_publish E limits lease record_id source_revision u now) (\<lambda>e.
      transact_unit (\<lambda>db n. record_refresh_failure db (we_clock E n) lease record_id (diagnostic (we_show E) e)))"

section \<open>Dispatch and settlement\<close>

definition poll_or_collect ::
  "'a worker_env \<Rightarrow> ingest_limits \<Rightarrow> leased_work \<Rightarrow> source_id \<Rightarrow> instant \<Rightarrow> ('a, unit) handler" where
  "poll_or_collect E limits lease source_id now =
    then_do (query (\<lambda>db. poll_source db source_id)) (\<lambda>source.
      case src_kind source of
        WebPage _ \<Rightarrow> collect_web_feed E limits lease source_id now
      | BuiltIn _ \<Rightarrow> collect_web_feed E limits lease source_id now
      | _ \<Rightarrow> worker_poll E limits lease source_id now)"

definition handle :: "'a worker_env \<Rightarrow> ingest_limits \<Rightarrow> leased_work \<Rightarrow> instant \<Rightarrow> ('a, unit) handler" where
  "handle E limits lease now =
    (case lw_item lease of
       PollSource source_id \<Rightarrow> poll_or_collect E limits lease source_id now
     | RefreshSource source_id \<Rightarrow> poll_or_collect E limits lease source_id now
     | FanOut source_id record_id after \<Rightarrow> fanout E limits lease source_id record_id after now
     | ExtractFullText record_id source_revision u _ \<Rightarrow>
         worker_fulltext E limits lease record_id source_revision u now
     | CollectWebFeed source_id \<Rightarrow> collect_web_feed E limits lease source_id now
     | CleanupContent record_id keep \<Rightarrow>
         transact_unit (\<lambda>db n. cleanup_content db (we_clock E n) lease record_id)
     | EvaluateArticleRules w article evaluations \<Rightarrow>
         transact_unit (\<lambda>db n. evaluate_article_rules (we_queue E) (we_content E) (we_lower E) db (we_clock E n) lease
           w article evaluations)
     | ApplyRule w rule version after through \<Rightarrow>
         then_do (transact (\<lambda>db n. apply_rule_batch (we_queue E) (we_content E) (we_lower E) db (we_clock E n) lease
           w rule version after through (fanout_batch limits))) (\<lambda>_. give ()))"

text \<open>The arms of \<open>run_one\<close> for a result of the handler.\<close>

definition settle ::
  "'a worker_env \<Rightarrow> scheduler \<Rightarrow> ingest_worker \<Rightarrow> leased_work \<Rightarrow> instant \<Rightarrow> ingest_error + unit \<Rightarrow> ('a, bool) handler" where
  "settle E sch wk lease now result =
    (case result of
       Inr () \<Rightarrow>
         then_do (transact_unit (\<lambda>db n. complete sch db (we_clock E n) (lw_job_id lease) (lw_token lease))) (\<lambda>_. give True)
     | Inl e \<Rightarrow> \<lambda>(db, n).
         then_do (lift_result (retry_at (we_bounds E) wk (we_clock E n) now lease e)) (\<lambda>again.
         then_do
           (if (if lw_attempt lease = - 1 then - 1 else lw_attempt lease + 1) \<ge> wk_retry_attempts wk
            then transact_unit (\<lambda>db n. fail sch (we_activity E n) db (millis (we_clock E n)) (we_clock E n)
              (lw_job_id lease) (lw_token lease) (diagnostic (we_show E) e)
              (if rate_limited e then Some again else not_before_of e))
            else transact_unit (\<lambda>db n. retry sch (we_activity E n) db (millis (we_clock E n)) (we_clock E n)
              (lw_job_id lease) (lw_token lease) again (diagnostic (we_show E) e)))
           (\<lambda>_. lift_result (Inl e))) (db, Suc n))"

text \<open>One turn of a worker. The fuel is that of the claim; \<open>None\<close> stands for a claim that did not return.\<close>

definition run_one ::
  "'a worker_env \<Rightarrow> scheduler \<Rightarrow> ingest_worker \<Rightarrow> nat \<Rightarrow> job_id list \<Rightarrow> (string \<Rightarrow> bool) \<Rightarrow> lease_token \<Rightarrow> instant
    \<Rightarrow> 'a idb \<times> nat \<Rightarrow> ((ingest_error + bool) \<times> 'a idb \<times> nat) option" where
  "run_one E sch wk fuel locked reserved token now st =
    (case claim fuel sch locked reserved (we_activity E (snd st)) (fst st) now (now + wk_lease_duration wk) token of
       None \<Rightarrow> None
     | Some (Inl e) \<Rightarrow> Some (Inl (IngestStore e), fst st, Suc (snd st))
     | Some (Inr (None, db)) \<Rightarrow> Some (Inr False, db, Suc (snd st))
     | Some (Inr (Some lease, db)) \<Rightarrow>
         Some (let (result, st') = handle E (wk_limits wk) lease (we_clock E (Suc (snd st))) (db, Suc (Suc (snd st)))
           in settle E sch wk lease now result st'))"

end
