(* ===== verification/Worker_Runs.thy ===== *)
theory Worker_Runs
  imports Worker
begin

text \<open>
  What a worker does to the database. Every transaction of the store that a handler runs is fenced by the
  lease: the contract is a locale, each operation of the store is an interpretation, and the handlers are
  shown harmless once for all of them.
\<close>

section \<open>Fenced operations\<close>

named_theorems keeps_intros

definition keeps_db :: "('a, 'r) handler \<Rightarrow> 'a idb \<Rightarrow> bool" where
  "keeps_db m db \<longleftrightarrow> (\<forall>n. fst (snd (m (db, n))) = db)"

lemma keeps_give [keeps_intros]: "keeps_db (give x) db"
  by (simp add: keeps_db_def give_def)

lemma keeps_lift [keeps_intros]: "keeps_db (lift_result r) db"
  by (simp add: keeps_db_def lift_result_def)

lemma keeps_query [keeps_intros]: "keeps_db (query f) db"
  by (simp add: keeps_db_def query_def)

lemma keeps_elapsed [keeps_intros]: "keeps_db (elapsed_ms E what) db"
  by (simp add: keeps_db_def elapsed_ms_def)

lemma keeps_then_do [keeps_intros]:
  assumes "keeps_db m db" and "\<And>x. keeps_db (k x) db"
  shows "keeps_db (then_do m k) db"
  unfolding keeps_db_def
proof
  fix n
  obtain r st where run: "m (db, n) = (r, st)" by (cases "m (db, n)")
  then have "fst st = db" using assms(1) by (metis keeps_db_def fst_conv snd_conv)
  then show "fst (snd (then_do m k (db, n))) = db"
    using run assms(2) by (cases r; cases st) (simp_all add: then_do_def keeps_db_def)
qed

lemma keeps_on_error [keeps_intros]:
  assumes "keeps_db m db" and "\<And>e. keeps_db (k e) db"
  shows "keeps_db (on_error m k) db"
  unfolding keeps_db_def
proof
  fix n
  obtain r st where run: "m (db, n) = (r, st)" by (cases "m (db, n)")
  then have st: "fst st = db" using assms(1) by (metis keeps_db_def fst_conv snd_conv)
  have "fst (snd (k e st)) = db" for e
    using assms(2) [of e] st by (cases st) (simp add: keeps_db_def)
  then show "fst (snd (on_error m k (db, n))) = db"
    using run st by (auto simp: on_error_def split: sum.split prod.split) (metis fst_conv snd_conv)+
qed

text \<open>A handler that looks at its own state.\<close>

lemma keeps_here [keeps_intros]:
  assumes "\<And>n. fst (snd (f db n)) = db"
  shows "keeps_db (case_prod f) db"
  using assms by (simp add: keeps_db_def)

lemma keepsD: "keeps_db m db \<Longrightarrow> fst (snd (m (db, n))) = db"
  by (simp add: keeps_db_def)

lemma keeps_if [keeps_intros]:
  "(b \<Longrightarrow> keeps_db m db) \<Longrightarrow> (\<not> b \<Longrightarrow> keeps_db k db) \<Longrightarrow> keeps_db (if b then m else k) db"
  by simp

lemma keeps_case_option [keeps_intros]:
  "keeps_db m db \<Longrightarrow> (\<And>x. keeps_db (k x) db) \<Longrightarrow> keeps_db (case v of None \<Rightarrow> m | Some x \<Rightarrow> k x) db"
  by (cases v) simp_all

text \<open>The contract: under a lease that does not hold, the operation changes nothing.\<close>

locale fenced_operation =
  fixes op :: "nat \<Rightarrow> 'a idb \<Rightarrow> instant \<Rightarrow> leased_work \<Rightarrow> store_error + 'r \<times> 'a idb"
  assumes fenced: "assert_lease db wall lease = Inl e \<Longrightarrow> op n db wall lease = Inr (x, db') \<Longrightarrow> db' = db"
begin

lemma transact_harmless:
  assumes "\<And>n. assert_lease db (clock n) lease \<noteq> Inr ()"
  shows "keeps_db (transact (\<lambda>db n. op n db (clock n) lease)) db"
  unfolding keeps_db_def
proof
  fix n
  obtain e where "assert_lease db (clock n) lease = Inl e" using assms [of n] by (cases "assert_lease db (clock n) lease") auto
  then show "fst (snd (transact (\<lambda>db n. op n db (clock n) lease) (db, n))) = db"
    by (auto simp: transact_def fenced split: sum.split)
qed

end

abbreviation no_result :: "store_error + 'a idb \<Rightarrow> store_error + unit \<times> 'a idb" where
  "no_result r \<equiv> and_then r (\<lambda>db'. Inr ((), db'))"

interpretation deliver: fenced_operation
  "\<lambda>n db wall lease. deliver (we_queue E) (we_dates E) db wall lease (c n)" for E c
  by unfold_locales (simp add: deliver_def)

interpretation advance: fenced_operation
  "\<lambda>_ db wall lease. no_result (advance_fanout env db wall lease after)" for env after
  by unfold_locales (auto simp: advance_fanout_def split: work_item.splits)

interpretation commit: fenced_operation
  "\<lambda>n db wall lease. no_result (commit_poll env ai duplicate (fresh n) db wall lease c)" for env ai duplicate fresh c
  by unfold_locales (simp add: commit_poll_def)

interpretation success: fenced_operation
  "\<lambda>n db wall lease. no_result (record_source_success ai (fresh n) db wall lease source at incomplete duration)"
  for ai fresh source at incomplete duration
  by unfold_locales (simp add: record_source_success_def)

interpretation publish: fenced_operation
  "\<lambda>_ db wall lease. no_result (publish_content env cenv db wall lease v)" for env cenv v
  by unfold_locales (simp add: publish_content_def)

interpretation cleanup: fenced_operation
  "\<lambda>_ db wall lease. no_result (cleanup_content db wall lease rec)" for rec
  by unfold_locales (simp add: cleanup_content_def)

interpretation failure: fenced_operation
  "\<lambda>_ db wall lease. no_result (record_refresh_failure db wall lease rec diagnostic)" for rec diagnostic
  by unfold_locales (simp add: record_refresh_failure_def)

interpretation evaluate: fenced_operation
  "\<lambda>_ db wall lease. no_result (evaluate_article_rules env cenv lower db wall lease w i evaluations)"
  for env cenv lower w i evaluations
  by unfold_locales (simp add: evaluate_article_rules_def)

interpretation apply_rule: fenced_operation
  "\<lambda>_ db wall lease. apply_rule_batch env cenv lower db wall lease w rule version after through limit"
  for env cenv lower w rule version after through limit
  by unfold_locales (simp add: apply_rule_batch_def)

section \<open>A worker without its lease\<close>

lemma keeps_deliver_all:
  assumes "\<And>n. assert_lease db (we_clock E n) lease \<noteq> Inr ()"
  shows "keeps_db (deliver_all E lease rec now latest targets) db"
proof (induction targets arbitrary: latest)
  case (Cons t ts)
  show ?case
    unfolding deliver_all.simps deliver_to_def
    by (intro keeps_intros deliver.transact_harmless assms Cons)
qed (simp add: keeps_intros)

lemma keeps_commit_page:
  assumes "\<And>n. assert_lease db (we_clock E n) lease \<noteq> Inr ()"
  shows "keeps_db (commit_page E lease c) db"
  unfolding commit_page_def transact_unit_def by (rule commit.transact_harmless [OF assms])

lemma keeps_collect_page:
  assumes "\<And>n. assert_lease db (we_clock E n) lease \<noteq> Inr ()"
  shows "keeps_db (collect_page E limits lease source s now what u v found initial records) db"
  unfolding collect_page_def Let_def case_prod_unfold by (intro keeps_intros keeps_commit_page assms)

lemma keeps_poll:
  assumes "\<And>n. assert_lease db (we_clock E n) lease \<noteq> Inr ()"
  shows "keeps_db (worker_poll E limits lease s now) db"
  unfolding worker_poll_def transact_unit_def Let_def
  by (intro keeps_intros keepsD keeps_commit_page keeps_collect_page success.transact_harmless assms)

lemma keeps_collect_web_feed:
  assumes "\<And>n. assert_lease db (we_clock E n) lease \<noteq> Inr ()"
  shows "keeps_db (collect_web_feed E limits lease s now) db"
  unfolding collect_web_feed_def Let_def
  by (intro keeps_intros keepsD keeps_commit_page keeps_collect_page assms)

lemma keeps_poll_or_collect:
  assumes "\<And>n. assert_lease db (we_clock E n) lease \<noteq> Inr ()"
  shows "keeps_db (poll_or_collect E limits lease s now) db"
  unfolding poll_or_collect_def
proof (intro keeps_intros)
  fix source
  show "keeps_db (case src_kind source of WebPage _ \<Rightarrow> collect_web_feed E limits lease s now
      | BuiltIn _ \<Rightarrow> collect_web_feed E limits lease s now | _ \<Rightarrow> worker_poll E limits lease s now) db"
    using keeps_poll [OF assms] keeps_collect_web_feed [OF assms] by (simp split: source_kind.split)
qed

lemma keeps_fanout:
  assumes "\<And>n. assert_lease db (we_clock E n) lease \<noteq> Inr ()"
  shows "keeps_db (fanout E limits lease s r after now) db"
  unfolding fanout_def transact_unit_def
  by (intro keeps_intros keeps_deliver_all advance.transact_harmless assms)

lemma keeps_fulltext:
  assumes "\<And>n. assert_lease db (we_clock E n) lease \<noteq> Inr ()"
  shows "keeps_db (worker_fulltext E limits lease r revision u now) db"
  unfolding worker_fulltext_def fulltext_publish_def transact_unit_def
  by (intro keeps_intros keepsD publish.transact_harmless failure.transact_harmless assms)

text \<open>C16. A worker whose lease no longer holds does no harm, whatever job it was given: at every clock
  reading the handler makes, each of its transactions is refused or changes nothing, so the database is
  the one it found.\<close>

theorem stale_handler_harmless:
  assumes "\<And>n. assert_lease db (we_clock E n) lease \<noteq> Inr ()"
  shows "fst (snd (handle E limits lease now (db, n))) = db"
proof (rule keepsD)
  show "keeps_db (handle E limits lease now) db"
    unfolding handle_def transact_unit_def
    using keeps_poll_or_collect [OF assms] keeps_fanout [OF assms] keeps_fulltext [OF assms]
      keeps_collect_web_feed [OF assms] cleanup.transact_harmless [OF assms] evaluate.transact_harmless [OF assms]
      keeps_then_do [OF apply_rule.transact_harmless [OF assms] keeps_give]
    by (cases "lw_item lease") simp_all
qed

section \<open>Retries\<close>

lemma backoff_bounds: "0 < 2 ^ unat (min a 10) * second" "2 ^ unat (min a (10 :: u32)) * second \<le> 1024 * second"
proof -
  have "unat (min a (10 :: u32)) \<le> 10" by (simp add: min_def word_le_nat_alt)
  then have "(2 :: int) ^ unat (min a (10 :: u32)) \<le> 2 ^ 10" by (rule power_increasing) simp
  then show "2 ^ unat (min a (10 :: u32)) * second \<le> 1024 * second" by (simp add: second_def)
qed (simp add: second_def)

lemma jitter_bounds:
  assumes "0 \<le> wk_retry_jitter wk"
  shows "0 \<le> retry_jitter_of wk job" "retry_jitter_of wk job \<le> wk_retry_jitter wk"
proof -
  let ?spread = "wk_retry_jitter wk div millisecond"
  have "0 \<le> uint job mod ?spread" "uint job mod ?spread \<le> ?spread" if "0 < ?spread"
    using that by (simp_all add: order.strict_implies_order)
  moreover have "?spread * millisecond \<le> wk_retry_jitter wk" by (simp add: millisecond_def)
  ultimately show "0 \<le> retry_jitter_of wk job" "retry_jitter_of wk job \<le> wk_retry_jitter wk"
    using assms by (auto simp: retry_jitter_of_def Let_def millisecond_def)
qed

text \<open>The policy that the configuration accepts always yields a time for the next attempt, within its
  bounds: it waits at least the exponential backoff of the attempt, at least the configured delay after a
  rate limit, and never asks before the server allows; without such a demand of the server it waits no
  longer than the larger of the two delays and the jitter.\<close>

theorem retry_time_bounds:
  assumes "with_runtime_policy bounds w0 wk0 every attempts rate jitter = Inr wk"
    and "fst bounds \<le> max wall now" and "max wall now + max rate (1024 * second) + jitter \<le> snd bounds"
  shows "\<exists>t. retry_at bounds wk wall now lease e = Inr t
    \<and> max wall now + 2 ^ unat (min (lw_attempt lease) 10) * second \<le> t
    \<and> (rate_limited e \<longrightarrow> max wall now + rate \<le> t)
    \<and> (case not_before_of e of
         Some b \<Rightarrow> b \<le> t
       | None \<Rightarrow> t \<le> max wall now + max rate (1024 * second) + jitter)"
proof -
  let ?d = "retry_delay wk e (lw_attempt lease)" and ?j = "retry_jitter_of wk (lw_job_id lease)" and ?s = "max wall now"
  have wk: "wk_rate_limit_delay wk = rate" "wk_retry_jitter wk = jitter" "0 < rate" "0 \<le> jitter"
    using assms(1) by (auto simp: with_runtime_policy_def split: if_splits)
  note j = jitter_bounds [of wk "lw_job_id lease", unfolded wk, OF wk(4)]
  have d: "0 \<le> ?d" "?d \<le> max rate (1024 * second)" "2 ^ unat (min (lw_attempt lease) 10) * second \<le> ?d"
    "rate_limited e \<Longrightarrow> rate \<le> ?d"
    using backoff_bounds [of "lw_attempt lease"] wk(3) by (auto simp: retry_delay_def wk max_def)
  from j d assms(2,3) have sum: "checked_add_utc bounds ?s ?d = Some (?s + ?d)"
    "checked_add_utc bounds (?s + ?d) ?j = Some (?s + ?d + ?j)"
    by (auto simp: checked_add_utc_def)
  have "now \<le> ?s + ?d + ?j" using j d by simp
  with sum j d show ?thesis by (auto simp: retry_at_def max_def split: option.split)
qed

definition attempts_exhausted :: "ingest_worker \<Rightarrow> leased_work \<Rightarrow> bool" where
  "attempts_exhausted wk lease \<longleftrightarrow>
    (if lw_attempt lease = - 1 then - 1 else lw_attempt lease + 1) \<ge> wk_retry_attempts wk"

text \<open>What the queue holds after a failed attempt.\<close>

definition rescheduled :: "ingest_worker \<Rightarrow> leased_work \<Rightarrow> ingest_error \<Rightarrow> instant \<Rightarrow> ingest_job \<Rightarrow> ingest_job \<Rightarrow> bool" where
  "rescheduled wk lease e t j j' \<longleftrightarrow> ij_item j' = ij_item j \<and>
    (if \<not> attempts_exhausted wk lease
     then ij_status j' = Ready \<and> ij_run_at_ms j' = millis t \<and> ij_attempt j' = ij_attempt j + 1
     else if is_recurring (ij_item j)
     then ij_status j' = Ready \<and> ij_attempt j' = 0
       \<and> (case if rate_limited e then Some t else not_before_of e of Some b \<Rightarrow> millis b \<le> ij_run_at_ms j' | None \<Rightarrow> True)
     else ij_status j' = Failed)"

lemma lease_update_job:
  assumes "lease_update sch fresh db t wall i token status deadline run_at (Some dg) = Inr db'"
  obtains j j' where "map_of (db_jobs db) i = Some j" "map_of (db_jobs db') i = Some j'"
    "ij_item j' = ij_item j" "ij_diagnostic j' = Some dg"
    "ij_status j' = (if status = Failed \<and> is_recurring (ij_item j) then Ready else status)"
    "ij_attempt j' = (if status = Failed \<and> is_recurring (ij_item j) then 0
      else if status = Ready then ij_attempt j + 1 else ij_attempt j)"
    "case run_at of None \<Rightarrow> True
     | Some r \<Rightarrow> if status = Failed \<and> is_recurring (ij_item j) then r \<le> ij_run_at_ms j' else ij_run_at_ms j' = r"
proof -
  from assms obtain j where live: "live_lease db i token t = Some j"
    by (auto simp: lease_update_def split: option.splits)
  then have "map_of (db_jobs db) i = Some j" by (simp add: live_lease_Some)
  with live assms show ?thesis
    by (intro that [of j "the (map_of (db_jobs db') i)"])
      (auto simp: lease_update_def Let_def split: option.splits if_splits)
qed

lemma transact_unit_run:
  assumes "transact_unit f (db, n) = (r, db', n')"
  shows "(\<exists>e. r = Inl (IngestStore e) \<and> f db n = Inl e \<and> db' = db) \<or> (r = Inr () \<and> f db n = Inr db')"
  using assms by (cases "f db n") (simp_all add: transact_unit_def transact_def)

lemma retried:
  assumes "retry sch fresh db t wall i token again dg = Inr db'" and "\<not> attempts_exhausted wk lease"
  shows "\<exists>j j'. map_of (db_jobs db) i = Some j \<and> map_of (db_jobs db') i = Some j' \<and> ij_diagnostic j' = Some dg
    \<and> rescheduled wk lease e again j j'"
  using assms unfolding retry_def by (auto simp: rescheduled_def elim!: lease_update_job)

lemma failed:
  assumes "fail sch fresh db t wall i token dg (if rate_limited e then Some again else not_before_of e) = Inr db'"
    and "attempts_exhausted wk lease"
  shows "\<exists>j j'. map_of (db_jobs db) i = Some j \<and> map_of (db_jobs db') i = Some j' \<and> ij_diagnostic j' = Some dg
    \<and> rescheduled wk lease e again j j'"
  using assms unfolding fail_def
  by (auto simp: rescheduled_def elim!: lease_update_job split: option.splits if_splits)

text \<open>A failed attempt is never lost and never reported as a success: either the settlement wrote
  nothing, so that the lease runs out and the job is claimed again, or the job holds the diagnostic and
  is ready at the computed time with one more attempt, has failed for good when the attempts are used up,
  or, for the periodic collection of a source, is ready for its next cycle, not before the server allows.\<close>

theorem failed_attempt_accounted:
  assumes "settle E sch wk lease now (Inl e) (db, n) = (r, db', n')"
  shows "(\<exists>e'. r = Inl e') \<and> (db' = db \<or> r = Inl e
    \<and> (\<exists>t j j'. retry_at (we_bounds E) wk (we_clock E n) now lease e = Inr t
      \<and> map_of (db_jobs db) (lw_job_id lease) = Some j \<and> map_of (db_jobs db') (lw_job_id lease) = Some j'
      \<and> ij_diagnostic j' = Some (diagnostic (we_show E) e) \<and> rescheduled wk lease e t j j'))"
proof (cases "retry_at (we_bounds E) wk (we_clock E n) now lease e")
  case (Inl e')
  with assms show ?thesis by (auto simp: settle_def then_do_def lift_result_def)
next
  case (Inr t)
  let ?act = "if attempts_exhausted wk lease
    then transact_unit (\<lambda>db n. fail sch (we_activity E n) db (millis (we_clock E n)) (we_clock E n)
      (lw_job_id lease) (lw_token lease) (diagnostic (we_show E) e) (if rate_limited e then Some t else not_before_of e))
    else transact_unit (\<lambda>db n. retry sch (we_activity E n) db (millis (we_clock E n)) (we_clock E n)
      (lw_job_id lease) (lw_token lease) t (diagnostic (we_show E) e))"
  obtain r1 st1 where act: "?act (db, Suc n) = (r1, st1)" by (cases "?act (db, Suc n)")
  have "(r, db', n') = (case r1 of Inl e1 \<Rightarrow> (Inl e1, st1) | Inr _ \<Rightarrow> (Inl e, st1))"
    using assms Inr act
    by (simp add: settle_def then_do_def lift_result_def attempts_exhausted_def [symmetric] split: sum.splits)
  moreover have "(\<exists>e1. r1 = Inl e1 \<and> fst st1 = db) \<or> r1 = Inr () \<and>
    (\<exists>j j'. map_of (db_jobs db) (lw_job_id lease) = Some j \<and> map_of (db_jobs (fst st1)) (lw_job_id lease) = Some j'
      \<and> ij_diagnostic j' = Some (diagnostic (we_show E) e) \<and> rescheduled wk lease e t j j')"
  proof (cases st1)
    case (Pair db1 n1)
    with act show ?thesis
      by (cases "attempts_exhausted wk lease") (auto dest!: transact_unit_run dest: retried failed)
  qed
  ultimately show ?thesis using Inr by (auto split: sum.splits)
qed

section \<open>Full text\<close>

lemma fulltext_publish_failed:
  assumes "fulltext_publish E limits lease r revision u now (db, n) = (Inl e, db', n')"
  shows "db' = db"
  using assms unfolding fulltext_publish_def
  by (auto simp: then_do_def query_def lift_result_def transact_unit_def transact_def split: sum.splits prod.splits)

text \<open>A failed extraction is visible and loses nothing: while the lease holds, every error, be it of the
  network, of decoding or of a size limit, leaves the published content as it was and is recorded with its
  diagnostic for the record.\<close>

theorem fulltext_failure_visible:
  assumes "worker_fulltext E limits lease r revision u now (db, n) = (Inl e, db', n')"
    and "\<And>n. assert_lease db (we_clock E n) lease = Inr ()"
  shows "db_manifests db' = db_manifests db \<and> db_chunks db' = db_chunks db \<and> db_search_text db' = db_search_text db
    \<and> (\<exists>k. map_of (db_refresh_failures db') r = Some (k, diagnostic (we_show E) e, lw_job_id lease))"
proof -
  obtain r1 db1 n1 where publish: "fulltext_publish E limits lease r revision u now (db, n) = (r1, db1, n1)"
    by (cases "fulltext_publish E limits lease r revision u now (db, n)") auto
  with assms(1) obtain e1 where r1: "r1 = Inl e1" by (cases r1) (simp_all add: worker_fulltext_def on_error_def)
  with publish have "db1 = db" by (simp add: fulltext_publish_failed)
  with assms publish r1 show ?thesis
    by (auto simp: worker_fulltext_def on_error_def transact_unit_def transact_def record_refresh_failure_def Let_def)
qed

section \<open>A concrete worker\<close>

definition demo_page :: fetched_page where
  "demo_page = \<lparr>fp_final_url = example_url, fp_content_type = None, fp_body = [60], fp_validators = \<lparr>etag = None, last_modified = None\<rparr>,
     fp_not_modified = False\<rparr>"

definition demo_worker :: "unit worker_env" where
  "demo_worker =
    \<lparr>we_queue = demo_poll_env, we_content = demo_content_env, we_ai = demo_hooks, we_dates = example_dates, we_lower = id,
     we_url = example_parser, we_duplicate = ''dup'', we_show = (\<lambda>_. ''t''), we_bounds = (- (10 ^ 24), 10 ^ 24),
     we_clock = (\<lambda>_. 0), we_fresh = (\<lambda>n. of_nat (n + 30)), we_activity = (\<lambda>_ _. 0), we_elapsed = (\<lambda>_. 5),
     we_fetch = (\<lambda>_ _. Inr demo_page), we_extract = (\<lambda>_. Inl (Http 500)), we_capability = BrowserAvailable,
     we_collect = (\<lambda>_. Inr []), we_parse_rss = (\<lambda>_ _. Inr ([], 0)), we_parse_xml = (\<lambda>_ _. Inr [example_parsed]),
     we_parse_json = (\<lambda>_ _. Inr []), we_decode_html = (\<lambda>_ _. Inr ''x''), we_publication = (\<lambda>_ _. []),
     we_flair = (\<lambda>_ _. None), we_video = (\<lambda>_ _. Inr None), we_readable = id, we_sanitize = id\<rparr>"

definition demo_limits :: ingest_limits where
  "demo_limits = \<lparr>initial_feed_items = 5, fanout_batch = 2, content_chunk_bytes = 4, max_input_bytes = 100, max_extracted_bytes = 100\<rparr>"

definition demo_ingest_worker :: ingest_worker where
  "demo_ingest_worker = \<lparr>wk_limits = demo_limits, wk_lease_duration = 9 * second, wk_renew_interval = second,
     wk_retry_attempts = 3, wk_rate_limit_delay = 60 * second, wk_retry_jitter = 500 * millisecond\<rparr>"

lemma demo_worker_simps [simp]:
  "we_clock demo_worker n = 0" "we_fresh demo_worker n = of_nat (n + 30)" "we_queue demo_worker = demo_poll_env"
  "we_bounds demo_worker = (- (10 ^ 24), 10 ^ 24)" "we_show demo_worker t = ''t''" "we_activity demo_worker n s = 0"
  "we_url demo_worker = example_parser" "we_extract demo_worker u = Inl (Http 500)"
  by (simp_all add: demo_worker_def)

lemma demo_stale: "assert_lease demo_ingest_db t (demo_poll_lease\<lparr>lw_token := 4\<rparr>) \<noteq> Inr ()"
  by (simp add: assert_lease_def live_lease_def demo_ingest_db_def lease_job_def demo_poll_lease_def)

theorem stale_handler_harmless_witness:
  "fst (snd (handle demo_worker demo_limits (demo_poll_lease\<lparr>lw_token := 4\<rparr>) 0 (demo_ingest_db, 0))) = demo_ingest_db"
  by (rule stale_handler_harmless) (rule demo_stale)

definition demo_new_worker :: ingest_worker where
  "demo_new_worker = demo_ingest_worker\<lparr>wk_renew_interval := 3 * second, wk_retry_attempts := - 1, wk_rate_limit_delay := 0,
     wk_retry_jitter := 0\<rparr>"

lemma demo_policy_accepted:
  "with_runtime_policy (- (10 ^ 24), 10 ^ 24) 0 demo_new_worker second 3 (60 * second) (500 * millisecond) = Inr demo_ingest_worker"
  by (simp add: with_runtime_policy_def demo_new_worker_def demo_ingest_worker_def second_def millisecond_def
      checked_add_delta_def time_delta_max_def checked_add_utc_def)

theorem retry_time_bounds_witness:
  "\<exists>t. retry_at (- (10 ^ 24), 10 ^ 24) demo_ingest_worker 0 0 demo_poll_lease (IngestFetch (Http 429)) = Inr t
    \<and> 60 * second \<le> t \<and> t \<le> 1024 * second + 500 * millisecond"
  using retry_time_bounds [OF demo_policy_accepted, of 0 0 demo_poll_lease "IngestFetch (Http 429)"]
  by (auto simp: rate_limited_def not_before_of_def second_def millisecond_def)

definition demo_article_lease :: leased_work where
  "demo_article_lease = demo_poll_lease\<lparr>lw_item := ExtractFullText 1 3 example_url False\<rparr>"

lemma demo_held: "assert_lease demo_ingest_db 0 demo_article_lease = Inr ()"
  by (simp add: assert_lease_def live_lease_def demo_ingest_db_def lease_job_def demo_poll_lease_def demo_article_lease_def
      millis_def)

lemma demo_fulltext_fails:
  "\<exists>db' n'. worker_fulltext demo_worker demo_limits demo_article_lease 1 3 example_url 0 (demo_ingest_db, 0)
    = (Inl (IngestFetch (Http 500)), db', n')"
proof -
  have "fulltext_publish demo_worker demo_limits demo_article_lease 1 3 example_url 0 (demo_ingest_db, 0)
      = (Inl (IngestFetch (Http 500)), demo_ingest_db, 0)"
    by (simp add: fulltext_publish_def then_do_def query_def lift_result_def poll_record_def poll_source_def store_doc_def
        demo_ingest_db_def example_record_def fulltext_page_def embedded_kind_def)
  then show ?thesis
    by (simp add: worker_fulltext_def on_error_def transact_unit_def transact_def record_refresh_failure_def demo_held Let_def)
qed

theorem fulltext_failure_visible_witness:
  "\<exists>db' n' k. worker_fulltext demo_worker demo_limits demo_article_lease 1 3 example_url 0 (demo_ingest_db, 0)
      = (Inl (IngestFetch (Http 500)), db', n')
    \<and> db_manifests db' = db_manifests demo_ingest_db
    \<and> map_of (db_refresh_failures db') 1 = Some (k, diagnostic (\<lambda>_. ''t'') (IngestFetch (Http 500)), 7)"
proof -
  from demo_fulltext_fails obtain db' n' where run: "worker_fulltext demo_worker demo_limits demo_article_lease 1 3 example_url 0 (demo_ingest_db, 0)
      = (Inl (IngestFetch (Http 500)), db', n')" by blast
  have "we_show demo_worker = (\<lambda>_. ''t'')" "lw_job_id demo_article_lease = 7"
    by (simp_all add: demo_worker_def demo_article_lease_def demo_poll_lease_def)
  with fulltext_failure_visible [OF run] run show ?thesis by (auto simp: demo_held)
qed

lemma demo_settles:
  "\<exists>db n. settle demo_worker demo_scheduler demo_ingest_worker demo_article_lease 0 (Inl (IngestFetch (Http 500))) (demo_ingest_db, 0)
    = (Inl (IngestFetch (Http 500)), db, n) \<and> db \<noteq> demo_ingest_db"
proof -
  have again: "retry_at (- (10 ^ 24), 10 ^ 24) demo_ingest_worker 0 0 demo_article_lease (IngestFetch (Http 500)) = Inr (second + 7 * millisecond)"
    by (simp add: retry_at_def retry_delay_def retry_jitter_of_def demo_ingest_worker_def demo_article_lease_def demo_poll_lease_def
        rate_limited_def not_before_of_def checked_add_utc_def second_def millisecond_def Let_def)
  let ?dg = "diagnostic (we_show demo_worker) (IngestFetch (Http 500))"
  have "\<exists>db. retry demo_scheduler (\<lambda>_. 0) demo_ingest_db 0 0 7 3 (second + 7 * millisecond) ?dg = Inr db \<and> db \<noteq> demo_ingest_db"
    by (simp add: retry_def lease_update_def live_lease_def demo_ingest_db_def lease_job_def new_job_def put_job_def put_def Let_def
        millis_def)
  then obtain db where "retry demo_scheduler (\<lambda>_. 0) demo_ingest_db 0 0 7 3 (second + 7 * millisecond) ?dg = Inr db"
    "db \<noteq> demo_ingest_db" by blast
  moreover have "millis 0 = 0" by (simp add: millis_def)
  moreover have "\<not> (3 :: u32) \<le> 1" by (simp add: word_le_nat_alt)
  moreover have "lw_job_id demo_article_lease = 7" "lw_token demo_article_lease = 3" "lw_attempt demo_article_lease = 0"
    "wk_retry_attempts demo_ingest_worker = 3" "we_activity demo_worker n = (\<lambda>_. 0)" for n
    by (simp_all add: demo_article_lease_def demo_poll_lease_def demo_ingest_worker_def fun_eq_iff)
  ultimately show ?thesis
    by (simp add: settle_def then_do_def lift_result_def again [simplified] transact_unit_def transact_def del: diagnostic.simps)
qed

theorem failed_attempt_accounted_witness:
  "\<exists>db n t j j'. settle demo_worker demo_scheduler demo_ingest_worker demo_article_lease 0 (Inl (IngestFetch (Http 500)))
      (demo_ingest_db, 0) = (Inl (IngestFetch (Http 500)), db, n)
    \<and> retry_at (- (10 ^ 24), 10 ^ 24) demo_ingest_worker 0 0 demo_article_lease (IngestFetch (Http 500)) = Inr t
    \<and> map_of (db_jobs db) (lw_job_id demo_article_lease) = Some j'
    \<and> rescheduled demo_ingest_worker demo_article_lease (IngestFetch (Http 500)) t j j'"
proof -
  from demo_settles obtain db n where run: "settle demo_worker demo_scheduler demo_ingest_worker demo_article_lease 0
      (Inl (IngestFetch (Http 500))) (demo_ingest_db, 0) = (Inl (IngestFetch (Http 500)), db, n)" "db \<noteq> demo_ingest_db"
    by blast
  from failed_attempt_accounted [OF run(1)] run show ?thesis by auto
qed

end
