(* ===== verification/Feed_Runs.thy ===== *)
theory Feed_Runs
  imports Worker_Runs
begin

text \<open>
  A whole poll of a feed, from the page that was fetched to the tables it leaves: no entry of the page is
  dropped, each is found again under its upstream identity with the content the page gave it, and records
  keep their identifiers.
\<close>

section \<open>The identity table\<close>

text \<open>An identity row holds the record it is about, and no two identities share a record.\<close>

definition identity_ok :: "'a idb \<Rightarrow> bool" where
  "identity_ok db \<longleftrightarrow>
    (\<forall>s u i t q r. map_of (db_record_identity db) (s, u) = Some (i, t, q, r) \<longrightarrow>
       sr_id r = i \<and> sr_source_id r = s \<and> sr_upstream_id r = u)
    \<and> (\<forall>k k' v v'. map_of (db_record_identity db) k = Some v \<longrightarrow> map_of (db_record_identity db) k' = Some v'
       \<longrightarrow> fst v = fst v' \<longrightarrow> k = k')"

lemma identity_okD:
  assumes "identity_ok db"
  shows "map_of (db_record_identity db) (s, u) = Some (i, t, q, r) \<Longrightarrow> sr_id r = i \<and> sr_source_id r = s \<and> sr_upstream_id r = u"
    "map_of (db_record_identity db) k = Some v \<Longrightarrow> map_of (db_record_identity db) k' = Some v' \<Longrightarrow> fst v = fst v' \<Longrightarrow> k = k'"
  using assms unfolding identity_ok_def by blast+

lemma record_by_upstreamD:
  assumes "identity_ok db" and "record_by_upstream db s u = Some r"
  shows "\<exists>t q. map_of (db_record_identity db) (s, u) = Some (sr_id r, t, q, r)"
    and "sr_source_id r = s" and "sr_upstream_id r = u"
  using assms(2) identity_okD(1) [OF assms(1)] by (fastforce simp: record_by_upstream_def)+

text \<open>The identity table after the records of a commit: theirs, and otherwise what it was.\<close>

abbreviation identity_key :: "polled_record \<Rightarrow> source_id \<times> string" where
  "identity_key v \<equiv> (sr_source_id (po_record v), sr_upstream_id (po_record v))"

lemma commit_records_identity:
  assumes "try_fold (commit_record env wall at) db vs = Inr db'" and "distinct (map identity_key vs)"
  shows "(\<forall>v \<in> set vs. map_of (db_record_identity db') (identity_key v)
      = Some (sr_id (po_record v), millis at, sr_revision (po_record v), po_record v))
    \<and> (\<forall>k. k \<notin> identity_key ` set vs \<longrightarrow> map_of (db_record_identity db') k = map_of (db_record_identity db) k)
    \<and> db_backlog db' = db_backlog db"
  using assms
proof (induction vs arbitrary: db)
  case (Cons u vs)
  from Cons.prems(1) obtain db1 where one: "commit_record env wall at db u = Inr db1"
    and rest: "try_fold (commit_record env wall at) db1 vs = Inr db'" by auto
  from one have ident: "db_record_identity db1 = put (identity_key u)
      (sr_id (po_record u), millis at, sr_revision (po_record u), po_record u) (db_record_identity db)"
    and rows: "db_backlog db1 = db_backlog db"
    by (cases rule: commit_record_steps; simp add: poll_keptD(2,4))+
  from Cons.IH [OF rest] Cons.prems(2) ident rows show ?case by (auto simp: image_iff)
qed simp

section \<open>The records of a page\<close>

text \<open>What the loop over a page returns, entry by entry.\<close>

lemma page_records_all:
  assumes "page_records what up f seen n xs = Inr vs" and "p \<in> set xs"
  shows "\<exists>m v. f m p = Inr v \<and> (case v of None \<Rightarrow> True | Some r \<Rightarrow> r \<in> set vs)"
  using assms
proof (induction xs arbitrary: seen n vs)
  case (Cons x xs)
  from Cons.prems(1) obtain v vs' where v: "f n x = Inr v" "page_records what up f (up x # seen) (Suc n) xs = Inr vs'"
    "vs = (case v of None \<Rightarrow> vs' | Some r \<Rightarrow> r # vs')" by (auto split: if_splits)
  show ?case
  proof (cases "p = x")
    case True
    with v show ?thesis by (intro exI [of _ n] exI [of _ v]) (auto split: option.splits)
  next
    case False
    with Cons.IH [OF v(2)] Cons.prems(2) obtain m v' where "f m p = Inr v'"
      "case v' of None \<Rightarrow> True | Some r \<Rightarrow> r \<in> set vs'" by auto
    with v(3) show ?thesis by (intro exI [of _ m] exI [of _ v']) (auto split: option.splits)
  qed
qed simp

lemma page_records_from:
  assumes "page_records what up f seen n xs = Inr vs" and "v \<in> set vs"
  shows "\<exists>m x. m \<in> {n..<n + length xs} \<and> x \<in> set xs \<and> up x \<notin> set seen \<and> f m x = Inr (Some v)"
  using assms
proof (induction xs arbitrary: seen n vs)
  case (Cons x xs)
  from Cons.prems(1) obtain o' vs' where o': "up x \<notin> set seen" "f n x = Inr o'"
    "page_records what up f (up x # seen) (Suc n) xs = Inr vs'"
    "vs = (case o' of None \<Rightarrow> vs' | Some r \<Rightarrow> r # vs')" by (auto split: if_splits)
  then consider "o' = Some v" | "v \<in> set vs'" using Cons.prems(2) by (auto split: option.splits)
  then show ?case
  proof cases
    case 1
    with o' show ?thesis by (intro exI [of _ n] exI [of _ x]) simp
  next
    case 2
    from Cons.IH [OF o'(3) this] obtain m y where "m \<in> {Suc n..<Suc n + length xs}" "y \<in> set xs"
      "up y \<notin> set (up x # seen)" "f m y = Inr (Some v)" by blast
    then show ?thesis by (intro exI [of _ m] exI [of _ y]) simp
  qed
qed simp

text \<open>Distinct identities of the entries give distinct keys of the records.\<close>

lemma page_records_distinct:
  assumes "page_records what up f seen n xs = Inr vs"
    and diff: "\<And>m x v m' x' v'. f m x = Inr (Some v) \<Longrightarrow> f m' x' = Inr (Some v') \<Longrightarrow> n \<le> m \<Longrightarrow> m < m' \<Longrightarrow>
      m' < n + length xs \<Longrightarrow> up x \<noteq> up x' \<Longrightarrow> g v \<noteq> g v'"
  shows "distinct (map g vs)"
  using assms
proof (induction xs arbitrary: seen n vs)
  case (Cons x xs)
  from Cons.prems(1) obtain o' vs' where o': "f n x = Inr o'" "page_records what up f (up x # seen) (Suc n) xs = Inr vs'"
    "vs = (case o' of None \<Rightarrow> vs' | Some r \<Rightarrow> r # vs')" by (auto split: if_splits)
  have "g v \<noteq> g v'" if "o' = Some v" "v' \<in> set vs'" for v v'
  proof -
    from page_records_from [OF o'(2) that(2)] obtain m y where y: "m \<in> {Suc n..<Suc n + length xs}" "up y \<notin> set (up x # seen)" "f m y = Inr (Some v')"
      by blast
    from o'(1) that(1) have "f n x = Inr (Some v)" by simp
    from Cons.prems(2) [OF this y(3)] y(1,2) show ?thesis by auto
  qed
  moreover have "distinct (map g vs')"
    by (rule Cons.IH [OF o'(2)], rule Cons.prems(2)) auto
  ultimately show ?case using o'(3) by (auto split: option.splits)
qed simp

section \<open>One entry\<close>

text \<open>A record has the content of an entry.\<close>

definition reflects :: "url_parser \<Rightarrow> source_id \<Rightarrow> parsed_record \<Rightarrow> source_record \<Rightarrow> bool" where
  "reflects parse s p r \<longleftrightarrow>
    sr_source_id r = s \<and> sr_upstream_id r = pa_upstream_id p
    \<and> sr_key r = \<lparr>dk_location = article_location_of parse p s, dk_title = pa_title p, dk_description = pa_description p\<rparr>
    \<and> sr_categories r = pa_categories p \<and> sr_description_media_type r = pa_description_media_type p
    \<and> sr_feed_content_html r = pa_content_html p \<and> sr_published_at r = pa_published_at p"

definition keeps_identity :: "'a worker_env \<Rightarrow> 'a idb \<Rightarrow> source_id \<Rightarrow> nat \<Rightarrow> parsed_record \<Rightarrow> source_record \<Rightarrow> bool" where
  "keeps_identity E db s n p r \<longleftrightarrow>
    (case record_by_upstream db s (pa_upstream_id p) of
       Some old \<Rightarrow> sr_id r = sr_id old | None \<Rightarrow> sr_id r = we_fresh E n)"

lemma feed_record_old:
  assumes "identity_ok db" and "feed_record E db s n p = Inr None"
  shows "\<exists>old. record_by_upstream db s (pa_upstream_id p) = Some old \<and> reflects (we_url E) s p old"
proof -
  from assms(2) obtain old where old: "record_by_upstream db s (pa_upstream_id p) = Some old"
    by (auto simp: feed_record_def split: option.splits)
  note facts = record_by_upstreamD(2,3) [OF assms(1) old]
  from assms(2) old have "reflects (we_url E) s p old"
    using facts
    by (auto simp: feed_record_def source_record_revise_def Let_def polled_of_def reflects_def revision_effect_def
        split: if_splits record_revision_effect.splits)
  with old show ?thesis by blast
qed

lemma feed_record_new:
  assumes "identity_ok db" and "feed_record E db s n p = Inr (Some v)"
  shows "reflects (we_url E) s p (po_record v)" and "keeps_identity E db s n p (po_record v)"
proof -
  have "reflects (we_url E) s p (po_record v) \<and> keeps_identity E db s n p (po_record v)"
  proof (cases "record_by_upstream db s (pa_upstream_id p)")
    case None
    with assms(2) show ?thesis
      by (auto simp: feed_record_def source_record_from_parsed_def reflects_def keeps_identity_def split: if_splits)
  next
    case (Some old)
    note facts = record_by_upstreamD(2,3) [OF assms(1) Some]
    with Some assms(2) show ?thesis
      by (auto simp: feed_record_def source_record_revise_def Let_def polled_of_def reflects_def keeps_identity_def
          split: if_splits record_revision_effect.splits)
  qed
  then show "reflects (we_url E) s p (po_record v)" "keeps_identity E db s n p (po_record v)" by blast+
qed

text \<open>The identifiers drawn for a page are fresh: pairwise different, and none that a stored record has.\<close>

definition fresh_ids :: "'a worker_env \<Rightarrow> 'a idb \<Rightarrow> nat set \<Rightarrow> bool" where
  "fresh_ids E db M \<longleftrightarrow> inj_on (we_fresh E) M
    \<and> (\<forall>k v. map_of (db_record_identity db) k = Some v \<longrightarrow> fst v \<notin> we_fresh E ` M)"

lemma feed_ids_differ:
  assumes "identity_ok db" and "fresh_ids E db M" and "m \<in> M" "m' \<in> M" "m \<noteq> m'" and "pa_upstream_id p \<noteq> pa_upstream_id p'"
    and "keeps_identity E db s m p r" and "keeps_identity E db s m' p' r'"
  shows "sr_id r \<noteq> sr_id r'"
proof -
  have "we_fresh E m \<noteq> we_fresh E m'" using assms(2-5) by (auto simp: fresh_ids_def dest: inj_onD)
  moreover have "fst v \<noteq> we_fresh E i" if "map_of (db_record_identity db) k = Some v" "i \<in> M" for k v i
    using assms(2) that unfolding fresh_ids_def by blast
  moreover note fresh = calculation
  have id: "\<exists>v. map_of (db_record_identity db) (s, u) = Some v \<and> fst v = sr_id old"
    if "record_by_upstream db s u = Some old" for u old
    using record_by_upstreamD(1) [OF assms(1) that] by auto
  show ?thesis
    using assms(3,4,6-8) fresh id [of "pa_upstream_id p"] id [of "pa_upstream_id p'"] identity_okD(2) [OF assms(1)]
    unfolding keeps_identity_def by (auto split: option.splits) (metis prod.inject)+
qed

lemma backlog_persist_identity:
  assumes "backlog_persist duplicate c db = Inr db'"
  shows "db_record_identity db' = db_record_identity db"
proof -
  from assms obtain db1 where ins: "try_fold (backlog_insert duplicate c) db (List.enumerate 0 (pc_remainder c)) = Inr db1"
    and ack: "try_fold (backlog_acknowledge (pc_source_id c)) db1 (pc_records c) = Inr db'"
    by (auto simp: backlog_persist_def Let_def split: if_splits)
  have "db_record_identity db1 = db_record_identity db"
    by (rule try_fold_keeps [OF ins]) (auto simp: backlog_insert_def Let_def split: if_splits prod.splits)
  moreover have "db_record_identity db' = db_record_identity db1"
    by (rule try_fold_keeps [OF ack]) (auto simp: backlog_acknowledge_def Let_def split: option.splits if_splits)
  ultimately show ?thesis by simp
qed

lemma no_pending_backlog:
  assumes "pending_poll db s limit = Inr None"
  shows "source_backlog db s = []"
  using assms by (auto simp: pending_poll_def Let_def split: if_splits list.splits)

section \<open>A whole page\<close>

lemma identity_ok_commit:
  assumes "identity_ok db" and "distinct (map (\<lambda>v. sr_id (po_record v)) vs)"
    and own: "\<And>v k w. v \<in> set vs \<Longrightarrow> map_of (db_record_identity db) k = Some w \<Longrightarrow> fst w = sr_id (po_record v)
      \<Longrightarrow> k = identity_key v"
    and new: "\<forall>v \<in> set vs. map_of (db_record_identity db') (identity_key v)
      = Some (sr_id (po_record v), t, sr_revision (po_record v), po_record v)"
    and old: "\<forall>k. k \<notin> identity_key ` set vs \<longrightarrow> map_of (db_record_identity db') k = map_of (db_record_identity db) k"
  shows "identity_ok db'"
proof -
  have row: "(\<exists>v \<in> set vs. k = identity_key v \<and> w = (sr_id (po_record v), t, sr_revision (po_record v), po_record v))
      \<or> k \<notin> identity_key ` set vs \<and> map_of (db_record_identity db) k = Some w"
    if "map_of (db_record_identity db') k = Some w" for k w
    using that new old by (cases "k \<in> identity_key ` set vs") auto
  have same: "v = v'" if "v \<in> set vs" "v' \<in> set vs" "sr_id (po_record v) = sr_id (po_record v')" for v v'
    using that assms(2) by (auto simp: distinct_map dest: inj_onD)
  show ?thesis
    unfolding identity_ok_def
  proof (intro conjI allI impI)
    fix s u i t' q r
    assume "map_of (db_record_identity db') (s, u) = Some (i, t', q, r)"
    from row [OF this] show "sr_id r = i" "sr_source_id r = s" "sr_upstream_id r = u"
      using identity_okD(1) [OF assms(1)] by auto
  next
    fix k k' w w'
    assume kw: "map_of (db_record_identity db') k = Some w" "map_of (db_record_identity db') k' = Some w'" "fst w = fst w'"
    have mixed: "x = x'" if "\<exists>v \<in> set vs. x = identity_key v \<and> fst y = sr_id (po_record v)"
      "map_of (db_record_identity db) x' = Some y'" "fst y' = fst y" for x x' y y'
    proof -
      from that(1) obtain v where v: "v \<in> set vs" "x = identity_key v" "fst y = sr_id (po_record v)" by blast
      from own [OF v(1) that(2)] that(3) v(2,3) show ?thesis by simp
    qed
    from row [OF kw(1)] row [OF kw(2)] show "k = k'"
    proof (elim disjE)
      assume "\<exists>v \<in> set vs. k = identity_key v \<and> w = (sr_id (po_record v), t, sr_revision (po_record v), po_record v)"
        "\<exists>v \<in> set vs. k' = identity_key v \<and> w' = (sr_id (po_record v), t, sr_revision (po_record v), po_record v)"
      then obtain v v' where v: "v \<in> set vs" "k = identity_key v" "fst w = sr_id (po_record v)"
        and v': "v' \<in> set vs" "k' = identity_key v'" "fst w' = sr_id (po_record v')" by auto
      have "v = v'" by (rule same [OF v(1) v'(1)]) (use v(3) v'(3) kw(3) in simp)
      with v(2) v'(2) show ?thesis by simp
    next
      assume "\<exists>v \<in> set vs. k = identity_key v \<and> w = (sr_id (po_record v), t, sr_revision (po_record v), po_record v)"
        "k' \<notin> identity_key ` set vs \<and> map_of (db_record_identity db) k' = Some w'"
      with kw(3) show ?thesis by (intro mixed [of k w k' w']) auto
    next
      assume "k \<notin> identity_key ` set vs \<and> map_of (db_record_identity db) k = Some w"
        "\<exists>v \<in> set vs. k' = identity_key v \<and> w' = (sr_id (po_record v), t, sr_revision (po_record v), po_record v)"
      with kw(3) have "k' = k" by (intro mixed [of k' w' k w]) auto
      then show ?thesis ..
    next
      assume "k \<notin> identity_key ` set vs \<and> map_of (db_record_identity db) k = Some w"
        "k' \<notin> identity_key ` set vs \<and> map_of (db_record_identity db) k' = Some w'"
      with identity_okD(2) [OF assms(1)] kw(3) show ?thesis by blast
    qed
  qed
qed

lemma commit_page_tables:
  assumes "commit_poll env ai duplicate fresh db wall lease c = Inr db'" and "identity_ok db"
    and "distinct (map (\<lambda>v. sr_id (po_record v)) (pc_records c @ pc_remainder c))"
    and own: "\<And>v k w. v \<in> set (pc_records c) \<Longrightarrow> map_of (db_record_identity db) k = Some w \<Longrightarrow> fst w = sr_id (po_record v)
      \<Longrightarrow> k = identity_key v"
    and "source_backlog db (pc_source_id c) = []" and "distinct (map fst (db_backlog db))"
  shows "identity_ok db' \<and> map row_record (source_backlog db' (pc_source_id c)) = pc_remainder c
    \<and> (\<forall>v \<in> set (pc_records c). record_by_upstream db' (pc_source_id c) (sr_upstream_id (po_record v)) = Some (po_record v))
    \<and> (\<forall>u. u \<notin> (\<lambda>v. sr_upstream_id (po_record v)) ` set (pc_records c) \<longrightarrow>
        record_by_upstream db' (pc_source_id c) u = record_by_upstream db (pc_source_id c) u)"
proof -
  let ?s = "pc_source_id c"
  from assms(1) obtain db1 db2 db3 where k1: "poll_kept db db1" and persist: "backlog_persist duplicate c db1 = Inr db2"
    and fold: "try_fold (commit_record env wall (pc_fetched_at c)) db2 (pc_records c) = Inr db3"
    and k2: "poll_kept (poll_state_saved c db3) db'" by (rule commit_poll_steps)
  note checks = backlog_persist_checks [OF persist]
  have "distinct (map (\<lambda>v. sr_upstream_id (po_record v)) (pc_records c))" using checks(1) by simp
  then have "distinct (map snd (map identity_key (pc_records c)))" by (simp add: comp_def)
  then have keys: "distinct (map identity_key (pc_records c))" using distinct_map by blast
  note ident = commit_records_identity [OF fold keys]
  have eq: "db_record_identity db2 = db_record_identity db" "db_record_identity db' = db_record_identity db3"
    using backlog_persist_identity [OF persist] poll_keptD(2) [OF k1] poll_keptD(2) [OF k2] by simp_all
  have src: "identity_key v = (?s, sr_upstream_id (po_record v))" if "v \<in> set (pc_records c)" for v
    using checks(2) [of v] that by simp
  have "identity_ok db'"
    by (rule identity_ok_commit [OF assms(2) _ own]) (use assms(3) ident eq in auto)
  moreover have "source_backlog db1 ?s = []" "distinct (map fst (db_backlog db1))"
    using assms(5,6) poll_keptD(4) [OF k1] by (simp_all add: source_backlog_def)
  from persist_initial [OF persist this assms(3)] have "map row_record (source_backlog db2 ?s) = pc_remainder c" by simp
  moreover have "source_backlog db' ?s = source_backlog db2 ?s"
    using poll_keptD(4) [OF k2] ident by (simp add: source_backlog_def)
  moreover have "record_by_upstream db' ?s (sr_upstream_id (po_record v)) = Some (po_record v)" if "v \<in> set (pc_records c)" for v
    using ident eq src [OF that] that by (auto simp: record_by_upstream_def)
  moreover have "record_by_upstream db' ?s u = record_by_upstream db ?s u"
    if "u \<notin> (\<lambda>v. sr_upstream_id (po_record v)) ` set (pc_records c)" for u
  proof -
    have "(?s, u) \<notin> identity_key ` set (pc_records c)" using that by auto
    with ident eq show ?thesis by (simp add: record_by_upstream_def)
  qed
  ultimately show ?thesis by simp
qed

text \<open>The poll of an active source without a backlog fetches and parses a changed page.\<close>

definition poll_fetches ::
  "'a worker_env \<Rightarrow> ingest_limits \<Rightarrow> 'a idb \<Rightarrow> source_id \<Rightarrow> source_definition \<Rightarrow> fetched_page \<Rightarrow> parsed_record list \<Rightarrow> bool" where
  "poll_fetches E limits db s source page parsed \<longleftrightarrow>
    (\<exists>k. active_delivery_count db s = Inr k \<and> 0 < k) \<and> pending_poll db s (fanout_batch limits) = Inr None
    \<and> poll_source db s = Inr source \<and> we_fetch E (src_url source) (source_validators db s) = Inr page
    \<and> \<not> fp_not_modified page \<and> parse_page E source page = Inr parsed"

lemma split_initial_parts: "split_initial b k xs = (ys, zs) \<Longrightarrow> ys @ zs = xs"
  by (auto simp: split_initial_def split: if_splits)

lemma worker_poll_commits:
  assumes "worker_poll E limits lease s now (db, n) = (Inr (), db', n')"
    and "poll_fetches E limits db s source page parsed"
  obtains c m where "page_records ''feed response'' pa_upstream_id (feed_record E db s) [] n parsed
      = Inr (pc_records c @ pc_remainder c)" "pc_source_id c = s"
    "commit_poll (we_queue E) (we_ai E) (we_duplicate E) (we_activity E m) db (we_clock E m) lease c = Inr db'"
proof -
  let ?loop = "page_records ''feed response'' pa_upstream_id (feed_record E db s) [] n parsed"
  let ?collect = "collect_page E limits lease source s now ''poll'' (fp_final_url page) (fp_validators page)
    (length parsed) (\<not> has_committed_poll db s)"
  have run: "then_do (lift_result ?loop) ?collect (db, n + length parsed) = (Inr (), db', n')"
    using assms
    by (auto simp: worker_poll_def poll_fetches_def then_do_def query_def lift_result_def Let_def split: if_splits)
  then obtain records where records: "?loop = Inr records" and page: "?collect records (db, n + length parsed) = (Inr (), db', n')"
    by (cases ?loop) (simp_all add: then_do_def lift_result_def)
  obtain taken remainder where split: "split_initial (\<not> has_committed_poll db s) (initial_feed_items limits) records = (taken, remainder)"
    by fastforce
  from page split obtain c where c: "pc_records c = taken" "pc_remainder c = remainder" "pc_source_id c = s"
    and "commit_page E lease c (db, n + length parsed) = (Inr (), db', n')"
    by (force simp: collect_page_def then_do_def elapsed_ms_def split: if_splits)
  then have "commit_poll (we_queue E) (we_ai E) (we_duplicate E) (we_activity E (n + length parsed)) db
      (we_clock E (n + length parsed)) lease c = Inr db'"
    unfolding commit_page_def by (auto dest: transact_unit_run)
  with that records split_initial_parts [OF split] c show ?thesis by blast
qed

lemma page_records_upstream:
  "page_records what up f seen n xs = Inr vs \<Longrightarrow> distinct (map up xs) \<and> set (map up xs) \<inter> set seen = {}"
  by (induction xs arbitrary: seen n vs) (fastforce split: if_splits)+

lemma unchanged_stays:
  assumes "identity_ok db" and loop: "page_records what pa_upstream_id (feed_record E db s) [] n parsed = Inr vs"
    and p: "p \<in> set parsed" and same: "feed_record E db s m p = Inr None"
  shows "pa_upstream_id p \<notin> (\<lambda>v. sr_upstream_id (po_record v)) ` set vs"
proof
  assume "pa_upstream_id p \<in> (\<lambda>v. sr_upstream_id (po_record v)) ` set vs"
  then obtain v where v: "v \<in> set vs" "sr_upstream_id (po_record v) = pa_upstream_id p" by auto
  from page_records_from [OF loop v(1)] obtain i x where x: "x \<in> set parsed" "feed_record E db s i x = Inr (Some v)" by blast
  with feed_record_new(1) [OF assms(1) x(2)] v(2) have "pa_upstream_id x = pa_upstream_id p" by (simp add: reflects_def)
  with page_records_upstream [OF loop] x(1) p have "x = p" by (auto simp: distinct_map dest: inj_onD)
  moreover have "feed_record E db s i p = Inr None"
    using feed_record_old [OF assms(1) same] same by (auto simp: feed_record_def)
  ultimately show False using x(2) by simp
qed

text \<open>Where an entry is after the commit of its page.\<close>

lemma entry_stored:
  assumes ok: "identity_ok db" and loop: "page_records what pa_upstream_id (feed_record E db s) [] n parsed = Inr (records @ remainder)"
    and p: "p \<in> set parsed" and rest: "map row_record (source_backlog db' s) = remainder"
    and taken: "\<forall>v \<in> set records. record_by_upstream db' s (sr_upstream_id (po_record v)) = Some (po_record v)"
    and others: "\<forall>u. u \<notin> (\<lambda>v. sr_upstream_id (po_record v)) ` set records \<longrightarrow> record_by_upstream db' s u = record_by_upstream db s u"
  shows "\<exists>r. reflects (we_url E) s p r
    \<and> (record_by_upstream db' s (pa_upstream_id p) = Some r \<or> r \<in> bl_record ` set (source_backlog db' s))
    \<and> (case record_by_upstream db s (pa_upstream_id p) of Some old \<Rightarrow> sr_id r = sr_id old | None \<Rightarrow> True)"
proof -
  from page_records_all [OF loop p] obtain i v where v: "feed_record E db s i p = Inr v"
    "case v of None \<Rightarrow> True | Some r \<Rightarrow> r \<in> set (records @ remainder)" by blast
  show ?thesis
  proof (cases v)
    case None
    with unchanged_stays [OF ok loop p] v(1) have "pa_upstream_id p \<notin> (\<lambda>v. sr_upstream_id (po_record v)) ` set records"
      by auto
    with others have "record_by_upstream db' s (pa_upstream_id p) = record_by_upstream db s (pa_upstream_id p)" by blast
    with feed_record_old [OF ok] v(1) None show ?thesis by fastforce
  next
    case (Some w)
    note new = feed_record_new [OF ok v(1) [unfolded Some]]
    have "record_by_upstream db' s (pa_upstream_id p) = Some (po_record w)
        \<or> po_record w \<in> bl_record ` set (source_backlog db' s)"
    proof (cases "w \<in> set records")
      case True
      with taken have "record_by_upstream db' s (sr_upstream_id (po_record w)) = Some (po_record w)" by blast
      with new(1) show ?thesis by (simp add: reflects_def)
    next
      case False
      with v(2) Some have "w \<in> set remainder" by simp
      then show ?thesis unfolding rest [symmetric] by (force simp: row_record_def)
    qed
    moreover have "case record_by_upstream db s (pa_upstream_id p) of Some old \<Rightarrow> sr_id (po_record w) = sr_id old | None \<Rightarrow> True"
      using new(2) unfolding keeps_identity_def by (simp split: option.splits)
    ultimately show ?thesis using new(1) by blast
  qed
qed

text \<open>C17. A poll that succeeds stores the whole page: every entry the parser found is afterwards the record of
  its upstream identity, or waits in the backlog of the initial poll, with exactly the content of the page,
  and a record that was known keeps its identifier. The identity table stays a bijection between upstream
  identities and records.\<close>

theorem poll_stores_page:
  assumes "worker_poll E limits lease s now (db, n) = (Inr (), db', n')"
    and "poll_fetches E limits db s source page parsed"
    and "identity_ok db" and "fresh_ids E db {n..<n + length parsed}" and "distinct (map fst (db_backlog db))"
  shows "identity_ok db' \<and> (\<forall>p \<in> set parsed. \<exists>r. reflects (we_url E) s p r
    \<and> (record_by_upstream db' s (pa_upstream_id p) = Some r \<or> r \<in> bl_record ` set (source_backlog db' s))
    \<and> (case record_by_upstream db s (pa_upstream_id p) of Some old \<Rightarrow> sr_id r = sr_id old | None \<Rightarrow> True))"
proof -
  from assms(1,2) obtain c m where loop: "page_records ''feed response'' pa_upstream_id (feed_record E db s) [] n parsed
      = Inr (pc_records c @ pc_remainder c)" and s: "pc_source_id c = s"
    and commit: "commit_poll (we_queue E) (we_ai E) (we_duplicate E) (we_activity E m) db (we_clock E m) lease c = Inr db'"
    by (rule worker_poll_commits)
  let ?vs = "pc_records c @ pc_remainder c"
  have ids: "distinct (map (\<lambda>v. sr_id (po_record v)) ?vs)"
  proof (rule page_records_distinct [OF loop])
    fix i x v i' x' v'
    assume f: "feed_record E db s i x = Inr (Some v)" "feed_record E db s i' x' = Inr (Some v')" "n \<le> i" "i < i'"
      "i' < n + length parsed" "pa_upstream_id x \<noteq> pa_upstream_id x'"
    show "sr_id (po_record v) \<noteq> sr_id (po_record v')"
      by (rule feed_ids_differ [OF assms(3,4) _ _ _ f(6) feed_record_new(2) [OF assms(3) f(1)]
          feed_record_new(2) [OF assms(3) f(2)]]) (use f in auto)
  qed
  have own: "k = identity_key v" if v: "v \<in> set (pc_records c)" and k: "map_of (db_record_identity db) k = Some w"
    "fst w = sr_id (po_record v)" for v k w
  proof -
    from v page_records_from [OF loop, of v] obtain i p where i: "i \<in> {n..<n + length parsed}"
      "feed_record E db s i p = Inr (Some v)" by auto
    note v = feed_record_new [OF assms(3) i(2)]
    from assms(4) k i(1) have "sr_id (po_record v) \<noteq> we_fresh E i" unfolding fresh_ids_def by (metis imageI)
    with v(2) obtain old where old: "record_by_upstream db s (pa_upstream_id p) = Some old" "sr_id (po_record v) = sr_id old"
      by (auto simp: keeps_identity_def split: option.splits)
    from record_by_upstreamD(1) [OF assms(3) old(1)] k old(2) have "k = (s, pa_upstream_id p)"
      using identity_okD(2) [OF assms(3) k(1)] by fastforce
    with v(1) show ?thesis by (simp add: reflects_def)
  qed
  have empty: "source_backlog db (pc_source_id c) = []"
    using assms(2) no_pending_backlog unfolding s poll_fetches_def by blast
  have tables: "identity_ok db' \<and> map row_record (source_backlog db' s) = pc_remainder c
    \<and> (\<forall>v \<in> set (pc_records c). record_by_upstream db' s (sr_upstream_id (po_record v)) = Some (po_record v))
    \<and> (\<forall>u. u \<notin> (\<lambda>v. sr_upstream_id (po_record v)) ` set (pc_records c) \<longrightarrow>
        record_by_upstream db' s u = record_by_upstream db s u)"
    by (rule commit_page_tables [OF commit assms(3) ids _ empty assms(5), unfolded s]) (rule own)
  from tables have "\<exists>r. reflects (we_url E) s p r
    \<and> (record_by_upstream db' s (pa_upstream_id p) = Some r \<or> r \<in> bl_record ` set (source_backlog db' s))
    \<and> (case record_by_upstream db s (pa_upstream_id p) of Some old \<Rightarrow> sr_id r = sr_id old | None \<Rightarrow> True)"
    if "p \<in> set parsed" for p
    by (elim conjE) (rule entry_stored [OF assms(3) loop that])
  with tables show ?thesis by blast
qed

section \<open>A concrete feed\<close>

definition demo_feed_db :: ingest_db where
  "demo_feed_db = demo_ingest_db\<lparr>db_workspaces := [(1, 0, workspace_new 1 9 ''w'')],
     db_subscriptions := [(2, 0, subscription_new 0 2 1 example_url ''s'')], db_subscription_sources := [(2, 2)]\<rparr>"

definition demo_source :: source_definition where
  "demo_source = \<lparr>src_id = 2, src_url = example_url, src_kind = XmlFeed, src_revision = 0\<rparr>"

lemma demo_fetches: "poll_fetches demo_worker demo_limits demo_feed_db 2 demo_source demo_page [example_parsed]"
  by (simp add: poll_fetches_def active_delivery_count_def demo_feed_db_def demo_ingest_db_def store_doc_def
      subscription_new_def workspace_new_def accepts_delivery_def pending_poll_def demo_limits_def source_backlog_def
      i64_max_def poll_source_def demo_source_def parse_page_def demo_page_def demo_worker_def)

definition demo_first :: source_record where
  "demo_first = \<lparr>sr_id = 30, sr_source_id = 2, sr_upstream_id = ''u'',
     sr_key = \<lparr>dk_location = article_location_of example_parser example_parsed 2, dk_title = ''new'', dk_description = None\<rparr>,
     sr_categories = None, sr_description_media_type = None, sr_feed_content_html = None, sr_published_at = None,
     sr_revision = 0\<rparr>"

definition demo_first_page :: poll_commit where
  "demo_first_page = \<lparr>pc_source_id = 2, pc_source_revision = 0, pc_records = [\<lparr>po_record = demo_first, po_action = Deliver\<rparr>],
     pc_remainder = [], pc_fetched_at = 0, pc_final_url = example_url, pc_validators = \<lparr>etag = None, last_modified = None\<rparr>,
     pc_incomplete = False, pc_duration_ms = 5\<rparr>"

lemma demo_first_record:
  "page_records what pa_upstream_id (feed_record demo_worker demo_feed_db 2) [] 0 [example_parsed]
    = Inr [\<lparr>po_record = demo_first, po_action = Deliver\<rparr>]"
  by (simp add: feed_record_def record_by_upstream_def demo_feed_db_def demo_ingest_db_def source_record_from_parsed_def
      demo_first_def example_parsed_def)

lemma demo_first_committed:
  "\<exists>db. commit_record demo_poll_env 0 0 demo_feed_db \<lparr>po_record = demo_first, po_action = Deliver\<rparr> = Inr db
    \<and> db_subscription_sources db = [(2, 2)] \<and> db_workspaces db = db_workspaces demo_feed_db
    \<and> db_subscriptions db = db_subscriptions demo_feed_db"
  by (simp add: commit_record_def demo_first_def demo_feed_db_def demo_ingest_db_def fits_i64_def i64_max_def
      enqueue_work_def source_origin_def store_doc_def extract_job_def put_job_def Let_def put_def
      article_location_of_def example_parsed_def location_url_def)

lemma demo_activity:
  assumes "db_subscription_sources db = [(2, 2)]" and "db_workspaces db = db_workspaces demo_feed_db"
    and "db_subscriptions db = db_subscriptions demo_feed_db"
  shows "\<exists>events. record_subscription_activity fresh db 2 ok d k e t = Inr (db\<lparr>db_activity := events\<rparr>)"
  unfolding record_subscription_activity_def Let_def assms
  by (simp add: demo_feed_db_def store_doc_def subscription_new_def) blast

lemma demo_first_commit:
  "\<exists>db. commit_poll demo_poll_env demo_hooks ''dup'' (\<lambda>_. 0) demo_feed_db 0 demo_poll_lease demo_first_page = Inr db"
proof -
  have lease: "assert_lease demo_feed_db 0 demo_poll_lease = Inr ()"
    by (simp add: assert_lease_def live_lease_def demo_feed_db_def demo_ingest_db_def lease_job_def new_job_def millis_def
        demo_poll_lease_def)
  have ai: "with_ai (ai_begin_poll demo_hooks c) db = Inr db" "with_ai (ai_finish_poll demo_hooks s b) db = Inr db"
    for c s b and db :: ingest_db
    by (simp_all add: with_ai_def demo_hooks_def)
  have persist: "backlog_persist ''dup'' demo_first_page demo_feed_db = Inr demo_feed_db"
    by (simp add: backlog_persist_def demo_first_page_def demo_first_def backlog_acknowledge_def demo_feed_db_def
        demo_ingest_db_def Let_def)
  from demo_first_committed obtain db3 where db3: "try_fold (commit_record demo_poll_env 0 0) demo_feed_db (pc_records demo_first_page) = Inr db3"
    "db_subscription_sources db3 = [(2, 2)]" "db_workspaces db3 = db_workspaces demo_feed_db"
    "db_subscriptions db3 = db_subscriptions demo_feed_db"
    by (auto simp: demo_first_page_def)
  have page: "pc_fetched_at demo_first_page = 0" "pc_source_id demo_first_page = 2" "pc_incomplete demo_first_page = False"
    by (simp_all add: demo_first_page_def)
  define db5 where "db5 = record_source_success_state (poll_state_saved demo_first_page db3) 2 0 False"
  have "db_subscription_sources db5 = [(2, 2)]" "db_workspaces db5 = db_workspaces demo_feed_db"
    "db_subscriptions db5 = db_subscriptions demo_feed_db"
    using db3 by (simp_all add: db5_def record_source_success_state_def)
  from demo_activity [OF this] obtain events where "record_subscription_activity (\<lambda>_. 0) db5 2 True (Some (pc_duration_ms demo_first_page))
      (Some (length (pc_records demo_first_page))) None 0 = Inr (db5\<lparr>db_activity := events\<rparr>)" by blast
  then show ?thesis
    unfolding commit_poll_def lease ai page Let_def
    by (simp add: persist db3(1) ai queue_backfill_def db5_def page)
qed

lemma demo_first_run:
  "\<exists>db n. worker_poll demo_worker demo_limits demo_poll_lease 2 0 (demo_feed_db, 0) = (Inr (), db, n)"
proof -
  have page: "split_initial b 5 [x] = ([x], [])" for b and x :: polled_record by (simp add: split_initial_def)
  have "collect_page demo_worker demo_limits demo_poll_lease demo_source 2 0 ''poll'' example_url
      \<lparr>etag = None, last_modified = None\<rparr> 1 b [\<lparr>po_record = demo_first, po_action = Deliver\<rparr>] st
    = commit_page demo_worker demo_poll_lease demo_first_page st" for b st
    by (simp add: collect_page_def demo_limits_def page then_do_def elapsed_ms_def demo_first_page_def demo_source_def)
      (simp add: demo_worker_def)
  moreover from demo_first_commit obtain db where
    "commit_poll demo_poll_env demo_hooks ''dup'' (\<lambda>_. 0) demo_feed_db 0 demo_poll_lease demo_first_page = Inr db" by blast
  then have "commit_page demo_worker demo_poll_lease demo_first_page (demo_feed_db, n) = (Inr (), db, Suc n)" for n
    by (simp add: commit_page_def transact_unit_def transact_def) (simp add: demo_worker_def)
  ultimately show ?thesis
    using demo_fetches demo_first_record
    by (auto simp: worker_poll_def poll_fetches_def then_do_def query_def lift_result_def Let_def demo_page_def demo_limits_def)
qed

theorem poll_stores_page_witness:
  "\<exists>db n r. worker_poll demo_worker demo_limits demo_poll_lease 2 0 (demo_feed_db, 0) = (Inr (), db, n) \<and> identity_ok db
    \<and> reflects example_parser 2 example_parsed r
    \<and> (record_by_upstream db 2 ''u'' = Some r \<or> r \<in> bl_record ` set (source_backlog db 2))"
proof -
  from demo_first_run obtain db n where run: "worker_poll demo_worker demo_limits demo_poll_lease 2 0 (demo_feed_db, 0) = (Inr (), db, n)"
    by blast
  have "identity_ok demo_feed_db" "fresh_ids demo_worker demo_feed_db {0..<0 + length [example_parsed]}"
    "distinct (map fst (db_backlog demo_feed_db))"
    by (simp_all add: identity_ok_def fresh_ids_def demo_feed_db_def demo_ingest_db_def)
  from poll_stores_page [OF run demo_fetches this] run show ?thesis by (auto simp: example_parsed_def)
qed

end
