(* ===== verification/Fanout_Runs.thy ===== *)
theory Fanout_Runs
  imports Worker_Runs
begin

text \<open>
  Fan-out of one record to the subscribers of its source: what one job delivers, that the chain of
  continuation jobs reaches every subscriber, and where it does not.
\<close>

section \<open>Links survive deliveries\<close>







section \<open>One page of targets\<close>

text \<open>Rows are stored under their own identifiers.\<close>

definition keyed :: "'a db \<Rightarrow> bool" where
  "keyed db \<longleftrightarrow> (\<forall>x r sub. map_of (db_subscriptions db) x = Some (r, sub) \<longrightarrow> sub_id sub = x)
    \<and> (\<forall>x r w. map_of (db_workspaces db) x = Some (r, w) \<longrightarrow> ws_id w = x)"

text \<open>The subscriptions of a source after a cursor, in the order of the query, and those that accept.\<close>

definition fanout_links :: "'a db \<Rightarrow> source_id \<Rightarrow> subscription_id option \<Rightarrow> subscription_id list" where
  "fanout_links db source after = sort (map fst (filter (\<lambda>(s, src). src = source
     \<and> (case after of None \<Rightarrow> True | Some a \<Rightarrow> a < s) \<and> map_of (db_subscriptions db) s \<noteq> None) (db_subscription_sources db)))"


definition deliverable :: "'a db \<Rightarrow> subscription_id \<Rightarrow> bool" where
  "deliverable db x \<longleftrightarrow>
    (case map_of (db_subscriptions db) x of
       None \<Rightarrow> False
     | Some (_, sub) \<Rightarrow> active_subscription sub
         \<and> (case map_of (db_workspaces db) (sub_workspace sub) of None \<Rightarrow> False | Some (_, w) \<Rightarrow> accepts_delivery w))"


text \<open>One turn of the loop of \<open>delivery_targets\<close>.\<close>

abbreviation target_step :: "'a db \<Rightarrow> delivery_target list \<Rightarrow> subscription_id \<Rightarrow> store_error + delivery_target list" where
  "target_step db \<equiv> \<lambda>targets s. and_then (store_doc (db_subscriptions db) s) (\<lambda>sub.
            if \<not> active_subscription sub then Inr targets
            else
              and_then (store_doc (db_workspaces db) (sub_workspace sub)) (\<lambda>w.
              Inr (if accepts_delivery w
                   then targets @ [\<lparr>dt_workspace_id = sub_workspace sub, dt_subscription_id = sub_id sub\<rparr>]
                   else targets)))"






section \<open>The chain of continuation jobs\<close>











text \<open>C19. Where a page of the links holds only paused or archived subscriptions, the fan-out ends there: the
  job succeeds, delivers nothing and queues no continuation, whatever subscriptions follow.\<close>

theorem fanout_stops_at_blank_page:
  assumes "keyed db" and "poll_record db r = Inr rec" and "fanout_batch limits \<le> i64_max"
    and "\<forall>x \<in> set (take (fanout_batch limits) (fanout_links db s after)). \<exists>q sub.
      map_of (db_subscriptions db) x = Some (q, sub) \<and> \<not> active_subscription sub"
  shows "fanout E limits lease s r after now (db, n) = (Inr (), db, n)"
proof -
  have "\<forall>x \<in> set xs. \<exists>q sub. map_of (db_subscriptions db) x = Some (q, sub) \<and> \<not> active_subscription sub \<Longrightarrow>
      try_fold (target_step db) acc xs = Inr acc" for xs acc
  proof (induction xs)
    case (Cons x xs)
    from Cons.prems obtain q sub where "map_of (db_subscriptions db) x = Some (q, sub)" "\<not> active_subscription sub" by auto
    then have step: "target_step db acc x = Inr acc" by (simp add: store_doc_def)
    have "try_fold (target_step db) acc xs = Inr acc" by (rule Cons.IH) (use Cons.prems in simp)
    then show ?case unfolding try_fold.simps step and_then_simps(2) .
  qed simp
  with assms(3,4) have "delivery_targets db s after (fanout_batch limits) = Inr []"
    unfolding delivery_targets_def fanout_links_def [symmetric] by (simp add: Let_def)
  with assms(2) show ?thesis by (simp add: fanout_def then_do_def query_def give_def)
qed

section \<open>Concrete subscribers\<close>

definition demo_archived :: "subscription_id \<Rightarrow> subscription" where
  "demo_archived i = (subscription_new 0 i 1 example_url ''s'')\<lparr>sub_status := SubscriptionArchived\<rparr>"

definition demo_fan_db :: ingest_db where
  "demo_fan_db = demo_ingest_db\<lparr>db_workspaces := [(1, 0, workspace_new 1 9 ''w'')],
     db_subscriptions := [(3, 0, demo_archived 3), (4, 0, demo_archived 4), (5, 0, subscription_new 0 5 1 example_url ''s'')],
     db_subscription_sources := [(3, 2), (4, 2), (5, 2)]\<rparr>"

lemma demo_fan_keyed: "keyed demo_fan_db"
  by (auto simp: keyed_def demo_fan_db_def demo_archived_def subscription_new_def workspace_new_def split: if_splits)

lemma demo_fan_record: "poll_record demo_fan_db 1 = Inr example_record" "sr_id example_record = 1"
  by (simp_all add: poll_record_def store_doc_def demo_fan_db_def demo_ingest_db_def example_record_def)

lemma demo_fan_links: "fanout_links demo_fan_db 2 None = [3, 4, 5]"
  by (simp add: fanout_links_def demo_fan_db_def)

lemma demo_fan_deliverable: "deliverable demo_fan_db 5"
  by (simp add: deliverable_def demo_fan_db_def active_subscription_def subscription_new_def accepts_delivery_def workspace_new_def)

theorem fanout_stops_at_blank_page_witness:
  "fanout demo_worker demo_limits demo_leased 2 1 None 0 (demo_fan_db, 0) = (Inr (), demo_fan_db, 0)
    \<and> (5, 2) \<in> set (db_subscription_sources demo_fan_db) \<and> deliverable demo_fan_db 5"
proof -
  have "fanout demo_worker demo_limits demo_leased 2 1 None 0 (demo_fan_db, 0) = (Inr (), demo_fan_db, 0)"
    by (rule fanout_stops_at_blank_page [OF demo_fan_keyed demo_fan_record(1)])
      (simp_all add: demo_fan_links demo_limits_def i64_max_def, simp add: demo_fan_db_def demo_archived_def active_subscription_def)
  with demo_fan_deliverable show ?thesis by (simp add: demo_fan_db_def)
qed


end
