(* ===== verification/Admission.thy ===== *)
theory Admission
  imports Poll Library "HOL-Library.Product_Lexorder"
begin

text \<open>
  \<open>ai_bootstrap.rs\<close>: the order in which the records of a source were discovered, and which of them belong
  to the initial records of a subscription. The discovery order is also what a new or resumed
  subscription is filled from. Advisory locks serialise transactions and leave no trace here. The SQL
  function that freezes a selection once it is delivered (\<open>reader_ai_finalize_subscription\<close>) is a
  parameter; it writes tables of the AI features only. A violated foreign key fails the statement with the
  message \<open>ae_violation\<close>.
\<close>

record discovery_row =
  di_source :: source_id
  di_sequence :: nat
  di_publication_order :: "int option"
  di_source_order :: int

record bootstrap_row =
  bo_owner :: account_id
  bo_workspace :: workspace_id
  bo_initial_articles :: nat
  bo_cutoff :: "nat option"
  bo_ready :: bool

text \<open>\<open>db_next_sequence\<close> is the counter of the identity column; \<open>db_initial_articles\<close> is the single row of
  \<open>ai_bootstrap_policy\<close>.\<close>

record admission_db = ingest_db +
  db_initial_articles :: nat
  db_next_sequence :: nat
  db_discovery :: "(source_record_id \<times> discovery_row) list"
  db_bootstrap :: "((subscription_id \<times> source_id) \<times> bootstrap_row) list"
  db_initial_records :: "(subscription_id \<times> source_id \<times> source_record_id) list"

type_synonym 'b adb = "'b admission_db_scheme"

record 'b admission_env =
  ae_dates :: date_env
  ae_nanos :: "instant \<Rightarrow> string"
  ae_violation :: string
  ae_finalize :: "subscription_id \<Rightarrow> source_id \<Rightarrow> 'b adb \<Rightarrow> 'b admission_db_ext"

section \<open>The calendar order of a publication date\<close>

definition publication_clock :: "'b admission_env \<Rightarrow> source_record \<Rightarrow> string option" where
  "publication_clock A rec =
    (case sr_published_at rec of
       None \<Rightarrow> None
     | Some date \<Rightarrow>
       (let value = publication_as_str date in
        case rfc3339 (ae_dates A) value of
          Some (t, _) \<Rightarrow> Some (ae_nanos A t)
        | None \<Rightarrow>
          (case naive_date_time (ae_dates A) value clock_format of
             Some t \<Rightarrow> Some (show_date_time (ae_dates A) ''%Y-%m-%dT%H:%M:%S%.9fZ'' t)
           | None \<Rightarrow>
             map_option (\<lambda>day. show_date (ae_dates A) day @ ''T00:00:00.000000000Z'')
               (naive_date (ae_dates A) value day_format))))"

text \<open>\<open>reader_arrival_order\<close> of the schema: the decimal key of a timestamp text. The text is an optionally
  signed year of four to six digits, then fields of two digits, up to nine digits of a fraction, and
  \<open>Z\<close>; anything else raises an exception.\<close>

definition field :: "nat \<Rightarrow> string \<Rightarrow> (nat \<times> string) option" where
  "field n s =
    (if length s < n then None
     else map_option (\<lambda>v. (v, drop n s)) (digits_value 0 (take n s)))"

definition after_char :: "char \<Rightarrow> string \<Rightarrow> string option" where
  "after_char c s = (case s of d # s' \<Rightarrow> if d = c then Some s' else None | [] \<Rightarrow> None)"

definition fields_2 :: "string \<Rightarrow> string \<Rightarrow> (nat list \<times> string) option" where
  "fields_2 seps s =
    fold (\<lambda>c state. Option.bind state (\<lambda>(vs, s). Option.bind (after_char c s) (\<lambda>s.
      map_option (\<lambda>(v, s). (vs @ [v], s)) (field 2 s)))) seps (Some ([], s))"

definition arrival_year :: "string \<Rightarrow> (int \<times> string) option" where
  "arrival_year s =
    (let sign = (if take 1 s = ''-'' then - 1 else 1);
         body = (if take 1 s = ''-'' \<or> take 1 s = ''+'' then drop 1 s else s);
         year = takeWhile (\<lambda>c. digit_value c \<noteq> None) body in
     if 4 \<le> length year \<and> length year \<le> 6
     then map_option (\<lambda>v. (sign * int v, drop (length year) body)) (digits_value 0 year)
     else None)"

definition arrival_fraction :: "string \<Rightarrow> nat option" where
  "arrival_fraction s =
    (if s = ''Z'' then Some 0
     else Option.bind (after_char (CHR ''.'') s) (\<lambda>s.
       let n = length s - 1 in
       if 1 \<le> n \<and> n \<le> 9 \<and> drop n s = ''Z''
       then map_option (\<lambda>v. v * 10 ^ (9 - n)) (digits_value 0 (take n s)) else None))"

definition reader_arrival_order :: "string \<Rightarrow> string + int" where
  "reader_arrival_order value =
    ok_or (Option.bind (arrival_year value) (\<lambda>(year, s).
      Option.bind (fields_2 ''--T::'' s) (\<lambda>(vs, s).
      map_option (\<lambda>fraction. fold (\<lambda>v key. key * 100 + int v) vs year * 1000000000 + int fraction)
        (arrival_fraction s))))
      ''unsupported article timestamp representation''"

definition publication_order :: "'b admission_env \<Rightarrow> source_record \<Rightarrow> string + int option" where
  "publication_order A rec = try_opt reader_arrival_order (publication_clock A rec)"

section \<open>Discovery\<close>

text \<open>One row, \<open>ON CONFLICT(record) DO NOTHING\<close>. The identity column draws its value in either case.\<close>

definition insert_discovery ::
  "source_record_id \<Rightarrow> source_id \<Rightarrow> int option \<Rightarrow> int \<Rightarrow> 'b adb \<Rightarrow> 'b adb" where
  "insert_discovery r s order ordinal db =
    db\<lparr>db_discovery := snd (insert_new (db_discovery db) r
          \<lparr>di_source = s, di_sequence = db_next_sequence db, di_publication_order = order,
           di_source_order = ordinal\<rparr>),
       db_next_sequence := db_next_sequence db + 1\<rparr>"

definition discover :: "'b admission_env \<Rightarrow> source_record \<Rightarrow> int \<Rightarrow> 'b adb \<Rightarrow> string + 'b adb" where
  "discover A rec ordinal db =
    and_then (publication_order A rec) (\<lambda>order.
      Inr (insert_discovery (sr_id rec) (sr_source_id rec) order ordinal db))"

text \<open>Rows of \<open>subscription_ai_initial_records\<close>, with their two foreign keys.\<close>

definition insert_initial ::
  "'b admission_env \<Rightarrow> subscription_id \<Rightarrow> source_id \<Rightarrow> source_record_id \<Rightarrow> 'b adb \<Rightarrow> string + 'b adb" where
  "insert_initial A sub s r db =
    (if (sub, s, r) \<in> set (db_initial_records db) then Inr db
     else if map_of (db_discovery db) r = None \<or> map_of (db_bootstrap db) (sub, s) = None
     then Inl (ae_violation A)
     else Inr (db\<lparr>db_initial_records := db_initial_records db @ [(sub, s, r)]\<rparr>))"

definition open_bootstraps :: "source_id \<Rightarrow> 'b adb \<Rightarrow> subscription_id list" where
  "open_bootstraps s db =
    map (\<lambda>((sub, _), _). sub) (filter (\<lambda>((_, s'), row). s' = s \<and> bo_cutoff row = None) (db_bootstrap db))"

definition begin_poll :: "'b admission_env \<Rightarrow> poll_commit \<Rightarrow> 'b adb \<Rightarrow> string + 'b adb" where
  "begin_poll A c db =
    (let records = pc_records c @ pc_remainder c; source = pc_source_id c in
     if length records \<ge> 2 ^ 63 then Inl ''source order exceeds storage range''
     else
       and_then (try_fold (\<lambda>db (ordinal, polled).
           and_then (publication_order A (po_record polled)) (\<lambda>order.
             Inr (insert_discovery (sr_id (po_record polled)) source order (int ordinal) db)))
         db (enumerate 0 records)) (\<lambda>db1.
       let ids = map (\<lambda>polled. sr_id (po_record polled)) records;
           found = map fst (filter (\<lambda>(r, row). di_source row = source \<and> r \<in> set ids) (db_discovery db1)) in
       Inr (db1\<lparr>db_initial_records :=
         fold insert_row (concat (map (\<lambda>sub. map (\<lambda>r. (sub, source, r)) found) (open_bootstraps source db1)))
           (db_initial_records db1)\<rparr>)))"

definition latest_sequence :: "source_id \<Rightarrow> 'b adb \<Rightarrow> nat" where
  "latest_sequence s db =
    fold max (map (\<lambda>(_, row). di_sequence row) (filter (\<lambda>(_, row). di_source row = s) (db_discovery db))) 0"

definition finalize :: "'b admission_env \<Rightarrow> source_id \<Rightarrow> subscription_id \<Rightarrow> 'b adb \<Rightarrow> 'b adb" where
  "finalize A s sub db = ingest_db.more_update (\<lambda>_. ae_finalize A sub s db) db"

definition finish_poll :: "'b admission_env \<Rightarrow> source_id \<Rightarrow> bool \<Rightarrow> 'b adb \<Rightarrow> string + 'b adb" where
  "finish_poll A s incomplete db =
    (if incomplete then Inr db
     else let subs = open_bootstraps s db;
              cutoff = latest_sequence s db;
              db1 = db\<lparr>db_bootstrap := map (\<lambda>((sub, s'), row).
                ((sub, s'), if s' = s \<and> bo_cutoff row = None then row\<lparr>bo_cutoff := Some cutoff\<rparr> else row))
                (db_bootstrap db)\<rparr> in
       Inr (fold (finalize A s) subs db1))"

definition create_subscription ::
  "'b admission_env \<Rightarrow> subscription_id \<Rightarrow> source_id \<Rightarrow> 'b adb \<Rightarrow> string + 'b adb" where
  "create_subscription A sub s db =
    (let db1 = (case map_of (db_subscriptions db) sub of
           None \<Rightarrow> db
         | Some (_, value) \<Rightarrow>
           (case map_of (db_workspaces db) (sub_workspace value) of
              None \<Rightarrow> db
            | Some (_, w) \<Rightarrow>
              db\<lparr>db_bootstrap := snd (insert_new (db_bootstrap db) (sub, s)
                \<lparr>bo_owner = ws_owner w, bo_workspace = sub_workspace value,
                 bo_initial_articles = db_initial_articles db, bo_cutoff = None, bo_ready = False\<rparr>)\<rparr>));
         pending = map (\<lambda>(_, row). bl_record row)
           (sort_key (\<lambda>(_, row). bl_ordinal row) (filter (\<lambda>((s', _), _). s' = s) (db_backlog db))) in
     try_fold (\<lambda>db rec. insert_initial A sub s (sr_id rec) db) db1 pending)"

text \<open>The hooks of a poll commit.\<close>

definition admission_hooks :: "'b admission_env \<Rightarrow> 'b admission_db_ext ai_hooks" where
  "admission_hooks A =
    \<lparr>ai_begin_poll = (\<lambda>c db. and_then (begin_poll A c db) (\<lambda>db'. Inr (ingest_db.more db'))),
     ai_finish_poll = (\<lambda>s incomplete db. and_then (finish_poll A s incomplete db) (\<lambda>db'. Inr (ingest_db.more db')))\<rparr>"

end
