(* ===== verification/Subscription_Store.thy ===== *)
theory Subscription_Store
  imports Admission
begin

text \<open>
  The storage of subscriptions: the provisioning and backfill helpers of \<open>repository.rs\<close>, the import of
  seed configurations, and \<open>repository/subscription.rs\<close>. Random identifiers and the clock are arguments.
  A primary key that is already taken fails a plain \<open>INSERT\<close> with the message \<open>re_duplicate\<close>.
\<close>

section \<open>Tables and environment\<close>

text \<open>\<open>serde_json::Value\<close>, with the numbers that the program reads.\<close>

datatype json =
  JNull | JBool bool | JNumber int | JString string | JArray "json list" | JObject "(string \<times> json) list"

record source_url_preview =
  su_id :: uuid
  su_subscription_id :: subscription_id
  su_url :: string
  su_source_title :: string
  su_expires_at :: instant
  su_revision :: u64

record subscription_db = admission_db +
  db_recipes :: "(subscription_id, web_feed_recipe_draft) table"
  db_seed_items :: "(string, json) table"
  db_previews :: "(uuid, source_url_preview) table"

type_synonym 'c sdb = "'c subscription_db_scheme"

record imported_seed_config =
  is_id :: string
  is_name :: string
  is_url :: string
  is_feed_url :: "string option"
  is_adapter :: "string option"
  is_listing_url :: "string option"
  is_link_selector :: "string option"
  is_card_selector :: "string option"
  is_title_selector :: "string option"
  is_date_selector :: "string option"
  is_content_selector :: "string option"
  is_url_pattern :: "string option"
  is_next_selector :: "string option"
  is_extra_listing_urls :: "string list"
  is_max_pages :: "nat option"
  is_page_size :: "nat option"
  is_browser :: bool
  is_browser_fallback :: bool
  is_wait_selector :: "string option"
  is_load_more_selector :: "string option"
  is_load_more_clicks :: nat
  is_scroll_steps :: nat

text \<open>\<open>re_url_hash\<close> is the name-based identifier in the URL namespace, \<open>re_decode_seed\<close> the derived decoder
  of \<open>ImportedSeedConfig\<close>.\<close>

record 'c repo_env =
  re_queue :: queue_env
  re_admission :: "'c subscription_db_ext admission_env"
  re_web :: web_env
  re_reasons :: reason_policy
  re_scope :: nat
  re_url_hash :: "string \<Rightarrow> uuid"
  re_decode_seed :: "json \<Rightarrow> string + imported_seed_config"
  re_duplicate :: string

abbreviation storage :: "string + 'a \<Rightarrow> repository_error + 'a" where
  "storage m \<equiv> map_err Storage m"

section \<open>Imported configurations\<close>

definition seed_selector :: "web_env \<Rightarrow> string \<Rightarrow> repository_error + web_selector" where
  "seed_selector W s = map_err (\<lambda>e. Storage (web_feed_error_text e)) (web_selector_new W Css s)"

definition seed_url :: "web_env \<Rightarrow> string \<Rightarrow> string \<Rightarrow> repository_error + url" where
  "seed_url W message s = ok_or (parse_url W s) (Storage message)"

definition seed_listing :: "web_env \<Rightarrow> string option \<Rightarrow> url \<Rightarrow> repository_error + url" where
  "seed_listing W value fallback =
    (case value of Some v \<Rightarrow> seed_url W ''invalid imported listing URL'' v | None \<Rightarrow> Inr fallback)"

definition seed_adapter ::
  "web_env \<Rightarrow> imported_seed_config \<Rightarrow> url \<Rightarrow> string \<Rightarrow> repository_error + built_in_adapter" where
  "seed_adapter W raw canonical adapter =
    (if adapter = ''cloudera'' then and_then (seed_listing W (is_listing_url raw) canonical) (\<lambda>u. Inr (Cloudera u))
     else if adapter = ''digoal'' then and_then (seed_listing W (is_listing_url raw) canonical) (\<lambda>u. Inr (Digoal u))
     else if adapter = ''mirrorship'' then Inr Mirrorship
     else if adapter = ''pingkai'' then and_then (seed_listing W (is_listing_url raw) canonical) (\<lambda>u. Inr (Pingkai u))
     else if adapter = ''modb-news'' then Inr ModbNews
     else if adapter = ''infoq-bigdata'' then Inr InfoqBigdata
     else if adapter = ''volcengine'' then Inr Volcengine
     else if adapter = ''jdcloud''
     then and_then (ok_or (is_page_size raw) (Storage ''jdcloud requires explicit page_size'')) (\<lambda>n. Inr (JdCloud n))
     else if adapter = ''highgo'' then Inr (Highgo (case is_max_pages raw of Some n \<Rightarrow> n | None \<Rightarrow> 5))
     else Inl (Storage (''unsupported imported adapter '' @ adapter)))"

definition seed_recipe :: "web_env \<Rightarrow> imported_seed_config \<Rightarrow> repository_error + web_feed_recipe" where
  "seed_recipe W raw =
    and_then (ok_or (is_link_selector raw) (Storage ''generic imported source requires link_selector'')) (\<lambda>link.
    and_then (seed_selector W link) (\<lambda>primary.
    let loading = (if is_browser raw then Browser else if is_browser_fallback raw then Automatic else Static) in
    and_then (try_map (seed_url W ''invalid extra listing URL'') (is_extra_listing_urls raw)) (\<lambda>pages.
    and_then (try_opt (seed_selector W) (is_next_selector raw)) (\<lambda>next_page.
    and_then (try_opt (seed_selector W) (is_load_more_selector raw)) (\<lambda>load_more.
    and_then (map_err (\<lambda>e. Storage (web_feed_error_text e))
      (web_feed_actions_new Desktop [] pages next_page load_more (is_load_more_clicks raw) (is_scroll_steps raw)
        usize_max usize_max)) (\<lambda>actions.
    and_then (try_opt (seed_url W ''invalid imported listing URL'') (is_listing_url raw)) (\<lambda>listing.
    and_then (map_err (\<lambda>e. Storage (web_feed_error_text e))
      (web_extraction_new W listing (is_card_selector raw) (is_title_selector raw) (is_date_selector raw)
        (is_content_selector raw) (is_wait_selector raw) (is_url_pattern raw))) (\<lambda>extraction.
    map_err (\<lambda>e. Storage (web_feed_error_text e))
      (recipe_configured primary loading actions extraction (case is_max_pages raw of Some n \<Rightarrow> n | None \<Rightarrow> 3))))))))))"

definition decode_seed :: "'c repo_env \<Rightarrow> json \<Rightarrow> repository_error + imported_seed_config" where
  "decode_seed R configuration =
    map_err (\<lambda>e. Storage (''invalid imported source recipe: '' @ e)) (re_decode_seed R configuration)"

definition imported_source_kind :: "'c repo_env \<Rightarrow> json \<Rightarrow> repository_error + source_kind" where
  "imported_source_kind R configuration =
    and_then (decode_seed R configuration) (\<lambda>raw.
    if trim (is_id raw) = [] \<or> trim (is_name raw) = [] then Inl (Storage ''imported source id/name is empty'')
    else and_then (seed_url (re_web R) ''invalid imported source URL'' (is_url raw)) (\<lambda>canonical.
    if \<not> is_http canonical then Inl (Storage ''invalid imported source URL scheme'')
    else if is_feed_url raw \<noteq> None then Inr AutoKind
    else case is_adapter raw of
      Some adapter \<Rightarrow> and_then (seed_adapter (re_web R) raw canonical adapter) (\<lambda>a. Inr (BuiltIn a))
    | None \<Rightarrow> and_then (seed_recipe (re_web R) raw) (\<lambda>recipe. Inr (WebPage recipe))))"

text \<open>The draft that shows a stored recipe in the editor.\<close>

definition language_text :: "selector_language \<Rightarrow> string" where
  "language_text l = (case l of Css \<Rightarrow> ''css'' | XPath \<Rightarrow> ''xpath'')"

definition loading_text :: "web_loading \<Rightarrow> string" where
  "loading_text l = (case l of Automatic \<Rightarrow> ''automatic'' | Static \<Rightarrow> ''static'' | Browser \<Rightarrow> ''browser'')"

definition viewport_text :: "web_viewport \<Rightarrow> string" where
  "viewport_text v = (case v of Desktop \<Rightarrow> ''desktop'' | Mobile \<Rightarrow> ''mobile'')"

definition selector_to_draft :: "web_selector \<Rightarrow> selector_draft" where
  "selector_to_draft v = \<lparr>sd_language = language_text (sel_language v), sd_expression = sel_expression v\<rparr>"

definition recipe_to_draft :: "workspace_id \<Rightarrow> url \<Rightarrow> web_feed_recipe \<Rightarrow> web_feed_recipe_draft" where
  "recipe_to_draft w u recipe =
    (let actions = wr_actions recipe; extraction = wr_extraction recipe in
     \<lparr>wd_workspace_id = w, wd_url = url_text u, wd_selector = sel_expression (wr_selector recipe),
      wd_loading = loading_text (wr_loading recipe), wd_preview = Some False,
      wd_selector_language = Some (language_text (sel_language (wr_selector recipe))),
      wd_viewport = Some (viewport_text (wa_viewport actions)),
      wd_listing_url = map_option url_text (we_listing_url extraction),
      wd_card_selector = map_option sel_expression (we_card extraction),
      wd_title_selector = map_option sel_expression (we_title extraction),
      wd_date_selector = map_option sel_expression (we_date extraction),
      wd_content_selector = map_option sel_expression (we_content extraction),
      wd_wait_selector = map_option sel_expression (we_wait extraction),
      wd_url_pattern = we_url_pattern extraction, wd_max_pages = Some (wr_max_pages recipe),
      wd_hide_overlays = map selector_to_draft (wa_hide_overlays actions),
      wd_start_pages = map url_text (wa_start_pages actions),
      wd_next_page = map_option selector_to_draft (wa_next_page actions),
      wd_load_more = map_option selector_to_draft (wa_load_more actions),
      wd_load_more_clicks = wa_load_more_clicks actions, wd_scrolls = wa_scrolls actions\<rparr>)"

definition editable_recipe_document :: "workspace_id \<Rightarrow> url \<Rightarrow> source_kind \<Rightarrow> web_feed_recipe_draft option" where
  "editable_recipe_document w u kind =
    (case kind of WebPage recipe \<Rightarrow> Some (recipe_to_draft w u recipe) | _ \<Rightarrow> None)"

section \<open>Links, backfill and provisioning\<close>

definition feed_url_key :: "workspace_id \<Rightarrow> string \<Rightarrow> workspace_id \<times> string" where
  "feed_url_key w exact = (w, exact)"

definition source_for_subscription :: "'a db \<Rightarrow> subscription_id \<Rightarrow> repository_error + source_id" where
  "source_for_subscription db sub = ok_or (map_of (db_subscription_sources db) sub) NotFound"

definition new_source :: "source_id \<Rightarrow> url \<Rightarrow> source_kind \<Rightarrow> repository_error + source_definition" where
  "new_source i u kind = map_err (\<lambda>e. Storage (model_error_text e)) (source_definition_new i u kind)"

text \<open>Newest publications first, then the order of the page, then the order of discovery.\<close>

definition backfill_key :: "discovery_row \<Rightarrow> (int \<times> int) \<times> int \<times> nat" where
  "backfill_key row =
    ((case di_publication_order row of None \<Rightarrow> (1, 0) | Some k \<Rightarrow> (0, - k)), di_source_order row, di_sequence row)"

definition backfill_records :: "'b adb \<Rightarrow> source_id \<Rightarrow> nat \<Rightarrow> source_record list" where
  "backfill_records db s limit =
    take limit (map (\<lambda>(r, _). snd (the (map_of (db_source_records db) r)))
      (sort_key (\<lambda>(_, row). backfill_key row)
        (filter (\<lambda>(r, row). di_source row = s \<and> map_of (db_source_records db) r \<noteq> None) (db_discovery db))))"

definition backfill_job :: "queue_env \<Rightarrow> subscription_id \<Rightarrow> source_record_id \<Rightarrow> job_id" where
  "backfill_job env sub r =
    job_hash env (''subscription-backfill/'' @ uuid_text env sub @ ''/'' @ uuid_text env r)"

definition initial_while_open :: "subscription_id \<Rightarrow> source_id \<Rightarrow> source_record_id \<Rightarrow> 'b adb \<Rightarrow> 'b adb" where
  "initial_while_open sub s r db =
    (case map_of (db_bootstrap db) (sub, s) of
       Some row \<Rightarrow>
         if bo_cutoff row = None
         then db\<lparr>db_initial_records := insert_row (sub, s, r) (db_initial_records db)\<rparr> else db
     | None \<Rightarrow> db)"

definition backfill_record ::
  "queue_env \<Rightarrow> 'b admission_env \<Rightarrow> instant \<Rightarrow> source_id \<Rightarrow> subscription_id \<Rightarrow> 'b adb \<Rightarrow> source_record
    \<Rightarrow> repository_error + 'b adb" where
  "backfill_record env A wall s sub db rec =
    and_then (storage (discover A rec 0 db)) (\<lambda>db1.
      enqueue_work_tx env (initial_while_open sub s (sr_id rec) db1) (backfill_job env sub (sr_id rec))
        (FanOut s (sr_id rec) None) wall)"

definition enqueue_backfill_tx ::
  "queue_env \<Rightarrow> 'b admission_env \<Rightarrow> 'b adb \<Rightarrow> instant \<Rightarrow> source_id \<Rightarrow> subscription_id \<Rightarrow> nat
    \<Rightarrow> repository_error + 'b adb" where
  "enqueue_backfill_tx env A db wall s sub limit =
    (if limit \<ge> 2 ^ 63 then Inl int_conversion_error
     else try_fold (backfill_record env A wall s sub) db (backfill_records db s limit))"

text \<open>\<open>INSERT INTO source_urls ... ON CONFLICT DO NOTHING\<close>: the proposed source is stored under its URL, or
  the source that has the URL is used. \<open>strict\<close> is whether the number of inserted sources is checked.\<close>

definition share_source ::
  "bool \<Rightarrow> 'a db \<Rightarrow> string \<Rightarrow> source_definition \<Rightarrow> u64 \<Rightarrow> repository_error + source_id \<times> 'a db" where
  "share_source strict db u proposed revision =
    (case map_of (db_source_urls db) u of
       Some existing \<Rightarrow> Inr (existing, db)
     | None \<Rightarrow>
       and_then (cas_tx (db_sources db) (src_id proposed) None revision proposed) (\<lambda>(affected, t).
         if strict \<and> affected \<noteq> 1 then Inl Conflict
         else Inr (src_id proposed, db\<lparr>db_source_urls := put u (src_id proposed) (db_source_urls db), db_sources := t\<rparr>)))"

definition insert_strict :: "string \<Rightarrow> ('k \<times> 'v) list \<Rightarrow> 'k \<Rightarrow> 'v \<Rightarrow> repository_error + ('k \<times> 'v) list" where
  "insert_strict duplicate t k v =
    (case map_of t k of None \<Rightarrow> Inr (put k v t) | Some _ \<Rightarrow> Inl (Storage duplicate))"

definition reserve_feed_url :: "'a db \<Rightarrow> subscription \<Rightarrow> repository_error + 'a db" where
  "reserve_feed_url db value =
    (let key = feed_url_key (sub_workspace value) (source_url_exact value) in
     case map_of (db_feed_urls db) key of
       None \<Rightarrow> Inr (db\<lparr>db_feed_urls := put key (sub_id value) (db_feed_urls db)\<rparr>)
     | Some _ \<Rightarrow> Inl Conflict)"

definition isolate_source :: "'a db \<Rightarrow> source_definition \<Rightarrow> repository_error + source_id \<times> 'a db" where
  "isolate_source db proposed =
    and_then (cas_tx (db_sources db) (src_id proposed) None (src_revision proposed) proposed) (\<lambda>(_, t).
      Inr (src_id proposed, db\<lparr>db_sources := t\<rparr>))"

definition provision_subscription_tx ::
  "'c repo_env \<Rightarrow> 'c sdb \<Rightarrow> instant \<Rightarrow> subscription \<Rightarrow> source_definition \<Rightarrow> work_item \<Rightarrow> uuid \<Rightarrow> bool \<Rightarrow> bool
    \<Rightarrow> web_feed_recipe_draft option \<Rightarrow> repository_error + 'c sdb" where
  "provision_subscription_tx R db wall value proposed item job reserve isolated recipe =
    and_then (if reserve then reserve_feed_url db value else Inr db) (\<lambda>db1.
    and_then (if isolated then isolate_source db1 proposed
       else share_source True db1 (url_text (sub_url value)) proposed (src_revision proposed)) (\<lambda>(source, db2).
    and_then (cas (db_subscriptions db2) (sub_id value) None (sub_revision value) value) (\<lambda>subs.
    and_then (insert_strict (re_duplicate R) (db_subscription_sources db2) (sub_id value) source) (\<lambda>links.
    let db3 = db2\<lparr>db_subscriptions := subs, db_subscription_sources := links\<rparr> in
    and_then (storage (create_subscription (re_admission R) (sub_id value) source db3)) (\<lambda>db4.
    and_then (case recipe of
         None \<Rightarrow> Inr db4
       | Some draft \<Rightarrow> and_then (insert_strict (re_duplicate R) (db_recipes db4) (sub_id value) (0, draft)) (\<lambda>t.
           Inr (db4\<lparr>db_recipes := t\<rparr>))) (\<lambda>db5.
    and_then (set_work_source item source) (\<lambda>item.
    and_then (enqueue_work_tx (re_queue R) db5 job item wall) (\<lambda>db6.
    enqueue_backfill_tx (re_queue R) (re_admission R) db6 wall source (sub_id value) (re_scope R)))))))))"

section \<open>Reading and saving\<close>

definition check_subscription :: "'c repo_env \<Rightarrow> subscription \<Rightarrow> repository_error + unit" where
  "check_subscription R v = state_checked (subscription_validate (parse_url (re_web R)) (re_reasons R) v)"

definition repo_subscription :: "'c repo_env \<Rightarrow> 'a db \<Rightarrow> subscription_id \<Rightarrow> repository_error + subscription" where
  "repo_subscription R db i =
    and_then (read_doc (db_subscriptions db) i) (\<lambda>v. and_then (check_subscription R v) (\<lambda>_. Inr v))"

definition subscriptions_by_workspace ::
  "'c repo_env \<Rightarrow> 'a db \<Rightarrow> workspace_id \<Rightarrow> repository_error + subscription list" where
  "subscriptions_by_workspace R db w =
    (let values = map (\<lambda>(_, _, v). v)
       (sort_key fst (filter (\<lambda>(_, _, v). sub_workspace v = w) (db_subscriptions db)))
     in and_then (try_all (\<lambda>v. and_then (check_subscription R v) (\<lambda>_.
         if sub_workspace v \<noteq> w then Inl (Storage ''subscription index returned a foreign workspace'') else Inr ()))
       values) (\<lambda>_. Inr values))"

definition delete_subscription :: "'c repo_env \<Rightarrow> 'a db \<Rightarrow> subscription \<Rightarrow> repository_error + 'a db" where
  "delete_subscription R db value =
    (case map_of (db_subscriptions db) (sub_id value) of
       None \<Rightarrow> Inl NotFound
     | Some (revision, current) \<Rightarrow>
       if current \<noteq> value then Inl Conflict
       else and_then (insert_strict (re_duplicate R) (db_removed_subscriptions db) (sub_id value) (revision, current))
         (\<lambda>removed. Inr (db\<lparr>db_removed_subscriptions := removed,
            db_subscription_sources := del (sub_id value) (db_subscription_sources db),
            db_feed_urls := filter (\<lambda>(_, s). s \<noteq> sub_id value) (db_feed_urls db),
            db_subscriptions := del (sub_id value) (db_subscriptions db)\<rparr>)))"

definition cas_subscription :: "'a db \<Rightarrow> u64 option \<Rightarrow> subscription \<Rightarrow> repository_error + 'a db" where
  "cas_subscription db e v =
    and_then (cas (db_subscriptions db) (sub_id v) e (sub_revision v) v) (\<lambda>t. Inr (db\<lparr>db_subscriptions := t\<rparr>))"

text \<open>\<open>i\<close> and \<open>j\<close> are the identifiers drawn for a new source and a new job.\<close>

definition save_subscription ::
  "'c repo_env \<Rightarrow> 'c sdb \<Rightarrow> instant \<Rightarrow> source_id \<Rightarrow> job_id \<Rightarrow> u64 option \<Rightarrow> subscription
    \<Rightarrow> repository_error + 'c sdb" where
  "save_subscription R db wall i j e v =
    and_then (check_subscription R v) (\<lambda>_.
      if e = None
      then and_then (new_source i (sub_url v) AutoKind) (\<lambda>source.
        provision_subscription_tx R db wall v source (PollSource (src_id source)) j True False None)
      else cas_subscription db e v)"

definition replace_subscription_source ::
  "'c repo_env \<Rightarrow> 'c sdb \<Rightarrow> instant \<Rightarrow> source_id \<Rightarrow> job_id \<Rightarrow> u64 \<Rightarrow> subscription \<Rightarrow> repository_error + 'c sdb" where
  "replace_subscription_source R db wall i j e v =
    and_then (check_subscription R v) (\<lambda>_.
    and_then (repo_subscription R db (sub_id v)) (\<lambda>current.
    if sub_revision current \<noteq> e then Inl Conflict
    else if sub_workspace current \<noteq> sub_workspace v
    then Inl (Storage ''subscription source replacement changes workspace'')
    else and_then (new_source i (sub_url v) AutoKind) (\<lambda>proposed.
    let old_key = feed_url_key (sub_workspace v) (source_url_exact current);
        new_key = feed_url_key (sub_workspace v) (source_url_exact v) in
    if (case map_of (db_feed_urls db) new_key of Some owner \<Rightarrow> owner \<noteq> sub_id v | None \<Rightarrow> False) then Inl Conflict
    else and_then (share_source False db (url_text (sub_url v)) proposed 0) (\<lambda>(source, db1).
    and_then (cas_subscription db1 (Some e) v) (\<lambda>db2.
    let db3 = db2\<lparr>db_feed_urls := put new_key (sub_id v) (del old_key (db_feed_urls db2)),
                  db_subscription_sources := map (\<lambda>(s, l). (s, if s = sub_id v then source else l))
                    (db_subscription_sources db2)\<rparr> in
    and_then (storage (create_subscription (re_admission R) (sub_id v) source db3)) (\<lambda>db4.
    and_then (enqueue_backfill_tx (re_queue R) (re_admission R) db4 wall source (sub_id v) (re_scope R)) (\<lambda>db5.
    enqueue_work_tx (re_queue R) db5 j (PollSource source) wall)))))))"

definition save_source_url_preview :: "'c sdb \<Rightarrow> source_url_preview \<Rightarrow> repository_error + 'c sdb" where
  "save_source_url_preview db v =
    and_then (cas (db_previews db) (su_id v) None (su_revision v) v) (\<lambda>t. Inr (db\<lparr>db_previews := t\<rparr>))"

definition repo_source_url_preview :: "'c sdb \<Rightarrow> uuid \<Rightarrow> repository_error + source_url_preview" where
  "repo_source_url_preview db i = read_doc (db_previews db) i"

section \<open>Activation and refresh\<close>

definition activation_job :: "queue_env \<Rightarrow> subscription \<Rightarrow> job_id" where
  "activation_job env v =
    job_hash env (''subscription-activation/'' @ uuid_text env (sub_id v) @ ''/'' @ nat_text (unat (sub_revision v)))"

definition activate_subscription_with_refresh ::
  "'c repo_env \<Rightarrow> 'c sdb \<Rightarrow> instant \<Rightarrow> u64 \<Rightarrow> subscription \<Rightarrow> repository_error + 'c sdb" where
  "activate_subscription_with_refresh R db wall expected value =
    and_then (check_subscription R value) (\<lambda>_.
    if \<not> active_subscription value then Inl (Storage ''catch-up activation requires an active subscription'')
    else and_then (cas_subscription db (Some expected) value) (\<lambda>db1.
    and_then (source_for_subscription db1 (sub_id value)) (\<lambda>source.
    and_then (enqueue_backfill_tx (re_queue R) (re_admission R) db1 wall source (sub_id value) (re_scope R)) (\<lambda>db2.
    enqueue_work_tx (re_queue R) db2 (activation_job (re_queue R) value) (RefreshSource source) wall))))"

definition refresh_pending :: "'a db \<Rightarrow> source_id \<Rightarrow> bool" where
  "refresh_pending db s \<longleftrightarrow>
    list_ex (\<lambda>(_, job). (ij_status job = Ready \<or> ij_status job = Leased) \<and> ij_item job = RefreshSource s) (db_jobs db)"

definition enqueue_subscription_refresh ::
  "queue_env \<Rightarrow> 'a db \<Rightarrow> instant \<Rightarrow> job_id \<Rightarrow> subscription \<Rightarrow> repository_error + 'a db" where
  "enqueue_subscription_refresh env db wall j value =
    and_then (read_doc (db_subscriptions db) (sub_id value)) (\<lambda>current.
    if sub_workspace current \<noteq> sub_workspace value \<or> sub_revision current \<noteq> sub_revision value then Inl Conflict
    else and_then (source_for_subscription db (sub_id value)) (\<lambda>source.
    and_then (map_err (\<lambda>_. Storage ''no rows returned by a query that expected to return at least one row'')
      (read_doc (db_sources db) source)) (\<lambda>_.
    if refresh_pending db source then Inr db
    else enqueue_work_tx env db j (RefreshSource source) wall)))"

section \<open>Web feeds\<close>

definition recipe_in_scope :: "subscription \<Rightarrow> web_feed_recipe_draft \<Rightarrow> repository_error + unit" where
  "recipe_in_scope value raw =
    (if wd_workspace_id raw \<noteq> sub_workspace value \<or> wd_url raw \<noteq> url_text (sub_url value)
     then Inl (Storage ''web feed recipe scope or URL does not match subscription'') else Inr ())"

definition save_web_feed_subscription ::
  "'c repo_env \<Rightarrow> 'c sdb \<Rightarrow> instant \<Rightarrow> source_id \<Rightarrow> job_id \<Rightarrow> subscription \<Rightarrow> prepared_web_feed
    \<Rightarrow> repository_error + 'c sdb" where
  "save_web_feed_subscription R db wall i j value prepared =
    and_then (check_subscription R value) (\<lambda>_.
    and_then (recipe_in_scope value (pw_draft prepared)) (\<lambda>_.
    and_then (new_source i (sub_url value) (WebPage (pw_recipe prepared))) (\<lambda>source.
    provision_subscription_tx R db wall value source (CollectWebFeed (src_id source)) j False True
      (Some (pw_draft prepared)))))"

definition repo_web_feed_recipe ::
  "'c sdb \<Rightarrow> subscription_id \<Rightarrow> repository_error + u64 \<times> web_feed_recipe_draft" where
  "repo_web_feed_recipe db i = ok_or (map_of (db_recipes db) i) NotFound"

definition recipe_job :: "queue_env \<Rightarrow> subscription_id \<Rightarrow> u64 \<Rightarrow> job_id" where
  "recipe_job env sub version =
    job_hash env (''web-recipe/'' @ uuid_text env sub @ ''/'' @ nat_text (unat version))"

definition update_web_feed_recipe ::
  "'c repo_env \<Rightarrow> 'c sdb \<Rightarrow> instant \<Rightarrow> subscription_id \<Rightarrow> u64 \<Rightarrow> prepared_web_feed
    \<Rightarrow> repository_error + u64 \<times> 'c sdb" where
  "update_web_feed_recipe R db wall sub expected prepared =
    and_then (repo_subscription R db sub) (\<lambda>value.
    and_then (recipe_in_scope value (pw_draft prepared)) (\<lambda>_.
    if expected = - 1 then Inl (Storage ''web feed recipe version overflow'')
    else let version = expected + 1 in
    and_then (source_for_subscription db sub) (\<lambda>source_id.
    and_then (read_doc (db_sources db) source_id) (\<lambda>source.
    and_then (map_err (\<lambda>e. Storage (model_error_text e))
      (source_revise_kind source (WebPage (pw_recipe prepared)))) (\<lambda>source.
    and_then (to_i64 version) (\<lambda>version.
    and_then (to_i64 expected) (\<lambda>expected.
    case map_of (db_recipes db) sub of
      None \<Rightarrow> Inl Conflict
    | Some (current, _) \<Rightarrow>
      if current \<noteq> expected then Inl Conflict
      else and_then (enqueue_work_tx (re_queue R)
          (db\<lparr>db_recipes := put sub (version, pw_draft prepared) (db_recipes db),
              db_sources := put source_id (version, source) (db_sources db)\<rparr>)
          (recipe_job (re_queue R) sub version) (CollectWebFeed source_id) wall) (\<lambda>db'.
        Inr (version, db')))))))))"

section \<open>Imports and seeds\<close>

text \<open>\<open>ids n\<close> are the identifiers drawn for the source and the job of the \<open>n\<close>-th value.\<close>

definition import_one ::
  "'c repo_env \<Rightarrow> instant \<Rightarrow> 'c sdb \<Rightarrow> subscription \<times> source_id \<times> job_id \<Rightarrow> repository_error + 'c sdb" where
  "import_one R wall db row =
    (case row of (value, i, j) \<Rightarrow>
      and_then (new_source i (sub_url value) AutoKind) (\<lambda>source.
        provision_subscription_tx R db wall value source (PollSource (src_id source)) j False False None))"

definition import_subscriptions_atomic ::
  "'c repo_env \<Rightarrow> 'c sdb \<Rightarrow> instant \<Rightarrow> (nat \<Rightarrow> source_id \<times> job_id) \<Rightarrow> workspace_id \<Rightarrow> subscription list
    \<Rightarrow> repository_error + 'c sdb" where
  "import_subscriptions_atomic R db wall ids w values =
    and_then (try_all (\<lambda>v.
      if sub_workspace v \<noteq> w then Inl (Storage ''import subscription scope does not match target workspace'')
      else check_subscription R v) values) (\<lambda>_.
    try_fold (import_one R wall) db (map (\<lambda>(n, v). (v, ids n)) (enumerate 0 values)))"

datatype seed_source = SeedFeed | SeedImported

record prepared_seed =
  ps_key :: string
  ps_value :: subscription
  ps_configuration :: json
  ps_source :: source_definition
  ps_item :: work_item
  ps_recipe :: "web_feed_recipe_draft option"

fun collected_kind :: "source_kind \<Rightarrow> bool" where
  "collected_kind (WebPage _) = True"
| "collected_kind (BuiltIn _) = True"
| "collected_kind _ = False"

definition source_item :: "source_kind \<Rightarrow> source_id \<Rightarrow> work_item" where
  "source_item kind s = (if collected_kind kind then CollectWebFeed s else PollSource s)"

definition prepare_seed ::
  "'c repo_env \<Rightarrow> workspace_id \<Rightarrow> string \<times> subscription \<times> seed_source \<times> json \<Rightarrow> repository_error + prepared_seed" where
  "prepare_seed R w seed =
    (case seed of (key, value, kind, configuration) \<Rightarrow>
      if sub_workspace value \<noteq> w then Inl (Storage ''seed subscription scope does not match target workspace'')
      else and_then (check_subscription R value) (\<lambda>_.
        let source_id = re_url_hash R (url_text (sub_url value)) in
        and_then (case kind of SeedFeed \<Rightarrow> Inr AutoKind | SeedImported \<Rightarrow> imported_source_kind R configuration) (\<lambda>source_kind.
        and_then (new_source source_id (sub_url value) source_kind) (\<lambda>source.
        Inr \<lparr>ps_key = key, ps_value = value, ps_configuration = configuration, ps_source = source,
             ps_item = source_item source_kind source_id,
             ps_recipe = editable_recipe_document w (sub_url value) source_kind\<rparr>))))"

definition check_seed :: "'c sdb \<Rightarrow> prepared_seed \<Rightarrow> repository_error + unit" where
  "check_seed db row =
    (if (case map_of (db_subscriptions db) (sub_id (ps_value row)) of
           Some (_, existing) \<Rightarrow> existing \<noteq> ps_value row | None \<Rightarrow> False)
     then Inl (Storage ''seed idempotency key conflicts with existing subscription'')
     else if (case map_of (db_seed_items db) (ps_key row) of
           Some (_, existing) \<Rightarrow> existing \<noteq> ps_configuration row | None \<Rightarrow> False)
     then Inl (Storage ''seed configuration conflicts with applied idempotency key'')
     else Inr ())"

text \<open>The stored \<open>source_url\<close> is the serialisation of the parsed URL; it is compared with the exact one.\<close>

definition seed_url_exists :: "'a db \<Rightarrow> subscription \<Rightarrow> bool" where
  "seed_url_exists db value \<longleftrightarrow>
    list_ex (\<lambda>(_, _, v). sub_workspace v = sub_workspace value \<and> url_text (sub_url v) = source_url_exact value)
      (db_subscriptions db)"

definition seed_job :: "queue_env \<Rightarrow> string \<Rightarrow> job_id" where
  "seed_job env key = job_hash env (''seed-job/'' @ key)"

definition apply_seed_one :: "'c repo_env \<Rightarrow> instant \<Rightarrow> 'c sdb \<Rightarrow> prepared_seed \<Rightarrow> repository_error + 'c sdb" where
  "apply_seed_one R wall db row =
    (if seed_url_exists db (ps_value row)
     then Inr (db\<lparr>db_seed_items := snd (insert_new (db_seed_items db) (ps_key row) (0, ps_configuration row))\<rparr>)
     else if map_of (db_subscriptions db) (sub_id (ps_value row)) \<noteq> None then Inr db
     else and_then (provision_subscription_tx R db wall (ps_value row) (ps_source row) (ps_item row)
         (seed_job (re_queue R) (ps_key row)) False (ps_recipe row \<noteq> None) (ps_recipe row)) (\<lambda>db1.
       and_then (insert_strict (re_duplicate R) (db_seed_items db1) (ps_key row) (0, ps_configuration row)) (\<lambda>t.
         Inr (db1\<lparr>db_seed_items := t\<rparr>))))"

definition apply_seed_atomic ::
  "'c repo_env \<Rightarrow> 'c sdb \<Rightarrow> instant \<Rightarrow> workspace_id \<Rightarrow> (string \<times> subscription \<times> seed_source \<times> json) list
    \<Rightarrow> repository_error + 'c sdb" where
  "apply_seed_atomic R db wall w values =
    and_then (try_map (prepare_seed R w) values) (\<lambda>prepared.
    and_then (try_all (check_seed db) prepared) (\<lambda>_.
    try_fold (apply_seed_one R wall) db prepared))"

section \<open>Migration of proxied feeds\<close>

definition legacy_host :: string where
  "legacy_host = ''china-radio-international.duckdns.org''"

definition legacy_source_id :: "url \<Rightarrow> string option" where
  "legacy_source_id u =
    (let path = url_path u; n = length path - 4 in
     if take 1 path = ''/'' \<and> 5 \<le> length path \<and> drop n path = ''.xml''
     then Some (drop 1 (take n path)) else None)"

text \<open>The source of the canonical URL, upgraded to the collector of the recipe.\<close>

definition migrate_known_source ::
  "'a db \<Rightarrow> source_id \<Rightarrow> url \<Rightarrow> source_kind \<Rightarrow> repository_error + 'a db" where
  "migrate_known_source db existing_id canonical kind =
    (case map_of (db_sources db) existing_id of
       None \<Rightarrow> Inl (Storage ''no rows returned by a query that expected to return at least one row'')
     | Some (revision, existing) \<Rightarrow>
       if src_kind existing = kind then Inr db
       else if src_kind existing \<noteq> AutoKind \<or> src_url existing \<noteq> canonical
       then Inl (Storage (''canonical source '' @ url_text canonical @ '' already exists with a different collector''))
       else and_then (new_source existing_id canonical kind) (\<lambda>upgraded.
         Inr (db\<lparr>db_sources := put existing_id (revision + 1, upgraded) (db_sources db)\<rparr>)))"

definition migrate_new_source :: "'c repo_env \<Rightarrow> 'c sdb \<Rightarrow> source_definition \<Rightarrow> repository_error + 'c sdb" where
  "migrate_new_source R db proposed =
    and_then (case map_of (db_sources db) (src_id proposed) of
        Some (revision, existing) \<Rightarrow>
          if existing = proposed then Inr (db_sources db)
          else if src_kind existing \<noteq> AutoKind \<or> src_url existing \<noteq> src_url proposed
          then Inl (Storage ''personal_feed source identity collision'')
          else Inr (put (src_id proposed) (revision + 1, proposed) (db_sources db))
      | None \<Rightarrow> Inr (put (src_id proposed) (0, proposed) (db_sources db))) (\<lambda>sources.
    and_then (insert_strict (re_duplicate R) (db_source_urls db) (url_text (src_url proposed)) (src_id proposed)) (\<lambda>urls.
      Inr (db\<lparr>db_sources := sources, db_source_urls := urls\<rparr>)))"

definition migrate_recipe :: "'c sdb \<Rightarrow> subscription_id \<Rightarrow> web_feed_recipe_draft option \<Rightarrow> 'c sdb" where
  "migrate_recipe db sub draft =
    (case draft of
       Some d \<Rightarrow> db\<lparr>db_recipes := put sub
         ((case map_of (db_recipes db) sub of Some (revision, _) \<Rightarrow> revision + 1 | None \<Rightarrow> 0), d) (db_recipes db)\<rparr>
     | None \<Rightarrow> db\<lparr>db_recipes := del sub (db_recipes db)\<rparr>)"

definition migrate_source ::
  "'c repo_env \<Rightarrow> 'c sdb \<Rightarrow> source_definition \<Rightarrow> repository_error + source_id \<times> 'c sdb" where
  "migrate_source R db proposed =
    (case map_of (db_source_urls db) (url_text (src_url proposed)) of
       Some existing_id \<Rightarrow>
         and_then (migrate_known_source db existing_id (src_url proposed) (src_kind proposed)) (\<lambda>db1. Inr (existing_id, db1))
     | None \<Rightarrow> and_then (migrate_new_source R db proposed) (\<lambda>db1. Inr (src_id proposed, db1)))"

text \<open>From the source to the job: the subscription moves to its canonical URL.\<close>

definition migrate_subscription ::
  "'c repo_env \<Rightarrow> instant \<Rightarrow> workspace_id \<Rightarrow> string \<Rightarrow> source_definition \<Rightarrow> string \<Rightarrow> string \<Rightarrow> source_id \<Rightarrow> 'c sdb
    \<Rightarrow> subscription \<Rightarrow> repository_error + 'c sdb" where
  "migrate_subscription R wall w legacy_id proposed exact name source db subscription =
    (let canonical = src_url proposed; kind = src_kind proposed in
    and_then (map_err (\<lambda>e. Storage (state_error_text e))
      (subscription_replace_source (parse_url (re_web R)) canonical exact name subscription)) (\<lambda>v.
    let old_key = feed_url_key w (source_url_exact subscription);
        new_key = feed_url_key w (source_url_exact v) in
    if (case map_of (db_feed_urls db) new_key of Some owner \<Rightarrow> owner \<noteq> sub_id v | None \<Rightarrow> False)
    then Inl (Storage (''canonical source '' @ url_text canonical @ '' is already subscribed in this workspace''))
    else and_then (cas_subscription db (Some (sub_revision subscription)) v) (\<lambda>db2.
    let db3 = migrate_recipe (db2\<lparr>db_feed_urls := put new_key (sub_id v) (del old_key (db_feed_urls db2)),
          db_subscription_sources := map (\<lambda>(s, l). (s, if s = sub_id v then source else l))
            (db_subscription_sources db2)\<rparr>) (sub_id v) (editable_recipe_document w canonical kind) in
    enqueue_work_tx (re_queue R) db3
      (job_hash (re_queue R) (''personal-feed-migration/'' @ legacy_id)) (source_item kind source) wall)))"

definition migrate_one ::
  "'c repo_env \<Rightarrow> instant \<Rightarrow> workspace_id \<Rightarrow> (string \<times> json) list \<Rightarrow> nat \<times> 'c sdb \<Rightarrow> subscription
    \<Rightarrow> repository_error + nat \<times> 'c sdb" where
  "migrate_one R wall w configurations = (\<lambda>(migrated, db) subscription.
    if url_host (sub_url subscription) \<noteq> Some legacy_host then Inr (migrated, db)
    else and_then (ok_or (legacy_source_id (sub_url subscription))
      (Storage ''legacy personal_feed URL has an unsupported path'')) (\<lambda>legacy_id.
    and_then (ok_or (map_of (rev configurations) legacy_id)
      (Storage (''missing personal_feed recipe for '' @ legacy_id))) (\<lambda>configuration.
    and_then (decode_seed R configuration) (\<lambda>raw.
    if is_id raw \<noteq> legacy_id then Inl (Storage ''personal_feed URL and recipe identity differ'')
    else let exact = (case is_feed_url raw of Some u \<Rightarrow> u | None \<Rightarrow> is_url raw) in
    and_then (seed_url (re_web R) ''invalid personal_feed canonical URL'' exact) (\<lambda>canonical.
    and_then (imported_source_kind R configuration) (\<lambda>kind.
    and_then (new_source (re_url_hash R (url_text canonical)) canonical kind) (\<lambda>proposed.
    and_then (migrate_source R db proposed) (\<lambda>(source, db1).
    and_then (migrate_subscription R wall w legacy_id proposed exact (is_name raw) source db1 subscription) (\<lambda>db2.
    Inr (migrated + 1, db2))))))))))"

definition migrate_personal_feed_links_atomic ::
  "'c repo_env \<Rightarrow> 'c sdb \<Rightarrow> instant \<Rightarrow> workspace_id \<Rightarrow> (string \<times> json) list \<Rightarrow> repository_error + nat \<times> 'c sdb" where
  "migrate_personal_feed_links_atomic R db wall w configurations =
    try_fold (migrate_one R wall w configurations) (0, db)
      (map (\<lambda>(_, _, v). v) (filter (\<lambda>(_, _, v). sub_workspace v = w) (db_subscriptions db)))"

end
