(* ===== verification/Reader_Service.thy ===== *)
theory Reader_Service
  imports Subscription_Store
begin

text \<open>
  \<open>reader-application/src/service.rs\<close> over the storage of subscriptions and workspaces, with
  \<open>restore_workspace_with_refreshes\<close> of \<open>repository/workspace.rs\<close>. A command reads, changes the value and
  saves it against the revision it read. Other transactions may commit in between: \<open>r\<close> is the database
  that the command read, \<open>d\<close> the one it commits to.
\<close>

datatype command_error =
  RepositoryFailure repository_error | ReasonFailure reason_error | WorkspaceIsArchived

abbreviation repo :: "repository_error + 'a \<Rightarrow> command_error + 'a" where
  "repo m \<equiv> map_err RepositoryFailure m"

section \<open>Subscriptions\<close>

definition pause_subscription ::
  "'c repo_env \<Rightarrow> 'c sdb \<Rightarrow> 'c sdb \<Rightarrow> subscription_id \<Rightarrow> string \<Rightarrow> actor_id \<Rightarrow> instant
    \<Rightarrow> command_error + subscription \<times> 'c sdb" where
  "pause_subscription R r d i raw_reason actor now =
    and_then (map_err ReasonFailure (reason_validate (re_reasons R) raw_reason)) (\<lambda>reason.
    and_then (repo (repo_subscription R r i)) (\<lambda>value.
    let value' = subscription_pause \<lparr>se_reason = reason, se_actor = actor, se_at = now\<rparr> value in
    and_then (repo (save_subscription R d now 0 0 (Some (sub_revision value)) value')) (\<lambda>d'.
    Inr (value', d'))))"

definition archive_subscription ::
  "'c repo_env \<Rightarrow> 'c sdb \<Rightarrow> 'c sdb \<Rightarrow> subscription_id \<Rightarrow> command_error + subscription \<times> 'c sdb" where
  "archive_subscription R r d i =
    and_then (repo (repo_subscription R r i)) (\<lambda>value.
    let value' = subscription_archive value in
    and_then (repo (save_subscription R d 0 0 0 (Some (sub_revision value)) value')) (\<lambda>d'.
    Inr (value', d')))"

text \<open>\<open>resume_subscription\<close> and \<open>restore_subscription\<close> differ in the change they make.\<close>

definition activate_subscription ::
  "(subscription \<Rightarrow> subscription) \<Rightarrow> 'c repo_env \<Rightarrow> 'c sdb \<Rightarrow> 'c sdb \<Rightarrow> instant \<Rightarrow> subscription_id
    \<Rightarrow> command_error + subscription \<times> 'c sdb" where
  "activate_subscription change R r d wall i =
    and_then (repo (repo_subscription R r i)) (\<lambda>value.
    and_then (repo (repo_workspace (re_reasons R) r (sub_workspace value))) (\<lambda>workspace.
    if \<not> accepts_delivery workspace then Inl WorkspaceIsArchived
    else let value' = change value in
    and_then (repo (activate_subscription_with_refresh R d wall (sub_revision value) value')) (\<lambda>d'.
    Inr (value', d'))))"

definition resume_subscription ::
  "'c repo_env \<Rightarrow> 'c sdb \<Rightarrow> 'c sdb \<Rightarrow> instant \<Rightarrow> subscription_id \<Rightarrow> command_error + subscription \<times> 'c sdb" where
  "resume_subscription = activate_subscription subscription_resume"

definition restore_subscription ::
  "'c repo_env \<Rightarrow> 'c sdb \<Rightarrow> 'c sdb \<Rightarrow> instant \<Rightarrow> subscription_id \<Rightarrow> command_error + subscription \<times> 'c sdb" where
  "restore_subscription = activate_subscription subscription_restore"

section \<open>Workspaces\<close>

definition archive_workspace ::
  "'c repo_env \<Rightarrow> 'c sdb \<Rightarrow> 'c sdb \<Rightarrow> workspace_id \<Rightarrow> string \<Rightarrow> actor_id \<Rightarrow> instant
    \<Rightarrow> command_error + workspace \<times> 'c sdb" where
  "archive_workspace R r d i raw_reason actor now =
    and_then (map_err ReasonFailure (reason_validate (re_reasons R) raw_reason)) (\<lambda>reason.
    and_then (repo (repo_workspace (re_reasons R) r i)) (\<lambda>value.
    case ws_status value of
      WorkspaceArchived _ \<Rightarrow> Inr (value, d)
    | WorkspaceActive \<Rightarrow>
      let value' = workspace_archive \<lparr>we_reason = reason, we_actor = actor, we_at = now\<rparr> value in
      and_then (repo (save_workspace (re_reasons R) d (Some (ws_revision value)) value')) (\<lambda>d'. Inr (value', d'))))"

definition restore_job :: "queue_env \<Rightarrow> workspace \<Rightarrow> subscription \<Rightarrow> job_id" where
  "restore_job env w s =
    job_hash env (''workspace-restore/'' @ uuid_text env (ws_id w) @ ''/'' @ nat_text (unat (ws_revision w)) @ ''/''
      @ uuid_text env (sub_id s))"

definition restore_refresh ::
  "'c repo_env \<Rightarrow> instant \<Rightarrow> workspace \<Rightarrow> 'c sdb \<Rightarrow> subscription \<Rightarrow> repository_error + 'c sdb" where
  "restore_refresh R wall w db s =
    and_then (source_for_subscription db (sub_id s)) (\<lambda>source.
    and_then (enqueue_backfill_tx (re_queue R) (re_admission R) db wall source (sub_id s) (re_scope R)) (\<lambda>db1.
    enqueue_work_tx (re_queue R) db1 (restore_job (re_queue R) w s) (RefreshSource source) wall))"

definition restore_workspace_with_refreshes ::
  "'c repo_env \<Rightarrow> 'c sdb \<Rightarrow> instant \<Rightarrow> u64 \<Rightarrow> workspace \<Rightarrow> subscription list \<Rightarrow> repository_error + 'c sdb" where
  "restore_workspace_with_refreshes R db wall expected value active =
    and_then (state_checked (workspace_validate (re_reasons R) value)) (\<lambda>_.
    if \<not> accepts_delivery value then Inl (Storage ''workspace catch-up requires an active workspace'')
    else and_then (try_all (\<lambda>s.
      if sub_workspace s \<noteq> ws_id value \<or> \<not> active_subscription s
      then Inl (Storage ''workspace catch-up contains an invalid subscription'') else Inr ()) active) (\<lambda>_.
    and_then (cas_workspace db (Some expected) value) (\<lambda>db1.
    try_fold (restore_refresh R wall value) db1 active)))"

definition restore_workspace ::
  "'c repo_env \<Rightarrow> 'c sdb \<Rightarrow> 'c sdb \<Rightarrow> instant \<Rightarrow> workspace_id \<Rightarrow> command_error + workspace \<times> 'c sdb" where
  "restore_workspace R r d wall i =
    and_then (repo (repo_workspace (re_reasons R) r i)) (\<lambda>value.
    let value' = workspace_restore value in
    and_then (repo (subscriptions_by_workspace R r i)) (\<lambda>subscriptions.
    and_then (repo (restore_workspace_with_refreshes R d wall (ws_revision value) value'
      (filter active_subscription subscriptions))) (\<lambda>d'.
    Inr (value', d'))))"

section \<open>The conditional save as a revisioned store\<close>

interpretation sub_store: revisioned_store
  "\<lambda>db e v. cas_subscription db (Some e) v" "\<lambda>db. map_of (db_subscriptions db)" sub_id sub_revision
  by unfold_locales (auto simp: cas_subscription_def)

end
