(* ===== verification/Catalog.thy ===== *)
theory Catalog
  imports Reader_Service
begin

text \<open>
  The invariant of the subscription catalogue. Every subscription is linked to one source, which collects
  the subscription's URL; a registered URL leads to a source with that URL; a reservation of a workspace
  belongs to a subscription of that workspace with that exact URL. Every operation of the store and every
  command keeps it.
\<close>

section \<open>The catalogue\<close>

record catalog =
  ca_subs :: "subscription_id \<rightharpoonup> u64 \<times> subscription"
  ca_links :: "subscription_id \<rightharpoonup> source_id"
  ca_feeds :: "workspace_id \<times> string \<rightharpoonup> subscription_id"
  ca_urls :: "string \<rightharpoonup> source_id"
  ca_sources :: "source_id \<rightharpoonup> u64 \<times> source_definition"

definition catalog_of :: "'a db \<Rightarrow> catalog" where
  "catalog_of db =
    \<lparr>ca_subs = map_of (db_subscriptions db), ca_links = map_of (db_subscription_sources db),
     ca_feeds = map_of (db_feed_urls db), ca_urls = map_of (db_source_urls db), ca_sources = map_of (db_sources db)\<rparr>"

definition collects :: "catalog \<Rightarrow> source_id \<Rightarrow> string \<Rightarrow> bool" where
  "collects c s u \<longleftrightarrow> (\<exists>q d. ca_sources c s = Some (q, d) \<and> url_text (src_url d) = u)"

definition catalog_ok :: "catalog \<Rightarrow> bool" where
  "catalog_ok c \<longleftrightarrow>
    (\<forall>i r v. ca_subs c i = Some (r, v) \<longrightarrow> r = sub_revision v \<and> sub_id v = i)
    \<and> dom (ca_links c) = dom (ca_subs c)
    \<and> (\<forall>i r v s. ca_subs c i = Some (r, v) \<longrightarrow> ca_links c i = Some s \<longrightarrow> collects c s (url_text (sub_url v)))
    \<and> (\<forall>u s. ca_urls c u = Some s \<longrightarrow> collects c s u)
    \<and> (\<forall>w x i. ca_feeds c (w, x) = Some i \<longrightarrow>
        (\<exists>r v. ca_subs c i = Some (r, v) \<and> sub_workspace v = w \<and> source_url_exact v = x))"

lemma catalog_okI:
  assumes "\<And>i r v. ca_subs c i = Some (r, v) \<Longrightarrow> r = sub_revision v \<and> sub_id v = i"
    and "dom (ca_links c) = dom (ca_subs c)"
    and "\<And>i r v s. ca_subs c i = Some (r, v) \<Longrightarrow> ca_links c i = Some s \<Longrightarrow> collects c s (url_text (sub_url v))"
    and "\<And>u s. ca_urls c u = Some s \<Longrightarrow> collects c s u"
    and "\<And>w x i. ca_feeds c (w, x) = Some i \<Longrightarrow>
        \<exists>r v. ca_subs c i = Some (r, v) \<and> sub_workspace v = w \<and> source_url_exact v = x"
  shows "catalog_ok c"
  using assms unfolding catalog_ok_def by blast

lemma catalog_okD:
  assumes "catalog_ok c"
  shows "ca_subs c i = Some (r, v) \<Longrightarrow> r = sub_revision v \<and> sub_id v = i"
    and "dom (ca_links c) = dom (ca_subs c)"
    and "ca_subs c i = Some (r, v) \<Longrightarrow> ca_links c i = Some s \<Longrightarrow> collects c s (url_text (sub_url v))"
    and "ca_urls c u = Some s \<Longrightarrow> collects c s u"
    and "ca_feeds c (w, x) = Some i \<Longrightarrow>
        \<exists>r v. ca_subs c i = Some (r, v) \<and> sub_workspace v = w \<and> source_url_exact v = x"
  using assms unfolding catalog_ok_def by blast+

section \<open>Changes of the catalogue\<close>

lemma collects_add:
  assumes "collects c s u"
    and "\<And>q d. ca_sources c i = Some (q, d) \<Longrightarrow> url_text (src_url d) = url_text (src_url e)"
  shows "collects (c\<lparr>ca_sources := (ca_sources c)(i \<mapsto> (q', e))\<rparr>) s u"
  using assms unfolding collects_def by (cases "s = i") auto

lemma catalog_add_source:
  assumes "catalog_ok c"
    and "\<And>q d. ca_sources c i = Some (q, d) \<Longrightarrow> url_text (src_url d) = url_text (src_url e)"
  shows "catalog_ok (c\<lparr>ca_sources := (ca_sources c)(i \<mapsto> (q', e))\<rparr>)"
  by (rule catalog_okI) (use catalog_okD [OF assms(1)] collects_add [of c _ _ i e q'] assms(2) in \<open>auto\<close>)

lemma catalog_register:
  assumes "catalog_ok c" and "collects c s u"
  shows "catalog_ok (c\<lparr>ca_urls := (ca_urls c)(u \<mapsto> s)\<rparr>)"
  by (rule catalog_okI)
    (use catalog_okD [OF assms(1)] assms(2) in \<open>auto simp: collects_def split: if_splits\<close>)

lemma catalog_add_subscription:
  assumes "catalog_ok c" and "ca_subs c (sub_id v) = None" and "collects c s (url_text (sub_url v))"
  shows "catalog_ok (c\<lparr>ca_subs := (ca_subs c)(sub_id v \<mapsto> (sub_revision v, v)), ca_links := (ca_links c)(sub_id v \<mapsto> s)\<rparr>)"
proof (rule catalog_okI, goal_cases)
  case (5 w x i)
  then have "ca_feeds c (w, x) = Some i" by simp
  from catalog_okD(5) [OF assms(1) this] assms(2) show ?case by auto
qed (use catalog_okD [OF assms(1)] assms(3) in \<open>auto simp: collects_def split: if_splits\<close>)

lemma catalog_reserve:
  assumes "catalog_ok c" and "ca_subs c i = Some (r, v)"
  shows "catalog_ok (c\<lparr>ca_feeds := (ca_feeds c)((sub_workspace v, source_url_exact v) \<mapsto> i)\<rparr>)"
  by (rule catalog_okI)
    (use catalog_okD [OF assms(1)] assms(2) in \<open>auto simp: collects_def split: if_splits\<close>)

lemma catalog_update:
  assumes "catalog_ok c" and "ca_subs c (sub_id v) = Some (r, cur)"
    and "sub_workspace v = sub_workspace cur" "sub_url v = sub_url cur" "source_url_exact v = source_url_exact cur"
  shows "catalog_ok (c\<lparr>ca_subs := (ca_subs c)(sub_id v \<mapsto> (sub_revision v, v))\<rparr>)"
proof (rule catalog_okI, goal_cases)
  case (5 w x i)
  then have "ca_feeds c (w, x) = Some i" by simp
  from catalog_okD(5) [OF assms(1) this] assms(2-) show ?case by auto
next
  case (3 i r' v' s)
  then show ?case
    using catalog_okD(3) [OF assms(1) assms(2)] catalog_okD(3) [OF assms(1), of i r' v' s] assms(4)
    by (auto simp: collects_def split: if_splits)
qed (use catalog_okD [OF assms(1)] assms(2) in \<open>auto simp: collects_def split: if_splits\<close>)

lemma catalog_move:
  assumes "catalog_ok c" and "ca_subs c (sub_id v) = Some (r, cur)" and "sub_workspace v = sub_workspace cur"
    and "collects c s (url_text (sub_url v))"
  shows "catalog_ok (c\<lparr>ca_subs := (ca_subs c)(sub_id v \<mapsto> (sub_revision v, v)),
    ca_links := (ca_links c)(sub_id v \<mapsto> s),
    ca_feeds := ((ca_feeds c)((sub_workspace v, source_url_exact cur) := None))
      ((sub_workspace v, source_url_exact v) \<mapsto> sub_id v)\<rparr>)"
proof (rule catalog_okI, goal_cases)
  case (5 w x i)
  show ?case
  proof (cases "(w, x) = (sub_workspace v, source_url_exact v)")
    case True
    with 5 have "i = sub_id v" by simp
    with True show ?thesis by simp
  next
    case False
    with 5 have old: "ca_feeds c (w, x) = Some i" "(w, x) \<noteq> (sub_workspace v, source_url_exact cur)"
      by (simp_all add: fun_upd_def split: if_splits)
    from catalog_okD(5) [OF assms(1) old(1)] obtain r' v' where
      row: "ca_subs c i = Some (r', v')" "sub_workspace v' = w" "source_url_exact v' = x" by blast
    with old(2) assms(2,3) have "i \<noteq> sub_id v" by auto
    with row show ?thesis by auto
  qed
qed (use catalog_okD [OF assms(1)] assms(2,4) in \<open>auto simp: collects_def split: if_splits\<close>)

lemma catalog_remove:
  assumes "catalog_ok c"
  shows "catalog_ok (c\<lparr>ca_subs := (ca_subs c)(i := None), ca_links := (ca_links c)(i := None),
    ca_feeds := (\<lambda>k. if ca_feeds c k = Some i then None else ca_feeds c k)\<rparr>)"
proof (rule catalog_okI, goal_cases)
  case (5 w x j)
  then have "ca_feeds c (w, x) = Some j" "j \<noteq> i" by (auto split: if_splits)
  with catalog_okD(5) [OF assms this(1)] show ?case by auto
qed (use catalog_okD [OF assms] in \<open>auto simp: collects_def split: if_splits\<close>)

section \<open>What the helpers leave alone\<close>

definition same_catalog :: "'a db \<Rightarrow> 'a db \<Rightarrow> bool" where
  "same_catalog db db' \<longleftrightarrow>
    db_subscriptions db' = db_subscriptions db \<and> db_subscription_sources db' = db_subscription_sources db
    \<and> db_feed_urls db' = db_feed_urls db \<and> db_source_urls db' = db_source_urls db \<and> db_sources db' = db_sources db"

definition feed_inv :: "'a db \<Rightarrow> bool" where
  "feed_inv db \<longleftrightarrow> distinct (map fst (db_subscriptions db)) \<and> distinct (map fst (db_feed_urls db))
    \<and> catalog_ok (catalog_of db)"

named_theorems same_catalog_intros \<open>operations that leave the catalogue alone\<close>

lemma same_catalog_refl [same_catalog_intros]: "same_catalog db db"
  by (simp add: same_catalog_def)

lemma same_catalog_trans: "same_catalog a b \<Longrightarrow> same_catalog b c \<Longrightarrow> same_catalog a c"
  by (simp add: same_catalog_def)

lemma same_catalog_inv: "same_catalog db db' \<Longrightarrow> feed_inv db' = feed_inv db"
  by (simp add: same_catalog_def feed_inv_def catalog_of_def)

lemma same_catalog_enqueue [same_catalog_intros]:
  "enqueue_work_tx env db i item wall = Inr db' \<Longrightarrow> same_catalog db db'"
  by (auto simp: enqueue_work_tx_def put_job_def same_catalog_def split: option.splits if_splits)

lemma same_catalog_discover [same_catalog_intros]: "discover A rec n db = Inr db' \<Longrightarrow> same_catalog db db'"
  by (auto simp: discover_def insert_discovery_def same_catalog_def)

lemma same_catalog_initial [same_catalog_intros]: "same_catalog db (initial_while_open sub s r db)"
  by (auto simp: initial_while_open_def same_catalog_def split: option.splits)

lemma same_catalog_insert_initial: "insert_initial A sub s r db = Inr db' \<Longrightarrow> same_catalog db db'"
  by (auto simp: insert_initial_def same_catalog_def split: if_splits)

lemma same_catalog_fold:
  assumes "\<And>d x d'. f d x = Inr d' \<Longrightarrow> same_catalog d d'" and "try_fold f db xs = Inr db'"
  shows "same_catalog db db'"
  using assms(2)
proof (induction xs arbitrary: db)
  case Nil
  then show ?case by (simp add: same_catalog_refl)
next
  case (Cons x xs)
  then obtain d where "f db x = Inr d" "try_fold f d xs = Inr db'" by auto
  with Cons.IH assms(1) show ?case by (blast intro: same_catalog_trans)
qed

lemma same_catalog_create [same_catalog_intros]:
  assumes "create_subscription A sub s db = Inr db'"
  shows "same_catalog db db'"
proof -
  let ?start = "case map_of (db_subscriptions db) sub of
           None \<Rightarrow> db
         | Some (_, value) \<Rightarrow>
           (case map_of (db_workspaces db) (sub_workspace value) of
              None \<Rightarrow> db
            | Some (_, w) \<Rightarrow>
              db\<lparr>db_bootstrap := snd (insert_new (db_bootstrap db) (sub, s)
                \<lparr>bo_owner = ws_owner w, bo_workspace = sub_workspace value,
                 bo_initial_articles = db_initial_articles db, bo_cutoff = None, bo_ready = False\<rparr>)\<rparr>)"
  have "same_catalog db ?start" by (auto simp: same_catalog_def split: option.splits)
  moreover have "same_catalog ?start db'"
    by (rule same_catalog_fold [OF _ assms [unfolded create_subscription_def Let_def]])
      (rule same_catalog_insert_initial)
  ultimately show ?thesis by (rule same_catalog_trans)
qed

lemma same_catalog_backfill_record:
  "backfill_record env A wall s sub db rec = Inr db' \<Longrightarrow> same_catalog db db'"
  unfolding backfill_record_def and_then_eq_Inr
  by (elim exE conjE)
    (rule same_catalog_trans [OF same_catalog_discover same_catalog_trans [OF same_catalog_initial same_catalog_enqueue]],
      simp_all)

lemma same_catalog_backfill [same_catalog_intros]:
  "enqueue_backfill_tx env A db wall s sub limit = Inr db' \<Longrightarrow> same_catalog db db'"
  unfolding enqueue_backfill_tx_def
  by (auto split: if_splits intro: same_catalog_fold [OF same_catalog_backfill_record])

section \<open>The operations keep the invariant\<close>

lemma new_source_url: "new_source i u kind = Inr d \<Longrightarrow> src_url d = u \<and> src_id d = i"
  by (auto simp: new_source_def source_definition_new_def split: if_splits)

text \<open>Finding or storing the source of a URL.\<close>

lemma share_source_inv:
  assumes "share_source strict db u proposed revision = Inr (s, db1)" and "catalog_ok (catalog_of db)"
    and "url_text (src_url proposed) = u"
    and "strict \<or> map_of (db_sources db) (src_id proposed) = None"
  shows "catalog_ok (catalog_of db1) \<and> collects (catalog_of db1) s u
    \<and> db_subscriptions db1 = db_subscriptions db \<and> db_subscription_sources db1 = db_subscription_sources db
    \<and> db_feed_urls db1 = db_feed_urls db"
proof (cases "map_of (db_source_urls db) u")
  case (Some existing)
  then have "s = existing" "db1 = db" using assms(1) by (simp_all add: share_source_def)
  with Some catalog_okD(4) [OF assms(2), of u existing] assms(2) show ?thesis by (simp add: catalog_of_def)
next
  case None
  with assms(1,4) have eq: "s = src_id proposed" "map_of (db_sources db) (src_id proposed) = None"
    "db1 = db\<lparr>db_source_urls := put u s (db_source_urls db), db_sources := put s (revision, proposed) (db_sources db)\<rparr>"
    by (auto simp: share_source_def cas_tx_def split: option.splits if_splits)
  let ?c = "(catalog_of db)\<lparr>ca_sources := (ca_sources (catalog_of db))(s \<mapsto> (revision, proposed))\<rparr>"
  have "catalog_ok ?c" by (rule catalog_add_source [OF assms(2)]) (use eq in \<open>simp add: catalog_of_def\<close>)
  moreover have "collects ?c s u" using assms(3) by (simp add: collects_def)
  ultimately have "catalog_ok (?c\<lparr>ca_urls := (ca_urls ?c)(u \<mapsto> s)\<rparr>)" by (rule catalog_register)
  moreover have "catalog_of db1 = ?c\<lparr>ca_urls := (ca_urls ?c)(u \<mapsto> s)\<rparr>"
    by (simp add: eq(3) catalog_of_def)
  ultimately show ?thesis using assms(3) by (simp add: eq(3) collects_def)
qed

lemma isolate_source_inv:
  assumes "isolate_source db proposed = Inr (s, db1)" and "catalog_ok (catalog_of db)"
    and "\<And>q d. map_of (db_sources db) (src_id proposed) = Some (q, d) \<Longrightarrow> url_text (src_url d) = url_text (src_url proposed)"
  shows "catalog_ok (catalog_of db1) \<and> collects (catalog_of db1) s (url_text (src_url proposed))
    \<and> db_subscriptions db1 = db_subscriptions db \<and> db_subscription_sources db1 = db_subscription_sources db
    \<and> db_feed_urls db1 = db_feed_urls db"
proof (cases "map_of (db_sources db) (src_id proposed)")
  case (Some row)
  then obtain q d where row: "map_of (db_sources db) (src_id proposed) = Some (q, d)" by (cases row) simp
  with assms(1) have "s = src_id proposed" "catalog_of db1 = catalog_of db" "db_subscriptions db1 = db_subscriptions db"
      "db_subscription_sources db1 = db_subscription_sources db" "db_feed_urls db1 = db_feed_urls db"
    by (auto simp: isolate_source_def cas_tx_def catalog_of_def split: if_splits)
  with assms(2) assms(3) [OF row] row show ?thesis by (simp add: collects_def catalog_of_def)
next
  case None
  with assms(1) have eq: "s = src_id proposed"
    "db1 = db\<lparr>db_sources := put s (src_revision proposed, proposed) (db_sources db)\<rparr>"
    by (auto simp: isolate_source_def cas_tx_def split: if_splits)
  have "catalog_ok ((catalog_of db)\<lparr>ca_sources := (ca_sources (catalog_of db))(s \<mapsto> (src_revision proposed, proposed))\<rparr>)"
    by (rule catalog_add_source [OF assms(2)]) (use None eq in \<open>simp add: catalog_of_def\<close>)
  then show ?thesis by (simp add: eq(2) catalog_of_def collects_def)
qed

text \<open>A provisioned subscription is new, is linked to a source that collects its URL, and holds its
  reservation where one was asked for.\<close>

lemma source_step_feeds:
  "share_source strict (db\<lparr>db_feed_urls := f\<rparr>) u p q = Inr (s, db2) \<Longrightarrow>
    share_source strict db u p q = Inr (s, db2\<lparr>db_feed_urls := db_feed_urls db\<rparr>) \<and> db_feed_urls db2 = f"
  "isolate_source (db\<lparr>db_feed_urls := f\<rparr>) p = Inr (s, db2) \<Longrightarrow>
    isolate_source db p = Inr (s, db2\<lparr>db_feed_urls := db_feed_urls db\<rparr>) \<and> db_feed_urls db2 = f"
  by (auto simp: share_source_def isolate_source_def cas_tx_def split: option.splits if_splits)

lemma reserve_feed_url_eq:
  "reserve_feed_url db v = Inr db1 \<longleftrightarrow>
    map_of (db_feed_urls db) (sub_workspace v, source_url_exact v) = None
    \<and> db1 = db\<lparr>db_feed_urls := put (sub_workspace v, source_url_exact v) (sub_id v) (db_feed_urls db)\<rparr>"
  by (auto simp: reserve_feed_url_def feed_url_key_def Let_def split: option.splits)

lemma provision_steps:
  assumes "provision_subscription_tx R db wall v proposed item job reserve isolated recipe = Inr db'"
  obtains source db2 f where
    "(if isolated then isolate_source (db\<lparr>db_feed_urls := f\<rparr>) proposed
      else share_source True (db\<lparr>db_feed_urls := f\<rparr>) (url_text (sub_url v)) proposed (src_revision proposed)) = Inr (source, db2)"
    "f = (if reserve then put (sub_workspace v, source_url_exact v) (sub_id v) (db_feed_urls db) else db_feed_urls db)"
    "reserve \<Longrightarrow> map_of (db_feed_urls db) (sub_workspace v, source_url_exact v) = None"
    "map_of (db_subscriptions db2) (sub_id v) = None"
    "same_catalog (db2\<lparr>db_subscriptions := put (sub_id v) (sub_revision v, v) (db_subscriptions db2),
        db_subscription_sources := put (sub_id v) source (db_subscription_sources db2)\<rparr>) db'"
proof -
  from assms obtain db1 source db2 subs links db4 db5 item' db6 where st:
    "(if reserve then reserve_feed_url db v else Inr db) = Inr db1"
    "(if isolated then isolate_source db1 proposed
      else share_source True db1 (url_text (sub_url v)) proposed (src_revision proposed)) = Inr (source, db2)"
    "cas (db_subscriptions db2) (sub_id v) None (sub_revision v) v = Inr subs"
    "insert_strict (re_duplicate R) (db_subscription_sources db2) (sub_id v) source = Inr links"
    "create_subscription (re_admission R) (sub_id v) source
      (db2\<lparr>db_subscriptions := subs, db_subscription_sources := links\<rparr>) = Inr db4"
    "(case recipe of None \<Rightarrow> Inr db4
       | Some draft \<Rightarrow> and_then (insert_strict (re_duplicate R) (db_recipes db4) (sub_id v) (0, draft)) (\<lambda>t.
           Inr (db4\<lparr>db_recipes := t\<rparr>))) = Inr db5"
    "enqueue_work_tx (re_queue R) db5 job item' wall = Inr db6"
    "enqueue_backfill_tx (re_queue R) (re_admission R) db6 wall source (sub_id v) (re_scope R) = Inr db'"
    unfolding provision_subscription_tx_def Let_def and_then_eq_Inr map_err_eq_Inr
    by (elim exE conjE) (auto split: prod.splits)
  let ?f = "if reserve then put (sub_workspace v, source_url_exact v) (sub_id v) (db_feed_urls db) else db_feed_urls db"
  have db1: "db1 = db\<lparr>db_feed_urls := ?f\<rparr>" "reserve \<Longrightarrow> map_of (db_feed_urls db) (sub_workspace v, source_url_exact v) = None"
    using st(1) by (auto simp: reserve_feed_url_eq split: if_splits)
  have subs: "subs = put (sub_id v) (sub_revision v, v) (db_subscriptions db2)" "map_of (db_subscriptions db2) (sub_id v) = None"
    using st(3) by simp_all
  have links: "links = put (sub_id v) source (db_subscription_sources db2)"
    using st(4) by (auto simp: insert_strict_def split: option.splits)
  have "same_catalog db4 db5" using st(6) by (auto simp: same_catalog_def split: option.splits)
  then have "same_catalog (db2\<lparr>db_subscriptions := subs, db_subscription_sources := links\<rparr>) db'"
    using same_catalog_create [OF st(5)] same_catalog_enqueue [OF st(7)] same_catalog_backfill [OF st(8)]
    by (simp add: same_catalog_def)
  with that [of ?f source db2] st(2) db1 subs links show thesis by auto
qed

lemma provision_inv:
  assumes "provision_subscription_tx R db wall v proposed item job reserve isolated recipe = Inr db'"
    and "feed_inv db" and "src_url proposed = sub_url v"
    and "\<And>q d. isolated \<Longrightarrow> map_of (db_sources db) (src_id proposed) = Some (q, d) \<Longrightarrow> url_text (src_url d) = url_text (sub_url v)"
  shows "feed_inv db'"
proof -
  from assms(2) have ok: "distinct (map fst (db_feed_urls db))" "catalog_ok (catalog_of db)"
    "distinct (map fst (db_subscriptions db))"
    by (simp_all add: feed_inv_def)
  from provision_steps [OF assms(1)] obtain s db2 f where st:
    "(if isolated then isolate_source (db\<lparr>db_feed_urls := f\<rparr>) proposed
      else share_source True (db\<lparr>db_feed_urls := f\<rparr>) (url_text (sub_url v)) proposed (src_revision proposed)) = Inr (s, db2)"
    "f = (if reserve then put (sub_workspace v, source_url_exact v) (sub_id v) (db_feed_urls db) else db_feed_urls db)"
    "map_of (db_subscriptions db2) (sub_id v) = None"
    "same_catalog (db2\<lparr>db_subscriptions := put (sub_id v) (sub_revision v, v) (db_subscriptions db2),
        db_subscription_sources := put (sub_id v) s (db_subscription_sources db2)\<rparr>) db'"
    by metis
  let ?b = "db2\<lparr>db_feed_urls := db_feed_urls db\<rparr>"
  have two: "catalog_ok (catalog_of ?b) \<and> collects (catalog_of ?b) s (url_text (sub_url v)) \<and> db_feed_urls db2 = f"
  proof (cases isolated)
    case True
    with st(1) source_step_feeds(2) have "isolate_source db proposed = Inr (s, ?b)" "db_feed_urls db2 = f" by fastforce+
    with isolate_source_inv [OF this(1) ok(2)] assms(3,4) True show ?thesis by auto
  next
    case False
    with st(1) source_step_feeds(1) have "share_source True db (url_text (sub_url v)) proposed (src_revision proposed) = Inr (s, ?b)"
      "db_feed_urls db2 = f" by fastforce+
    with share_source_inv [OF this(1) ok(2)] assms(3) show ?thesis by auto
  qed
  have subs: "db_subscriptions db2 = db_subscriptions db"
    using st(1) by (auto simp: isolate_source_def share_source_def cas_tx_def split: option.splits if_splits)
  let ?c = "(catalog_of ?b)\<lparr>ca_subs := (ca_subs (catalog_of ?b))(sub_id v \<mapsto> (sub_revision v, v)),
      ca_links := (ca_links (catalog_of ?b))(sub_id v \<mapsto> s)\<rparr>"
  have three: "catalog_ok ?c"
    by (rule catalog_add_subscription) (use two st(3) in \<open>simp_all add: catalog_of_def\<close>)
  have cat: "catalog_of db' = ?c\<lparr>ca_feeds := map_of f\<rparr>"
    using st(4) two by (simp add: same_catalog_def catalog_of_def)
  have "catalog_ok (catalog_of db')"
  proof (cases reserve)
    case True
    have "catalog_ok (?c\<lparr>ca_feeds := (ca_feeds ?c)((sub_workspace v, source_url_exact v) \<mapsto> sub_id v)\<rparr>)"
      by (rule catalog_reserve [OF three, where r = "sub_revision v"]) simp
    with True show ?thesis unfolding cat st(2) by (simp add: catalog_of_def)
  next
    case False
    with three show ?thesis unfolding cat st(2) by (simp add: catalog_of_def)
  qed
  moreover have "distinct (map fst (db_feed_urls db'))" "distinct (map fst (db_subscriptions db'))"
    using st(4) two ok(1,3) subs unfolding st(2) by (auto simp: same_catalog_def distinct_put)
  ultimately show ?thesis by (simp add: feed_inv_def)
qed

lemma cas_subscription_eq:
  "cas_subscription db (Some e) v = Inr db' \<longleftrightarrow>
    fits_i64 (sub_revision v) \<and> fits_i64 e \<and> (\<exists>old. map_of (db_subscriptions db) (sub_id v) = Some (e, old))
    \<and> db' = db\<lparr>db_subscriptions := put (sub_id v) (sub_revision v, v) (db_subscriptions db)\<rparr>"
  by (auto simp: cas_subscription_def)

lemma cas_subscription_inv:
  assumes "cas_subscription db (Some e) v = Inr db'" and "feed_inv db"
    and "\<And>r cur. map_of (db_subscriptions db) (sub_id v) = Some (r, cur) \<Longrightarrow>
      sub_workspace v = sub_workspace cur \<and> sub_url v = sub_url cur \<and> source_url_exact v = source_url_exact cur"
  shows "feed_inv db'"
proof -
  from assms(1) obtain cur where row: "map_of (db_subscriptions db) (sub_id v) = Some (e, cur)"
    and db': "db' = db\<lparr>db_subscriptions := put (sub_id v) (sub_revision v, v) (db_subscriptions db)\<rparr>"
    by (auto simp: cas_subscription_eq)
  have "catalog_ok ((catalog_of db)\<lparr>ca_subs := (ca_subs (catalog_of db))(sub_id v \<mapsto> (sub_revision v, v))\<rparr>)"
    by (rule catalog_update [where cur = cur and r = e])
      (use assms(2,3) row in \<open>simp_all add: feed_inv_def catalog_of_def\<close>)
  with assms(2) show ?thesis by (simp add: feed_inv_def db' catalog_of_def distinct_put)
qed

lemma feed_inv_row:
  assumes "feed_inv db" and "map_of (db_subscriptions db) i = Some (r, v)"
  shows "r = sub_revision v \<and> sub_id v = i"
  using catalog_okD(1) [of "catalog_of db" i r v] assms by (simp add: feed_inv_def catalog_of_def)

lemma feed_inv_link:
  assumes "feed_inv db" and "map_of (db_subscriptions db) i = Some (r, v)"
  obtains s q d where "map_of (db_subscription_sources db) i = Some s" "map_of (db_sources db) s = Some (q, d)"
    "url_text (src_url d) = url_text (sub_url v)"
proof -
  have ok: "catalog_ok (catalog_of db)" using assms(1) by (simp add: feed_inv_def)
  from assms(2) catalog_okD(2) [OF ok] obtain s where "map_of (db_subscription_sources db) i = Some s"
    by (force simp: catalog_of_def dom_def)
  with that catalog_okD(3) [OF ok, of i r v s] assms(2) show thesis by (auto simp: catalog_of_def collects_def)
qed

text \<open>A command other than a replacement of the source keeps the workspace and the URL.\<close>

definition keeps_feed :: "(subscription \<Rightarrow> subscription) \<Rightarrow> bool" where
  "keeps_feed f \<longleftrightarrow> (\<forall>v. sub_id (f v) = sub_id v \<and> sub_workspace (f v) = sub_workspace v \<and> sub_url (f v) = sub_url v
    \<and> source_url_exact (f v) = source_url_exact v)"

lemma keeps_feed_changes [simp]:
  "keeps_feed (subscription_pause e)" "keeps_feed subscription_resume" "keeps_feed subscription_archive"
  "keeps_feed subscription_restore" "keeps_feed (subscription_rename n)"
  by (auto simp: keeps_feed_def op_defs source_url_exact_def Let_def split: subscription_status.splits option.splits)

lemma repo_subscription_row:
  "repo_subscription R db i = Inr v \<Longrightarrow> \<exists>r. map_of (db_subscriptions db) i = Some (r, v)"
  by (auto simp: repo_subscription_def)

lemma change_inv:
  assumes "cas_subscription db (Some e) (f v) = Inr db'" and "feed_inv db" and "repo_subscription R db i = Inr v"
    and "keeps_feed f"
  shows "feed_inv db'"
proof (rule cas_subscription_inv [OF assms(1,2)])
  fix r cur
  assume cur: "map_of (db_subscriptions db) (sub_id (f v)) = Some (r, cur)"
  from repo_subscription_row [OF assms(3)] obtain r' where row: "map_of (db_subscriptions db) i = Some (r', v)" by blast
  with feed_inv_row [OF assms(2) row] assms(4) cur have "cur = v" by (simp add: keeps_feed_def)
  with assms(4) show "sub_workspace (f v) = sub_workspace cur \<and> sub_url (f v) = sub_url cur
      \<and> source_url_exact (f v) = source_url_exact cur" by (simp add: keeps_feed_def)
qed

lemma map_of_filter_value:
  "distinct (map fst t) \<Longrightarrow>
    map_of (filter (\<lambda>(_, s). s \<noteq> i) t) k = (if map_of t k = Some i then None else map_of t k)"
proof (induction t)
  case (Cons a t)
  then have "map_of t (fst a) = None" by (simp add: map_of_eq_None_iff)
  with Cons show ?case by (cases a) auto
qed simp

lemma delete_subscription_inv:
  assumes "delete_subscription R db v = Inr db'" and "feed_inv db"
  shows "feed_inv db'"
proof -
  let ?i = "sub_id v"
  from assms(1) have db': "db_subscriptions db' = del ?i (db_subscriptions db)"
    "db_subscription_sources db' = del ?i (db_subscription_sources db)"
    "db_feed_urls db' = filter (\<lambda>(_, s). s \<noteq> ?i) (db_feed_urls db)"
    "db_source_urls db' = db_source_urls db" "db_sources db' = db_sources db"
    by (auto simp: delete_subscription_def split: option.splits if_splits)
  have dist: "distinct (map fst (db_feed_urls db))" and ok: "catalog_ok (catalog_of db)"
    using assms(2) by (simp_all add: feed_inv_def)
  from map_of_filter_value [OF dist] have "map_of (db_feed_urls db') =
      (\<lambda>k. if map_of (db_feed_urls db) k = Some ?i then None else map_of (db_feed_urls db) k)"
    by (auto simp: db'(3))
  moreover have "distinct (map fst (db_feed_urls db'))"
    using dist by (simp add: db'(3) distinct_map_filter)
  moreover have "distinct (map fst (db_subscriptions db'))"
    using assms(2) by (simp add: db'(1) feed_inv_def del_def distinct_delete)
  ultimately show ?thesis
    using catalog_remove [OF ok, of ?i] by (simp add: feed_inv_def catalog_of_def db' cong: if_cong)
qed

lemma map_of_relink:
  "map_of (map (\<lambda>(k, l). (k, if k = i then s else l)) t) =
    (if map_of t i = None then map_of t else (map_of t)(i \<mapsto> s))"
proof -
  have "map_of (map (\<lambda>(k, l). (k, if k = i then s else l)) t) k =
      (if k = i then map_option (\<lambda>_. s) (map_of t k) else map_of t k)" for k
    by (induction t) auto
  then show ?thesis by auto
qed

text \<open>Moving a subscription to another source, as the replacement and the migration do.\<close>

lemma move_inv:
  assumes "feed_inv db" and "cas_subscription db (Some e) v = Inr db2" and "collects (catalog_of db) s (url_text (sub_url v))"
    and "map_of (db_subscriptions db) (sub_id v) = Some (r, cur)" and "sub_workspace cur = sub_workspace v"
  shows "feed_inv (db2\<lparr>db_feed_urls := put (feed_url_key (sub_workspace v) (source_url_exact v)) (sub_id v)
        (del (feed_url_key (sub_workspace v) (source_url_exact cur)) (db_feed_urls db2)),
      db_subscription_sources := map (\<lambda>(k, l). (k, if k = sub_id v then s else l)) (db_subscription_sources db2)\<rparr>)"
proof -
  have dist: "distinct (map fst (db_feed_urls db))" and ok: "catalog_ok (catalog_of db)"
    using assms(1) by (simp_all add: feed_inv_def)
  from assms(2) have db2: "db2 = db\<lparr>db_subscriptions := put (sub_id v) (sub_revision v, v) (db_subscriptions db)\<rparr>"
    by (simp add: cas_subscription_eq)
  from feed_inv_link [OF assms(1,4)] obtain l where "map_of (db_subscription_sources db) (sub_id v) = Some l" by blast
  then have links: "map_of (map (\<lambda>(k, l). (k, if k = sub_id v then s else l)) (db_subscription_sources db))
      = (map_of (db_subscription_sources db))(sub_id v \<mapsto> s)" by (simp add: map_of_relink)
  have "distinct (map fst (del k (db_feed_urls db)))" "distinct (map fst (db_subscriptions db))" for k
    using dist assms(1) by (simp_all add: del_def distinct_delete feed_inv_def)
  moreover have "catalog_ok ((catalog_of db)\<lparr>ca_subs := (ca_subs (catalog_of db))(sub_id v \<mapsto> (sub_revision v, v)),
    ca_links := (ca_links (catalog_of db))(sub_id v \<mapsto> s),
    ca_feeds := ((ca_feeds (catalog_of db))((sub_workspace v, source_url_exact cur) := None))
      ((sub_workspace v, source_url_exact v) \<mapsto> sub_id v)\<rparr>)"
    by (rule catalog_move [OF ok, where r = r]) (use assms(3-5) in \<open>simp_all add: catalog_of_def\<close>)
  ultimately show ?thesis
    by (simp add: feed_inv_def db2 catalog_of_def links feed_url_key_def distinct_put)
qed

lemma replace_source_inv:
  assumes "replace_subscription_source R db wall i j e v = Inr db'" and "feed_inv db"
    and "map_of (db_sources db) i = None"
  shows "feed_inv db'"
proof -
  let ?moved = "\<lambda>db2 s cur. db2\<lparr>db_feed_urls := put (feed_url_key (sub_workspace v) (source_url_exact v)) (sub_id v)
        (del (feed_url_key (sub_workspace v) (source_url_exact cur)) (db_feed_urls db2)),
      db_subscription_sources := map (\<lambda>(k, l). (k, if k = sub_id v then s else l)) (db_subscription_sources db2)\<rparr>"
  from assms(1) obtain cur proposed s db1 db2 db4 db5 where st:
    "repo_subscription R db (sub_id v) = Inr cur" "sub_workspace cur = sub_workspace v"
    "new_source i (sub_url v) AutoKind = Inr proposed"
    "share_source False db (url_text (sub_url v)) proposed 0 = Inr (s, db1)"
    "cas_subscription db1 (Some e) v = Inr db2"
    "create_subscription (re_admission R) (sub_id v) s (?moved db2 s cur) = Inr db4"
    "enqueue_backfill_tx (re_queue R) (re_admission R) db4 wall s (sub_id v) (re_scope R) = Inr db5"
    "enqueue_work_tx (re_queue R) db5 j (PollSource s) wall = Inr db'"
    unfolding replace_subscription_source_def Let_def and_then_eq_Inr map_err_eq_Inr
    by (elim exE conjE) (auto split: if_splits prod.splits)
  from share_source_inv [OF st(4)] new_source_url [OF st(3)] assms(2,3)
  have one: "catalog_ok (catalog_of db1)" "collects (catalog_of db1) s (url_text (sub_url v))"
    "db_subscriptions db1 = db_subscriptions db" "db_feed_urls db1 = db_feed_urls db"
    by (simp_all add: feed_inv_def)
  with assms(2) have inv1: "feed_inv db1" by (simp add: feed_inv_def)
  from repo_subscription_row [OF st(1)] one(3) obtain r where "map_of (db_subscriptions db1) (sub_id v) = Some (r, cur)" by auto
  from move_inv [OF inv1 st(5) one(2) this st(2)] have "feed_inv (?moved db2 s cur)" .
  moreover have "same_catalog (?moved db2 s cur) db'"
    by (rule same_catalog_trans [OF same_catalog_create [OF st(6)]
      same_catalog_trans [OF same_catalog_backfill [OF st(7)] same_catalog_enqueue [OF st(8)]]])
  ultimately show ?thesis using same_catalog_inv by blast
qed

lemma activate_steps:
  assumes "activate_subscription_with_refresh R db wall e v = Inr db'"
  obtains db1 s db2 where "active_subscription v" "cas_subscription db (Some e) v = Inr db1"
    "source_for_subscription db1 (sub_id v) = Inr s"
    "enqueue_backfill_tx (re_queue R) (re_admission R) db1 wall s (sub_id v) (re_scope R) = Inr db2"
    "enqueue_work_tx (re_queue R) db2 (activation_job (re_queue R) v) (RefreshSource s) wall = Inr db'"
  using assms unfolding activate_subscription_with_refresh_def
  by (auto split: if_splits)

lemma activate_same:
  assumes "activate_subscription_with_refresh R db wall e v = Inr db'"
  obtains db1 where "cas_subscription db (Some e) v = Inr db1" "same_catalog db1 db'"
proof -
  from activate_steps [OF assms] obtain db1 s db2 where st: "cas_subscription db (Some e) v = Inr db1"
    "enqueue_backfill_tx (re_queue R) (re_admission R) db1 wall s (sub_id v) (re_scope R) = Inr db2"
    "enqueue_work_tx (re_queue R) db2 (activation_job (re_queue R) v) (RefreshSource s) wall = Inr db'" by blast
  from that [OF st(1)] same_catalog_trans [OF same_catalog_backfill [OF st(2)] same_catalog_enqueue [OF st(3)]] show thesis .
qed

lemma refresh_same: "enqueue_subscription_refresh env db wall j v = Inr db' \<Longrightarrow> same_catalog db db'"
  by (auto simp: enqueue_subscription_refresh_def intro: same_catalog_intros split: if_splits)

lemma web_feed_inv:
  assumes "save_web_feed_subscription R db wall i j v prepared = Inr db'" and "feed_inv db"
    and "map_of (db_sources db) i = None"
  shows "feed_inv db'"
proof -
  from assms(1) obtain source where source: "new_source i (sub_url v) (WebPage (pw_recipe prepared)) = Inr source"
    "provision_subscription_tx R db wall v source (CollectWebFeed (src_id source)) j False True (Some (pw_draft prepared)) = Inr db'"
    by (auto simp: save_web_feed_subscription_def)
  from provision_inv [OF source(2) assms(2)] new_source_url [OF source(1)] assms(3) show ?thesis by simp
qed

lemma revise_kind_url: "source_revise_kind s kind = Inr s' \<Longrightarrow> src_url s' = src_url s"
  by (auto simp: source_revise_kind_def source_definition_new_def split: if_splits)

lemma recipe_inv:
  assumes "update_web_feed_recipe R db wall sub e prepared = Inr (n, db')" and "feed_inv db"
  shows "feed_inv db'"
proof -
  from assms(1) obtain s q source source' t where st: "map_of (db_sources db) s = Some (q, source)"
    "source_revise_kind source (WebPage (pw_recipe prepared)) = Inr source'"
    "enqueue_work_tx (re_queue R) (db\<lparr>db_recipes := t, db_sources := put s (e + 1, source') (db_sources db)\<rparr>)
      (recipe_job (re_queue R) sub (e + 1)) (CollectWebFeed s) wall = Inr db'"
    by (auto simp: update_web_feed_recipe_def Let_def split: if_splits option.splits)
  have "catalog_ok ((catalog_of db)\<lparr>ca_sources := (ca_sources (catalog_of db))(s \<mapsto> (e + 1, source'))\<rparr>)"
    by (rule catalog_add_source) (use assms(2) st(1) revise_kind_url [OF st(2)] in \<open>auto simp: feed_inv_def catalog_of_def\<close>)
  with assms(2) have "feed_inv (db\<lparr>db_recipes := t, db_sources := put s (e + 1, source') (db_sources db)\<rparr>)"
    by (simp add: feed_inv_def catalog_of_def)
  with same_catalog_inv [OF same_catalog_enqueue [OF st(3)]] show ?thesis by simp
qed

lemma try_fold_inv:
  assumes "\<And>d x d'. x \<in> set xs \<Longrightarrow> f d x = Inr d' \<Longrightarrow> P d \<Longrightarrow> P d'" and "try_fold f db xs = Inr db'" and "P db"
  shows "P db'"
  using assms
proof (induction xs arbitrary: db)
  case (Cons x xs)
  then obtain d where "f db x = Inr d" "try_fold f d xs = Inr db'" by auto
  with Cons.IH [of d] Cons.prems show ?case by auto
qed simp

lemma import_inv:
  assumes "import_subscriptions_atomic R db wall ids w vs = Inr db'" and "feed_inv db"
  shows "feed_inv db'"
proof (rule try_fold_inv [where f = "import_one R wall" and P = feed_inv])
  show "try_fold (import_one R wall) db (map (\<lambda>(n, v). (v, ids n)) (enumerate 0 vs)) = Inr db'"
    using assms(1) by (auto simp: import_subscriptions_atomic_def)
  fix d d' :: "'a sdb" and row assume step: "import_one R wall d row = Inr d'" "feed_inv d"
  obtain v i j where row: "row = (v, i, j)" by (cases row) auto
  with step(1) obtain source where source: "new_source i (sub_url v) AutoKind = Inr source"
    "provision_subscription_tx R d wall v source (PollSource (src_id source)) j False False None = Inr d'"
    by (auto simp: import_one_def)
  from provision_inv [OF source(2) step(2)] new_source_url [OF source(1)] show "feed_inv d'" by simp
qed (rule assms(2))

lemma save_new_inv:
  assumes "save_subscription R db wall i j None v = Inr db'" and "feed_inv db"
  shows "feed_inv db'"
proof -
  from assms(1) obtain source where source: "new_source i (sub_url v) AutoKind = Inr source"
    "provision_subscription_tx R db wall v source (PollSource (src_id source)) j True False None = Inr db'"
    by (auto simp: save_subscription_def)
  from provision_inv [OF source(2) assms(2)] new_source_url [OF source(1)] show ?thesis by simp
qed

section \<open>Seeds and the migration\<close>

text \<open>The sources stored under the name-based identifiers of the URLs \<open>us\<close> are sources of those URLs.\<close>

definition hash_ok :: "'c repo_env \<Rightarrow> string set \<Rightarrow> 'a db \<Rightarrow> bool" where
  "hash_ok R us db \<longleftrightarrow>
    (\<forall>u \<in> us. \<forall>q d. map_of (db_sources db) (re_url_hash R u) = Some (q, d) \<longrightarrow> url_text (src_url d) = u)"

lemma provision_sources:
  assumes "provision_subscription_tx R db wall v proposed item job reserve isolated recipe = Inr db'"
  shows "map_of (db_sources db') = map_of (db_sources db)
    \<or> map_of (db_sources db') = (map_of (db_sources db))(src_id proposed \<mapsto> (src_revision proposed, proposed))"
proof -
  from provision_steps [OF assms] obtain s db2 f where st:
    "(if isolated then isolate_source (db\<lparr>db_feed_urls := f\<rparr>) proposed
      else share_source True (db\<lparr>db_feed_urls := f\<rparr>) (url_text (sub_url v)) proposed (src_revision proposed)) = Inr (s, db2)"
    "same_catalog (db2\<lparr>db_subscriptions := put (sub_id v) (sub_revision v, v) (db_subscriptions db2),
        db_subscription_sources := put (sub_id v) s (db_subscription_sources db2)\<rparr>) db'"
    by metis
  from st(2) have "db_sources db' = db_sources db2" by (simp add: same_catalog_def)
  with st(1) show ?thesis
    by (auto simp: isolate_source_def share_source_def cas_tx_def split: option.splits if_splits)
qed

lemma prepare_seed_source:
  "prepare_seed R w seed = Inr row \<Longrightarrow>
    src_url (ps_source row) = sub_url (ps_value row)
    \<and> src_id (ps_source row) = re_url_hash R (url_text (sub_url (ps_value row))) \<and> ps_value row = fst (snd seed)"
  by (auto simp: prepare_seed_def Let_def new_source_def source_definition_new_def
      split: prod.splits if_splits seed_source.splits)

lemma apply_seed_one_inv:
  assumes "apply_seed_one R wall db row = Inr db'" and "feed_inv db" and "hash_ok R us db" and "inj_on (re_url_hash R) us"
    and "src_url (ps_source row) = sub_url (ps_value row)"
    and "src_id (ps_source row) = re_url_hash R (url_text (sub_url (ps_value row)))"
    and "url_text (sub_url (ps_value row)) \<in> us"
  shows "feed_inv db' \<and> hash_ok R us db'"
proof -
  consider "same_catalog db db'"
    | db1 t where "provision_subscription_tx R db wall (ps_value row) (ps_source row) (ps_item row)
         (seed_job (re_queue R) (ps_key row)) False (ps_recipe row \<noteq> None) (ps_recipe row) = Inr db1"
        "db' = db1\<lparr>db_seed_items := t\<rparr>"
    using assms(1) by (auto simp: apply_seed_one_def same_catalog_def split: if_splits)
  then show ?thesis
  proof cases
    case 1
    then show ?thesis using assms(2,3) same_catalog_inv [OF 1] by (simp add: same_catalog_def hash_ok_def)
  next
    case 2
    have "feed_inv db1"
      by (rule provision_inv [OF 2(1) assms(2,5)]) (use assms(3,6,7) in \<open>auto simp: hash_ok_def\<close>)
    then have "feed_inv db'" by (simp add: feed_inv_def catalog_of_def 2(2))
    moreover have "hash_ok R us db'"
      using provision_sources [OF 2(1)] assms(3-7) unfolding hash_ok_def 2(2)
      by (auto dest: inj_onD split: if_splits)
    ultimately show ?thesis ..
  qed
qed

lemma seed_inv:
  fixes db :: "'c sdb"
  assumes "apply_seed_atomic R db wall w seeds = Inr db'" and "feed_inv db"
    and "hash_ok R ((\<lambda>(_, v, _). url_text (sub_url v)) ` set seeds) db"
    and "inj_on (re_url_hash R) ((\<lambda>(_, v, _). url_text (sub_url v)) ` set seeds)"
  shows "feed_inv db'"
proof -
  let ?us = "(\<lambda>(_, v, _). url_text (sub_url v)) ` set seeds"
  from assms(1) obtain rows where rows: "try_map (prepare_seed R w) seeds = Inr rows"
    "try_fold (apply_seed_one R wall) db rows = Inr db'" by (auto simp: apply_seed_atomic_def)
  have "feed_inv db' \<and> hash_ok R ?us db'"
  proof (rule try_fold_inv [where f = "apply_seed_one R wall" and P = "\<lambda>d. feed_inv d \<and> hash_ok R ?us d"])
    fix d row d'
    assume row: "row \<in> set rows" and step: "apply_seed_one R wall d row = Inr d'" "feed_inv d \<and> hash_ok R ?us d"
    from try_map_set [OF rows(1) row] obtain seed where seed: "seed \<in> set seeds" "prepare_seed R w seed = Inr row" by blast
    obtain k v rest where "seed = (k, v, rest)" by (cases seed) auto
    with seed(1) prepare_seed_source [OF seed(2)] have "url_text (sub_url (ps_value row)) \<in> ?us" by (auto intro!: image_eqI)
    with apply_seed_one_inv [OF step(1) _ _ assms(4)] step(2) prepare_seed_source [OF seed(2)]
    show "feed_inv d' \<and> hash_ok R ?us d'" by blast
  qed (use rows(2) assms(2,3) in auto)
  then show ?thesis ..
qed

lemma migrate_source_inv:
  assumes "migrate_source R db proposed = Inr (s, db1)" and "feed_inv db"
  defines "canonical \<equiv> src_url proposed" and "kind \<equiv> src_kind proposed"
  shows "feed_inv db1 \<and> collects (catalog_of db1) s (url_text canonical) \<and> db_subscriptions db1 = db_subscriptions db"
proof (cases "map_of (db_source_urls db) (url_text canonical)")
  case (Some existing)
  have ok: "catalog_ok (catalog_of db)" using assms(2) by (simp add: feed_inv_def)
  from catalog_okD(4) [OF ok, of "url_text canonical" existing] Some obtain q d where
    src: "map_of (db_sources db) existing = Some (q, d)" "url_text (src_url d) = url_text canonical"
    by (auto simp: catalog_of_def collects_def)
  from assms(1) Some have s: "s = existing" "migrate_known_source db existing canonical kind = Inr db1"
    by (auto simp: migrate_source_def canonical_def kind_def)
  show ?thesis
  proof (cases "src_kind d = kind")
    case True
    with s(2) src(1) have "db1 = db" by (simp add: migrate_known_source_def)
    with assms(2) src s(1) show ?thesis by (auto simp: collects_def catalog_of_def)
  next
    case False
    with s(2) src(1) obtain up where up: "new_source existing canonical kind = Inr up"
      "db1 = db\<lparr>db_sources := put existing (q + 1, up) (db_sources db)\<rparr>"
      by (auto simp: migrate_known_source_def split: if_splits)
    have "catalog_ok ((catalog_of db)\<lparr>ca_sources := (ca_sources (catalog_of db))(existing \<mapsto> (q + 1, up))\<rparr>)"
      by (rule catalog_add_source [OF ok]) (use src new_source_url [OF up(1)] in \<open>simp add: catalog_of_def\<close>)
    with assms(2) new_source_url [OF up(1)] s(1) show ?thesis
      by (simp add: up(2) feed_inv_def catalog_of_def collects_def)
  qed
next
  case None
  have ok: "catalog_ok (catalog_of db)" using assms(2) by (simp add: feed_inv_def)
  let ?u = "url_text canonical"
  define sources where "sources = db_sources db1"
  from None assms(1) have new: "s = src_id proposed"
    "db1 = db\<lparr>db_sources := sources, db_source_urls := put ?u s (db_source_urls db)\<rparr>"
    "sources = db_sources db \<and> (\<exists>q. map_of (db_sources db) s = Some (q, proposed))
      \<or> (\<exists>q. sources = put s (q, proposed) (db_sources db) \<and> (\<forall>q' d. map_of (db_sources db) s = Some (q', d) \<longrightarrow> src_url d = src_url proposed))"
    unfolding sources_def
    by (auto simp: migrate_source_def migrate_new_source_def insert_strict_def canonical_def split: option.splits if_splits)
  let ?c = "(catalog_of db)\<lparr>ca_sources := map_of sources\<rparr>"
  have "catalog_ok ?c \<and> collects ?c s ?u"
  proof (cases "sources = db_sources db \<and> (\<exists>q. map_of (db_sources db) s = Some (q, proposed))")
    case True
    with ok show ?thesis by (auto simp: catalog_of_def collects_def canonical_def)
  next
    case False
    with new(3) obtain q where q: "sources = put s (q, proposed) (db_sources db)"
      "\<And>q' d. map_of (db_sources db) s = Some (q', d) \<Longrightarrow> src_url d = src_url proposed" by auto
    have "catalog_ok ((catalog_of db)\<lparr>ca_sources := (ca_sources (catalog_of db))(s \<mapsto> (q, proposed))\<rparr>)"
      by (rule catalog_add_source [OF ok]) (use q(2) in \<open>auto simp: catalog_of_def\<close>)
    then show ?thesis by (simp add: q(1) catalog_of_def collects_def canonical_def)
  qed
  then have "catalog_ok (?c\<lparr>ca_urls := (ca_urls ?c)(?u \<mapsto> s)\<rparr>)" "collects ?c s ?u" using catalog_register by blast+
  with assms(2) show ?thesis by (simp add: new(2) feed_inv_def catalog_of_def collects_def)
qed

lemma replaced_subscription:
  "subscription_replace_source parse u x n v = Inr v' \<Longrightarrow>
    sub_id v' = sub_id v \<and> sub_workspace v' = sub_workspace v \<and> sub_url v' = u"
  by (auto simp: subscription_replace_source_def split: if_splits)

lemma same_catalog_recipe: "same_catalog db (migrate_recipe db sub draft)"
  by (simp add: migrate_recipe_def same_catalog_def split: option.splits)

lemma migrate_subscription_inv:
  assumes "migrate_subscription R wall w legacy_id proposed exact name s db v = Inr db'" and "feed_inv db"
    and "collects (catalog_of db) s (url_text (src_url proposed))"
    and "map_of (db_subscriptions db) (sub_id v) = Some (r, v)" and "sub_workspace v = w"
  shows "feed_inv db' \<and> (\<forall>k. k \<noteq> sub_id v \<longrightarrow> map_of (db_subscriptions db') k = map_of (db_subscriptions db) k)"
proof -
  let ?moved = "\<lambda>db2 s v'. db2\<lparr>db_feed_urls := put (feed_url_key w (source_url_exact v')) (sub_id v')
        (del (feed_url_key w (source_url_exact v)) (db_feed_urls db2)),
      db_subscription_sources := map (\<lambda>(k, l). (k, if k = sub_id v' then s else l)) (db_subscription_sources db2)\<rparr>"
  from assms(1) obtain v' db2 draft j item where st:
    "subscription_replace_source (parse_url (re_web R)) (src_url proposed) exact name v = Inr v'"
    "cas_subscription db (Some (sub_revision v)) v' = Inr db2"
    "enqueue_work_tx (re_queue R) (migrate_recipe (?moved db2 s v') (sub_id v') draft) j item wall = Inr db'"
    unfolding migrate_subscription_def Let_def and_then_eq_Inr map_err_eq_Inr
    by (elim exE conjE) (auto split: if_splits)
  from replaced_subscription [OF st(1)] have v': "sub_id v' = sub_id v" "sub_workspace v' = w" "sub_url v' = src_url proposed"
    using assms(5) by simp_all
  have "feed_inv (?moved db2 s v')"
    using move_inv [OF assms(2) st(2), of s r v] assms(3-5) v' by simp
  moreover have same: "same_catalog (?moved db2 s v') db'"
    by (rule same_catalog_trans [OF same_catalog_recipe same_catalog_enqueue [OF st(3)]])
  ultimately have "feed_inv db'" using same_catalog_inv by blast
  moreover from same st(2) v'(1) have "map_of (db_subscriptions db') k = map_of (db_subscriptions db) k"
    if "k \<noteq> sub_id v" for k
    using that by (auto simp: same_catalog_def cas_subscription_eq)
  ultimately show ?thesis by blast
qed

lemma migrate_one_inv:
  assumes "migrate_one R wall w configurations (n, db) v = Inr (n', db')" and "feed_inv db"
    and "map_of (db_subscriptions db) (sub_id v) = Some (r, v)" and "sub_workspace v = w"
  shows "feed_inv db' \<and> (\<forall>k. k \<noteq> sub_id v \<longrightarrow> map_of (db_subscriptions db') k = map_of (db_subscriptions db) k)"
proof (cases "url_host (sub_url v) = Some legacy_host")
  case False
  with assms(1,2) show ?thesis by (simp add: migrate_one_def)
next
  case True
  with assms(1) obtain legacy_id exact name proposed s db1 where st: "migrate_source R db proposed = Inr (s, db1)"
    "migrate_subscription R wall w legacy_id proposed exact name s db1 v = Inr db'"
    unfolding migrate_one_def Let_def by (auto split: if_splits)
  from migrate_source_inv [OF st(1) assms(2)] have one: "feed_inv db1" "collects (catalog_of db1) s (url_text (src_url proposed))"
    "db_subscriptions db1 = db_subscriptions db" by simp_all
  from migrate_subscription_inv [OF st(2) one(1,2)] assms(3,4) one(3) show ?thesis by simp
qed

lemma migrate_fold_inv:
  assumes "try_fold (migrate_one R wall w configurations) (n, db) vs = Inr (n', db')" and "feed_inv db"
    and "\<And>v. v \<in> set vs \<Longrightarrow> sub_workspace v = w \<and> (\<exists>r. map_of (db_subscriptions db) (sub_id v) = Some (r, v))"
    and "distinct (map sub_id vs)"
  shows "feed_inv db'"
  using assms
proof (induction vs arbitrary: n db)
  case (Cons v vs)
  then obtain n1 db1 where step: "migrate_one R wall w configurations (n, db) v = Inr (n1, db1)"
    "try_fold (migrate_one R wall w configurations) (n1, db1) vs = Inr (n', db')" by auto
  from Cons.prems(3) [of v] obtain r where "sub_workspace v = w" "map_of (db_subscriptions db) (sub_id v) = Some (r, v)" by auto
  with migrate_one_inv [OF step(1) Cons.prems(2)] have one: "feed_inv db1"
    "\<And>k. k \<noteq> sub_id v \<Longrightarrow> map_of (db_subscriptions db1) k = map_of (db_subscriptions db) k" by blast+
  show ?case
  proof (rule Cons.IH [OF step(2) one(1)])
    fix x assume x: "x \<in> set vs"
    with Cons.prems(4) have "sub_id x \<noteq> sub_id v" by (metis distinct.simps(2) image_eqI list.set_map list.simps(9))
    with one(2) Cons.prems(3) [of x] x show "sub_workspace x = w \<and> (\<exists>r. map_of (db_subscriptions db1) (sub_id x) = Some (r, x))"
      by simp
  qed (use Cons.prems(4) in simp)
qed simp

lemma migrate_inv:
  assumes "migrate_personal_feed_links_atomic R db wall w configurations = Inr (n, db')" and "feed_inv db"
  shows "feed_inv db'"
proof (rule migrate_fold_inv [OF assms(1) [unfolded migrate_personal_feed_links_atomic_def] assms(2)])
  have dist: "distinct (map fst (db_subscriptions db))" using assms(2) by (simp add: feed_inv_def)
  have row: "map_of (db_subscriptions db) i = Some (r, v) \<and> sub_id v = i" if "(i, r, v) \<in> set (db_subscriptions db)" for i r v
    using map_of_is_SomeI [OF dist that] feed_inv_row [OF assms(2)] by blast
  fix v assume "v \<in> set (map (\<lambda>(_, _, v). v) (filter (\<lambda>(_, _, v). sub_workspace v = w) (db_subscriptions db)))"
  then show "sub_workspace v = w \<and> (\<exists>r. map_of (db_subscriptions db) (sub_id v) = Some (r, v))" using row by fastforce
next
  have dist: "distinct (map fst (db_subscriptions db))" using assms(2) by (simp add: feed_inv_def)
  have "map sub_id (map (\<lambda>(_, _, v). v) (filter P (db_subscriptions db))) = map fst (filter P (db_subscriptions db))" for P
    using map_of_is_SomeI [OF dist] feed_inv_row [OF assms(2)] by (auto simp: comp_def split_beta)
  then show "distinct (map sub_id (map (\<lambda>(_, _, v). v) (filter (\<lambda>(_, _, v). sub_workspace v = w) (db_subscriptions db))))"
    using dist by (simp only: distinct_map_filter)
qed

end
