(* ===== verification/Catalog_Runs.thy ===== *)
theory Catalog_Runs
  imports Catalog
begin

text \<open>
  Runs of the subscription catalogue: the invariant over every command and transaction, commands with stale
  reads, what an activation queues and what it does not, and the repeated application of seeds.
\<close>

section \<open>Every transaction keeps the catalogue\<close>

text \<open>A source identifier drawn at random is not in use (\<open>step_web_feed\<close>, \<open>step_replace\<close>); name-based
  identifiers of the seeded URLs do not collide (\<open>step_seed\<close>). Transactions of the worker and of other
  components leave these tables alone (\<open>step_other\<close>).\<close>

inductive feed_step :: "'c repo_env \<Rightarrow> 'c sdb \<Rightarrow> 'c sdb \<Rightarrow> bool" for R where
  step_add: "save_subscription R d wall i j None v = Inr d' \<Longrightarrow> feed_step R d d'"
| step_rename: "repo_subscription R d i = Inr v \<Longrightarrow>
    save_subscription R d wall s j (Some (sub_revision v)) (subscription_rename n v) = Inr d' \<Longrightarrow> feed_step R d d'"
| step_web_feed: "save_web_feed_subscription R d wall i j v prepared = Inr d' \<Longrightarrow>
    map_of (db_sources d) i = None \<Longrightarrow> feed_step R d d'"
| step_recipe: "update_web_feed_recipe R d wall i e prepared = Inr (n, d') \<Longrightarrow> feed_step R d d'"
| step_import: "import_subscriptions_atomic R d wall ids w vs = Inr d' \<Longrightarrow> feed_step R d d'"
| step_seed: "apply_seed_atomic R d wall w seeds = Inr d' \<Longrightarrow>
    us = (\<lambda>(_, v, _). url_text (sub_url v)) ` set seeds \<Longrightarrow> hash_ok R us d \<Longrightarrow> inj_on (re_url_hash R) us \<Longrightarrow>
    feed_step R d d'"
| step_migrate: "migrate_personal_feed_links_atomic R d wall w configurations = Inr (n, d') \<Longrightarrow> feed_step R d d'"
| step_replace: "replace_subscription_source R d wall i j e v = Inr d' \<Longrightarrow> map_of (db_sources d) i = None \<Longrightarrow>
    feed_step R d d'"
| step_pause: "pause_subscription R d d i reason actor now = Inr (v, d') \<Longrightarrow> feed_step R d d'"
| step_archive: "archive_subscription R d d i = Inr (v, d') \<Longrightarrow> feed_step R d d'"
| step_resume: "resume_subscription R d d wall i = Inr (v, d') \<Longrightarrow> feed_step R d d'"
| step_restore: "restore_subscription R d d wall i = Inr (v, d') \<Longrightarrow> feed_step R d d'"
| step_refresh: "enqueue_subscription_refresh (re_queue R) d wall j v = Inr d' \<Longrightarrow> feed_step R d d'"
| step_delete: "delete_subscription R d v = Inr d' \<Longrightarrow> feed_step R d d'"
| step_archive_workspace: "archive_workspace R d d w reason actor now = Inr (v, d') \<Longrightarrow> feed_step R d d'"
| step_restore_workspace: "restore_workspace R d d wall w = Inr (v, d') \<Longrightarrow> feed_step R d d'"
| step_other: "same_catalog d d' \<Longrightarrow> feed_step R d d'"

lemma save_existing: "save_subscription R d wall i j (Some e) v = Inr d' \<Longrightarrow> cas_subscription d (Some e) v = Inr d'"
  by (simp add: save_subscription_def)

lemma pause_steps:
  assumes "pause_subscription R r d i reason actor now = Inr (v', d')"
  obtains x v where "reason_validate (re_reasons R) reason = Inr x" "repo_subscription R r i = Inr v"
    "v' = subscription_pause \<lparr>se_reason = x, se_actor = actor, se_at = now\<rparr> v"
    "save_subscription R d now 0 0 (Some (sub_revision v)) v' = Inr d'"
  using assms by (auto simp: pause_subscription_def Let_def)

lemma archive_steps:
  assumes "archive_subscription R r d i = Inr (v', d')"
  obtains v where "repo_subscription R r i = Inr v" "v' = subscription_archive v"
    "save_subscription R d 0 0 0 (Some (sub_revision v)) v' = Inr d'"
  using assms by (auto simp: archive_subscription_def Let_def)

lemma activation_steps:
  assumes "activate_subscription f R r d wall i = Inr (v', d')"
  obtains v w where "repo_subscription R r i = Inr v" "repo_workspace (re_reasons R) r (sub_workspace v) = Inr w"
    "accepts_delivery w" "v' = f v" "activate_subscription_with_refresh R d wall (sub_revision v) v' = Inr d'"
  using assms by (auto simp: activate_subscription_def Let_def split: if_splits)

lemma activation_inv:
  assumes "activate_subscription f R d d wall i = Inr (v', d')" and "feed_inv d" and "keeps_feed f"
  shows "feed_inv d'"
proof -
  from activation_steps [OF assms(1)] obtain v where v: "repo_subscription R d i = Inr v" "v' = f v"
    "activate_subscription_with_refresh R d wall (sub_revision v) v' = Inr d'" by blast
  from activate_same [OF v(3)] obtain db1 where db1: "cas_subscription d (Some (sub_revision v)) (f v) = Inr db1"
    "same_catalog db1 d'" using v(2) by blast
  from change_inv [OF db1(1) assms(2) v(1) assms(3)] same_catalog_inv [OF db1(2)] show ?thesis by simp
qed

lemma restore_refresh_same: "restore_refresh R wall w db s = Inr db' \<Longrightarrow> same_catalog db db'"
  unfolding restore_refresh_def and_then_eq_Inr
  by (elim exE conjE) (rule same_catalog_trans [OF same_catalog_backfill same_catalog_enqueue])

lemma workspace_commands_same:
  "archive_workspace R r d w reason actor now = Inr (v, d') \<Longrightarrow> same_catalog d d'"
  "restore_workspace R r d wall w = Inr (v, d') \<Longrightarrow> same_catalog d d'"
proof -
  assume "archive_workspace R r d w reason actor now = Inr (v, d')"
  then show "same_catalog d d'"
    by (auto simp: archive_workspace_def save_workspace_def same_catalog_def Let_def split: workspace_status.split_asm)
      (metis workspace_status.exhaust)+
next
  assume "restore_workspace R r d wall w = Inr (v, d')"
  then obtain e active db1 where st: "cas_workspace d (Some e) v = Inr db1"
    "try_fold (restore_refresh R wall v) db1 active = Inr d'"
    by (auto simp: restore_workspace_def restore_workspace_with_refreshes_def Let_def split: if_splits)
  from st(1) have "same_catalog d db1" by (auto simp: cas_workspace_def same_catalog_def)
  moreover have "same_catalog db1 d'" by (rule same_catalog_fold [OF _ st(2)]) (rule restore_refresh_same)
  ultimately show "same_catalog d d'" by (rule same_catalog_trans)
qed

lemma feed_step_inv:
  assumes "feed_step R d d'" and "feed_inv d"
  shows "feed_inv d'"
  using assms
proof cases
  case (step_rename i v wall s j n)
  from change_inv [where f = "subscription_rename n", OF save_existing [OF step_rename(2)] assms(2) step_rename(1)] show ?thesis by simp
next
  case (step_pause i reason actor now v)
  from pause_steps [OF step_pause] obtain e u where u: "repo_subscription R d i = Inr u" "v = subscription_pause e u"
    "save_subscription R d now 0 0 (Some (sub_revision u)) v = Inr d'" by blast
  from change_inv [where f = "subscription_pause e", OF save_existing [OF u(3) [unfolded u(2)]] assms(2) u(1)] show ?thesis by simp
next
  case (step_archive i v)
  from archive_steps [OF step_archive] obtain u where u: "repo_subscription R d i = Inr u" "v = subscription_archive u"
    "save_subscription R d 0 0 0 (Some (sub_revision u)) v = Inr d'" by blast
  from change_inv [where f = subscription_archive, OF save_existing [OF u(3) [unfolded u(2)]] assms(2) u(1)] show ?thesis by simp
next
  case (step_resume wall i v)
  then show ?thesis using activation_inv [OF _ assms(2) keeps_feed_changes(2)] by (simp add: resume_subscription_def)
next
  case (step_restore wall i v)
  then show ?thesis using activation_inv [OF _ assms(2) keeps_feed_changes(4)] by (simp add: restore_subscription_def)
next
  case (step_seed wall w seeds us)
  then show ?thesis using seed_inv assms(2) by blast
next
  case (step_add wall i j v)
  then show ?thesis using assms(2) by (rule save_new_inv)
next
  case (step_web_feed wall i j v prepared)
  then show ?thesis using assms(2) by (metis web_feed_inv)
next
  case (step_recipe wall i e prepared n)
  then show ?thesis using assms(2) by (rule recipe_inv)
next
  case (step_import wall ids w vs)
  then show ?thesis using assms(2) by (rule import_inv)
next
  case (step_migrate wall w configurations n)
  then show ?thesis using assms(2) by (rule migrate_inv)
next
  case (step_replace wall i j e v)
  then show ?thesis using assms(2) by (metis replace_source_inv)
next
  case (step_refresh wall j v)
  from same_catalog_inv [OF refresh_same [OF step_refresh]] assms(2) show ?thesis by simp
next
  case (step_delete v)
  then show ?thesis using assms(2) by (rule delete_subscription_inv)
next
  case (step_archive_workspace w reason actor now v)
  from same_catalog_inv [OF workspace_commands_same(1) [OF step_archive_workspace]] assms(2) show ?thesis by simp
next
  case (step_restore_workspace wall w v)
  from same_catalog_inv [OF workspace_commands_same(2) [OF step_restore_workspace]] assms(2) show ?thesis by simp
next
  case step_other
  from same_catalog_inv [OF step_other] assms(2) show ?thesis by simp
qed

lemma feed_run_inv: "(feed_step R)\<^sup>*\<^sup>* d d' \<Longrightarrow> feed_inv d \<Longrightarrow> feed_inv d'"
  by (induction rule: rtranclp_induct) (auto intro: feed_step_inv)

definition no_feeds :: "'a db \<Rightarrow> bool" where
  "no_feeds db \<longleftrightarrow> db_subscriptions db = [] \<and> db_subscription_sources db = [] \<and> db_feed_urls db = []
    \<and> db_source_urls db = [] \<and> db_sources db = []"

lemma no_feeds_inv: "no_feeds db \<Longrightarrow> feed_inv db"
  by (simp add: no_feeds_def feed_inv_def catalog_ok_def catalog_of_def)

text \<open>C20. In every state that commands and transactions reach from an empty catalogue, each subscription is
  linked to exactly one source, that source exists and collects the URL the subscription shows, and a
  reserved URL of a workspace belongs to a subscription of that workspace with that exact URL.\<close>

theorem subscriptions_linked:
  assumes "(feed_step R)\<^sup>*\<^sup>* d0 d" and "no_feeds d0"
  shows "dom (map_of (db_subscription_sources d)) = dom (map_of (db_subscriptions d))
    \<and> (\<forall>i r v. map_of (db_subscriptions d) i = Some (r, v) \<longrightarrow>
        (\<exists>s q src. map_of (db_subscription_sources d) i = Some s \<and> map_of (db_sources d) s = Some (q, src)
          \<and> url_text (src_url src) = url_text (sub_url v)))
    \<and> (\<forall>w x i. map_of (db_feed_urls d) (w, x) = Some i \<longrightarrow>
        (\<exists>r v. map_of (db_subscriptions d) i = Some (r, v) \<and> sub_workspace v = w \<and> source_url_exact v = x))"
proof -
  have inv: "feed_inv d" using feed_run_inv [OF assms(1)] no_feeds_inv [OF assms(2)] by blast
  then have ok: "catalog_ok (catalog_of d)" by (simp add: feed_inv_def)
  have "\<exists>s q src. map_of (db_subscription_sources d) i = Some s \<and> map_of (db_sources d) s = Some (q, src)
      \<and> url_text (src_url src) = url_text (sub_url v)" if "map_of (db_subscriptions d) i = Some (r, v)" for i r v
    using feed_inv_link [OF inv that] by blast
  moreover have "\<exists>r v. map_of (db_subscriptions d) i = Some (r, v) \<and> sub_workspace v = w \<and> source_url_exact v = x"
    if "map_of (db_feed_urls d) (w, x) = Some i" for w x i
    using catalog_okD(5) [OF ok] that by (simp add: catalog_of_def)
  ultimately show ?thesis using catalog_okD(2) [OF ok] by (simp add: catalog_of_def)
qed

definition demo_job_env :: queue_env where
  "demo_job_env = \<lparr>origin_of = url_scheme, uuid_text = (\<lambda>_. []), job_hash = (\<lambda>s. of_nat (length s)),
    dedup_fingerprint = (\<lambda>k. dk_title k)\<rparr>"

definition demo_dates :: date_env where
  "demo_dates = \<lparr>rfc3339 = (\<lambda>_. None), rfc2822 = (\<lambda>_. None), naive_date = (\<lambda>_ _. None),
    naive_date_time = (\<lambda>_ _. None), show_rfc3339 = (\<lambda>_. []), show_date = (\<lambda>_. []), show_date_time = (\<lambda>_ _. [])\<rparr>"

definition demo_repo :: "unit repo_env" where
  "demo_repo = \<lparr>re_queue = demo_job_env,
    re_admission = \<lparr>ae_dates = demo_dates, ae_nanos = (\<lambda>_. []), ae_violation = [],
      ae_finalize = (\<lambda>_ _ db. ingest_db.more db)\<rparr>,
    re_web = example_web_env, re_reasons = \<lparr>max_bytes = 10\<rparr>, re_scope = 2, re_url_hash = (\<lambda>_. 50),
    re_decode_seed = (\<lambda>_. Inl []), re_duplicate = ''duplicate key''\<rparr>"

definition demo_store_db :: subscription_db where
  "demo_store_db =
    \<lparr>db_workspaces = [(2, 0, workspace_new 2 9 ''W'')], db_accounts = [], db_usernames = [], db_invites = [],
     db_sessions = [], db_resets = [], db_login_attempts = [], db_subscriptions = [], db_removed_subscriptions = [],
     db_subscription_sources = [], db_feed_urls = [], db_sources = [], db_source_urls = [], db_source_records = [],
     db_jobs = [], db_source_health = [], db_activity = [], db_articles = [],
     db_dedup = [], db_origins = [], db_rules = [], db_rule_evaluations = [], db_history_links = [],
     db_auto_read_days = [], db_read_events = [], db_manifests = [], db_chunks = [],
     db_poll_state = [], db_refresh_failures = [], db_record_identity = [], db_backlog = [], db_search_text = [],
     db_initial_articles = 10, db_next_sequence = 1, db_discovery = [], db_bootstrap = [], db_initial_records = [],
     db_recipes = [], db_seed_items = [], db_previews = []\<rparr>"

definition demo_sub :: subscription where
  "demo_sub = subscription_new 0 1 2 example_url ''Feed''"

lemmas demo_repo_defs = demo_repo_def demo_store_db_def demo_job_env_def demo_dates_def demo_sub_def example_web_env_def
  example_url_def subscription_new_def

lemmas provision_eval = save_subscription_def check_subscription_def state_checked_def subscription_validate_def new_source_def
  source_definition_new_def is_http_def provision_subscription_tx_def reserve_feed_url_def share_source_def cas_def cas_tx_def
  insert_strict_def create_subscription_def enqueue_work_tx_def enqueue_backfill_tx_def backfill_records_def fits_i64_def
  put_job_def feed_url_key_def source_origin_tx_def to_i64_def read_doc_def put_def

definition demo_added_db :: subscription_db where
  "demo_added_db = (case save_subscription demo_repo demo_store_db 0 7 8 None demo_sub of Inr d \<Rightarrow> d | Inl _ \<Rightarrow> demo_store_db)"

lemma demo_added: "save_subscription demo_repo demo_store_db 0 7 8 None demo_sub = Inr demo_added_db"
proof -
  have "is_ok (save_subscription demo_repo demo_store_db 0 7 8 None demo_sub)"
    by (simp add: provision_eval demo_repo_defs)
  then show ?thesis by (auto simp: demo_added_db_def is_ok_def split: sum.splits)
qed

theorem subscriptions_linked_witness:
  "dom (map_of (db_subscription_sources demo_added_db)) = dom (map_of (db_subscriptions demo_added_db))"
proof -
  have "(feed_step demo_repo)\<^sup>*\<^sup>* demo_store_db demo_added_db"
    by (rule r_into_rtranclp) (rule feed_step.step_add [OF demo_added])
  moreover have "no_feeds demo_store_db" by (simp add: no_feeds_def demo_store_db_def)
  ultimately show ?thesis by (rule subscriptions_linked [THEN conjunct1])
qed

section \<open>Commands with stale reads\<close>




lemma demo_added_tables:
  "db_subscriptions demo_added_db = [(1, 0, demo_sub)]" "db_subscription_sources demo_added_db = [(1, 7)]"
  "db_source_records demo_added_db = []" "map fst (db_jobs demo_added_db) = [8]"
  "db_sources demo_added_db = [(7, 0, \<lparr>src_id = 7, src_url = example_url, src_kind = AutoKind, src_revision = 0\<rparr>)]"
  "db_workspaces demo_added_db = [(2, 0, workspace_new 2 9 ''W'')]" "db_discovery demo_added_db = []"
  "db_bootstrap demo_added_db = [((1, 7), \<lparr>bo_owner = 9, bo_workspace = 2, bo_initial_articles = 10, bo_cutoff = None,
     bo_ready = False\<rparr>)]"
  by (simp_all add: demo_added_db_def provision_eval demo_repo_defs workspace_new_def)




section \<open>What an activation queues\<close>

lemma enqueue_work_tx_jobs:
  assumes "enqueue_work_tx env db i item wall = Inr db'"
  shows "\<exists>j. map_of (db_jobs db') i = Some j \<and> ij_item j = item"
    and "map_of (db_jobs db) k = Some j \<Longrightarrow> map_of (db_jobs db') k = Some j"
    and "map_of (db_jobs db') k = Some j \<Longrightarrow> map_of (db_jobs db) k = None \<Longrightarrow> k = i \<and> ij_item j = item \<and> ij_status j = Ready"
  using assms by (auto simp: enqueue_work_tx_def put_job_def new_job_def split: option.splits if_splits)

lemma backfill_record_jobs:
  assumes "backfill_record env A wall s sub db rec = Inr db'"
  shows "\<exists>j. map_of (db_jobs db') (backfill_job env sub (sr_id rec)) = Some j \<and> ij_item j = FanOut s (sr_id rec) None"
    and "map_of (db_jobs db) k = Some j \<Longrightarrow> map_of (db_jobs db') k = Some j"
    and "map_of (db_jobs db') k = Some j \<Longrightarrow> map_of (db_jobs db) k = None \<Longrightarrow>
      k = backfill_job env sub (sr_id rec) \<and> ij_item j = FanOut s (sr_id rec) None \<and> ij_status j = Ready"
proof -
  from assms obtain db1 where db1: "discover A rec 0 db = Inr db1"
    "enqueue_work_tx env (initial_while_open sub s (sr_id rec) db1) (backfill_job env sub (sr_id rec))
        (FanOut s (sr_id rec) None) wall = Inr db'" by (auto simp: backfill_record_def)
  have jobs: "db_jobs (initial_while_open sub s (sr_id rec) db1) = db_jobs db"
    using db1(1) by (auto simp: initial_while_open_def discover_def insert_discovery_def split: option.splits)
  from enqueue_work_tx_jobs [OF db1(2)] show
    "\<exists>j. map_of (db_jobs db') (backfill_job env sub (sr_id rec)) = Some j \<and> ij_item j = FanOut s (sr_id rec) None"
    "map_of (db_jobs db) k = Some j \<Longrightarrow> map_of (db_jobs db') k = Some j"
    "map_of (db_jobs db') k = Some j \<Longrightarrow> map_of (db_jobs db) k = None \<Longrightarrow>
      k = backfill_job env sub (sr_id rec) \<and> ij_item j = FanOut s (sr_id rec) None \<and> ij_status j = Ready"
    by (auto simp: jobs)
qed

lemma backfill_fold_jobs:
  assumes "try_fold (backfill_record env A wall s sub) db recs = Inr db'"
  shows "(\<forall>rec \<in> set recs. \<exists>j. map_of (db_jobs db') (backfill_job env sub (sr_id rec)) = Some j
        \<and> ij_item j = FanOut s (sr_id rec) None)
    \<and> (\<forall>k j. map_of (db_jobs db) k = Some j \<longrightarrow> map_of (db_jobs db') k = Some j)
    \<and> (\<forall>k j. map_of (db_jobs db') k = Some j \<longrightarrow> map_of (db_jobs db) k = None \<longrightarrow>
        (\<exists>rec \<in> set recs. k = backfill_job env sub (sr_id rec) \<and> ij_item j = FanOut s (sr_id rec) None \<and> ij_status j = Ready))"
  using assms
proof (induction recs arbitrary: db)
  case (Cons rec recs)
  then obtain db1 where step: "backfill_record env A wall s sub db rec = Inr db1"
    "try_fold (backfill_record env A wall s sub) db1 recs = Inr db'" by auto
  note IH = Cons.IH [OF step(2)]
  have all: "\<exists>j. map_of (db_jobs db') (backfill_job env sub (sr_id x)) = Some j \<and> ij_item j = FanOut s (sr_id x) None"
    if "x \<in> set (rec # recs)" for x
    using that IH backfill_record_jobs(1) [OF step(1)] by auto
  have keep: "map_of (db_jobs db') k = Some j" if "map_of (db_jobs db) k = Some j" for k j
    using that IH backfill_record_jobs(2) [OF step(1)] by blast
  have new: "\<exists>x \<in> set (rec # recs). k = backfill_job env sub (sr_id x) \<and> ij_item j = FanOut s (sr_id x) None \<and> ij_status j = Ready"
    if k: "map_of (db_jobs db') k = Some j" "map_of (db_jobs db) k = None" for k j
  proof (cases "map_of (db_jobs db1) k")
    case None
    with IH k(1) show ?thesis by auto
  next
    case (Some j1)
    with IH k(1) have "j1 = j" by auto
    with backfill_record_jobs(3) [OF step(1), of k j] Some k(2) show ?thesis by simp
  qed
  from all keep new show ?case by blast
qed simp

lemma cas_subscription_frame:
  assumes "cas_subscription db (Some e) v = Inr db1"
  shows "db_jobs db1 = db_jobs db" "db_subscription_sources db1 = db_subscription_sources db"
    "backfill_records db1 s n = backfill_records db s n" "map_of (db_subscriptions db1) (sub_id v) = Some (sub_revision v, v)"
  using assms by (auto simp: cas_subscription_eq backfill_records_def)

text \<open>A subscription that is resumed or restored becomes active and its catch-up is queued in the same
  transaction: a fan-out job for each of the newest records of its source, as many as the configured
  scope, and a refresh of the source. No queued job is lost.\<close>

theorem activation_catches_up:
  assumes "activate_subscription_with_refresh R db wall e v = Inr db'"
    and "map_of (db_subscription_sources db) (sub_id v) = Some s"
  shows "map_of (db_subscriptions db') (sub_id v) = Some (sub_revision v, v) \<and> sub_status v = SubscriptionActive
    \<and> (\<forall>rec \<in> set (backfill_records db s (re_scope R)). \<exists>j.
        map_of (db_jobs db') (backfill_job (re_queue R) (sub_id v) (sr_id rec)) = Some j \<and> ij_item j = FanOut s (sr_id rec) None)
    \<and> (\<exists>j. map_of (db_jobs db') (activation_job (re_queue R) v) = Some j \<and> ij_item j = RefreshSource s)
    \<and> (\<forall>k j. map_of (db_jobs db) k = Some j \<longrightarrow> map_of (db_jobs db') k = Some j)"
proof -
  from activate_steps [OF assms(1)] obtain db1 s' db2 where st: "active_subscription v"
    "cas_subscription db (Some e) v = Inr db1" "source_for_subscription db1 (sub_id v) = Inr s'"
    "enqueue_backfill_tx (re_queue R) (re_admission R) db1 wall s' (sub_id v) (re_scope R) = Inr db2"
    "enqueue_work_tx (re_queue R) db2 (activation_job (re_queue R) v) (RefreshSource s') wall = Inr db'" by blast
  note frame = cas_subscription_frame [OF st(2)]
  have s': "s' = s" using st(3) assms(2) frame(2) by (simp add: source_for_subscription_def)
  have "try_fold (backfill_record (re_queue R) (re_admission R) wall s (sub_id v)) db1 (backfill_records db s (re_scope R)) = Inr db2"
    using st(4) frame(3) s' by (simp add: enqueue_backfill_tx_def split: if_splits)
  note jobs = backfill_fold_jobs [OF this]
  have "same_catalog db1 db'"
    by (rule same_catalog_trans [OF same_catalog_backfill [OF st(4)] same_catalog_enqueue [OF st(5)]])
  then have sub: "map_of (db_subscriptions db') (sub_id v) = Some (sub_revision v, v)" using frame(4) by (simp add: same_catalog_def)
  have queued: "\<exists>j. map_of (db_jobs db') (backfill_job (re_queue R) (sub_id v) (sr_id rec)) = Some j \<and> ij_item j = FanOut s (sr_id rec) None"
    if "rec \<in> set (backfill_records db s (re_scope R))" for rec
    using jobs that enqueue_work_tx_jobs(2) [OF st(5)] by blast
  have kept: "map_of (db_jobs db') k = Some j" if "map_of (db_jobs db) k = Some j" for k j
    using jobs that enqueue_work_tx_jobs(2) [OF st(5)] frame(1) by metis
  show ?thesis
    using sub queued kept enqueue_work_tx_jobs(1) [OF st(5)] st(1) s' by (simp add: active_subscription_def)
qed

text \<open>C22. The catch-up of a record is queued once for a subscription and never again: when the backfill job of
  a record has completed, for instance while the subscription was paused again and was not delivered to,
  resuming the subscription queues no further fan-out of that record.\<close>

theorem resumed_backfill_not_repeated:
  assumes "activate_subscription_with_refresh R db wall e v = Inr db'"
    and "map_of (db_subscription_sources db) (sub_id v) = Some s"
    and "map_of (db_jobs db) (backfill_job (re_queue R) (sub_id v) r) = Some j" and "ij_status j = Completed"
  shows "map_of (db_jobs db') (backfill_job (re_queue R) (sub_id v) r) = Some j
    \<and> (\<forall>k j' after. map_of (db_jobs db) k = None \<longrightarrow> map_of (db_jobs db') k = Some j' \<longrightarrow> ij_item j' \<noteq> FanOut s r after)"
proof -
  from activate_steps [OF assms(1)] obtain db1 s' db2 where st:
    "cas_subscription db (Some e) v = Inr db1" "source_for_subscription db1 (sub_id v) = Inr s'"
    "enqueue_backfill_tx (re_queue R) (re_admission R) db1 wall s' (sub_id v) (re_scope R) = Inr db2"
    "enqueue_work_tx (re_queue R) db2 (activation_job (re_queue R) v) (RefreshSource s') wall = Inr db'" by blast
  note frame = cas_subscription_frame [OF st(1)]
  have s': "s' = s" using st(2) assms(2) frame(2) by (simp add: source_for_subscription_def)
  have "try_fold (backfill_record (re_queue R) (re_admission R) wall s (sub_id v)) db1 (backfill_records db s (re_scope R)) = Inr db2"
    using st(3) frame(3) s' by (simp add: enqueue_backfill_tx_def split: if_splits)
  note jobs = backfill_fold_jobs [OF this, unfolded frame(1)]
  have kept: "map_of (db_jobs db') k = Some x" if "map_of (db_jobs db) k = Some x" for k x
    using jobs that enqueue_work_tx_jobs(2) [OF st(4)] by metis
  have "ij_item j' \<noteq> FanOut s r after" if new: "map_of (db_jobs db) k = None" "map_of (db_jobs db') k = Some j'" for k j' after
  proof (cases "map_of (db_jobs db2) k")
    case None
    with enqueue_work_tx_jobs(3) [OF st(4), of k j'] new(2) show ?thesis by auto
  next
    case (Some j2)
    with enqueue_work_tx_jobs(2) [OF st(4) Some] new(2) have "j2 = j'" by simp
    with jobs [THEN conjunct2, THEN conjunct2, rule_format, OF Some new(1)] obtain rec :: source_record
      where "k = backfill_job (re_queue R) (sub_id v) (sr_id rec)" "ij_item j' = FanOut s (sr_id rec) None" by auto
    with assms(3) new(1) show ?thesis by auto
  qed
  with kept [OF assms(3)] show ?thesis by blast
qed

definition demo_paused :: subscription where
  "demo_paused = demo_sub\<lparr>sub_status := SubscriptionPaused \<lparr>se_reason = Reason ''noisy'', se_actor = 9, se_at = 0\<rparr>,
     sub_history := [\<lparr>se_reason = Reason ''noisy'', se_actor = 9, se_at = 0\<rparr>], sub_revision := 1\<rparr>"

definition demo_resume_db :: subscription_db where
  "demo_resume_db = demo_added_db\<lparr>db_subscriptions := [(1, 1, demo_paused)],
     db_source_records := [(1, 3, example_record\<lparr>sr_source_id := 7\<rparr>)],
     db_discovery := [(1, \<lparr>di_source = 7, di_sequence = 1, di_publication_order = None, di_source_order = 0\<rparr>)],
     db_jobs := [(23, (new_job (FanOut 7 1 None) ''https'' 0)\<lparr>ij_status := Completed\<rparr>)]\<rparr>"

lemma demo_resume_tables:
  "db_subscription_sources demo_resume_db = [(1, 7)]" "db_sources demo_resume_db = db_sources demo_added_db"
  "db_bootstrap demo_resume_db = db_bootstrap demo_added_db"
  "db_jobs demo_resume_db = [(23, (new_job (FanOut 7 1 None) ''https'' 0)\<lparr>ij_status := Completed\<rparr>)]"
  by (simp_all add: demo_resume_db_def demo_added_tables)

definition demo_resumed :: subscription where
  "demo_resumed = subscription_resume demo_paused"

lemma demo_resume_ok: "is_ok (activate_subscription_with_refresh demo_repo demo_resume_db 0 1 demo_resumed)"
proof -
  have "subscription_valid (parse_url (re_web demo_repo)) (re_reasons demo_repo) demo_resumed"
    by (simp add: subscription_valid_iff demo_resumed_def subscription_resume_def demo_paused_def valid_reason_def blank_def
        is_whitespace_def demo_repo_defs)
  then have checked: "check_subscription demo_repo demo_resumed = Inr ()"
    by (simp add: check_subscription_def state_checked_def subscription_valid_def)
  show ?thesis
    unfolding activate_subscription_with_refresh_def checked and_then_simps
    by (simp add: demo_resumed_def subscription_resume_def demo_paused_def
      active_subscription_def cas_subscription_def source_for_subscription_def demo_resume_db_def demo_added_tables
      backfill_record_def discover_def publication_order_def publication_clock_def insert_discovery_def insert_new_def
      initial_while_open_def example_record_def backfill_job_def activation_job_def i64_max_def nat_text.simps
      new_job_def provision_eval demo_repo_defs)
qed

theorem activation_catches_up_witness:
  "\<exists>db'. activate_subscription_with_refresh demo_repo demo_resume_db 0 1 demo_resumed = Inr db'
    \<and> (\<exists>j. map_of (db_jobs db') (activation_job demo_job_env demo_resumed) = Some j \<and> ij_item j = RefreshSource 7)"
proof -
  from demo_resume_ok obtain db' where run: "activate_subscription_with_refresh demo_repo demo_resume_db 0 1 demo_resumed = Inr db'"
    by (auto simp: is_ok_iff)
  have "map_of (db_subscription_sources demo_resume_db) (sub_id demo_resumed) = Some 7"
    by (simp add: demo_resume_tables demo_resumed_def subscription_resume_def demo_paused_def demo_repo_defs)
  from activation_catches_up [OF run this] run show ?thesis by (auto simp: demo_repo_def)
qed

theorem resumed_backfill_not_repeated_witness:
  "\<exists>db' j. activate_subscription_with_refresh demo_repo demo_resume_db 0 1 demo_resumed = Inr db'
    \<and> map_of (db_jobs db') (backfill_job demo_job_env 1 1) = Some j \<and> ij_status j = Completed \<and> db_origins demo_resume_db = []"
proof -
  let ?j = "(new_job (FanOut 7 1 None) ''https'' 0)\<lparr>ij_status := Completed\<rparr>"
  from demo_resume_ok obtain db' where run: "activate_subscription_with_refresh demo_repo demo_resume_db 0 1 demo_resumed = Inr db'"
    by (auto simp: is_ok_iff)
  have sub: "sub_id demo_resumed = 1" by (simp add: demo_resumed_def subscription_resume_def demo_paused_def demo_repo_defs)
  have link: "map_of (db_subscription_sources demo_resume_db) (sub_id demo_resumed) = Some 7"
    by (simp add: sub demo_resume_tables)
  have job: "map_of (db_jobs demo_resume_db) (backfill_job (re_queue demo_repo) (sub_id demo_resumed) 1) = Some ?j"
    by (simp add: sub demo_resume_tables backfill_job_def demo_repo_def demo_job_env_def)
  have "db_origins demo_resume_db = []"
    by (simp add: demo_resume_db_def demo_added_db_def provision_eval demo_repo_defs)
  with resumed_backfill_not_repeated [OF run link job] run sub show ?thesis by (simp add: demo_repo_def)
qed

end
