(* ===== verification/Seed.thy ===== *)
theory Seed
  imports Catalog_Runs
begin

text \<open>
  \<open>inoreader/src/seed.rs\<close>: the checks of a seed manifest and the subscriptions it selects, and what applying
  a seed twice does. Reading the file and decoding its JSON is input; the lower-case function and the
  name-based identifier are parameters. The message of a URL that does not parse is that of the URL
  library; one of its messages stands for all of them.
\<close>

record seed_item =
  si_source_inventory_id :: string
  si_idempotency_key :: string
  si_selected :: bool
  si_status :: string
  si_configuration :: json
  si_note :: "string option"

record seed_manifest =
  sm_schema_version :: nat
  sm_owner_account_id :: uuid
  sm_workspace_id :: uuid
  sm_items :: "seed_item list"

definition secret_parts :: "string list" where
  "secret_parts = [''password'', ''secret'', ''token'', ''credential'', ''private_key'']"

fun contains_secret_field :: "(string \<Rightarrow> string) \<Rightarrow> json \<Rightarrow> bool" where
  "contains_secret_field lower (JObject values) =
    list_ex (\<lambda>(key, value). list_ex (contains (lower key)) secret_parts \<or> contains_secret_field lower value) values"
| "contains_secret_field lower (JArray values) = list_ex (contains_secret_field lower) values"
| "contains_secret_field lower _ = False"

text \<open>The loop threads the identities and keys it has seen.\<close>

definition check_seed_item ::
  "(string \<Rightarrow> string) \<Rightarrow> string list \<times> string list \<Rightarrow> seed_item \<Rightarrow> string + string list \<times> string list" where
  "check_seed_item lower = (\<lambda>(ids, keys) item.
    if si_source_inventory_id item = [] \<or> si_idempotency_key item \<noteq> ''personal_feed:'' @ si_source_inventory_id item
    then Inl ''seed item has invalid identity or idempotency key''
    else if si_source_inventory_id item \<in> set ids \<or> si_idempotency_key item \<in> set keys
    then Inl ''seed manifest contains duplicate identities''
    else if si_selected item \<and> si_status item \<noteq> ''reviewed'' then Inl ''selected seed item is not reviewed''
    else if contains_secret_field lower (si_configuration item)
    then Inl ''seed configuration contains a forbidden secret-like field''
    else if si_status item \<notin> {''reviewed'', ''unresolved'', ''disabled''} then Inl ''seed item has invalid status''
    else Inr (si_source_inventory_id item # ids, si_idempotency_key item # keys))"

definition load_seed :: "(string \<Rightarrow> string) \<Rightarrow> seed_manifest \<Rightarrow> string + seed_manifest" where
  "load_seed lower value =
    (if sm_schema_version value \<noteq> 1 then Inl ''unsupported seed schema_version''
     else if sm_items value = [] then Inl ''seed manifest has no items''
     else and_then (try_fold (check_seed_item lower) ([], []) (sm_items value)) (\<lambda>_. Inr value))"





section \<open>Repeating a seed\<close>

lemma try_fold_proj:
  assumes "\<And>d x d'. f d x = Inr d' \<Longrightarrow> g d' = g d" and "try_fold f db xs = Inr db'"
  shows "g db' = g db"
  using assms(2)
proof (induction xs arbitrary: db)
  case (Cons x xs)
  then obtain d where "f db x = Inr d" "try_fold f d xs = Inr db'" by auto
  with Cons.IH assms(1) show ?case by metis
qed simp

lemma seed_items_enqueue: "enqueue_work_tx env db i item wall = Inr db' \<Longrightarrow> db_seed_items db' = db_seed_items db"
  by (auto simp: enqueue_work_tx_def put_job_def split: option.splits if_splits)

lemma seed_items_backfill:
  fixes db :: "'c sdb"
  assumes "enqueue_backfill_tx env A db wall s sub limit = Inr db'"
  shows "db_seed_items db' = db_seed_items db"
proof (rule try_fold_proj [where g = db_seed_items and f = "backfill_record env A wall s sub"])
  show "try_fold (backfill_record env A wall s sub) db (backfill_records db s limit) = Inr db'"
    using assms by (auto simp: enqueue_backfill_tx_def split: if_splits)
  fix d d' :: "'c sdb" and rec assume "backfill_record env A wall s sub d rec = Inr d'"
  then obtain d1 where d1: "discover A rec 0 d = Inr d1" "enqueue_work_tx env (initial_while_open sub s (sr_id rec) d1)
      (backfill_job env sub (sr_id rec)) (FanOut s (sr_id rec) None) wall = Inr d'" by (auto simp: backfill_record_def)
  have "db_seed_items (initial_while_open sub s (sr_id rec) d1) = db_seed_items d"
    using d1(1) by (auto simp: initial_while_open_def discover_def insert_discovery_def split: option.splits)
  with seed_items_enqueue [OF d1(2)] show "db_seed_items d' = db_seed_items d" by simp
qed

lemma seed_items_create:
  fixes db :: "'c sdb"
  assumes "create_subscription A sub s db = Inr db'"
  shows "db_seed_items db' = db_seed_items db"
proof -
  have "db_seed_items db' = db_seed_items (case map_of (db_subscriptions db) sub of
           None \<Rightarrow> db
         | Some (_, value) \<Rightarrow>
           (case map_of (db_workspaces db) (sub_workspace value) of
              None \<Rightarrow> db
            | Some (_, w) \<Rightarrow>
              db\<lparr>db_bootstrap := snd (insert_new (db_bootstrap db) (sub, s)
                \<lparr>bo_owner = ws_owner w, bo_workspace = sub_workspace value,
                 bo_initial_articles = db_initial_articles db, bo_cutoff = None, bo_ready = False\<rparr>)\<rparr>))"
    by (rule try_fold_proj [where g = db_seed_items, OF _ assms [unfolded create_subscription_def Let_def]])
      (auto simp: insert_initial_def split: if_splits)
  then show ?thesis by (auto split: option.splits)
qed

lemma provision_rows:
  fixes db :: "'c sdb"
  assumes "provision_subscription_tx R db wall v proposed item job reserve isolated recipe = Inr db'"
  shows "db_subscriptions db' = db_subscriptions db @ [(sub_id v, sub_revision v, v)]
    \<and> map_of (db_subscriptions db) (sub_id v) = None \<and> db_seed_items db' = db_seed_items db"
proof -
  from provision_steps [OF assms] obtain s db2 f where st:
    "(if isolated then isolate_source (db\<lparr>db_feed_urls := f\<rparr>) proposed
      else share_source True (db\<lparr>db_feed_urls := f\<rparr>) (url_text (sub_url v)) proposed (src_revision proposed)) = Inr (s, db2)"
    "map_of (db_subscriptions db2) (sub_id v) = None"
    "same_catalog (db2\<lparr>db_subscriptions := put (sub_id v) (sub_revision v, v) (db_subscriptions db2),
        db_subscription_sources := put (sub_id v) s (db_subscription_sources db2)\<rparr>) db'"
    by metis
  have subs: "db_subscriptions db2 = db_subscriptions db"
    using st(1) by (auto simp: isolate_source_def share_source_def cas_tx_def split: option.splits if_splits)
  with st(2,3) have rows: "db_subscriptions db' = db_subscriptions db @ [(sub_id v, sub_revision v, v)]"
    by (auto simp: same_catalog_def put_append map_of_eq_None_iff)
  from assms obtain db1 source db2 subs links db4 db5 item' db6 where it:
    "(if reserve then reserve_feed_url db v else Inr db) = Inr db1"
    "(if isolated then isolate_source db1 proposed
      else share_source True db1 (url_text (sub_url v)) proposed (src_revision proposed)) = Inr (source, db2)"
    "create_subscription (re_admission R) (sub_id v) source
      (db2\<lparr>db_subscriptions := subs, db_subscription_sources := links\<rparr>) = Inr db4"
    "(case recipe of None \<Rightarrow> Inr db4
       | Some draft \<Rightarrow> and_then (insert_strict (re_duplicate R) (db_recipes db4) (sub_id v) (0, draft)) (\<lambda>t.
           Inr (db4\<lparr>db_recipes := t\<rparr>))) = Inr db5"
    "enqueue_work_tx (re_queue R) db5 job item' wall = Inr db6"
    "enqueue_backfill_tx (re_queue R) (re_admission R) db6 wall source (sub_id v) (re_scope R) = Inr db'"
    unfolding provision_subscription_tx_def Let_def and_then_eq_Inr map_err_eq_Inr
    by (elim exE conjE) (auto split: prod.splits)
  have "db_seed_items db1 = db_seed_items db" using it(1) by (auto simp: reserve_feed_url_eq split: if_splits)
  moreover have "db_seed_items db2 = db_seed_items db1"
    using it(2) by (auto simp: isolate_source_def share_source_def cas_tx_def split: option.splits if_splits)
  moreover have "db_seed_items db5 = db_seed_items db4" using it(4) by (auto split: option.splits)
  ultimately have "db_seed_items db' = db_seed_items db"
    using seed_items_create [OF it(3)] seed_items_enqueue [OF it(5)] seed_items_backfill [OF it(6)] by simp
  with rows st(2) subs show ?thesis by simp
qed

definition seed_done :: "'c sdb \<Rightarrow> prepared_seed \<Rightarrow> bool" where
  "seed_done db row \<longleftrightarrow> seed_url_exists db (ps_value row)
    \<and> (\<exists>q. map_of (db_seed_items db) (ps_key row) = Some (q, ps_configuration row))
    \<and> (\<forall>r x. map_of (db_subscriptions db) (sub_id (ps_value row)) = Some (r, x) \<longrightarrow> x = ps_value row)"

lemma check_seed_iff:
  "check_seed db row = Inr () \<longleftrightarrow>
    (\<forall>r x. map_of (db_subscriptions db) (sub_id (ps_value row)) = Some (r, x) \<longrightarrow> x = ps_value row)
    \<and> (\<forall>q c. map_of (db_seed_items db) (ps_key row) = Some (q, c) \<longrightarrow> c = ps_configuration row)"
  by (auto simp: check_seed_def split: option.splits)

lemma seed_done_noop: "seed_done db row \<Longrightarrow> check_seed db row = Inr () \<and> apply_seed_one R wall db row = Inr db"
  by (auto simp: seed_done_def check_seed_iff apply_seed_one_def)

lemma apply_seed_one_cases:
  assumes "apply_seed_one R wall db row = Inr db'"
  obtains (present) "seed_url_exists db (ps_value row)"
      "db' = db\<lparr>db_seed_items := snd (insert_new (db_seed_items db) (ps_key row) (0, ps_configuration row))\<rparr>"
  | (same) "\<not> seed_url_exists db (ps_value row)" "map_of (db_subscriptions db) (sub_id (ps_value row)) \<noteq> None" "db' = db"
  | (added) "db_subscriptions db' = db_subscriptions db @ [(sub_id (ps_value row), sub_revision (ps_value row), ps_value row)]"
      "map_of (db_subscriptions db) (sub_id (ps_value row)) = None" "map_of (db_seed_items db) (ps_key row) = None"
      "db_seed_items db' = put (ps_key row) (0, ps_configuration row) (db_seed_items db)"
proof (cases "seed_url_exists db (ps_value row)")
  case True
  with assms have "db' = db\<lparr>db_seed_items := snd (insert_new (db_seed_items db) (ps_key row) (0, ps_configuration row))\<rparr>"
    by (simp add: apply_seed_one_def)
  then show thesis by (rule present [OF True])
next
  case unseen: False
  show thesis
  proof (cases "map_of (db_subscriptions db) (sub_id (ps_value row)) = None")
    case False
    with assms unseen have "db' = db" by (simp add: apply_seed_one_def del: not_None_eq)
    then show thesis by (rule same [OF unseen False])
  next
    case True
    with assms unseen obtain db1 where db1: "provision_subscription_tx R db wall (ps_value row) (ps_source row) (ps_item row)
         (seed_job (re_queue R) (ps_key row)) False (ps_recipe row \<noteq> None) (ps_recipe row) = Inr db1"
      "and_then (insert_strict (re_duplicate R) (db_seed_items db1) (ps_key row) (0, ps_configuration row)) (\<lambda>t.
         Inr (db1\<lparr>db_seed_items := t\<rparr>)) = Inr db'"
      by (auto simp: apply_seed_one_def simp del: not_None_eq and_then_eq_Inr) (auto simp: and_then_def split: sum.splits)
    from db1(2) have db': "map_of (db_seed_items db1) (ps_key row) = None"
      "db' = db1\<lparr>db_seed_items := put (ps_key row) (0, ps_configuration row) (db_seed_items db1)\<rparr>"
      by (auto simp: insert_strict_def split: option.splits)
    from provision_rows [OF db1(1)] db' show thesis by (intro added) simp_all
  qed
qed

lemma apply_seed_one_done:
  assumes "apply_seed_one R wall db row = Inr db'" and "check_seed db row = Inr ()"
    and "source_url_exact (ps_value row) = url_text (sub_url (ps_value row))"
  shows "seed_done db' row"
  using assms(1)
proof (cases rule: apply_seed_one_cases)
  case present
  then show ?thesis using assms(2) by (auto simp: seed_done_def check_seed_iff seed_url_exists_def)
next
  case same
  then obtain r where "map_of (db_subscriptions db) (sub_id (ps_value row)) = Some (r, ps_value row)"
    using assms(2) by (auto simp: check_seed_iff)
  with same(1) assms(3) have False by (auto simp: seed_url_exists_def list_ex_iff dest!: map_of_SomeD)
  then show ?thesis ..
next
  case added
  then show ?thesis using assms(3) by (auto simp: seed_done_def seed_url_exists_def map_add_def)
qed

lemma apply_seed_one_others:
  assumes "apply_seed_one R wall db row = Inr db'" and "ps_key other \<noteq> ps_key row"
    and "sub_id (ps_value other) \<noteq> sub_id (ps_value row)"
  shows "check_seed db other = Inr () \<Longrightarrow> check_seed db' other = Inr ()" and "seed_done db other \<Longrightarrow> seed_done db' other"
proof -
  have frame: "map_of (db_subscriptions db') (sub_id (ps_value other)) = map_of (db_subscriptions db) (sub_id (ps_value other))
      \<and> map_of (db_seed_items db') (ps_key other) = map_of (db_seed_items db) (ps_key other)
      \<and> set (db_subscriptions db) \<subseteq> set (db_subscriptions db')"
    using assms(1)
  proof (cases rule: apply_seed_one_cases)
    case present
    then show ?thesis using assms(2) by simp
  next
    case same
    then show ?thesis by simp
  next
    case added
    then show ?thesis using assms(2,3) by (simp add: map_add_def split: option.splits) blast
  qed
  then have "seed_url_exists db (ps_value other) \<Longrightarrow> seed_url_exists db' (ps_value other)"
    by (auto simp: seed_url_exists_def list_ex_iff)
  with frame show "check_seed db other = Inr () \<Longrightarrow> check_seed db' other = Inr ()" and "seed_done db other \<Longrightarrow> seed_done db' other"
    by (simp_all add: check_seed_iff seed_done_def)
qed

lemma seeds_done:
  assumes "try_fold (apply_seed_one R wall) db rows = Inr db'" and "\<forall>row \<in> set rows. check_seed db row = Inr ()"
    and "\<forall>row \<in> set rows. source_url_exact (ps_value row) = url_text (sub_url (ps_value row))"
    and "distinct (map ps_key rows)" "distinct (map (\<lambda>row. sub_id (ps_value row)) rows)"
  shows "(\<forall>row \<in> set rows. seed_done db' row) \<and> (\<forall>other. seed_done db other \<longrightarrow>
    ps_key other \<notin> ps_key ` set rows \<longrightarrow> sub_id (ps_value other) \<notin> (\<lambda>row. sub_id (ps_value row)) ` set rows \<longrightarrow> seed_done db' other)"
  using assms
proof (induction rows arbitrary: db)
  case (Cons row rows)
  then obtain db1 where step: "apply_seed_one R wall db row = Inr db1" "try_fold (apply_seed_one R wall) db1 rows = Inr db'"
    by auto
  have fits: "\<forall>x \<in> set rows. check_seed db1 x = Inr ()"
  proof
    fix x assume x: "x \<in> set rows"
    with Cons.prems(4,5) have "ps_key x \<noteq> ps_key row" "sub_id (ps_value x) \<noteq> sub_id (ps_value row)"
      by (auto simp: image_iff)
    from apply_seed_one_others(1) [OF step(1) this] Cons.prems(2) x show "check_seed db1 x = Inr ()" by simp
  qed
  have IH: "\<And>x. x \<in> set rows \<Longrightarrow> seed_done db' x"
    "\<And>x. seed_done db1 x \<Longrightarrow> ps_key x \<notin> ps_key ` set rows \<Longrightarrow>
      sub_id (ps_value x) \<notin> (\<lambda>row. sub_id (ps_value row)) ` set rows \<Longrightarrow> seed_done db' x"
    using Cons.IH [OF step(2) fits] Cons.prems(3,4,5) by auto
  have "seed_done db1 row"
    by (rule apply_seed_one_done [OF step(1)]) (use Cons.prems(2,3) in auto)
  with IH(2) [of row] Cons.prems(4,5) have "seed_done db' row" by auto
  moreover have "seed_done db' x" if "seed_done db x" "ps_key x \<notin> ps_key ` set (row # rows)"
    "sub_id (ps_value x) \<notin> (\<lambda>row. sub_id (ps_value row)) ` set (row # rows)" for x
    using that IH(2) [of x] apply_seed_one_others(2) [OF step(1), of x] by auto
  ultimately show ?case using IH(1) by auto
qed simp

lemma try_map_keys: "try_map f xs = Inr ys \<Longrightarrow> (\<And>x y. f x = Inr y \<Longrightarrow> g y = h x) \<Longrightarrow> map g ys = map h xs"
  by (induction xs arbitrary: ys) auto

lemma prepare_seed_fields:
  "prepare_seed R w seed = Inr row \<Longrightarrow> ps_key row = fst seed \<and> ps_value row = fst (snd seed)"
  by (auto simp: prepare_seed_def Let_def split: prod.splits if_splits)

text \<open>Applying a seed again with the same values succeeds and changes nothing: no subscription, job or
  applied key is duplicated.\<close>

theorem seed_repeat_unchanged:
  assumes "apply_seed_atomic R db wall w seeds = Inr db'"
    and "distinct (map fst seeds)" and "distinct (map (\<lambda>(_, v, _). sub_id v) seeds)"
    and "\<forall>(_, v, _) \<in> set seeds. sub_url_exact v = None"
  shows "apply_seed_atomic R db' wall' w seeds = Inr db'"
proof -
  from assms(1) obtain rows where rows: "try_map (prepare_seed R w) seeds = Inr rows"
    "\<forall>row \<in> set rows. check_seed db row = Inr ()" "try_fold (apply_seed_one R wall) db rows = Inr db'"
    by (auto simp: apply_seed_atomic_def)
  have keys: "map ps_key rows = map fst seeds"
    by (rule try_map_keys [OF rows(1)]) (simp add: prepare_seed_fields)
  have ids: "map (\<lambda>row. sub_id (ps_value row)) rows = map (\<lambda>(_, v, _). sub_id v) seeds"
    by (rule try_map_keys [OF rows(1)]) (auto dest: prepare_seed_fields)
  have "source_url_exact (ps_value row) = url_text (sub_url (ps_value row))" if "row \<in> set rows" for row
  proof -
    from try_map_set [OF rows(1) that] obtain seed where "seed \<in> set seeds" "prepare_seed R w seed = Inr row" by blast
    with assms(4) prepare_seed_fields [of R w seed row] have "sub_url_exact (ps_value row) = None" by (cases seed) auto
    then show ?thesis by (simp add: source_url_exact_def)
  qed
  with seeds_done [OF rows(3,2)] keys ids assms(2,3) have done_rows: "\<forall>row \<in> set rows. seed_done db' row" by simp
  then have "\<forall>row \<in> set rows. check_seed db' row = Inr ()" using seed_done_noop by blast
  moreover have "try_fold (apply_seed_one R wall') db' rows = Inr db'"
    using done_rows by (induction rows) (simp_all add: seed_done_noop)
  ultimately show ?thesis using rows(1) by (simp add: apply_seed_atomic_def)
qed

section \<open>Retrying a manifest\<close>




definition demo_seeds :: "instant \<Rightarrow> (string \<times> subscription \<times> seed_source \<times> json) list" where
  "demo_seeds now = [(''personal_feed:a'', subscription_new now 22 2 example_url ''N'', SeedFeed,
     JObject [(''name'', JString ''N''), (''feed_url'', JString ''https://example.org/feed'')])]"


lemma demo_seed_applied: "is_ok (apply_seed_atomic demo_repo demo_store_db 0 2 (demo_seeds 0))"
  by (simp add: apply_seed_atomic_def prepare_seed_def demo_seeds_def check_seed_def apply_seed_one_def seed_url_exists_def
      seed_job_def source_item_def editable_recipe_document_def provision_eval demo_repo_defs)

theorem seed_repeat_unchanged_witness:
  "\<exists>db'. apply_seed_atomic demo_repo demo_store_db 0 2 (demo_seeds 0) = Inr db'
    \<and> apply_seed_atomic demo_repo db' 5 2 (demo_seeds 0) = Inr db'"
proof -
  from demo_seed_applied obtain db' where run: "apply_seed_atomic demo_repo demo_store_db 0 2 (demo_seeds 0) = Inr db'"
    by (auto simp: is_ok_iff)
  have "apply_seed_atomic demo_repo db' 5 2 (demo_seeds 0) = Inr db'"
    by (rule seed_repeat_unchanged [OF run]) (simp_all add: demo_seeds_def subscription_new_def)
  with run show ?thesis by blast
qed


section \<open>Recipes that can be edited\<close>

lemma draft_selector_back: "selector_ok W s \<Longrightarrow> draft_selector W (selector_to_draft s) = Inr s"
  by (cases s; cases "sel_language s")
    (simp_all add: draft_selector_def selector_to_draft_def selector_language_of_def language_text_def web_selector_new_ok)

lemma try_opt_back: "(\<And>x. v = Some x \<Longrightarrow> f (g x) = Inr x) \<Longrightarrow> try_opt f (map_option g v) = Inr v"
  by (cases v) simp_all

lemma try_map_back: "(\<And>x. x \<in> set xs \<Longrightarrow> f (g x) = Inr x) \<Longrightarrow> try_map f (map g xs) = Inr xs"
  by (induction xs) simp_all

lemma recipe_draft_back:
  assumes "recipe_ok W max_pages max_actions recipe" and "wr_max_pages recipe \<le> max_pages"
    and "\<And>u. u \<in> set (wa_start_pages (wr_actions recipe)) \<Longrightarrow> parse_url W (url_text u) = Some u"
    and "\<And>u. we_listing_url (wr_extraction recipe) = Some u \<Longrightarrow> parse_url W (url_text u) = Some u"
  shows "recipe_from_draft W (recipe_to_draft w v recipe) max_pages max_actions = Inr recipe"
proof -
  let ?a = "wr_actions recipe" and ?x = "wr_extraction recipe" and ?s = "wr_selector recipe"
  have ok: "selector_ok W ?s" "\<not> (wr_loading recipe = Static \<and> sel_language ?s = XPath)"
    "actions_ok W max_pages max_actions ?a" "extraction_ok W ?x" "wr_max_pages recipe > 0"
    using assms(1) by (simp_all add: recipe_ok_def)
  have loading: "(if loading_text (wr_loading recipe) = ''automatic'' then Inr Automatic
       else if loading_text (wr_loading recipe) = ''static'' then Inr Static
       else if loading_text (wr_loading recipe) = ''browser'' then Inr Browser
       else Inl ''invalid web feed loading mode'') = Inr (wr_loading recipe)"
    by (simp add: loading_text_def split: web_loading.split)
  have language: "selector_language_of (language_text (sel_language ?s)) = Inr (sel_language ?s)"
    by (simp add: selector_language_of_def language_text_def split: selector_language.split)
  have primary: "web_selector_new W (sel_language ?s) (sel_expression ?s) = Inr ?s"
    using ok(1) by (simp add: web_selector_new_ok)
  have viewport: "(if viewport_text (wa_viewport ?a) = ''desktop'' then Inr Desktop
       else if viewport_text (wa_viewport ?a) = ''mobile'' then Inr Mobile else Inl ''invalid viewport'') = Inr (wa_viewport ?a)"
    by (simp add: viewport_text_def split: web_viewport.split)
  have overlays: "try_map (draft_selector W) (map selector_to_draft (wa_hide_overlays ?a)) = Inr (wa_hide_overlays ?a)"
    by (rule try_map_back) (use ok(3) in \<open>simp add: actions_ok_def draft_selector_back\<close>)
  have pages: "try_map (\<lambda>v. ok_or (parse_url W v) ''invalid start page URL'') (map url_text (wa_start_pages ?a)) = Inr (wa_start_pages ?a)"
    by (rule try_map_back) (simp add: assms(3))
  have pager: "try_opt (draft_selector W) (map_option selector_to_draft (wa_next_page ?a)) = Inr (wa_next_page ?a)"
    "try_opt (draft_selector W) (map_option selector_to_draft (wa_load_more ?a)) = Inr (wa_load_more ?a)"
    by (rule try_opt_back; use ok(3) in \<open>simp add: actions_ok_def draft_selector_back\<close>)+
  have listing: "try_opt (\<lambda>v. ok_or (parse_url W v) ''invalid listing URL'') (map_option url_text (we_listing_url ?x)) = Inr (we_listing_url ?x)"
    by (rule try_opt_back) (simp add: assms(4))
  have actions: "web_feed_actions_new (wa_viewport ?a) (wa_hide_overlays ?a) (wa_start_pages ?a) (wa_next_page ?a)
      (wa_load_more ?a) (wa_load_more_clicks ?a) (wa_scrolls ?a) max_pages max_actions = Inr ?a"
    using ok(3) by (simp add: web_feed_actions_new_ok actions_ok_def)
  have configured: "recipe_configured ?s (wr_loading recipe) ?a ?x (wr_max_pages recipe) = Inr recipe"
    using ok(2,5) by (simp add: recipe_configured_ok)
  show ?thesis
    using ok(5) assms(2)
    by (simp only: recipe_from_draft_def recipe_to_draft_def Let_def web_feed_recipe_draft.simps option.case loading language
        primary viewport overlays pages pager listing actions web_extraction_rebuild [OF ok(4)] configured
        and_then_simps map_err_simps) simp
qed

lemma seed_recipe_ok:
  assumes "seed_recipe W raw = Inr recipe"
  shows "recipe_ok W usize_max usize_max recipe"
    and "\<And>u. u \<in> set (wa_start_pages (wr_actions recipe)) \<Longrightarrow> \<exists>s. parse_url W s = Some u"
    and "\<And>u. we_listing_url (wr_extraction recipe) = Some u \<Longrightarrow> \<exists>s. parse_url W s = Some u"
proof -
  from assms obtain link primary loading pages nx lm actions listing extraction n where st:
    "seed_selector W link = Inr primary" "try_map (seed_url W ''invalid extra listing URL'') (is_extra_listing_urls raw) = Inr pages"
    "try_opt (seed_selector W) (is_next_selector raw) = Inr nx" "try_opt (seed_selector W) (is_load_more_selector raw) = Inr lm"
    "web_feed_actions_new Desktop [] pages nx lm (is_load_more_clicks raw) (is_scroll_steps raw) usize_max usize_max = Inr actions"
    "try_opt (seed_url W ''invalid imported listing URL'') (is_listing_url raw) = Inr listing"
    "web_extraction_new W listing (is_card_selector raw) (is_title_selector raw) (is_date_selector raw)
        (is_content_selector raw) (is_wait_selector raw) (is_url_pattern raw) = Inr extraction"
    "recipe_configured primary loading actions extraction n = Inr recipe"
    unfolding seed_recipe_def Let_def by auto
  have sel: "selector_ok W s" if "seed_selector W e = Inr s" for e s
    using that by (auto simp: seed_selector_def web_selector_new_ok)
  have opt: "selector_ok W s" if "try_opt (seed_selector W) v = Inr (Some s)" for v s
    using that sel by (cases v) auto
  have recipe: "recipe = \<lparr>wr_selector = primary, wr_loading = loading, wr_actions = actions, wr_extraction = extraction, wr_max_pages = n\<rparr>"
    "\<not> (loading = Static \<and> sel_language primary = XPath)" "n > 0" using st(8) by (simp_all add: recipe_configured_ok)
  have actions: "actions = \<lparr>wa_viewport = Desktop, wa_hide_overlays = [], wa_start_pages = pages, wa_next_page = nx, wa_load_more = lm,
      wa_load_more_clicks = is_load_more_clicks raw, wa_scrolls = is_scroll_steps raw\<rparr>"
    "page_count actions \<le> usize_max" "planned_actions actions \<le> usize_max"
    using st(5) by (auto simp: web_feed_actions_new_ok)
  show "recipe_ok W usize_max usize_max recipe"
    using sel [OF st(1)] opt st(3,4) recipe actions web_extraction_new_ok [OF st(7)]
    by (auto simp: recipe_ok_def actions_ok_def)
  show "\<exists>s. parse_url W s = Some u" if "u \<in> set (wa_start_pages (wr_actions recipe))" for u
    using that recipe actions try_map_set [OF st(2)] by (auto simp: seed_url_def)
  have "we_listing_url extraction = listing"
    using st(7) by (auto simp: web_extraction_new_def Let_def)
  then show "\<exists>s. parse_url W s = Some u" if "we_listing_url (wr_extraction recipe) = Some u" for u
    using that recipe st(6) by (cases "is_listing_url raw") (auto simp: seed_url_def)
qed

text \<open>The draft that is stored beside an imported web page recipe is the recipe: when the owner opens it in
  the editor and saves it unchanged, under limits that admit it, exactly the same recipe is executed.\<close>

theorem imported_recipe_editable:
  assumes "imported_source_kind R configuration = Inr (WebPage recipe)"
    and "\<forall>s u. parse_url (re_web R) s = Some u \<longrightarrow> parse_url (re_web R) (url_text u) = Some u"
    and "wr_max_pages recipe \<le> max_pages" "page_count (wr_actions recipe) \<le> max_pages" "planned_actions (wr_actions recipe) \<le> max_actions"
    and "editable_recipe_document w u (WebPage recipe) = Some draft"
  shows "recipe_from_draft (re_web R) draft max_pages max_actions = Inr recipe"
proof -
  from assms(1) obtain raw where seed: "seed_recipe (re_web R) raw = Inr recipe"
    by (auto simp: imported_source_kind_def split: if_splits option.splits)
  note ok = seed_recipe_ok [OF seed]
  have "recipe_ok (re_web R) max_pages max_actions recipe"
    using ok(1) assms(4,5) by (simp add: recipe_ok_def actions_ok_def)
  moreover have "draft = recipe_to_draft w u recipe" using assms(6) by (simp add: editable_recipe_document_def)
  ultimately show ?thesis using recipe_draft_back [OF _ assms(3)] ok(2,3) assms(2) by metis
qed

definition demo_recipe_repo :: "unit repo_env" where
  "demo_recipe_repo = demo_repo\<lparr>re_decode_seed := (\<lambda>_. Inr \<lparr>is_id = ''a'', is_name = ''N'', is_url = ''https://example.org/feed'',
     is_feed_url = None, is_adapter = None, is_listing_url = Some ''https://example.org/feed'', is_link_selector = Some ''a'',
     is_card_selector = None, is_title_selector = Some ''a'', is_date_selector = None, is_content_selector = None,
     is_url_pattern = None, is_next_selector = Some ''a'', is_extra_listing_urls = [''https://example.org/feed''],
     is_max_pages = None, is_page_size = None, is_browser = False, is_browser_fallback = True, is_wait_selector = None,
     is_load_more_selector = None, is_load_more_clicks = 0, is_scroll_steps = 1\<rparr>)\<rparr>"

definition demo_recipe :: web_feed_recipe where
  "demo_recipe = \<lparr>wr_selector = \<lparr>sel_language = Css, sel_expression = ''a''\<rparr>, wr_loading = Automatic,
     wr_actions = \<lparr>wa_viewport = Desktop, wa_hide_overlays = [], wa_start_pages = [example_url],
       wa_next_page = Some \<lparr>sel_language = Css, sel_expression = ''a''\<rparr>, wa_load_more = None, wa_load_more_clicks = 0, wa_scrolls = 1\<rparr>,
     wr_extraction = \<lparr>we_listing_url = Some example_url, we_card = None, we_title = Some \<lparr>sel_language = Css, sel_expression = ''a''\<rparr>,
       we_date = None, we_content = None, we_wait = None, we_url_pattern = None\<rparr>, wr_max_pages = 3\<rparr>"

lemma demo_recipe_imported: "imported_source_kind demo_recipe_repo JNull = Inr (WebPage demo_recipe)"
proof -
  have trim: "trim ''a'' = ''a''" "trim ''N'' = ''N''" by (simp_all add: trim_ascii is_whitespace_def)
  have sel: "web_selector_new example_web_env Css ''a'' = Inr \<lparr>sel_language = Css, sel_expression = ''a''\<rparr>"
    by (simp add: web_selector_new_def trim example_web_env_def)
  show ?thesis
    by (simp add: imported_source_kind_def decode_seed_def demo_recipe_repo_def demo_repo_def trim seed_url_def
        example_web_env_def [THEN arg_cong, of parse_url] example_parser_def is_http_def example_url_def [THEN arg_cong, of url_scheme]
        seed_recipe_def seed_selector_def sel web_feed_actions_new_def page_count_def saturating_add_usize_def
        checked_add_usize_def usize_max_def web_extraction_new_def recipe_configured_def demo_recipe_def Let_def)
qed

theorem imported_recipe_editable_witness:
  "imported_source_kind demo_recipe_repo JNull = Inr (WebPage demo_recipe)
    \<and> recipe_from_draft example_web_env (recipe_to_draft 2 example_url demo_recipe) 3 5 = Inr demo_recipe"
proof -
  have web: "re_web demo_recipe_repo = example_web_env" by (simp add: demo_recipe_repo_def demo_repo_def)
  have "recipe_from_draft (re_web demo_recipe_repo) (recipe_to_draft 2 example_url demo_recipe) 3 5 = Inr demo_recipe"
  proof (rule imported_recipe_editable [OF demo_recipe_imported])
    show "\<forall>s u. parse_url (re_web demo_recipe_repo) s = Some u \<longrightarrow> parse_url (re_web demo_recipe_repo) (url_text u) = Some u"
      by (simp add: web example_web_env_def example_parser_def example_url_def)
  qed (simp_all add: demo_recipe_def page_count_def saturating_add_usize_def usize_max_def planned_actions_def
      editable_recipe_document_def)
  with demo_recipe_imported web show ?thesis by simp
qed

end
