(* ===== verification/Paging.thy ===== *)
theory Paging
  imports Prelude "HOL-Library.Multiset"
begin

text \<open>
  Keyset paging: a page is the first rows after a key in a fixed order. The locale \<open>keyset_pages\<close> states
  what a page query promises; from it follows that a client that continues with the key of the last row it
  saw meets every row once, in order. \<open>walk_pages\<close> is that client: it asks for pages until one says that
  there are no more.
\<close>

fun walk_pages :: "nat \<Rightarrow> ('k option \<Rightarrow> 'a list \<times> bool) \<Rightarrow> ('a \<Rightarrow> 'k) \<Rightarrow> 'k option \<Rightarrow> 'a list" where
  "walk_pages 0 ask key c = []"
| "walk_pages (Suc fuel) ask key c =
    (case ask c of (rows, more) \<Rightarrow>
       rows @ (if more \<and> rows \<noteq> [] then walk_pages fuel ask key (Some (key (last rows))) else []))"

locale keyset_pages =
  fixes key :: "'a \<Rightarrow> 'k" and before :: "'k \<Rightarrow> 'k \<Rightarrow> bool"
    and arrange :: "'a list \<Rightarrow> 'a list" and page :: "'a list \<Rightarrow> 'k option \<Rightarrow> nat \<Rightarrow> 'a list"
  assumes before_irrefl: "\<not> before k k"
    and before_trans: "before i j \<Longrightarrow> before j k \<Longrightarrow> before i k"
    and arrange_mset: "mset (arrange xs) = mset xs"
    and arrange_sorted: "distinct (map key xs) \<Longrightarrow> sorted_wrt (\<lambda>x y. before (key x) (key y)) (arrange xs)"
    and page_eq: "page xs c n =
      take n (filter (\<lambda>x. case c of None \<Rightarrow> True | Some k \<Rightarrow> before k (key x)) (arrange xs))"
begin

lemma filter_after:
  assumes "sorted_wrt (\<lambda>x y. before (key x) (key y)) (ys @ z # zs)"
  shows "filter (\<lambda>x. before (key z) (key x)) (ys @ z # zs) = zs"
proof -
  have "\<not> before (key z) (key y)" if "y \<in> set ys" for y
  proof -
    have "before (key y) (key z)" using assms that by (simp add: sorted_wrt_append)
    then show ?thesis using before_trans [of "key z" "key y" "key z"] before_irrefl by blast
  qed
  moreover have "before (key z) (key y)" if "y \<in> set zs" for y
    using assms that by (simp add: sorted_wrt_append)
  ultimately show ?thesis by (simp add: before_irrefl)
qed

lemma page_first: "page xs None n = take n (arrange xs)"
  by (simp add: page_eq)

lemma page_after:
  assumes "distinct (map key xs)" and "arrange xs = ys @ z # zs"
  shows "page xs (Some (key z)) n = take n zs"
  using arrange_sorted [OF assms(1)] filter_after [of ys z zs] assms(2) by (simp add: page_eq)

text \<open>Before the last row of a page come the rows already seen, after it the rows still to come.\<close>

lemma walk_rest:
  assumes "distinct (map key xs)" and "0 < n" and "arrange xs = seen @ zs"
    and "c = (if seen = [] then None else Some (key (last seen)))" and "length zs < fuel"
  shows "walk_pages fuel (\<lambda>c. (take n (page xs c (n + 1)), n < length (page xs c (n + 1)))) key c = zs"
  using assms(3-5)
proof (induction fuel arbitrary: seen zs c)
  case (Suc fuel)
  have page: "page xs c (n + 1) = take (n + 1) zs"
  proof (cases "seen = []")
    case True
    then show ?thesis using Suc.prems by (simp add: page_first)
  next
    case False
    then have "arrange xs = butlast seen @ last seen # zs" using Suc.prems(1) by simp
    from page_after [OF assms(1) this] show ?thesis using Suc.prems(2) False by simp
  qed
  show ?case
  proof (cases "n < length zs")
    case True
    let ?seen = "seen @ take n zs"
    have "last ?seen = last (take n zs)" using True assms(2) by (intro last_appendR) auto
    moreover have "walk_pages fuel (\<lambda>c. (take n (page xs c (n + 1)), n < length (page xs c (n + 1)))) key (Some (key (last ?seen)))
      = drop n zs"
      by (rule Suc.IH [of ?seen]) (use Suc.prems True assms(2) in auto)
    ultimately show ?thesis using True assms(2) page by (auto simp: min_def)
  next
    case False
    then show ?thesis using page by simp
  qed
qed simp

lemma walk_all:
  assumes "distinct (map key xs)" and "0 < n"
  shows "walk_pages (Suc (length xs)) (\<lambda>c. (take n (page xs c (n + 1)), n < length (page xs c (n + 1)))) key None = arrange xs"
  by (rule walk_rest [OF assms, of "[]"]) (use arrange_mset [of xs] in \<open>auto dest: mset_eq_length\<close>)

end

end
