(* ===== verification/Article_Query.thy ===== *)
theory Article_Query
  imports Subscription_Store Paging
begin

text \<open>
  \<open>reader-application/src/article_query.rs\<close>, the page query of \<open>repository/article.rs\<close> and the SQL functions
  it calls (\<open>schema/reading_preferences.sql\<close>): the scopes a reader selects, which articles of a workspace
  are visible, and one page of a scope, older or newer than a cursor.

  The preferences are the rows of \<open>reading_preferences\<close>; ratings and receipts belong to focused reading. An
  instant is stored in the text that \<open>serde\<close> writes (\<open>rd_stored\<close>) and a cursor is passed in the text with
  nanoseconds (\<open>rd_nanos\<close>); both texts are parameters. The presentation of an article on a page adds
  titles and statuses for display and is not modelled: a page holds the articles themselves.
\<close>

record reading_preferences =
  rp_skip_duplicates :: bool
  rp_hide_snowflake_spanish :: bool
  rp_hide_snowflake_french :: bool
  rp_hide_reddit_career :: bool
  rp_excluded_urls :: "string list"

record reading_state =
  rs_revision :: u64
  rs_read :: bool
  rs_rating :: "u8 option"
  rs_rated_at :: "instant option"
  rs_reason :: "string option"

record complete_reading_command =
  cr_operation_id :: uuid
  cr_expected_revision :: u64
  cr_rating :: "u8 option"
  cr_reason :: "string option"

record reading_completion =
  rc_operation_id :: uuid
  rc_article_id :: uuid
  rc_state :: reading_state
  rc_undone :: bool

record reading_receipt =
  rr_command :: complete_reading_command
  rr_previous :: reading_state
  rr_previous_protect_unread :: bool
  rr_completed :: reading_completion
  rr_undone :: "reading_completion option"

record reading_db = subscription_db +
  db_preferences :: "(workspace_id \<times> reading_preferences) list"
  db_ratings :: "((workspace_id \<times> article_id) \<times> u8 option \<times> instant \<times> string option) list"
  db_receipts :: "((account_id \<times> uuid) \<times> (workspace_id \<times> article_id) \<times> reading_receipt) list"

type_synonym 'd rdb = "'d reading_db_scheme"
type_synonym article_row = "(workspace_id \<times> article_id) \<times> u64 \<times> article"

text \<open>\<open>rd_duplicate\<close> and \<open>rd_violation\<close> are the messages of a violated primary key and foreign key.\<close>

record reading_env =
  rd_stored :: "instant \<Rightarrow> string"
  rd_nanos :: "instant \<Rightarrow> string"
  rd_duplicate :: string
  rd_violation :: string

section \<open>Requests\<close>

record read_period =
  pe_start :: instant
  pe_end :: instant

definition read_period_new :: "instant \<Rightarrow> instant \<Rightarrow> string + read_period" where
  "read_period_new s e =
    (if s mod 1000 \<noteq> 0 \<or> e mod 1000 \<noteq> 0 then Inl ''read period supports microsecond precision''
     else if s \<ge> e then Inl ''read period must end after its start''
     else Inr \<lparr>pe_start = s, pe_end = e\<rparr>)"

datatype article_scope =
  FeedScope | LaterScope | SubscriptionScope subscription_id | SubscriptionUnreadScope subscription_id

definition scope_from_wire :: "string \<Rightarrow> subscription_id option \<Rightarrow> string + article_scope" where
  "scope_from_wire view sub =
    (case sub of
       None \<Rightarrow>
         if view = ''feed'' then Inr FeedScope else if view = ''later'' then Inr LaterScope
         else Inl ''invalid article scope: subscription history requires a subscription; Feed and Read later are workspace views''
     | Some i \<Rightarrow>
         if view = ''subscription-unread'' then Inr (SubscriptionUnreadScope i)
         else if view = ''subscription'' then Inr (SubscriptionScope i)
         else Inl ''invalid article scope: subscription history requires a subscription; Feed and Read later are workspace views'')"

fun scope_subscription :: "article_scope \<Rightarrow> subscription_id option" where
  "scope_subscription (SubscriptionScope i) = Some i"
| "scope_subscription (SubscriptionUnreadScope i) = Some i"
| "scope_subscription _ = None"

record commit_project =
  cp_owner :: string
  cp_repository :: string

definition project_prefixes :: "commit_project \<Rightarrow> string list" where
  "project_prefixes p =
    concat (map (\<lambda>scheme. map (\<lambda>kind.
      scheme @ ''://github.com/'' @ cp_owner p @ ''/'' @ cp_repository p @ ''/'' @ kind @ ''/'')
      [''commit'', ''commits'']) [''https'', ''http''])"

definition component_char :: "char \<Rightarrow> bool" where
  "component_char c \<longleftrightarrow>
    (let n = byte_of c in 48 \<le> n \<and> n \<le> 57 \<or> 65 \<le> n \<and> n \<le> 90 \<or> 97 \<le> n \<and> n \<le> 122)
    \<or> c \<in> set ''-_.''"

definition project_component :: "string \<Rightarrow> bool" where
  "project_component s \<longleftrightarrow> s \<noteq> [] \<and> s \<noteq> ''.'' \<and> s \<noteq> ''..'' \<and> list_all component_char s"

definition project_from_url :: "url_parser \<Rightarrow> string \<Rightarrow> string + commit_project" where
  "project_from_url parse value =
    and_then (ok_or (parse value) ''invalid commit URL'') (\<lambda>u.
    if \<not> is_http u \<or> url_host u \<noteq> Some ''github.com'' \<or> url_username u \<noteq> [] \<or> url_password u \<noteq> None
      \<or> url_port u \<noteq> None
    then Inl ''expected a public GitHub commit URL''
    else let parts = split_on (CHR ''/'') (url_path u) in
    if length parts < 5 \<or> \<not> project_component (parts ! 1) \<or> \<not> project_component (parts ! 2)
      \<or> parts ! 3 \<notin> {''commit'', ''commits''} \<or> parts ! 4 = []
    then Inl ''expected an individual GitHub commit URL''
    else let project = \<lparr>cp_owner = parts ! 1, cp_repository = parts ! 2\<rparr> in
    if \<not> list_ex (starts_with value) (project_prefixes project)
    then Inl ''commit URL must use literal repository components''
    else Inr project)"

definition selection_limit_new :: "nat \<Rightarrow> string + nat" where
  "selection_limit_new n =
    (if n = 0 \<or> n + 1 > i64_max
     then Inl ''selection limit must be positive and fit PostgreSQL LIMIT with lookahead'' else Inr n)"

definition lookahead :: "nat \<Rightarrow> nat" where
  "lookahead n = n + 1"

datatype page_direction = Older | Newer

record page_cursor =
  pc_arrived_at :: instant
  pc_article_id :: article_id

record page_request =
  pr_scope :: article_scope
  pr_cursor :: "page_cursor option"
  pr_direction :: page_direction
  pr_limit :: nat
  pr_read_period :: "read_period option"
  pr_commit_project :: "commit_project option"

definition page_request_new ::
  "article_scope \<Rightarrow> page_cursor option \<Rightarrow> page_direction \<Rightarrow> nat \<Rightarrow> string + page_request" where
  "page_request_new scope cursor direction limit =
    (if direction = Newer \<and> cursor = None then Inl ''newer direction requires a cursor''
     else Inr \<lparr>pr_scope = scope, pr_cursor = cursor, pr_direction = direction, pr_limit = limit,
               pr_read_period = None, pr_commit_project = None\<rparr>)"

definition with_read_period :: "read_period option \<Rightarrow> page_request \<Rightarrow> string + page_request" where
  "with_read_period period r =
    (if period \<noteq> None \<and> (pr_scope r \<noteq> FeedScope \<or> pr_commit_project r \<noteq> None)
     then Inl ''read period requires Feed without a subscription''
     else Inr (r\<lparr>pr_read_period := period\<rparr>))"

definition with_commit_project :: "commit_project \<Rightarrow> page_request \<Rightarrow> string + page_request" where
  "with_commit_project project r =
    (if pr_scope r \<noteq> FeedScope \<or> pr_read_period r \<noteq> None
     then Inl ''commit project requires unread Feed without a read period''
     else Inr (r\<lparr>pr_commit_project := Some project\<rparr>))"

section \<open>Visible articles\<close>

text \<open>The generated column \<open>arrival_order\<close>. A row whose timestamp has no key cannot be stored.\<close>

definition arrival_order :: "reading_env \<Rightarrow> article \<Rightarrow> int" where
  "arrival_order E a =
    (case reader_arrival_order (rd_stored E (art_first_arrived_at a)) of Inr k \<Rightarrow> k | Inl _ \<Rightarrow> 0)"

definition row_key :: "reading_env \<Rightarrow> article_row \<Rightarrow> int \<times> article_id" where
  "row_key E row = (case row of ((_, i), _, a) \<Rightarrow> (arrival_order E a, i))"

definition row_url :: "article_row \<Rightarrow> string option" where
  "row_url row = (case row of (_, _, a) \<Rightarrow> exact_url (dk_location (art_key a)))"

definition row_title :: "article_row \<Rightarrow> string" where
  "row_title row = (case row of (_, _, a) \<Rightarrow> dk_title (art_key a))"

definition row_read :: "article_row \<Rightarrow> bool" where
  "row_read row = (case row of (_, _, a) \<Rightarrow> as_read (art_state a))"

definition row_later :: "article_row \<Rightarrow> bool" where
  "row_later row = (case row of (_, _, a) \<Rightarrow> as_later (art_state a))"

definition article_origins :: "'a db \<Rightarrow> workspace_id \<times> article_id \<Rightarrow> source_record_id list" where
  "article_origins db k =
    map (\<lambda>(_, _, _, r). r) (filter (\<lambda>(w, i, _, _). (w, i) = k) (db_origins db))"

text \<open>\<open>::timestamptz\<close> keeps microseconds.\<close>

definition to_micros :: "instant \<Rightarrow> int" where
  "to_micros t = (t + 500) div 1000"

definition reader_display_url :: "'a db \<Rightarrow> article_row \<Rightarrow> string option" where
  "reader_display_url db row =
    (let observed = List.map_filter (\<lambda>r. map_option (\<lambda>(_, m). (r, m)) (map_of (db_manifests db) r))
           (article_origins db (fst row)) in
     if observed = [] then row_url row
     else Some (url_text (cm_final_url (snd (last
       (sort_key (\<lambda>(r, m). (to_micros (cm_fetched_at m), r)) observed))))))"

text \<open>The patterns of the preferences: a prefix, and where a language code ends the next character is a
  slash or nothing.\<close>

definition snowflake_language :: "string list \<Rightarrow> string \<Rightarrow> bool" where
  "snowflake_language codes u =
    list_ex (\<lambda>host. list_ex (\<lambda>dir. list_ex (\<lambda>code.
      let p = ''https://'' @ host @ ''snowflake.com/'' @ dir @ code in
      starts_with u p \<and> (length u = length p \<or> u ! length p = CHR ''/''))
      codes) ['''', ''content/snowflake-site/global/'']) ['''', ''www.'']"

definition reddit_url :: "string \<Rightarrow> bool" where
  "reddit_url u =
    list_ex (\<lambda>host. starts_with u (''https://'' @ host @ ''reddit.com/'')) ['''', ''www.'', ''old.'']"

definition career_origin :: "'a db \<Rightarrow> source_record_id \<Rightarrow> bool" where
  "career_origin db r =
    (case map_of (db_source_records db) r of
       None \<Rightarrow> False
     | Some (_, rec) \<Rightarrow>
       (case map_of (db_manifests db) r of Some (_, m) \<Rightarrow> cm_reddit_flair m = Some ''Career'' | None \<Rightarrow> False)
       \<or> (case sr_categories rec of Some cs \<Rightarrow> ''Career'' \<in> set cs | None \<Rightarrow> False))"

definition same_story :: "'a db \<Rightarrow> article_row \<Rightarrow> article_row \<Rightarrow> bool" where
  "same_story db prior row \<longleftrightarrow>
    reader_display_url db prior \<noteq> None \<and> reader_display_url db prior = reader_display_url db row
    \<and> row_title prior = row_title row \<and> fst (fst prior) = fst (fst row) \<and> fst prior \<noteq> fst row"

definition duplicate_row :: "reading_env \<Rightarrow> 'a db \<Rightarrow> article_row \<Rightarrow> bool" where
  "duplicate_row E db row =
    list_ex (\<lambda>prior. same_story db prior row \<and> (row_read prior \<or> row_key E prior < row_key E row)) (db_articles db)"

definition hidden_url :: "'a db \<Rightarrow> reading_preferences \<Rightarrow> article_row \<Rightarrow> bool" where
  "hidden_url db p row =
    (case row_url row of
       None \<Rightarrow> False
     | Some u \<Rightarrow>
       u \<in> set (rp_excluded_urls p)
       \<or> rp_hide_snowflake_spanish p \<and> snowflake_language [''es'', ''es-la'', ''es-es''] u
       \<or> rp_hide_snowflake_french p \<and> snowflake_language [''fr''] u
       \<or> rp_hide_reddit_career p \<and> reddit_url u \<and> list_ex (career_origin db) (article_origins db (fst row)))"

definition reader_article_visible :: "reading_env \<Rightarrow> 'd rdb \<Rightarrow> article_row \<Rightarrow> bool" where
  "reader_article_visible E db row =
    (case map_of (db_preferences db) (fst (fst row)) of
       None \<Rightarrow> True
     | Some p \<Rightarrow> \<not> (hidden_url db p row \<or> rp_skip_duplicates p \<and> duplicate_row E db row))"

section \<open>One page\<close>

definition delivered_by :: "'a db \<Rightarrow> article_row \<Rightarrow> subscription_id option \<Rightarrow> bool" where
  "delivered_by db row sub =
    (case sub of
       None \<Rightarrow> True
     | Some s \<Rightarrow> list_ex (\<lambda>(w, i, s', _). (w, i) = fst row \<and> s' = s) (db_origins db))"

fun scope_state :: "reading_env \<Rightarrow> 'd rdb \<Rightarrow> article_scope \<Rightarrow> article_row \<Rightarrow> bool" where
  "scope_state E db LaterScope row = (row_later row \<and> reader_article_visible E db row)"
| "scope_state E db (SubscriptionScope _) row = True"
| "scope_state E db _ row = (\<not> row_read row \<and> reader_article_visible E db row)"

definition commit_matches :: "commit_project option \<Rightarrow> article_row \<Rightarrow> bool" where
  "commit_matches project row =
    (case project of
       None \<Rightarrow> True
     | Some p \<Rightarrow> (case row_url row of Some u \<Rightarrow> list_ex (starts_with u) (project_prefixes p) | None \<Rightarrow> False))"

definition selected ::
  "reading_env \<Rightarrow> 'd rdb \<Rightarrow> workspace_id \<Rightarrow> article_scope \<Rightarrow> commit_project option \<Rightarrow> article_row list" where
  "selected E db w scope project =
    filter (\<lambda>row. fst (fst row) = w \<and> delivered_by db row (scope_subscription scope)
      \<and> scope_state E db scope row \<and> commit_matches project row) (db_articles db)"

record article_page =
  ap_articles :: "article list"
  ap_total :: nat
  ap_unread_total :: nat
  ap_has_newer :: bool
  ap_has_older :: bool

definition unread_total :: "reading_env \<Rightarrow> 'd rdb \<Rightarrow> workspace_id \<Rightarrow> page_request \<Rightarrow> nat" where
  "unread_total E db w r =
    (if pr_scope r = FeedScope then length (selected E db w FeedScope (pr_commit_project r))
     else length (filter (\<lambda>row. fst (fst row) = w \<and> \<not> row_read row \<and> reader_article_visible E db row) (db_articles db)))"

definition cursor_key :: "reading_env \<Rightarrow> page_cursor \<Rightarrow> repository_error + int \<times> article_id" where
  "cursor_key E c = storage (and_then (reader_arrival_order (rd_nanos E (pc_arrived_at c))) (\<lambda>k. Inr (k, pc_article_id c)))"

definition page_rows ::
  "reading_env \<Rightarrow> article_row list \<Rightarrow> page_direction \<Rightarrow> (int \<times> article_id) option \<Rightarrow> nat \<Rightarrow> article_row list" where
  "page_rows E rows direction key n =
    (let ordered = sort_key (row_key E) rows in
     take n (case direction of
        Older \<Rightarrow> filter (\<lambda>row. case key of Some k \<Rightarrow> row_key E row < k | None \<Rightarrow> True) (rev ordered)
      | Newer \<Rightarrow> filter (\<lambda>row. case key of Some k \<Rightarrow> row_key E row > k | None \<Rightarrow> True) ordered))"

text \<open>\<open>article_summary_page\<close> of a request without a read period.\<close>

definition article_summary_page ::
  "reading_env \<Rightarrow> 'd rdb \<Rightarrow> workspace_id \<Rightarrow> page_request \<Rightarrow> repository_error + article_page" where
  "article_summary_page E db w r =
    (let rows = selected E db w (pr_scope r) (pr_commit_project r) in
     and_then (try_opt (cursor_key E) (pr_cursor r)) (\<lambda>key.
     let found = page_rows E rows (pr_direction r) key (lookahead (pr_limit r));
         has_extra = length found > pr_limit r;
         articles = map (\<lambda>(_, _, a). a) (take (pr_limit r) found) in
     Inr \<lparr>ap_articles = (if pr_direction r = Newer then rev articles else articles),
          ap_total = length rows, ap_unread_total = unread_total E db w r,
          ap_has_newer = (pr_cursor r \<noteq> None \<and> (pr_direction r = Older \<or> has_extra)),
          ap_has_older = (pr_cursor r \<noteq> None \<and> pr_direction r = Newer \<or> has_extra)\<rparr>))"

section \<open>Pages by key\<close>

lemma sorted_wrt_sort_key_strict:
  assumes "distinct (map f xs)"
  shows "sorted_wrt (\<lambda>x y. f x < f y) (sort_key f xs)"
proof -
  have "sorted_wrt (<) (map f (sort_key f xs))"
    using assms by (simp add: strict_sorted_iff distinct_map)
  then show ?thesis by (simp add: sorted_wrt_map)
qed

interpretation newer: keyset_pages "row_key E" "\<lambda>a b. a < b" "sort_key (row_key E)" "\<lambda>xs. page_rows E xs Newer" for E
  by unfold_locales (auto simp: page_rows_def sorted_wrt_sort_key_strict intro: less_trans)

interpretation older: keyset_pages "row_key E" "\<lambda>a b. b < a" "\<lambda>xs. rev (sort_key (row_key E) xs)"
  "\<lambda>xs. page_rows E xs Older" for E
  by unfold_locales (auto simp: page_rows_def sorted_wrt_sort_key_strict sorted_wrt_rev intro: less_trans)

text \<open>A cursor is the arrival time and the identifier of the last article a client has seen.\<close>

definition cursor_of :: "article \<Rightarrow> page_cursor" where
  "cursor_of a = \<lparr>pc_arrived_at = art_first_arrived_at a, pc_article_id = art_id a\<rparr>"

fun older_pages ::
  "nat \<Rightarrow> reading_env \<Rightarrow> 'd rdb \<Rightarrow> workspace_id \<Rightarrow> page_request \<Rightarrow> repository_error + article list" where
  "older_pages 0 E db w r = Inr []"
| "older_pages (Suc fuel) E db w r =
    and_then (article_summary_page E db w r) (\<lambda>p.
      if ap_has_older p \<and> ap_articles p \<noteq> []
      then and_then (older_pages fuel E db w (r\<lparr>pr_cursor := Some (cursor_of (last (ap_articles p)))\<rparr>)) (\<lambda>rest.
        Inr (ap_articles p @ rest))
      else Inr (ap_articles p))"

text \<open>Rows are stored under their article's identifier, one for each, and the text of a timestamp has the
  same key with and without trailing zeros.\<close>

definition readable_rows :: "reading_env \<Rightarrow> 'd rdb \<Rightarrow> bool" where
  "readable_rows E db \<longleftrightarrow>
    distinct (map fst (db_articles db))
    \<and> (\<forall>(k, _, a) \<in> set (db_articles db). snd k = art_id a
        \<and> reader_arrival_order (rd_nanos E (art_first_arrived_at a)) = Inr (arrival_order E a))"

lemma selected_subset: "row \<in> set (selected E db w scope project) \<Longrightarrow> row \<in> set (db_articles db) \<and> fst (fst row) = w"
  by (auto simp: selected_def)

lemma selected_keys:
  assumes "readable_rows E db"
  shows "distinct (map (row_key E) (selected E db w scope project))"
proof -
  have d: "distinct (map fst (selected E db w scope project))"
    using assms by (auto simp: readable_rows_def selected_def distinct_map_filter)
  have "inj_on (row_key E) (set (selected E db w scope project))"
  proof (rule inj_onI)
    fix x y
    assume *: "x \<in> set (selected E db w scope project)" "y \<in> set (selected E db w scope project)" "row_key E x = row_key E y"
    then have "fst x = fst y"
      using selected_subset [OF *(1)] selected_subset [OF *(2)] by (auto simp: row_key_def split: prod.splits)
    with d * show "x = y" by (simp add: distinct_map inj_on_def)
  qed
  with d show ?thesis by (auto simp: distinct_map)
qed

lemma cursor_key_of:
  assumes "readable_rows E db" and "(k, e, a) \<in> set (db_articles db)"
  shows "cursor_key E (cursor_of a) = Inr (row_key E (k, e, a))"
  using assms by (fastforce simp: readable_rows_def cursor_key_def cursor_of_def row_key_def split: prod.splits)

end
