(* ===== verification/Reading.thy ===== *)
theory Reading
  imports Article_Query
begin

text \<open>
  \<open>reader-application/src/article_commands.rs\<close> and \<open>focused_reading.rs\<close>, over the operations of
  \<open>repository/article.rs\<close> and \<open>repository/focused_reading.rs\<close> that change what has been read: a patch of one
  article, marking a whole scope read, queueing a refresh of the full text, and the rated completion of an
  article with its undo. Every change of an article from unread to read leaves one row in
  \<open>article_read_events\<close>, whose primary key is the article with the revision that the change gave it.
\<close>

section \<open>Articles\<close>

definition repo_article :: "'a db \<Rightarrow> workspace_id \<Rightarrow> article_id \<Rightarrow> repository_error + article" where
  "repo_article db w i = read_doc (db_articles db) (w, i)"

definition record_read ::
  "reading_env \<Rightarrow> 'a db \<Rightarrow> workspace_id \<Rightarrow> article \<Rightarrow> read_method \<Rightarrow> repository_error + 'a db" where
  "record_read E db w v method =
    and_then (to_i64 (art_revision v)) (\<lambda>revision.
      if list_ex (\<lambda>(w', i, r, _). w' = w \<and> i = art_id v \<and> r = revision) (db_read_events db)
      then Inl (Storage (rd_duplicate E))
      else Inr (db\<lparr>db_read_events := db_read_events db @ [(w, art_id v, revision, method)]\<rparr>))"

definition save_article ::
  "reading_env \<Rightarrow> 'a db \<Rightarrow> workspace_id \<Rightarrow> u64 option \<Rightarrow> article \<Rightarrow> repository_error + 'a db" where
  "save_article E db w e v =
    (let previous = map_option (\<lambda>(_, a). as_read (art_state a)) (map_of (db_articles db) (w, art_id v)) in
     and_then (cas (db_articles db) (w, art_id v) e (art_revision v) v) (\<lambda>t.
     let db1 = db\<lparr>db_articles := t\<rparr> in
     if previous = Some False \<and> as_read (art_state v) then record_read E db1 w v SingleMethod else Inr db1))"

definition resolve_owned :: "reason_policy \<Rightarrow> 'a db \<Rightarrow> account_id \<Rightarrow> workspace_id \<Rightarrow> repository_error + workspace_id" where
  "resolve_owned policy db owner w =
    and_then (repo_workspace policy db w) (\<lambda>v. if ws_owner v \<noteq> owner then Inl NotFound else Inr w)"

record article_patch =
  pt_read :: "bool option"
  pt_later :: "bool option"

definition patch_apply :: "article_patch \<Rightarrow> article \<Rightarrow> article" where
  "patch_apply patch v =
    (let v1 = (case pt_read patch of
         None \<Rightarrow> v
       | Some rd \<Rightarrow> v\<lparr>art_state := (art_state v)\<lparr>as_read := rd,
           as_protect_unread := (if rd then as_protect_unread (art_state v) else True)\<rparr>\<rparr>) in
     case pt_later patch of None \<Rightarrow> v1 | Some l \<Rightarrow> v1\<lparr>art_state := (art_state v1)\<lparr>as_later := l\<rparr>\<rparr>)"

text \<open>\<open>r\<close> is the database that the command read, \<open>d\<close> the one that it commits to.\<close>

definition update_article ::
  "reading_env \<Rightarrow> 'a db \<Rightarrow> 'a db \<Rightarrow> workspace_id \<Rightarrow> article_id \<Rightarrow> article_patch \<Rightarrow> repository_error + 'a db" where
  "update_article E r d w i patch =
    and_then (repo_article r w i) (\<lambda>v.
    and_then (ok_or (checked_succ (art_revision v)) (Storage ''article revision exhausted'')) (\<lambda>revision.
    save_article E d w (Some (art_revision v)) (patch_apply patch (v\<lparr>art_revision := revision\<rparr>))))"

text \<open>\<open>ids\<close> are the identifiers drawn for the jobs.\<close>

definition refresh_origin ::
  "queue_env \<Rightarrow> instant \<Rightarrow> nat \<times> 'a db \<Rightarrow> source_record_id \<times> job_id \<Rightarrow> repository_error + nat \<times> 'a db" where
  "refresh_origin env wall = (\<lambda>(enqueued, db) (origin, j).
    and_then (read_doc (db_source_records db) origin) (\<lambda>rec.
    case fetch_url (dk_location (sr_key rec)) of
      None \<Rightarrow> Inr (enqueued, db)
    | Some u \<Rightarrow>
      and_then (enqueue_work_tx env db j (ExtractFullText (sr_id rec) (sr_revision rec) u True) wall) (\<lambda>db'.
      Inr (enqueued + 1, db'))))"

definition enqueue_article_full_text_refresh ::
  "queue_env \<Rightarrow> 'a db \<Rightarrow> instant \<Rightarrow> (nat \<Rightarrow> job_id) \<Rightarrow> workspace_id \<Rightarrow> article_id \<Rightarrow> repository_error + 'a db" where
  "enqueue_article_full_text_refresh env db wall ids w i =
    and_then (repo_article db w i) (\<lambda>v.
    and_then (try_fold (refresh_origin env wall) (0, db) (zip (art_origins v) (map ids [0..<length (art_origins v)]))) (\<lambda>(enqueued, db').
    if enqueued = 0 then Inl (Storage ''article has no fetchable URL origin'') else Inr db'))"

section \<open>Marking a scope read\<close>

definition markable :: "reading_env \<Rightarrow> 'd rdb \<Rightarrow> workspace_id \<Rightarrow> article_scope \<Rightarrow> article_row \<Rightarrow> bool" where
  "markable E db w scope row \<longleftrightarrow>
    fst (fst row) = w \<and> \<not> row_read row
    \<and> ((case scope of SubscriptionScope _ \<Rightarrow> True | _ \<Rightarrow> False) \<or> reader_article_visible E db row)
    \<and> (scope = LaterScope \<longrightarrow> row_later row) \<and> delivered_by db row (scope_subscription scope)"

definition mark_batch ::
  "reading_env \<Rightarrow> 'd rdb \<Rightarrow> workspace_id \<Rightarrow> article_scope \<Rightarrow> article_id option \<Rightarrow> nat \<Rightarrow> article_row list" where
  "mark_batch E db w scope after n =
    take n (filter (\<lambda>row. case after of None \<Rightarrow> True | Some i \<Rightarrow> i < snd (fst row))
      (sort_key (\<lambda>row. snd (fst row)) (filter (markable E db w scope) (db_articles db))))"

definition mark_check :: "article_row \<Rightarrow> repository_error + article_id \<times> u64" where
  "mark_check row =
    (case row of ((w, i), stored, a) \<Rightarrow>
      if i \<noteq> art_id a then Inl (Storage ''article identity/state/revision disagrees with retained document'')
      else and_then (to_i64 (art_revision a)) (\<lambda>revision.
      if revision \<noteq> stored \<or> as_read (art_state a)
      then Inl (Storage ''article identity/state/revision disagrees with retained document'')
      else and_then (ok_or (checked_succ (art_revision a)) (Storage ''article revision exhausted'')) (\<lambda>next_revision.
      and_then (to_i64 next_revision) (\<lambda>r. Inr (i, r)))))"

text \<open>One row of the \<open>UPDATE ... RETURNING\<close> that feeds the events: the number of changed rows and the
  database.\<close>

definition mark_row ::
  "reading_env \<Rightarrow> workspace_id \<Rightarrow> nat \<times> 'd rdb \<Rightarrow> article_id \<times> u64 \<Rightarrow> repository_error + nat \<times> 'd rdb" where
  "mark_row E w = (\<lambda>(changed, db) (i, revision).
    case map_of (db_articles db) (w, i) of
      None \<Rightarrow> Inr (changed, db)
    | Some (stored, a) \<Rightarrow>
      if stored \<noteq> revision - 1 \<or> as_read (art_state a) then Inr (changed, db)
      else let v = a\<lparr>art_state := (art_state a)\<lparr>as_read := True\<rparr>, art_revision := revision\<rparr> in
        and_then (record_read E (db\<lparr>db_articles := put (w, i) (revision, v) (db_articles db)\<rparr>) w v BulkMethod) (\<lambda>db'.
        Inr (changed + 1, db')))"

definition mark_chunk ::
  "reading_env \<Rightarrow> workspace_id \<Rightarrow> 'd rdb \<Rightarrow> (article_id \<times> u64) list \<Rightarrow> repository_error + 'd rdb" where
  "mark_chunk E w db chunk =
    and_then (try_fold (mark_row E w) (0, db) chunk) (\<lambda>(changed, db').
      if changed \<noteq> length chunk then Inl Conflict else Inr db')"

definition chunk_capacity :: nat where
  "chunk_capacity = 32767"

fun mark_loop ::
  "nat \<Rightarrow> reading_env \<Rightarrow> 'd rdb \<Rightarrow> workspace_id \<Rightarrow> article_scope \<Rightarrow> nat \<Rightarrow> article_id option
    \<Rightarrow> (repository_error + 'd rdb) option" where
  "mark_loop 0 E db w scope n after = None"
| "mark_loop (Suc fuel) E db w scope n after =
    (case mark_batch E db w scope after n of
       [] \<Rightarrow> Some (Inr db)
     | rows \<Rightarrow>
       (case and_then (try_map mark_check rows) (\<lambda>values. try_fold (mark_chunk E w) db (slices chunk_capacity values)) of
          Inl e \<Rightarrow> Some (Inl e)
        | Inr db' \<Rightarrow> mark_loop fuel E db' w scope n (Some (snd (fst (last rows))))))"

definition mark_scope_read_atomic ::
  "nat \<Rightarrow> reading_env \<Rightarrow> 'd rdb \<Rightarrow> workspace_id \<Rightarrow> article_scope \<Rightarrow> nat \<Rightarrow> (repository_error + 'd rdb) option" where
  "mark_scope_read_atomic fuel E db w scope n = mark_loop fuel E db w scope n None"

definition mark_articles_read ::
  "nat \<Rightarrow> 'c repo_env \<Rightarrow> reading_env \<Rightarrow> 'd rdb \<Rightarrow> workspace_id \<Rightarrow> article_scope \<Rightarrow> nat
    \<Rightarrow> (repository_error + 'd rdb) option" where
  "mark_articles_read fuel R E db w scope n =
    (case (case scope_subscription scope of
         None \<Rightarrow> Inr ()
       | Some i \<Rightarrow> and_then (repo_subscription R db i) (\<lambda>s. if sub_workspace s \<noteq> w then Inl NotFound else Inr ())) of
       Inl e \<Rightarrow> Some (Inl e)
     | Inr _ \<Rightarrow> mark_scope_read_atomic fuel E db w scope n)"

section \<open>Focused reading\<close>

definition article_rating_try_from :: "u8 \<Rightarrow> string + u8" where
  "article_rating_try_from v =
    (if 1 \<le> v \<and> v \<le> 10 then Inr v else Inl ''rating must be an integer from 1 to 10'')"

definition rating_reason_try_from :: "string \<Rightarrow> string + string" where
  "rating_reason_try_from v =
    (if list_ex (\<lambda>c. byte_of c = (0::nat)) v then Inl ''rating explanation cannot contain U+0000'' else Inr v)"

definition reading_revision_new :: "u64 \<Rightarrow> string + u64" where
  "reading_revision_new v =
    (if fits_i64 v then Inr v else Inl ''article revision is outside storage range'')"

text \<open>\<open>str::parse::<u64>\<close> accepts an optional plus sign and decimal digits within the range.\<close>

definition parse_u64 :: "string \<Rightarrow> u64 option" where
  "parse_u64 s =
    (let body = (if take 1 s = ''+'' then drop 1 s else s) in
     if body = [] then None
     else Option.bind (digits_value 0 body) (\<lambda>n. if n < 2 ^ 64 then Some (of_nat n) else None))"

definition reading_revision_try_from :: "string \<Rightarrow> string + u64" where
  "reading_revision_try_from value =
    and_then (ok_or (parse_u64 value) ''invalid article revision'') (\<lambda>number.
      if nat_text (unat number) \<noteq> value then Inl ''revision must be an exact decimal integer''
      else reading_revision_new number)"

definition next_revision :: "u64 \<Rightarrow> repository_error + u64" where
  "next_revision current =
    and_then (ok_or (checked_succ current) (Storage ''article revision exhausted'')) (\<lambda>n.
    and_then (storage (reading_revision_new n)) (\<lambda>_. Inr n))"

definition locked_article :: "'a db \<Rightarrow> account_id \<Rightarrow> workspace_id \<Rightarrow> article_id \<Rightarrow> repository_error + article" where
  "locked_article db owner w i =
    (case map_of (db_articles db) (w, i) of
       None \<Rightarrow> Inl NotFound
     | Some (revision, current) \<Rightarrow>
       (case map_of (db_workspaces db) w of
          None \<Rightarrow> Inl NotFound
        | Some (_, ws) \<Rightarrow>
          if ws_owner ws \<noteq> owner then Inl NotFound
          else and_then (to_i64 (art_revision current)) (\<lambda>r.
            if r \<noteq> revision \<or> art_id current \<noteq> i then Inl (Storage ''article revision/identity mismatch'')
            else Inr current)))"

definition snapshot :: "'d rdb \<Rightarrow> workspace_id \<times> article_id \<Rightarrow> article \<Rightarrow> repository_error + reading_state" where
  "snapshot db k a =
    and_then (case map_of (db_ratings db) k of
        None \<Rightarrow> Inr (None, None, None)
      | Some (rating, rated, reason) \<Rightarrow>
        and_then (try_opt (\<lambda>v. storage (article_rating_try_from v)) rating) (\<lambda>rating.
        and_then (try_opt (\<lambda>v. storage (rating_reason_try_from v)) reason) (\<lambda>reason.
        Inr (rating, Some rated, reason)))) (\<lambda>(rating, rated_at, reason).
    and_then (storage (reading_revision_new (art_revision a))) (\<lambda>revision.
    Inr \<lparr>rs_revision = revision, rs_read = as_read (art_state a), rs_rating = rating, rs_rated_at = rated_at,
         rs_reason = reason\<rparr>))"

definition find_receipt ::
  "'d rdb \<Rightarrow> account_id \<Rightarrow> uuid \<Rightarrow> workspace_id \<times> article_id \<Rightarrow> repository_error + reading_receipt option" where
  "find_receipt db owner operation k =
    (case map_of (db_receipts db) (owner, operation) of
       None \<Rightarrow> Inr None
     | Some (stored, receipt) \<Rightarrow> if stored \<noteq> k then Inl Conflict else Inr (Some receipt))"

definition write_article :: "workspace_id \<times> article_id \<Rightarrow> article \<Rightarrow> 'd rdb \<Rightarrow> repository_error + 'd rdb" where
  "write_article k a db =
    and_then (to_i64 (art_revision a)) (\<lambda>revision.
      case map_of (db_articles db) k of
        None \<Rightarrow> Inr db
      | Some _ \<Rightarrow> Inr (db\<lparr>db_articles := put k (revision, a) (db_articles db)\<rparr>))"

definition write_rating :: "workspace_id \<times> article_id \<Rightarrow> reading_state \<Rightarrow> 'd rdb \<Rightarrow> repository_error + 'd rdb" where
  "write_rating k state db =
    (case rs_rated_at state of
       Some rated \<Rightarrow> Inr (db\<lparr>db_ratings := put k (rs_rating state, rated, rs_reason state) (db_ratings db)\<rparr>)
     | None \<Rightarrow>
       if rs_rating state = None \<and> rs_reason state = None then Inr (db\<lparr>db_ratings := del k (db_ratings db)\<rparr>)
       else Inl (Storage ''inconsistent stored rating''))"

definition repo_reading_state ::
  "'d rdb \<Rightarrow> account_id \<Rightarrow> workspace_id \<Rightarrow> article_id \<Rightarrow> repository_error + reading_state" where
  "repo_reading_state db owner w i =
    and_then (locked_article db owner w i) (\<lambda>current. snapshot db (w, i) current)"

text \<open>The part of \<open>complete_reading\<close> after the checks: the article is read, the receipt, the rating and the
  event are written.\<close>

definition commit_completion ::
  "reading_env \<Rightarrow> 'd rdb \<Rightarrow> account_id \<Rightarrow> workspace_id \<times> article_id \<Rightarrow> complete_reading_command \<Rightarrow> article \<Rightarrow> reading_state
    \<Rightarrow> instant \<Rightarrow> repository_error + reading_completion \<times> 'd rdb" where
  "commit_completion E db owner k command current previous now =
    and_then (next_revision (art_revision current)) (\<lambda>revision.
    and_then (storage (reading_revision_new revision)) (\<lambda>stored_revision.
    let read_article = current\<lparr>art_revision := revision, art_state := (art_state current)\<lparr>as_read := True\<rparr>\<rparr>;
        completed = \<lparr>rc_operation_id = cr_operation_id command, rc_article_id = snd k,
          rc_state = \<lparr>rs_revision = stored_revision, rs_read = True, rs_rating = cr_rating command,
            rs_rated_at = Some now, rs_reason = cr_reason command\<rparr>, rc_undone = False\<rparr>;
        receipt = \<lparr>rr_command = command, rr_previous = previous,
          rr_previous_protect_unread = as_protect_unread (art_state current), rr_completed = completed, rr_undone = None\<rparr> in
    if map_of (db_receipts db) (owner, cr_operation_id command) \<noteq> None then Inl Conflict
    else if map_of (db_accounts db) owner = None then Inl (Storage (rd_violation E))
    else and_then (write_article k read_article
        (db\<lparr>db_receipts := put (owner, cr_operation_id command) (k, receipt) (db_receipts db)\<rparr>)) (\<lambda>db1.
    and_then (write_rating k (rc_state completed) db1) (\<lambda>db2.
    and_then (record_read E db2 (fst k) read_article ReaderMethod) (\<lambda>db3.
    Inr (completed, db3))))))"

definition complete_reading ::
  "reading_env \<Rightarrow> 'd rdb \<Rightarrow> account_id \<Rightarrow> workspace_id \<Rightarrow> article_id \<Rightarrow> complete_reading_command \<Rightarrow> instant
    \<Rightarrow> repository_error + reading_completion \<times> 'd rdb" where
  "complete_reading E db owner w i command now =
    and_then (locked_article db owner w i) (\<lambda>current.
    and_then (find_receipt db owner (cr_operation_id command) (w, i)) (\<lambda>found.
    case found of
      Some receipt \<Rightarrow>
        if rr_command receipt \<noteq> command then Inl Conflict
        else Inr (case rr_undone receipt of Some u \<Rightarrow> u | None \<Rightarrow> rr_completed receipt, db)
    | None \<Rightarrow>
      if art_revision current \<noteq> cr_expected_revision command \<or> as_read (art_state current) then Inl Conflict
      else and_then (snapshot db (w, i) current) (\<lambda>previous.
        commit_completion E db owner (w, i) command current previous now)))"

definition undo_reading ::
  "'d rdb \<Rightarrow> account_id \<Rightarrow> workspace_id \<Rightarrow> article_id \<Rightarrow> uuid \<Rightarrow> repository_error + reading_completion \<times> 'd rdb" where
  "undo_reading db owner w i operation =
    and_then (locked_article db owner w i) (\<lambda>current.
    and_then (find_receipt db owner operation (w, i)) (\<lambda>found.
    and_then (ok_or found NotFound) (\<lambda>receipt.
    case rr_undone receipt of
      Some result \<Rightarrow> Inr (result, db)
    | None \<Rightarrow>
      if art_revision current \<noteq> rs_revision (rc_state (rr_completed receipt)) then Inl Conflict
      else and_then (next_revision (art_revision current)) (\<lambda>revision.
      and_then (storage (reading_revision_new revision)) (\<lambda>stored_revision.
      let undone_article = current\<lparr>art_revision := revision, art_state := (art_state current)
            \<lparr>as_read := rs_read (rr_previous receipt), as_protect_unread := rr_previous_protect_unread receipt\<rparr>\<rparr>;
          result = \<lparr>rc_operation_id = operation, rc_article_id = i,
            rc_state = (rr_previous receipt)\<lparr>rs_revision := stored_revision\<rparr>, rc_undone = True\<rparr> in
      and_then (write_article (w, i) undone_article db) (\<lambda>db1.
      and_then (write_rating (w, i) (rc_state result) db1) (\<lambda>db2.
      Inr (result, db2\<lparr>db_receipts := put (owner, operation) ((w, i), receipt\<lparr>rr_undone := Some result\<rparr>)
        (db_receipts db2)\<rparr>))))))))"

section \<open>The conditional save as a revisioned store\<close>

lemma record_read_Inr:
  "record_read E db w v method = Inr db' \<longleftrightarrow> fits_i64 (art_revision v)
    \<and> \<not> list_ex (\<lambda>(w', i, r, _). w' = w \<and> i = art_id v \<and> r = art_revision v) (db_read_events db)
    \<and> db' = db\<lparr>db_read_events := db_read_events db @ [(w, art_id v, art_revision v, method)]\<rparr>"
  by (auto simp: record_read_def)

lemma save_article_Inr:
  assumes "save_article E db w (Some e) v = Inr db'"
  shows "fits_i64 e \<and> fits_i64 (art_revision v) \<and> (\<exists>old. map_of (db_articles db) (w, art_id v) = Some (e, old))
    \<and> db_articles db' = put (w, art_id v) (art_revision v, v) (db_articles db)"
  using assms by (auto simp: save_article_def Let_def record_read_Inr split: if_splits)

interpretation art_store: revisioned_store
  "\<lambda>db e v. save_article E db w (Some e) v" "\<lambda>db i. map_of (db_articles db) (w, i)" art_id art_revision for E w
  by unfold_locales (auto dest!: save_article_Inr)

end
