(* ===== verification/Reading_Runs.thy ===== *)
theory Reading_Runs
  imports Reading Catalog_Runs Rule_Runs
begin

text \<open>
  What reading guarantees: pages list a scope completely, marking a scope read marks exactly that scope,
  commands on articles do not lose each other's changes, and a completion can be undone and repeated.
\<close>

section \<open>Pages\<close>

definition row_article :: "article_row \<Rightarrow> article" where
  "row_article row = snd (snd row)"

definition newest_first :: "reading_env \<Rightarrow> 'd rdb \<Rightarrow> workspace_id \<Rightarrow> page_request \<Rightarrow> article_row list" where
  "newest_first E db w r = rev (sort_key (row_key E) (selected E db w (pr_scope r) (pr_commit_project r)))"

lemma newest_first_props:
  assumes "readable_rows E db"
  shows "mset (newest_first E db w r) = mset (selected E db w (pr_scope r) (pr_commit_project r))"
    and "sorted_wrt (\<lambda>x y. row_key E y < row_key E x) (newest_first E db w r)"
    and "set (newest_first E db w r) \<subseteq> set (db_articles db)"
  using older.arrange_sorted [OF selected_keys [OF assms]] by (auto simp: newest_first_def selected_def)

lemma older_page_eq:
  assumes "try_opt (cursor_key E) (pr_cursor r) = Inr key" and "pr_direction r = Older"
  shows "\<exists>p. article_summary_page E db w r = Inr p
    \<and> ap_articles p = map row_article (take (pr_limit r) (page_rows E (selected E db w (pr_scope r) (pr_commit_project r)) Older key (pr_limit r + 1)))
    \<and> (ap_has_older p \<longleftrightarrow> pr_limit r < length (page_rows E (selected E db w (pr_scope r) (pr_commit_project r)) Older key (pr_limit r + 1)))
    \<and> ap_total p = length (selected E db w (pr_scope r) (pr_commit_project r))"
  using assms unfolding article_summary_page_def Let_def lookahead_def row_article_def
  by (auto simp: case_prod_unfold)

lemma older_pages_walk:
  assumes readable: "readable_rows E db" and "pr_direction r = Older"
    and "try_opt (cursor_key E) (pr_cursor r) = Inr key"
  shows "older_pages fuel E db w r = Inr (map row_article (walk_pages fuel
      (\<lambda>c. let p = page_rows E (selected E db w (pr_scope r) (pr_commit_project r)) Older c (pr_limit r + 1)
           in (take (pr_limit r) p, pr_limit r < length p)) (row_key E) key))"
  using assms(2,3)
proof (induction fuel arbitrary: r key)
  case (Suc fuel)
  let ?rows = "page_rows E (selected E db w (pr_scope r) (pr_commit_project r)) Older key (pr_limit r + 1)"
  obtain p where p: "article_summary_page E db w r = Inr p"
      "ap_articles p = map row_article (take (pr_limit r) ?rows)" "ap_has_older p \<longleftrightarrow> pr_limit r < length ?rows"
    using older_page_eq [OF Suc.prems(2,1)] by metis
  show ?case
  proof (cases "pr_limit r < length ?rows \<and> take (pr_limit r) ?rows \<noteq> []")
    case True
    let ?last = "last (take (pr_limit r) ?rows)"
    have "?last \<in> set (take (pr_limit r) ?rows)" using True by (intro last_in_set) simp
    then have "?last \<in> set ?rows" by (rule in_set_takeD)
    then have "?last \<in> set (db_articles db)"
      by (auto simp: page_rows_def selected_def dest!: in_set_takeD)
    then have "cursor_key E (cursor_of (row_article ?last)) = Inr (row_key E ?last)"
      using cursor_key_of [OF readable, of "fst ?last" "fst (snd ?last)" "row_article ?last"] by (simp add: row_article_def)
    moreover have "last (ap_articles p) = row_article ?last" using True p(2) by (simp add: last_map)
    ultimately show ?thesis
      using True p Suc.IH [of "r\<lparr>pr_cursor := Some (cursor_of (row_article ?last))\<rparr>" "Some (row_key E ?last)"] Suc.prems
      by (simp add: Let_def)
  next
    case False
    then have "\<not> (ap_has_older p \<and> ap_articles p \<noteq> [])" using p by auto
    then show ?thesis using False p by (auto simp: Let_def)
  qed
qed simp

text \<open>C24. Paging lists a whole scope: a client that starts at the newest page and follows the cursor of the
  last article it saw, with any page size, gets every article of the scope exactly once, newest first, and
  the walk ends; the total on the first page is the number of articles it gets.\<close>

theorem pages_cover_scope:
  assumes "readable_rows E db" and "page_request_new scope None Older n = Inr r" and "selection_limit_new n = Inr n"
  shows "\<exists>articles p. older_pages (Suc (length (selected E db w scope None))) E db w r = Inr articles
    \<and> mset articles = mset (map row_article (selected E db w scope None))
    \<and> sorted_wrt (\<lambda>a b. (arrival_order E b, art_id b) < (arrival_order E a, art_id a)) articles
    \<and> article_summary_page E db w r = Inr p \<and> ap_total p = length articles"
proof -
  have r: "pr_direction r = Older" "pr_cursor r = None" "pr_scope r = scope" "pr_limit r = n" "pr_commit_project r = None"
    using assms(2) by (auto simp: page_request_new_def)
  have n: "0 < n" using assms(3) by (auto simp: selection_limit_new_def split: if_splits)
  let ?rows = "newest_first E db w r"
  have "older_pages (Suc (length (selected E db w scope None))) E db w r = Inr (map row_article ?rows)"
    using older_pages_walk [OF assms(1) r(1), where key = None] r
      older.walk_all [OF selected_keys [OF assms(1)] n, of w scope None]
    by (simp add: Let_def newest_first_def)
  moreover have "mset (map row_article ?rows) = mset (map row_article (selected E db w scope None))"
    using newest_first_props(1) [OF assms(1), of w r] r by simp
  moreover have "sorted_wrt (\<lambda>a b. (arrival_order E b, art_id b) < (arrival_order E a, art_id a)) (map row_article ?rows)"
  proof -
    have key: "row_key E x = (arrival_order E (row_article x), art_id (row_article x))" if "x \<in> set ?rows" for x
      using newest_first_props(3) [OF assms(1)] that assms(1)
      by (fastforce simp: readable_rows_def row_key_def row_article_def)
    have "sorted_wrt (\<lambda>x y. (arrival_order E (row_article y), art_id (row_article y)) < (arrival_order E (row_article x), art_id (row_article x))) ?rows"
      by (rule sorted_wrt_mono_rel [OF _ newest_first_props(2) [OF assms(1)]]) (use key in force)
    then show ?thesis by (simp add: sorted_wrt_map)
  qed
  moreover obtain p where "article_summary_page E db w r = Inr p" "ap_total p = length (selected E db w scope None)"
    using older_page_eq [of E r None db w] r by auto
  moreover have "length (map row_article ?rows) = length (selected E db w scope None)"
    using mset_eq_length [OF newest_first_props(1) [OF assms(1), of w r]] r by simp
  ultimately show ?thesis by (intro exI [of _ "map row_article ?rows"] exI [of _ p]) simp
qed

text \<open>The way back: newer than an article come the articles that precede it in the list, and of these the
  ones next to it.\<close>

lemma newer_page_precedes:
  assumes "readable_rows E db" and "newest_first E db w r = ys @ z # zs"
    and "pr_direction r = Newer" and "pr_cursor r = Some (cursor_of (row_article z))"
  shows "\<exists>p. article_summary_page E db w r = Inr p
    \<and> ap_articles p = map row_article (drop (length ys - pr_limit r) ys)
    \<and> (ap_has_newer p \<longleftrightarrow> pr_limit r < length ys) \<and> ap_has_older p"
proof -
  have z: "z \<in> set (db_articles db)" using newest_first_props(3) [OF assms(1), of w r] assms(2) by auto
  have "sort_key (row_key E) (selected E db w (pr_scope r) (pr_commit_project r)) = rev (newest_first E db w r)"
    by (simp add: newest_first_def)
  also have "\<dots> = rev zs @ z # rev ys" using assms(2) by simp
  finally have page: "page_rows E (selected E db w (pr_scope r) (pr_commit_project r)) Newer (Some (row_key E z)) m = take m (rev ys)" for m
    by (rule newer.page_after [OF selected_keys [OF assms(1)]])
  have near: "length ys - (length ys - Suc n + n) + (length ys - Suc n) = length ys - n" for n by linarith
  have "cursor_key E (cursor_of (row_article z)) = Inr (row_key E z)"
    using cursor_key_of [OF assms(1), of "fst z" "fst (snd z)" "row_article z"] z by (simp add: row_article_def)
  then show ?thesis
    using assms(3,4) page unfolding article_summary_page_def Let_def lookahead_def row_article_def
    by (auto simp: case_prod_unfold rev_map take_rev near)
qed

section \<open>Marking a scope read\<close>

text \<open>The stored revision is the one of the document, and no read event lies ahead of its article.\<close>

definition consistent_row :: "'a db \<Rightarrow> article_row \<Rightarrow> bool" where
  "consistent_row db row \<longleftrightarrow>
    (case row of ((w, i), e, a) \<Rightarrow> i = art_id a \<and> e = art_revision a \<and> unat e < i64_max
      \<and> (\<forall>(w', i', r, _) \<in> set (db_read_events db). w' = w \<and> i' = i \<longrightarrow> r \<le> e))"

definition consistent_articles :: "'a db \<Rightarrow> bool" where
  "consistent_articles db \<longleftrightarrow>
    distinct (map fst (db_articles db)) \<and> (\<forall>row \<in> set (db_articles db). consistent_row db row)"

definition read_row :: "article_row \<Rightarrow> article_row" where
  "read_row row =
    (case row of (k, e, a) \<Rightarrow>
      (k, e + 1, a\<lparr>art_state := (art_state a)\<lparr>as_read := True\<rparr>, art_revision := art_revision a + 1\<rparr>))"

definition bulk_event :: "article_row \<Rightarrow> workspace_id \<times> article_id \<times> u64 \<times> read_method" where
  "bulk_event row = (case row of ((w, i), _, a) \<Rightarrow> (w, i, art_revision a + 1, BulkMethod))"

definition mark_rows :: "'d rdb \<Rightarrow> article_row list \<Rightarrow> 'd rdb" where
  "mark_rows db ds =
    db\<lparr>db_articles := map (\<lambda>row. if row \<in> set ds then read_row row else row) (db_articles db),
       db_read_events := db_read_events db @ map bulk_event ds\<rparr>"

definition scope_rows :: "reading_env \<Rightarrow> 'd rdb \<Rightarrow> workspace_id \<Rightarrow> article_scope \<Rightarrow> article_row list" where
  "scope_rows E db w scope = sort_key (\<lambda>row. snd (fst row)) (filter (markable E db w scope) (db_articles db))"

lemma read_row_simps [simp]:
  "fst (read_row row) = fst row" "row_url (read_row row) = row_url row" "row_title (read_row row) = row_title row"
  "row_key E (read_row row) = row_key E row" "row_read (read_row row)" "row_later (read_row row) = row_later row"
  by (cases row; simp add: read_row_def row_url_def row_title_def row_key_def arrival_order_def row_read_def row_later_def split: prod.splits)+

lemma mark_rows_simps [simp]:
  "db_articles (mark_rows db ds) = map (\<lambda>row. if row \<in> set ds then read_row row else row) (db_articles db)"
  "db_read_events (mark_rows db ds) = db_read_events db @ map bulk_event ds"
  "db_origins (mark_rows db ds) = db_origins db" "db_manifests (mark_rows db ds) = db_manifests db"
  "db_source_records (mark_rows db ds) = db_source_records db" "db_preferences (mark_rows db ds) = db_preferences db"
  by (simp_all add: mark_rows_def)

lemma display_url_mark [simp]:
  "reader_display_url (mark_rows db ds) row = reader_display_url db row"
  "reader_display_url db (read_row row) = reader_display_url db row"
  by (simp_all add: reader_display_url_def article_origins_def Let_def)

lemma same_story_mark [simp]:
  "same_story (mark_rows db ds) prior row = same_story db prior row"
  "same_story db (read_row prior) row = same_story db prior row"
  by (simp_all add: same_story_def)

lemma same_story_sym: "same_story db prior row \<Longrightarrow> same_story db row prior"
  by (auto simp: same_story_def)

lemma hidden_url_mark [simp]: "hidden_url (mark_rows db ds) p row = hidden_url db p row"
  by (simp add: hidden_url_def career_origin_def [abs_def] article_origins_def split: option.splits)

lemma delivered_by_mark [simp]: "delivered_by (mark_rows db ds) row sub = delivered_by db row sub"
  by (simp add: delivered_by_def split: option.splits)

lemma duplicate_row_mark:
  "duplicate_row E (mark_rows db ds) row \<longleftrightarrow>
    (\<exists>prior \<in> set (db_articles db). same_story db prior row
      \<and> (row_read prior \<or> prior \<in> set ds \<or> row_key E prior < row_key E row))"
  unfolding duplicate_row_def list_ex_iff mark_rows_simps set_map bex_simps(7)
  by (rule bex_cong [OF refl]) auto

text \<open>Of two copies of a story only the earlier one is visible, so marking visible articles read hides no
  visible article and shows none.\<close>

lemma visible_mark:
  assumes "row \<in> set (db_articles db)" and "set ds \<subseteq> set (db_articles db)"
    and "\<And>d. d \<in> set ds \<Longrightarrow> reader_article_visible E db d"
  shows "reader_article_visible E (mark_rows db ds) row = reader_article_visible E db row"
proof -
  have "duplicate_row E (mark_rows db ds) row = duplicate_row E db row"
    if p: "map_of (db_preferences db) (fst (fst row)) = Some p" "rp_skip_duplicates p" for p
  proof
    assume "duplicate_row E db row"
    then show "duplicate_row E (mark_rows db ds) row"
      unfolding duplicate_row_mark by (auto simp: duplicate_row_def list_ex_iff)
  next
    assume "duplicate_row E (mark_rows db ds) row"
    then obtain prior where prior: "prior \<in> set (db_articles db)" "same_story db prior row"
      "row_read prior \<or> prior \<in> set ds \<or> row_key E prior < row_key E row" by (auto simp: duplicate_row_mark)
    have distinct_keys: "row_key E prior \<noteq> row_key E row"
      using prior(2) by (auto simp: same_story_def row_key_def split: prod.splits)
    show "duplicate_row E db row"
    proof (cases "row_read prior \<or> row_key E prior < row_key E row")
      case True
      then show ?thesis using prior by (auto simp: duplicate_row_def list_ex_iff)
    next
      case False
      then have "row_key E row < row_key E prior" using distinct_keys by (meson linorder_neqE)
      then have "duplicate_row E db prior"
        using assms(1) same_story_sym [OF prior(2)] by (auto simp: duplicate_row_def list_ex_iff)
      moreover have "prior \<in> set ds" using prior(3) False by blast
      moreover have "fst (fst prior) = fst (fst row)" using prior(2) by (simp add: same_story_def)
      ultimately show ?thesis using assms(3) [of prior] p by (simp add: reader_article_visible_def)
    qed
  qed
  then show ?thesis by (auto simp: reader_article_visible_def split: option.splits)
qed

lemma markable_mark:
  assumes row: "row \<in> set (db_articles db)" and ds: "set ds \<subseteq> set (filter (markable E db w scope) (db_articles db))"
  shows "markable E (mark_rows db ds) w scope (if row \<in> set ds then read_row row else row)
    \<longleftrightarrow> markable E db w scope row \<and> row \<notin> set ds"
proof (cases "row \<in> set ds")
  case False
  have "reader_article_visible E (mark_rows db ds) row = reader_article_visible E db row"
    if "\<not> (case scope of SubscriptionScope _ \<Rightarrow> True | _ \<Rightarrow> False)"
    by (rule visible_mark [OF row]) (use ds that in \<open>auto simp: markable_def\<close>)
  then show ?thesis using False by (auto simp: markable_def)
qed (simp add: markable_def)

lemma filter_map_fixed:
  assumes "\<And>x. x \<in> set xs \<Longrightarrow> P (f x) = Q x" and "\<And>x. x \<in> set xs \<Longrightarrow> Q x \<Longrightarrow> f x = x"
  shows "filter P (map f xs) = filter Q xs"
  using assms by (induction xs) auto

lemma scope_rows_mark:
  assumes "set ds \<subseteq> set (filter (markable E db w scope) (db_articles db))"
  shows "scope_rows E (mark_rows db ds) w scope = filter (\<lambda>row. row \<notin> set ds) (scope_rows E db w scope)"
proof -
  have "filter (markable E (mark_rows db ds) w scope) (db_articles (mark_rows db ds))
    = filter (\<lambda>row. markable E db w scope row \<and> row \<notin> set ds) (db_articles db)"
    unfolding mark_rows_simps by (rule filter_map_fixed) (use markable_mark [OF _ assms] in auto)
  then show ?thesis by (simp add: scope_rows_def filter_sort conj_commute)
qed

lemma scope_rows_props:
  assumes "distinct (map fst (db_articles db))"
  shows "set (scope_rows E db w scope) = set (filter (markable E db w scope) (db_articles db))"
    and "sorted_wrt (\<lambda>x y. snd (fst x) < snd (fst y)) (scope_rows E db w scope)"
proof -
  have d: "distinct (map fst (filter (markable E db w scope) (db_articles db)))" using assms by (rule distinct_map_filter)
  have "inj_on (\<lambda>row. snd (fst row)) (set (filter (markable E db w scope) (db_articles db)))"
  proof (rule inj_onI)
    fix x y
    assume *: "x \<in> set (filter (markable E db w scope) (db_articles db))"
      "y \<in> set (filter (markable E db w scope) (db_articles db))" "snd (fst x) = snd (fst y)"
    then have "fst x = fst y" by (auto simp: markable_def prod_eq_iff)
    moreover have "inj_on fst (set (filter (markable E db w scope) (db_articles db)))" using d distinct_map by blast
    ultimately show "x = y" using * by (blast dest: inj_onD)
  qed
  then have "distinct (map (\<lambda>row. snd (fst row)) (filter (markable E db w scope) (db_articles db)))"
    using d by (simp add: distinct_map)
  from sorted_wrt_sort_key_strict [OF this] show "sorted_wrt (\<lambda>x y. snd (fst x) < snd (fst y)) (scope_rows E db w scope)"
    by (simp add: scope_rows_def)
qed (simp add: scope_rows_def)

text \<open>After the rows \<open>ds\<close> of the scope have been marked, the next batch is the next of the scope.\<close>

lemma mark_batch_next:
  assumes "distinct (map fst (db_articles db))" and split: "scope_rows E db w scope = ds @ rest"
    and after: "after = (if ds = [] then None else Some (snd (fst (last ds))))"
  shows "mark_batch E (mark_rows db ds) w scope after n = take n rest"
proof -
  note props = scope_rows_props [OF assms(1), of E w scope, unfolded split]
  have less: "snd (fst x) < snd (fst y)" if "x \<in> set ds" "y \<in> set rest" for x y
    using props(2) that by (simp add: sorted_wrt_append)
  have "set ds \<subseteq> set (filter (markable E db w scope) (db_articles db))" using props(1) by auto
  from scope_rows_mark [OF this] have "scope_rows E (mark_rows db ds) w scope = filter (\<lambda>row. row \<notin> set ds) (ds @ rest)"
    using split by simp
  also have "\<dots> = rest" using less [of x x for x] by (auto simp: filter_empty_conv intro!: filter_True)
  finally have rest: "scope_rows E (mark_rows db ds) w scope = rest" .
  have "filter (\<lambda>row. case after of None \<Rightarrow> True | Some i \<Rightarrow> i < snd (fst row)) rest = rest"
    using less [OF last_in_set] after by (auto intro!: filter_True)
  then show ?thesis using rest by (simp add: mark_batch_def scope_rows_def)
qed

lemma put_row:
  assumes "distinct (map fst xs)" and "x \<in> set xs"
  shows "put (fst x) v xs = map (\<lambda>y. if y = x then (fst x, v) else y) xs"
  using assms
proof (induction xs)
  case (Cons y ys)
  then show ?case
  proof (cases "fst y = fst x")
    case True
    then have "y = x" using Cons.prems by (auto simp: image_iff)
    moreover have "map (\<lambda>y. if y = x then (fst x, v) else y) ys = ys"
      using Cons.prems True by (intro map_idI) (auto simp: image_iff)
    ultimately show ?thesis by (simp add: put_def)
  next
    case False
    then show ?thesis using Cons by (cases y) (auto simp: put_def)
  qed
qed simp

lemma mark_row_step:
  assumes cons: "consistent_articles db" and row: "row \<in> set (db_articles db)" "row \<notin> set ds" "\<not> row_read row" "fst (fst row) = w"
    and ds: "set ds \<subseteq> set (db_articles db)"
  shows "mark_row E w (c, mark_rows db ds) (snd (fst row), art_revision (row_article row) + 1)
    = Inr (Suc c, mark_rows db (ds @ [row]))"
proof -
  obtain i e a where split: "row = ((w, i), e, a)" using row(4) by (cases row) auto
  have dist: "distinct (map fst (db_articles db))" and ok: "consistent_row db row"
    using cons row(1) by (auto simp: consistent_articles_def)
  have e: "i = art_id a" "e = art_revision a" "unat e < i64_max" using ok split by (auto simp: consistent_row_def)
  have keys: "map fst (map (\<lambda>row. if row \<in> set ds then read_row row else row) (db_articles db)) = map fst (db_articles db)"
    by (simp add: comp_def)
  have table: "distinct (map fst (db_articles (mark_rows db ds)))" "row \<in> set (db_articles (mark_rows db ds))"
    using keys dist row by (simp_all only: mark_rows_simps) auto
  have found: "map_of (db_articles (mark_rows db ds)) (w, i) = Some (e, a)"
    by (rule map_of_is_SomeI) (use table split in simp_all)
  let ?v = "a\<lparr>art_state := (art_state a)\<lparr>as_read := True\<rparr>, art_revision := e + 1\<rparr>"
  have put: "put (w, i) (e + 1, ?v) (db_articles (mark_rows db ds)) = db_articles (mark_rows db (ds @ [row]))"
  proof -
    have "put (w, i) (e + 1, ?v) (db_articles (mark_rows db ds))
      = map (\<lambda>y. if y = row then ((w, i), e + 1, ?v) else y) (db_articles (mark_rows db ds))"
      using put_row [OF table, of "(e + 1, ?v)"] unfolding split fst_conv .
    also have "\<dots> = db_articles (mark_rows db (ds @ [row]))"
    proof -
      have "read_row y \<noteq> row" for y using row(3) read_row_simps(5) [of y] by metis
      then show ?thesis using split row(2) e by (auto simp: read_row_def)
    qed
    finally show ?thesis .
  qed
  have fits: "fits_i64 (e + 1)" and less: "e < e + 1"
    using e(3) fits_i64_unat_succ [of e] fits_i64_less_succ [of e] by (simp_all add: fits_i64_def)
  have fresh: "\<not> list_ex (\<lambda>(w', i', r, _). w' = w \<and> i' = i \<and> r = e + 1) (db_read_events (mark_rows db ds))"
  proof -
    have "\<not> (w' = w \<and> i' = i \<and> r = e + 1)" if "(w', i', r, m) \<in> set (db_read_events db)" for w' i' r m
      using ok split that less by (fastforce simp: consistent_row_def)
    moreover have "(w', i') \<noteq> (w, i)" if "(w', i', r, m) \<in> set (map bulk_event ds)" for w' i' r m
    proof
      assume "(w', i') = (w, i)"
      with that obtain d where d: "d \<in> set ds" "fst d = fst row" using split by (auto simp: bulk_event_def)
      then have "d = row" using dist ds row(1) by (metis (no_types) eq_key_imp_eq_value prod.collapse subsetD)
      with d row(2) show False by simp
    qed
    ultimately show ?thesis by (fastforce simp: list_ex_iff)
  qed
  have "record_read E (mark_rows db ds\<lparr>db_articles := db_articles (mark_rows db (ds @ [row]))\<rparr>) w ?v BulkMethod
    = Inr (mark_rows db (ds @ [row]))"
    using fits fresh e(1,2) split by (simp add: record_read_def to_i64_def mark_rows_def bulk_event_def)
  then show ?thesis
    using found put row(3) split e(2) by (simp add: mark_row_def row_article_def row_read_def Let_def)
qed

abbreviation marking :: "article_row \<Rightarrow> article_id \<times> u64" where
  "marking row \<equiv> (snd (fst row), art_revision (row_article row) + 1)"

lemma mark_check_ok:
  assumes "consistent_row db row" and "\<not> row_read row"
  shows "mark_check row = Inr (marking row)"
proof -
  obtain w i e a where row: "row = ((w, i), e, a)" by (cases row) auto
  have e: "unat e < i64_max" "i = art_id a" "e = art_revision a" using assms(1) row by (auto simp: consistent_row_def)
  then have "fits_i64 e" "fits_i64 (e + 1)" "e \<noteq> - 1"
    using fits_i64_unat_succ [of e] fits_i64_not_max [of e] by (auto simp: fits_i64_def)
  then show ?thesis
    using assms(2) e row by (simp add: mark_check_def row_read_def to_i64_def checked_succ_def row_article_def)
qed

lemma try_map_all_ok: "(\<And>x. x \<in> set xs \<Longrightarrow> f x = Inr (g x)) \<Longrightarrow> try_map f xs = Inr (map g xs)"
  by (induction xs) auto

lemma slices_map: "slices n (map f xs) = map (map f) (slices n xs)"
proof (induction n xs rule: slices.induct)
  case (1 n xs)
  then show ?case by (subst (1 2) slices.simps) (auto simp: take_map drop_map)
qed

definition unread_of :: "workspace_id \<Rightarrow> 'a db \<Rightarrow> article_row list \<Rightarrow> bool" where
  "unread_of w db rows \<longleftrightarrow>
    distinct rows \<and> (\<forall>row \<in> set rows. row \<in> set (db_articles db) \<and> \<not> row_read row \<and> fst (fst row) = w)"

lemma unread_of_append [simp]:
  "unread_of w db (xs @ ys) \<longleftrightarrow> unread_of w db xs \<and> unread_of w db ys \<and> set xs \<inter> set ys = {}"
  by (auto simp: unread_of_def)

lemma mark_rows_fold:
  assumes "consistent_articles db" and "unread_of w db (ds @ rows)"
  shows "try_fold (mark_row E w) (c, mark_rows db ds) (map marking rows)
    = Inr (c + length rows, mark_rows db (ds @ rows))"
  using assms(2)
proof (induction rows arbitrary: c ds)
  case (Cons row rows)
  have "mark_row E w (c, mark_rows db ds) (marking row) = Inr (Suc c, mark_rows db (ds @ [row]))"
    by (rule mark_row_step [OF assms(1)]) (use Cons.prems in \<open>auto simp: unread_of_def\<close>)
  then show ?case using Cons.IH [of "ds @ [row]" "Suc c"] Cons.prems by simp
qed simp

lemma mark_chunks:
  assumes "consistent_articles db" and "unread_of w db (ds @ concat parts)"
  shows "try_fold (mark_chunk E w) (mark_rows db ds) (map (map marking) parts) = Inr (mark_rows db (ds @ concat parts))"
  using assms(2)
proof (induction parts arbitrary: ds)
  case (Cons part parts)
  have "mark_chunk E w (mark_rows db ds) (map marking part) = Inr (mark_rows db (ds @ part))"
    using mark_rows_fold [OF assms(1), of w ds part E 0] Cons.prems
    by (auto simp: mark_chunk_def Int_Un_distrib)
  then show ?case using Cons.IH [of "ds @ part"] Cons.prems by simp
qed simp

lemma mark_loop_rest:
  assumes cons: "consistent_articles db" and "0 < n" and "scope_rows E db w scope = ds @ rest" and "length rest < fuel"
    and "after = (if ds = [] then None else Some (snd (fst (last ds))))"
  shows "mark_loop fuel E (mark_rows db ds) w scope n after = Some (Inr (mark_rows db (scope_rows E db w scope)))"
  using assms(3-5)
proof (induction fuel arbitrary: ds rest after)
  case (Suc fuel)
  have dist: "distinct (map fst (db_articles db))" using cons by (simp add: consistent_articles_def)
  note props = scope_rows_props [OF dist, of E w scope]
  have "distinct (scope_rows E db w scope)"
    using dist by (simp add: scope_rows_def distinct_map)
  then have unread: "unread_of w db (ds @ rest)"
    using props(1) Suc.prems(1) by (auto simp: unread_of_def markable_def)
  have batch: "mark_batch E (mark_rows db ds) w scope after n = take n rest"
    by (rule mark_batch_next [OF dist Suc.prems(1,3)])
  show ?case
  proof (cases "take n rest = []")
    case True
    then show ?thesis using batch Suc.prems(1) assms(2) by simp
  next
    case False
    let ?rows = "take n rest"
    have rest: "unread_of w db (ds @ ?rows)" using unread by (auto simp: unread_of_def dest: in_set_takeD)
    have "try_map mark_check ?rows = Inr (map marking ?rows)"
      by (rule try_map_all_ok [OF mark_check_ok]) (use cons rest in \<open>auto simp: consistent_articles_def unread_of_def\<close>)
    moreover have "try_fold (mark_chunk E w) (mark_rows db ds) (slices chunk_capacity (map marking ?rows))
      = Inr (mark_rows db (ds @ ?rows))"
      using mark_chunks [OF cons, of w ds "slices chunk_capacity ?rows"] rest
      by (simp add: slices_map concat_slices chunk_capacity_def)
    moreover have "mark_loop fuel E (mark_rows db (ds @ ?rows)) w scope n (Some (snd (fst (last ?rows))))
      = Some (Inr (mark_rows db (scope_rows E db w scope)))"
    proof (rule Suc.IH [of _ "drop n rest"])
      show "length (drop n rest) < fuel" using Suc.prems(2) False assms(2) by (cases rest) auto
    qed (use Suc.prems False in auto)
    ultimately show ?thesis using batch False by (auto split: list.splits simp del: take_eq_Nil take_eq_Nil2)
  qed
qed simp

text \<open>C25. Marking a scope read marks exactly that scope, whatever the size of the batches: the transaction
  succeeds, every article that was unread and selected when it began is read with the next revision and one
  read event, and no other row of the database changes.\<close>

theorem mark_scope_read_exact:
  assumes "consistent_articles db" and "selection_limit_new n = Inr n"
  shows "mark_scope_read_atomic (Suc (length (db_articles db))) E db w scope n
    = Some (Inr (db\<lparr>db_articles := map (\<lambda>row. if markable E db w scope row then read_row row else row) (db_articles db),
        db_read_events := db_read_events db @ map bulk_event (scope_rows E db w scope)\<rparr>))"
proof -
  have n: "0 < n" using assms(2) by (auto simp: selection_limit_new_def split: if_splits)
  have "length (scope_rows E db w scope) \<le> length (db_articles db)" by (simp add: scope_rows_def)
  then have "mark_loop (Suc (length (db_articles db))) E (mark_rows db []) w scope n None
    = Some (Inr (mark_rows db (scope_rows E db w scope)))"
    by (intro mark_loop_rest [OF assms(1) n, of E w scope "[]" "scope_rows E db w scope"]) simp_all
  moreover have "mark_rows db [] = db" by (simp add: mark_rows_def)
  moreover have "map (\<lambda>row. if row \<in> set (scope_rows E db w scope) then read_row row else row) (db_articles db)
    = map (\<lambda>row. if markable E db w scope row then read_row row else row) (db_articles db)"
    by (rule map_cong) (simp_all add: scope_rows_def)
  ultimately show ?thesis by (simp add: mark_scope_read_atomic_def mark_rows_def)
qed

section \<open>Two articles\<close>

definition demo_reading_env :: reading_env where
  "demo_reading_env =
    \<lparr>rd_stored = (\<lambda>t. if t = 0 then ''2024-01-01T00:00:00Z'' else ''2024-01-02T00:00:00Z''),
     rd_nanos = (\<lambda>t. if t = 0 then ''2024-01-01T00:00:00.000000000Z'' else ''2024-01-02T00:00:00.000000000Z''),
     rd_duplicate = [], rd_violation = []\<rparr>"

definition demo_read_article :: "article_id \<Rightarrow> instant \<Rightarrow> article" where
  "demo_read_article i t =
    \<lparr>art_id = i, art_key = \<lparr>dk_location = SourceRecordLocation 1 ''a'', dk_title = ''T'', dk_description = None\<rparr>,
     art_state = \<lparr>as_read = False, as_later = False, as_protect_unread = False\<rparr>, art_first_arrived_at = t,
     art_origins = [], art_revision = 3\<rparr>"

definition demo_reading_db :: reading_db where
  "demo_reading_db = subscription_db.extend
    (demo_store_db\<lparr>db_articles := [((2, 50), 3, demo_read_article 50 0), ((2, 51), 3, demo_read_article 51 1)],
       db_accounts := [(9, 0, \<lparr>acc_id = 9, acc_username = [], acc_password_hash = [], acc_admin = False,
         acc_auth_revision = 0, acc_revision = 0\<rparr>)]\<rparr>)
    (reading_db.fields [] [] [])"

lemma demo_reading_tables:
  "db_articles demo_reading_db = [((2, 50), 3, demo_read_article 50 0), ((2, 51), 3, demo_read_article 51 1)]"
  "db_preferences demo_reading_db = []" "db_read_events demo_reading_db = []" "db_receipts demo_reading_db = []"
  "db_ratings demo_reading_db = []" "db_workspaces demo_reading_db = [(2, 0, workspace_new 2 9 ''W'')]"
  "db_rules demo_reading_db = []" "map_of (db_accounts demo_reading_db) 9 \<noteq> None"
  by (simp_all add: demo_reading_db_def subscription_db.defs reading_db.defs demo_store_db_def)

lemma demo_arrival:
  "reader_arrival_order ''2024-01-01T00:00:00Z'' = Inr 20240101000000000000000"
  "reader_arrival_order ''2024-01-02T00:00:00Z'' = Inr 20240102000000000000000"
  "reader_arrival_order ''2024-01-01T00:00:00.000000000Z'' = Inr 20240101000000000000000"
  "reader_arrival_order ''2024-01-02T00:00:00.000000000Z'' = Inr 20240102000000000000000"
  by code_simp+

lemma demo_readable: "readable_rows demo_reading_env demo_reading_db"
  by (simp add: readable_rows_def demo_reading_tables demo_reading_env_def demo_read_article_def arrival_order_def demo_arrival)

lemma demo_selected: "selected demo_reading_env demo_reading_db 2 FeedScope None = db_articles demo_reading_db"
  by (simp add: selected_def delivered_by_def reader_article_visible_def commit_matches_def demo_reading_tables row_read_def
      demo_read_article_def)

definition demo_request :: page_request where
  "demo_request = \<lparr>pr_scope = FeedScope, pr_cursor = None, pr_direction = Older, pr_limit = 1, pr_read_period = None,
     pr_commit_project = None\<rparr>"

theorem pages_cover_scope_witness:
  "\<exists>articles p. older_pages 3 demo_reading_env demo_reading_db 2 demo_request = Inr articles
    \<and> mset articles = {#demo_read_article 50 0, demo_read_article 51 1#}
    \<and> article_summary_page demo_reading_env demo_reading_db 2 demo_request = Inr p \<and> ap_total p = 2"
proof -
  have "page_request_new FeedScope None Older 1 = Inr demo_request" "selection_limit_new 1 = Inr 1"
    by (simp_all add: page_request_new_def demo_request_def selection_limit_new_def i64_max_def)
  from pages_cover_scope [OF demo_readable this, of 2] obtain articles p where
    run: "older_pages (Suc (length (db_articles demo_reading_db))) demo_reading_env demo_reading_db 2 demo_request = Inr articles"
    and m: "mset articles = mset (map row_article (db_articles demo_reading_db))"
    and page: "article_summary_page demo_reading_env demo_reading_db 2 demo_request = Inr p" "ap_total p = length articles"
    unfolding demo_selected by blast
  have "mset articles = {#demo_read_article 50 0, demo_read_article 51 1#}"
    using m by (simp add: demo_reading_tables row_article_def)
  moreover have "length articles = 2" using mset_eq_length [OF m] by (simp add: demo_reading_tables)
  moreover have "Suc (length (db_articles demo_reading_db)) = 3" by (simp add: demo_reading_tables)
  ultimately show ?thesis using run page by metis
qed

lemma demo_consistent: "consistent_articles demo_reading_db"
  by (simp add: consistent_articles_def consistent_row_def demo_reading_tables demo_read_article_def i64_max_def)

theorem mark_scope_read_exact_witness:
  "\<exists>db. mark_scope_read_atomic 3 demo_reading_env demo_reading_db 2 FeedScope 1 = Some (Inr db)
    \<and> map (\<lambda>row. as_read (art_state (row_article row))) (db_articles db) = [True, True]
    \<and> db_read_events db = [(2, 50, 4, BulkMethod), (2, 51, 4, BulkMethod)]"
proof -
  have "selection_limit_new 1 = Inr 1" by (simp add: selection_limit_new_def i64_max_def)
  from mark_scope_read_exact [OF demo_consistent this, of demo_reading_env 2 FeedScope] show ?thesis
    by (simp add: demo_reading_tables markable_def reader_article_visible_def delivered_by_def row_read_def
        demo_read_article_def row_article_def read_row_def scope_rows_def bulk_event_def numeral_3_eq_3)
qed

end
