(* ===== verification/Focus_Runs.thy ===== *)
theory Focus_Runs
  imports Reading_Runs
begin

text \<open>
  Commands on one article: patches by several clients at once, an explicit unread against the rules that run
  later, and the rated completion with its undo.
\<close>

section \<open>Patches\<close>

abbreviation article_writes :: "reading_env \<Rightarrow> workspace_id \<Rightarrow> 'a db \<Rightarrow> 'a db \<Rightarrow> bool" where
  "article_writes E w \<equiv> writes (\<lambda>db e v. save_article E db w (Some e) v) (\<lambda>db i. map_of (db_articles db) (w, i)) art_id art_revision"

lemma patch_apply_simps [simp]:
  "art_id (patch_apply patch v) = art_id v" "art_revision (patch_apply patch v) = art_revision v"
  "art_key (patch_apply patch v) = art_key v" "art_origins (patch_apply patch v) = art_origins v"
  by (auto simp: patch_apply_def Let_def split: option.splits)

lemma update_article_steps:
  assumes "update_article E r d w i patch = Inr d'"
  obtains q v where "map_of (db_articles r) (w, i) = Some (q, v)" "art_revision v \<noteq> - 1"
    "save_article E d w (Some (art_revision v)) (patch_apply patch (v\<lparr>art_revision := art_revision v + 1\<rparr>)) = Inr d'"
  using assms by (auto simp: update_article_def repo_article_def)

text \<open>A patch of an article that commits is atomic: whatever other clients saved after it read the article,
  it has the outcome of the same patch applied at the moment of the commit. So two clients that change
  different flags at the same time never undo each other's change unseen.\<close>

theorem article_patches_serialise:
  assumes "article_writes E w r d" and "consistent_articles r" and "update_article E r d w i patch = Inr d'"
  shows "update_article E d d w i patch = Inr d'"
proof -
  obtain q v where v: "map_of (db_articles r) (w, i) = Some (q, v)" "art_revision v \<noteq> - 1"
    "save_article E d w (Some (art_revision v)) (patch_apply patch (v\<lparr>art_revision := art_revision v + 1\<rparr>)) = Inr d'"
    by (rule update_article_steps [OF assms(3)])
  have "consistent_row r ((w, i), q, v)" using assms(2) map_of_SomeD [OF v(1)] by (auto simp: consistent_articles_def)
  then have ids: "q = art_revision v" "art_id v = i" by (simp_all add: consistent_row_def)
  have "map_of (db_articles d) (w, art_id (patch_apply patch (v\<lparr>art_revision := art_revision v + 1\<rparr>))) = Some (art_revision v, v)"
    by (rule art_store.no_lost_update [OF assms(1) _ v(3)]) (use v(1) ids in simp)
  then show ?thesis using v(2,3) ids by (simp add: update_article_def repo_article_def checked_succ_def)
qed

section \<open>An explicit unread and the rules\<close>

text \<open>The transactions that apply rules.\<close>

inductive rule_step :: "queue_env \<Rightarrow> content_env \<Rightarrow> (string \<Rightarrow> string) \<Rightarrow> 'a idb \<Rightarrow> 'a idb \<Rightarrow> bool"
  for env cenv lower where
  batch: "apply_rule_batch env cenv lower db wall lease w rule version after through limit = Inr (c, db')
    \<Longrightarrow> rule_step env cenv lower db db'"
| evaluation: "evaluate_article_rules env cenv lower db wall lease w i evaluations = Inr db'
    \<Longrightarrow> rule_step env cenv lower db db'"

definition kept_unread :: "workspace_id \<times> article_id \<Rightarrow> u64 \<times> article \<Rightarrow> 'a db \<Rightarrow> bool" where
  "kept_unread k row db \<longleftrightarrow>
    distinct (map fst (db_articles db)) \<and> map_of (db_articles db) k = Some row
    \<and> \<not> as_read (art_state (snd row)) \<and> as_protect_unread (art_state (snd row))"

lemma save_state_kept:
  assumes "save_state w i original a db = Inr (a', db')" and "kept_unread k row db"
    and "k = (w, i) \<Longrightarrow> art_state a = original"
  shows "kept_unread k row db'"
  using assms by (auto simp: save_state_def Let_def kept_unread_def distinct_put split: if_splits)

lemma rule_apply_protected: "as_protect_unread s \<Longrightarrow> rule_apply r s = s"
  using rule_apply_cases [of r s] by auto

lemma apply_rule_to_kept:
  assumes "apply_rule_to env cenv lower w r db (i, a) = Inr db'" and "kept_unread k row db"
    and "k = (w, i) \<Longrightarrow> as_protect_unread (art_state a)"
  shows "kept_unread k row db'"
proof -
  from assms(1) obtain ft gens a' db1 reason where st:
    "save_state w i (art_state a) (a\<lparr>art_state := (if rule_matches lower r (dk_title (art_key a)) ft
      then rule_apply r (art_state a) else art_state a)\<rparr>) db = Inr (a', db1)"
    "upsert_rule_evaluation w (art_id a') (rule_id r) (rule_version r) reason db1 = Inr db'"
    unfolding apply_rule_to_def Let_def by auto
  from save_state_kept [OF st(1) assms(2)] assms(3) rule_apply_protected [of "art_state a" r]
  have "kept_unread k row db1" by auto
  then show ?thesis using st(2) by (auto simp: upsert_rule_evaluation_Inr kept_unread_def)
qed

lemma rule_batch_kept:
  assumes "apply_rule_batch env cenv lower db wall lease w rule version after through limit = Inr (c, db')"
    and "kept_unread k row db"
  shows "kept_unread k row db'"
proof -
  have protected: "as_protect_unread (art_state a)" if "(i, a) \<in> set (rule_page db w after bound limit)" "k = (w, i)" for i a bound
  proof -
    have "(i, a) \<in> set (workspace_articles db w)" using that(1) by (auto simp: rule_page_def dest: in_set_takeD)
    then obtain q where "map_of (db_articles db) (w, i) = Some (q, a)"
      using workspace_articles_set [of db i a w] assms(2) by (auto simp: kept_unread_def)
    with assms(2) that(2) show ?thesis by (auto simp: kept_unread_def)
  qed
  have fold: "kept_unread k row d" if "try_fold (apply_rule_to env cenv lower w r) db (rule_page db w after bound limit) = Inr d" for r bound d
    using that assms(2)
  proof (rule try_fold_keeps)
    fix s x s'
    assume x: "x \<in> set (rule_page db w after bound limit)" "kept_unread k row s" "apply_rule_to env cenv lower w r s x = Inr s'"
    obtain i a where ia: "x = (i, a)" by fastforce
    show "kept_unread k row s'"
      by (rule apply_rule_to_kept [OF x(3) [unfolded ia] x(2)]) (rule protected [OF x(1) [unfolded ia]])
  qed
  have enqueued: "kept_unread k row d'" if "enqueue_work env d j item first = Inr d'" "kept_unread k row d" for d d' j item first
    using enqueue_work_only_jobs [OF that(1)] that(2) by (auto simp: kept_unread_def)
  show ?thesis
    using assms unfolding apply_rule_batch_def Let_def
    by (auto split: option.splits if_splits dest!: fold intro: enqueued)
qed

lemma evaluation_kept:
  assumes "evaluate_article_rules env cenv lower db wall lease w i evaluations = Inr db'" and "kept_unread k row db"
  shows "kept_unread k row db'"
proof (cases "map_of (db_articles db) (w, i)")
  case None
  then show ?thesis using assms by (auto simp: evaluate_article_rules_def)
next
  case (Some qa)
  then obtain q a where qa: "map_of (db_articles db) (w, i) = Some (q, a)" by (cases qa) simp
  with assms(1) obtain ft gens a' db1 a'' where st: "try_fold (evaluate_pending lower w i ft gens) (a, db) evaluations = Inr (a', db1)"
    "save_state w i (art_state a) a' db1 = Inr (a'', db')" by (auto simp: evaluate_article_rules_def)
  note out = evaluate_fold [OF st(1)]
  have "db_articles db1 = db_articles db" by (subst conjunct1 [OF out]) simp
  then have "kept_unread k row db1" using assms(2) by (simp add: kept_unread_def)
  then show ?thesis
    by (rule save_state_kept [OF st(2)]) (use assms(2) qa out in \<open>auto simp: kept_unread_def\<close>)
qed

text \<open>C26. When a reader marks an article unread, no rule marks it read again: whatever rule applications and
  evaluations of pinned rules run after the patch, in any number and order, the stored article stays as the
  reader left it.\<close>

theorem unread_survives_rules:
  assumes "update_article E r d w i patch = Inr d1" and "pt_read patch = Some False"
    and "distinct (map fst (db_articles d))" and "art_id (snd (the (map_of (db_articles r) (w, i)))) = i"
    and "(rule_step env cenv lower)\<^sup>*\<^sup>* d1 d2"
  shows "\<exists>q a. map_of (db_articles d2) (w, i) = Some (q, a) \<and> map_of (db_articles d1) (w, i) = Some (q, a)
    \<and> \<not> as_read (art_state a)"
proof -
  obtain q v where v: "map_of (db_articles r) (w, i) = Some (q, v)"
    "save_article E d w (Some (art_revision v)) (patch_apply patch (v\<lparr>art_revision := art_revision v + 1\<rparr>)) = Inr d1"
    by (rule update_article_steps [OF assms(1)])
  let ?v = "patch_apply patch (v\<lparr>art_revision := art_revision v + 1\<rparr>)"
  have "db_articles d1 = put (w, i) (art_revision ?v, ?v) (db_articles d)"
    using save_article_Inr [OF v(2)] v(1) assms(4) by simp
  then have start: "kept_unread (w, i) (art_revision ?v, ?v) d1"
    using assms(2,3) by (auto simp: kept_unread_def distinct_put patch_apply_def Let_def split: option.splits)
  from assms(5) start have "kept_unread (w, i) (art_revision ?v, ?v) d2"
    by (induction rule: rtranclp_induct) (auto elim!: rule_step.cases intro: rule_batch_kept evaluation_kept)
  with start show ?thesis by (auto simp: kept_unread_def)
qed

section \<open>Completion and undo\<close>

lemma locked_article_Inr:
  "locked_article db owner w i = Inr a \<longleftrightarrow>
    map_of (db_articles db) (w, i) = Some (art_revision a, a) \<and> fits_i64 (art_revision a) \<and> art_id a = i
    \<and> (\<exists>q ws. map_of (db_workspaces db) w = Some (q, ws) \<and> ws_owner ws = owner)"
  by (auto simp: locked_article_def split: option.splits if_splits)

lemma next_revision_Inr: "next_revision r = Inr n \<longleftrightarrow> r \<noteq> - 1 \<and> n = r + 1 \<and> fits_i64 n"
  by (auto simp: next_revision_def reading_revision_new_def split: if_splits)

lemma reading_revision_new_Inr [simp]: "reading_revision_new r = Inr n \<longleftrightarrow> fits_i64 r \<and> n = r"
  by (auto simp: reading_revision_new_def)

lemma snapshot_Inr:
  assumes "snapshot db k a = Inr s"
  shows "rs_revision s = art_revision a \<and> rs_read s = as_read (art_state a)
    \<and> (case rs_rated_at s of None \<Rightarrow> map_of (db_ratings db) k = None \<and> rs_rating s = None \<and> rs_reason s = None
       | Some rated \<Rightarrow> map_of (db_ratings db) k = Some (rs_rating s, rated, rs_reason s))"
  using assms
  by (auto simp: snapshot_def article_rating_try_from_def rating_reason_try_from_def try_opt_def split: option.splits if_splits)

definition completion_of :: "article_id \<Rightarrow> complete_reading_command \<Rightarrow> article \<Rightarrow> instant \<Rightarrow> reading_completion" where
  "completion_of i command a now =
    \<lparr>rc_operation_id = cr_operation_id command, rc_article_id = i,
     rc_state = \<lparr>rs_revision = art_revision a + 1, rs_read = True, rs_rating = cr_rating command, rs_rated_at = Some now,
       rs_reason = cr_reason command\<rparr>, rc_undone = False\<rparr>"

definition receipt_of :: "article_id \<Rightarrow> complete_reading_command \<Rightarrow> article \<Rightarrow> reading_state \<Rightarrow> instant \<Rightarrow> reading_receipt" where
  "receipt_of i command a previous now =
    \<lparr>rr_command = command, rr_previous = previous, rr_previous_protect_unread = as_protect_unread (art_state a),
     rr_completed = completion_of i command a now, rr_undone = None\<rparr>"

definition read_by_completion :: "article \<Rightarrow> article" where
  "read_by_completion a = a\<lparr>art_revision := art_revision a + 1, art_state := (art_state a)\<lparr>as_read := True\<rparr>\<rparr>"

lemma complete_first:
  assumes "complete_reading E db owner w i command now = Inr (c, db1)"
    and "map_of (db_receipts db) (owner, cr_operation_id command) = None"
  obtains a previous where "locked_article db owner w i = Inr a" "snapshot db (w, i) a = Inr previous"
    "art_revision a = cr_expected_revision command" "\<not> as_read (art_state a)" "fits_i64 (art_revision a + 1)"
    "c = completion_of i command a now"
    "db1 = db\<lparr>db_receipts := put (owner, cr_operation_id command) ((w, i), receipt_of i command a previous now) (db_receipts db),
      db_articles := put (w, i) (art_revision a + 1, read_by_completion a) (db_articles db),
      db_ratings := put (w, i) (cr_rating command, now, cr_reason command) (db_ratings db),
      db_read_events := db_read_events db @ [(w, i, art_revision a + 1, ReaderMethod)]\<rparr>"
proof -
  from assms obtain a previous where a: "locked_article db owner w i = Inr a" "snapshot db (w, i) a = Inr previous"
    "art_revision a = cr_expected_revision command" "\<not> as_read (art_state a)"
    and commit: "commit_completion E db owner (w, i) command a previous now = Inr (c, db1)"
    by (auto simp: complete_reading_def find_receipt_def split: if_splits)
  have row: "map_of (db_articles db) (w, i) = Some (art_revision a, a)" "art_id a = i" using a(1) by (simp_all add: locked_article_Inr)
  from commit have "fits_i64 (art_revision a + 1) \<and> c = completion_of i command a now
    \<and> db1 = db\<lparr>db_receipts := put (owner, cr_operation_id command) ((w, i), receipt_of i command a previous now) (db_receipts db),
      db_articles := put (w, i) (art_revision a + 1, read_by_completion a) (db_articles db),
      db_ratings := put (w, i) (cr_rating command, now, cr_reason command) (db_ratings db),
      db_read_events := db_read_events db @ [(w, i, art_revision a + 1, ReaderMethod)]\<rparr>"
    unfolding commit_completion_def Let_def
    by (auto simp: next_revision_Inr write_article_def write_rating_def record_read_Inr row
        completion_of_def receipt_of_def read_by_completion_def split: if_splits)
  then show thesis using that a by blast
qed

definition undone_article :: "reading_receipt \<Rightarrow> article \<Rightarrow> article" where
  "undone_article receipt b = b\<lparr>art_revision := art_revision b + 1, art_state := (art_state b)
    \<lparr>as_read := rs_read (rr_previous receipt), as_protect_unread := rr_previous_protect_unread receipt\<rparr>\<rparr>"

definition undone_completion :: "article_id \<Rightarrow> uuid \<Rightarrow> reading_receipt \<Rightarrow> article \<Rightarrow> reading_completion" where
  "undone_completion i operation receipt b = \<lparr>rc_operation_id = operation, rc_article_id = i,
     rc_state = (rr_previous receipt)\<lparr>rs_revision := art_revision b + 1\<rparr>, rc_undone = True\<rparr>"

definition undone_db ::
  "account_id \<Rightarrow> workspace_id \<Rightarrow> article_id \<Rightarrow> uuid \<Rightarrow> reading_receipt \<Rightarrow> article \<Rightarrow> 'd rdb \<Rightarrow> 'd rdb" where
  "undone_db owner w i operation receipt b db =
    db\<lparr>db_articles := put (w, i) (art_revision b + 1, undone_article receipt b) (db_articles db),
       db_ratings := (case rs_rated_at (rr_previous receipt) of
          Some rated \<Rightarrow> put (w, i) (rs_rating (rr_previous receipt), rated, rs_reason (rr_previous receipt)) (db_ratings db)
        | None \<Rightarrow> del (w, i) (db_ratings db)),
       db_receipts := put (owner, operation) ((w, i), receipt\<lparr>rr_undone := Some (undone_completion i operation receipt b)\<rparr>)
         (db_receipts db)\<rparr>"

lemma undo_first:
  assumes "locked_article db owner w i = Inr b" and "find_receipt db owner operation (w, i) = Inr (Some receipt)"
    and "rr_undone receipt = None" and "rs_revision (rc_state (rr_completed receipt)) = art_revision b"
    and "fits_i64 (art_revision b + 1)"
    and "rs_rated_at (rr_previous receipt) = None \<Longrightarrow> rs_rating (rr_previous receipt) = None \<and> rs_reason (rr_previous receipt) = None"
  shows "undo_reading db owner w i operation = Inr (undone_completion i operation receipt b, undone_db owner w i operation receipt b db)"
proof -
  have b: "fits_i64 (art_revision b)" "map_of (db_articles db) (w, i) \<noteq> None" using assms(1) by (auto simp: locked_article_Inr)
  have "next_revision (art_revision b) = Inr (art_revision b + 1)"
    using assms(5) fits_i64_not_max [OF b(1)] by (simp add: next_revision_Inr)
  moreover have "write_rating (w, i) ((rr_previous receipt)\<lparr>rs_revision := n\<rparr>) d = Inr (d\<lparr>db_ratings := (case rs_rated_at (rr_previous receipt) of
       Some rated \<Rightarrow> put (w, i) (rs_rating (rr_previous receipt), rated, rs_reason (rr_previous receipt)) (db_ratings d)
     | None \<Rightarrow> del (w, i) (db_ratings d))\<rparr>)" for d :: "'a rdb" and n
    using assms(6) by (auto simp: write_rating_def split: option.splits)
  ultimately show ?thesis
    using assms(3-5) b(2)
    unfolding undo_reading_def assms(1,2) and_then_simps ok_or_simps Let_def undone_db_def undone_article_def undone_completion_def
    by (auto simp: write_article_def to_i64_def reading_revision_new_def cong: option.case_cong)
qed

text \<open>C27. Undoing a completion restores the article: it is unread with the flags and the rating it had before
  (only its revision has moved on), every other article and rating is untouched, and the undo is never
  refused while nobody else changed the article. Both commands may be repeated: each repetition gives
  the answer of the undo and changes nothing.\<close>

theorem undo_restores_article:
  fixes db :: "'a rdb"
  assumes "complete_reading E db owner w i command now = Inr (c, db1)"
    and "map_of (db_receipts db) (owner, cr_operation_id command) = None"
    and "map_of (db_articles db) (w, i) = Some (q, a)" and "unat q + 2 \<le> i64_max"
  shows "\<exists>u db2. undo_reading db1 owner w i (cr_operation_id command) = Inr (u, db2)
    \<and> map_of (db_articles db2) = (map_of (db_articles db))((w, i) \<mapsto> (q + 2, a\<lparr>art_revision := q + 2\<rparr>))
    \<and> map_of (db_ratings db2) = map_of (db_ratings db)
    \<and> rc_undone u \<and> undo_reading db2 owner w i (cr_operation_id command) = Inr (u, db2)
    \<and> complete_reading E db2 owner w i command later = Inr (u, db2)"
proof -
  obtain b previous where b: "locked_article db owner w i = Inr b" "snapshot db (w, i) b = Inr previous" "fits_i64 (art_revision b + 1)"
    "db1 = db\<lparr>db_receipts := put (owner, cr_operation_id command) ((w, i), receipt_of i command b previous now) (db_receipts db),
      db_articles := put (w, i) (art_revision b + 1, read_by_completion b) (db_articles db),
      db_ratings := put (w, i) (cr_rating command, now, cr_reason command) (db_ratings db),
      db_read_events := db_read_events db @ [(w, i, art_revision b + 1, ReaderMethod)]\<rparr>"
    by (rule complete_first [OF assms(1,2)]) blast
  let ?read = "read_by_completion a" and ?receipt = "receipt_of i command b previous now"
  let ?db2 = "undone_db owner w i (cr_operation_id command) ?receipt ?read db1"
    and ?u = "undone_completion i (cr_operation_id command) ?receipt ?read"
  have a: "b = a" "q = art_revision a" "art_id a = i" using b(1) assms(3) by (auto simp: locked_article_Inr)
  have "unat (q + 1) = Suc (unat q)" using a fits_i64_unat_succ b(1) by (simp add: locked_article_Inr)
  then have fits: "fits_i64 (q + 1)" "fits_i64 (q + 2)"
    using assms(4) unat_succ [of "q + 1"] fits_i64_not_max b(3) a by (auto simp: fits_i64_def add.assoc)
  note snap = snapshot_Inr [OF b(2)]
  have bumped: "art_revision ?read = q + 1" "art_revision ?read + 1 = q + 2" using a by (simp_all add: read_by_completion_def add.assoc)
  have undo: "undo_reading db1 owner w i (cr_operation_id command) = Inr (?u, ?db2)"
  proof (rule undo_first)
    show "locked_article db1 owner w i = Inr ?read"
      using b(1,4) a fits by (auto simp: locked_article_Inr read_by_completion_def)
    show "find_receipt db1 owner (cr_operation_id command) (w, i) = Inr (Some ?receipt)"
      using b(4) by (simp add: find_receipt_def)
    show "fits_i64 (art_revision ?read + 1)" unfolding bumped(2) by (rule fits(2))
  qed (use snap a bumped(1) in \<open>auto simp: receipt_of_def completion_of_def split: option.splits\<close>)
  have restored: "undone_article ?receipt ?read = a\<lparr>art_revision := q + 2\<rparr>"
    using snap a bumped by (simp add: undone_article_def receipt_of_def read_by_completion_def)
  have "locked_article ?db2 owner w i = Inr (a\<lparr>art_revision := q + 2\<rparr>)"
    using b(1,4) a fits bumped restored by (auto simp: locked_article_Inr undone_db_def)
  then have again: "undo_reading ?db2 owner w i (cr_operation_id command) = Inr (?u, ?db2)"
    "complete_reading E ?db2 owner w i command later = Inr (?u, ?db2)"
    by (simp_all add: undo_reading_def complete_reading_def find_receipt_def undone_db_def receipt_of_def)
  have "map_of (db_articles ?db2) = (map_of (db_articles db))((w, i) \<mapsto> (q + 2, a\<lparr>art_revision := q + 2\<rparr>))"
    using b(4) by (simp add: undone_db_def restored bumped(2) del: bumped(1))
  moreover have "map_of (db_ratings ?db2) = map_of (db_ratings db)"
    using snap b(4) by (auto simp: undone_db_def receipt_of_def fun_eq_iff split: option.splits)
  ultimately show ?thesis using undo again by (intro exI [of _ ?u] exI [of _ ?db2]) (simp add: undone_completion_def)
qed

section \<open>Examples\<close>

lemmas update_eval = update_article_def repo_article_def save_article_def record_read_def patch_apply_def read_doc_def cas_def
  cas_tx_def to_i64_def checked_succ_def fits_i64_def i64_max_def put_def Let_def

lemma demo_patch_other:
  "\<exists>d v. save_article demo_reading_env demo_reading_db 2 (Some 3) v = Inr d \<and> art_id v = 51 \<and> art_revision v = 4
    \<and> is_ok (update_article demo_reading_env demo_reading_db d 2 50 \<lparr>pt_read = Some True, pt_later = None\<rparr>)"
proof -
  let ?v = "(demo_read_article 51 1)\<lparr>art_revision := 4\<rparr>"
  have "save_article demo_reading_env demo_reading_db 2 (Some 3) ?v
    = Inr (demo_reading_db\<lparr>db_articles := put (2, 51) (4, ?v) (db_articles demo_reading_db)\<rparr>)"
    by (simp add: update_eval demo_reading_tables demo_read_article_def)
  moreover have "is_ok (update_article demo_reading_env demo_reading_db
      (demo_reading_db\<lparr>db_articles := put (2, 51) (4, ?v) (db_articles demo_reading_db)\<rparr>) 2 50 \<lparr>pt_read = Some True, pt_later = None\<rparr>)"
    by (simp add: update_eval demo_reading_tables demo_read_article_def)
  ultimately show ?thesis by (intro exI conjI) (assumption | simp add: demo_read_article_def)+
qed

theorem article_patches_serialise_witness:
  "\<exists>d d'. article_writes demo_reading_env 2 demo_reading_db d
    \<and> update_article demo_reading_env demo_reading_db d 2 50 \<lparr>pt_read = Some True, pt_later = None\<rparr> = Inr d'
    \<and> update_article demo_reading_env d d 2 50 \<lparr>pt_read = Some True, pt_later = None\<rparr> = Inr d'"
proof -
  obtain d v d' where v: "save_article demo_reading_env demo_reading_db 2 (Some 3) v = Inr d" "art_id v = 51" "art_revision v = 4"
    and run: "update_article demo_reading_env demo_reading_db d 2 50 \<lparr>pt_read = Some True, pt_later = None\<rparr> = Inr d'"
    using demo_patch_other by (auto simp: is_ok_iff)
  have "article_writes demo_reading_env 2 demo_reading_db d"
    by (rule writes_step [where e = 3 and v = v, OF writes_refl]) (simp_all add: v)
  with article_patches_serialise [OF this demo_consistent run] run show ?thesis by blast
qed

definition demo_unread :: article_patch where
  "demo_unread = \<lparr>pt_read = Some False, pt_later = None\<rparr>"

definition demo_unread_db :: ingest_db where
  "demo_unread_db = demo_scope_db\<lparr>db_articles := [((1, 50), 2, (demo_article (sr_key example_record) 2)
    \<lparr>art_state := default_state\<lparr>as_protect_unread := True\<rparr>\<rparr>)]\<rparr>"

lemma demo_unread_run: "update_article demo_reading_env demo_scope_db demo_scope_db 1 50 demo_unread = Inr demo_unread_db"
  by (simp add: update_eval demo_scope_db_def demo_unread_db_def demo_unread_def demo_article_def default_state_def)

lemma demo_unread_rule:
  "\<exists>db. apply_rule_batch demo_queue_env demo_content_env id demo_unread_db 0 demo_apply_lease 1 1 0 None (Some 50) 10
      = Inr (Some 50, db)"
  by (simp add: apply_rule_batch_def assert_lease_def live_lease_def demo_unread_db_def demo_scope_db_def demo_ingest_db_def
      demo_apply_lease_def lease_job_def new_job_def millis_def demo_rule_def rule_validate_def rule_boundary_def
      trim_ascii is_whitespace_def i64_max_def rule_page_def workspace_articles_def apply_rule_to_def
      article_full_text_def read_origins_def map_filter_def ensure_rule_content_def rule_matches_def
      demo_article_def example_record_def default_state_def rule_apply_def save_state_def sat_succ_def
      upsert_rule_evaluation_def fits_i64_def Let_def)

theorem unread_survives_rules_witness:
  "\<exists>db q a. apply_rule_batch demo_queue_env demo_content_env id demo_unread_db 0 demo_apply_lease 1 1 0 None (Some 50) 10
      = Inr (Some 50, db)
    \<and> map_of (db_articles db) (1, 50) = Some (q, a) \<and> \<not> as_read (art_state a)"
proof -
  obtain db where run: "apply_rule_batch demo_queue_env demo_content_env id demo_unread_db 0 demo_apply_lease 1 1 0
      None (Some 50) 10 = Inr (Some 50, db)" using demo_unread_rule by blast
  have steps: "(rule_step demo_queue_env demo_content_env id)\<^sup>*\<^sup>* demo_unread_db db"
    by (intro r_into_rtranclp rule_step.batch [OF run])
  have "\<exists>q a. map_of (db_articles db) (1, 50) = Some (q, a) \<and> map_of (db_articles demo_unread_db) (1, 50) = Some (q, a)
    \<and> \<not> as_read (art_state a)"
    by (rule unread_survives_rules [OF demo_unread_run _ _ _ steps])
      (simp_all add: demo_unread_def demo_scope_db_def demo_article_def)
  with run show ?thesis by blast
qed

definition demo_command :: complete_reading_command where
  "demo_command = \<lparr>cr_operation_id = 5, cr_expected_revision = 3, cr_rating = Some 7, cr_reason = None\<rparr>"

lemma demo_completion: "is_ok (complete_reading demo_reading_env demo_reading_db 9 2 50 demo_command 100)"
proof -
  obtain acc where "map_of (db_accounts demo_reading_db) 9 = Some acc" using demo_reading_tables(8) by blast
  then show ?thesis
    by (simp add: complete_reading_def locked_article_def find_receipt_def commit_completion_def snapshot_def next_revision_def
        reading_revision_new_def write_article_def write_rating_def demo_reading_tables(1-7) demo_command_def update_eval
        demo_read_article_def workspace_new_def)
qed

theorem undo_restores_article_witness:
  "\<exists>c db1 u db2. complete_reading demo_reading_env demo_reading_db 9 2 50 demo_command 100 = Inr (c, db1)
    \<and> undo_reading db1 9 2 50 5 = Inr (u, db2)
    \<and> map_of (db_articles db2) (2, 50) = Some (5, (demo_read_article 50 0)\<lparr>art_revision := 5\<rparr>)"
proof -
  obtain c db1 where run: "complete_reading demo_reading_env demo_reading_db 9 2 50 demo_command 100 = Inr (c, db1)"
    using demo_completion by (auto simp: is_ok_iff)
  have "map_of (db_receipts demo_reading_db) (9, cr_operation_id demo_command) = None"
    "map_of (db_articles demo_reading_db) (2, 50) = Some (3, demo_read_article 50 0)" "unat (3 :: u64) + 2 \<le> i64_max"
    by (simp_all add: demo_reading_tables i64_max_def)
  from undo_restores_article [OF run this, of 0] run show ?thesis by (auto simp: demo_command_def)
qed

end
