(* ===== verification/Wiki.thy ===== *)
theory Wiki
  imports Reader_Db
begin

text \<open>
  The private wiki: its validated commands and names (\<open>reader-wiki/src/command.rs\<close>, \<open>model.rs\<close>) and the
  transactions of its store (\<open>reader-storage-postgres/src/wiki/\<close>: \<open>mod.rs\<close>, \<open>write.rs\<close>, \<open>access.rs\<close>,
  \<open>organization.rs\<close>, \<open>binding.rs\<close>). The tables extend those of the reader. Every transaction locks the row of
  its namespace first, so a transaction is one step from database to database. A random identifier and the
  time of the statement are arguments; a random identifier that is already taken violates a primary key. The
  paginated lists, whose order is PostgreSQL's collation, and the largest size of an index entry are not
  modelled; the links of a page, which the code lists by name, are a set.
\<close>

section \<open>Values and commands\<close>

datatype wiki_error = WikiNotFound | WikiForbidden | WikiConflict | NameTaken | WikiInvalid string | WikiStorage

datatype role = Owner | Editor | Reader

definition can_edit :: "role \<Rightarrow> bool" where
  "can_edit r \<longleftrightarrow> r = Owner \<or> r = Editor"

record wiki_page =
  wp_parent :: "uuid option"
  wp_namespace :: uuid
  wp_id :: uuid
  wp_revision :: uuid
  wp_name :: string
  wp_markdown :: string
  wp_deleted :: bool
  wp_author :: account_id
  wp_updated_at :: instant

record wiki_draft =
  wf_revision :: "uuid option"
  wf_id :: uuid
  wf_page :: "uuid option"
  wf_base_revision :: "uuid option"
  wf_name :: string
  wf_markdown :: string

record wiki_limits =
  wl_name_bytes :: nat
  wl_markdown_bytes :: nat
  wl_search_bytes :: nat
  wl_search_excerpt_characters :: u32
  wl_page_size :: nat
  wl_draft_save_delay_ms :: u64

definition i32_max :: nat where
  "i32_max = 2 ^ 31 - 1"

definition limits_text :: string where
  "limits_text = ''wiki limits must be positive; name_bytes must not exceed the 2000-byte indexed-name capacity; page_size and draft_save_delay_ms must fit signed 32-bit integers''"

definition wiki_limits_new :: "wiki_limits \<Rightarrow> wiki_error + wiki_limits" where
  "wiki_limits_new v =
    (if wl_name_bytes v = 0 \<or> wl_markdown_bytes v = 0 \<or> wl_search_bytes v = 0
        \<or> wl_search_excerpt_characters v = 0 \<or> i32_max < unat (wl_search_excerpt_characters v)
        \<or> wl_page_size v = 0 \<or> i32_max \<le> wl_page_size v
        \<or> wl_draft_save_delay_ms v = 0 \<or> i32_max < unat (wl_draft_save_delay_ms v)
        \<or> 2000 < wl_name_bytes v
     then Inl (WikiInvalid limits_text) else Inr v)"

definition forbidden_name_chars :: "char set" where
  "forbidden_name_chars = {CHR 0x0A, CHR 0x0D, CHR ''['', CHR '']'', CHR 0x00}"

definition limit_name :: "wiki_limits \<Rightarrow> string \<Rightarrow> wiki_error + unit" where
  "limit_name l v =
    (if v = [] \<or> wl_name_bytes l < length v \<or> set v \<inter> forbidden_name_chars \<noteq> {}
     then Inl (WikiInvalid ''name is empty, too long or contains a line break, bracket or NUL'') else Inr ())"

definition limit_markdown :: "wiki_limits \<Rightarrow> string \<Rightarrow> wiki_error + unit" where
  "limit_markdown l v =
    (if wl_markdown_bytes l < length v \<or> CHR 0x00 \<in> set v
     then Inl (WikiInvalid ''Markdown exceeds configured byte limit or contains NUL'') else Inr ())"

datatype change_input =
  Save string string
| Rename string
| SetParent "uuid option"
| Trash
| Restore
| RestoreRevision uuid

record write_input =
  wi_operation :: uuid
  wi_page :: uuid
  wi_expected_revision :: "uuid option"
  wi_change :: change_input

definition write_new :: "wiki_limits \<Rightarrow> write_input \<Rightarrow> wiki_error + write_input" where
  "write_new l input =
    and_then (case wi_change input of
                Save name markdown \<Rightarrow> and_then (limit_name l name) (\<lambda>_. limit_markdown l markdown)
              | Rename name \<Rightarrow> limit_name l name
              | _ \<Rightarrow> Inr ()) (\<lambda>_.
      if wi_expected_revision input = None \<and> \<not> (case wi_change input of Save _ _ \<Rightarrow> True | _ \<Rightarrow> False)
      then Inl (WikiInvalid ''existing page revision required'')
      else if wi_change input = SetParent (Some (wi_page input))
      then Inl (WikiInvalid ''a page cannot be its own parent'')
      else Inr input)"

text \<open>\<open>link_names\<close>: the exact targets of double bracket links, without repetition.\<close>

fun find_pair :: "char \<Rightarrow> string \<Rightarrow> nat option" where
  "find_pair c (x # y # s) = (if x = c \<and> y = c then Some 0 else map_option Suc (find_pair c (y # s)))"
| "find_pair c _ = None"

lemma find_pair_bound: "find_pair c s = Some i \<Longrightarrow> i + 2 \<le> length s"
  by (induction c s arbitrary: i rule: find_pair.induct) (auto split: if_splits)

function link_targets :: "string \<Rightarrow> string list" where
  "link_targets s =
    (case find_pair CHR ''['' s of
       None \<Rightarrow> []
     | Some i \<Rightarrow>
         let r = drop (i + 2) s in
         (case find_pair CHR '']'' r of
            None \<Rightarrow> []
          | Some j \<Rightarrow>
              let name = take j r in
              (if name \<noteq> [] \<and> set name \<inter> forbidden_name_chars = {} then [name] else [])
              @ link_targets (drop (j + 2) r)))"
  by pat_completeness auto
termination
  by (relation "measure length") (auto dest: find_pair_bound)

declare link_targets.simps [simp del]

definition link_names :: "string \<Rightarrow> string set" where
  "link_names s = set (link_targets s)"

section \<open>Tables\<close>

record wiki_db = reader_db +
  wd_namespaces :: "(uuid \<times> account_id \<times> string) list"
  wd_members :: "((uuid \<times> account_id) \<times> role) list"
  wd_pages :: "((uuid \<times> uuid) \<times> wiki_page) list"
  wd_names :: "((uuid \<times> string) \<times> uuid) list"
  wd_revisions :: "((uuid \<times> uuid \<times> uuid) \<times> wiki_page \<times> string) list"
  wd_drafts :: "((uuid \<times> account_id \<times> uuid) \<times> wiki_draft) list"
  wd_links :: "(uuid \<times> uuid \<times> string) set"
  wd_bindings :: "(subscription_id \<times> account_id \<times> uuid \<times> uuid) list"
  wd_operations :: "((uuid \<times> account_id \<times> uuid) \<times> write_input \<times> wiki_page) list"
  wd_favorites :: "(uuid \<times> account_id \<times> uuid) set"
  wd_roots :: "(uuid \<times> uuid) list"

definition authorize :: "wiki_db \<Rightarrow> account_id \<Rightarrow> uuid \<Rightarrow> wiki_error + string \<times> role" where
  "authorize db actor ns =
    (case map_of (wd_namespaces db) ns of
       None \<Rightarrow> Inl WikiNotFound
     | Some (owner, name) \<Rightarrow>
         if owner = actor then Inr (name, Owner)
         else (case map_of (wd_members db) (ns, actor) of
                 None \<Rightarrow> Inl WikiNotFound
               | Some Owner \<Rightarrow> Inl WikiStorage
               | Some role \<Rightarrow> Inr (name, role)))"

definition editor :: "role \<Rightarrow> wiki_error + unit" where
  "editor role = (if can_edit role then Inr () else Inl WikiForbidden)"

definition load_page :: "wiki_db \<Rightarrow> uuid \<Rightarrow> uuid \<Rightarrow> role \<Rightarrow> wiki_error + wiki_page" where
  "load_page db ns i role =
    (case map_of (wd_pages db) (ns, i) of
       None \<Rightarrow> Inl WikiNotFound
     | Some page \<Rightarrow> if wp_deleted page \<and> \<not> can_edit role then Inl WikiNotFound else Inr page)"

section \<open>Writing a page\<close>

text \<open>
  What a change makes of the current row: name, text, deletion, the action for the history, and the parent.
\<close>

definition current_page :: "wiki_page option \<Rightarrow> wiki_error + wiki_page" where
  "current_page current = ok_or current WikiNotFound"

definition existing_page :: "wiki_page option \<Rightarrow> wiki_error + wiki_page" where
  "existing_page current =
    and_then (current_page current) (\<lambda>p. if wp_deleted p then Inl WikiConflict else Inr p)"

type_synonym planned = "string \<times> string \<times> bool \<times> string \<times> uuid option"

definition plan_change ::
  "wiki_db \<Rightarrow> uuid \<Rightarrow> uuid \<Rightarrow> wiki_page option \<Rightarrow> change_input \<Rightarrow> wiki_error + planned" where
  "plan_change db ns i current change =
    (case change of
       Save name markdown \<Rightarrow>
         if (case current of Some p \<Rightarrow> wp_deleted p | None \<Rightarrow> False) then Inl WikiConflict
         else Inr (name, markdown, False, ''save'', Option.bind current wp_parent)
     | SetParent selected \<Rightarrow>
         and_then (existing_page current) (\<lambda>p. Inr (wp_name p, wp_markdown p, False, ''set_parent'', selected))
     | Rename name \<Rightarrow>
         and_then (existing_page current) (\<lambda>p. Inr (name, wp_markdown p, False, ''rename'', wp_parent p))
     | Trash \<Rightarrow>
         and_then (current_page current) (\<lambda>p.
           if wp_deleted p then Inl WikiConflict
           else Inr (wp_name p, wp_markdown p, True, ''trash'', wp_parent p))
     | Restore \<Rightarrow>
         and_then (current_page current) (\<lambda>p.
           if \<not> wp_deleted p then Inl WikiConflict
           else Inr (wp_name p, wp_markdown p, False, ''restore'', wp_parent p))
     | RestoreRevision revision \<Rightarrow>
         and_then (existing_page current) (\<lambda>p.
           case map_of (wd_revisions db) (ns, i, revision) of
             None \<Rightarrow> Inl WikiNotFound
           | Some (r, _) \<Rightarrow> Inr (wp_name r, wp_markdown r, False, ''restore_revision'', wp_parent r)))"

text \<open>
  The recursive query of the ancestors of a page, the page included. Its union stops at pages it has seen; the
  number of rows bounds the number of different pages.
\<close>

fun ancestors :: "nat \<Rightarrow> wiki_db \<Rightarrow> uuid \<Rightarrow> uuid \<Rightarrow> uuid list" where
  "ancestors 0 db ns i = []"
| "ancestors (Suc n) db ns i =
    (case map_of (wd_pages db) (ns, i) of
       None \<Rightarrow> []
     | Some p \<Rightarrow> i # (case wp_parent p of None \<Rightarrow> [] | Some q \<Rightarrow> ancestors n db ns q))"

definition creates_cycle :: "wiki_db \<Rightarrow> uuid \<Rightarrow> uuid \<Rightarrow> uuid \<Rightarrow> bool" where
  "creates_cycle db ns parent i \<longleftrightarrow> i \<in> set (ancestors (Suc (length (wd_pages db))) db ns parent)"

definition chooses_parent :: "change_input \<Rightarrow> bool" where
  "chooses_parent change \<longleftrightarrow> (case change of SetParent _ \<Rightarrow> True | RestoreRevision _ \<Rightarrow> True | _ \<Rightarrow> False)"

definition check_parent ::
  "wiki_db \<Rightarrow> uuid \<Rightarrow> role \<Rightarrow> uuid \<Rightarrow> change_input \<Rightarrow> uuid option \<Rightarrow> wiki_error + unit" where
  "check_parent db ns role i change parent =
    (case parent of
       None \<Rightarrow> Inr ()
     | Some q \<Rightarrow>
         and_then (load_page db ns q role) (\<lambda>target.
           if wp_deleted target \<and> chooses_parent change then Inl (WikiInvalid ''parent page is in trash'')
           else if creates_cycle db ns q i then Inl (WikiInvalid ''parent would create a cycle'')
           else Inr ()))"

text \<open>The statements that publish a page: the row, its name, the revision, the links and the operation.\<close>

definition put_revision :: "wiki_page \<Rightarrow> string \<Rightarrow> wiki_db \<Rightarrow> wiki_error + wiki_db" where
  "put_revision page action db =
    (let k = (wp_namespace page, wp_id page, wp_revision page) in
     if map_of (wd_revisions db) k \<noteq> None then Inl WikiStorage
     else Inr (db\<lparr>wd_revisions := put k (page, action) (wd_revisions db)\<rparr>))"

definition put_page :: "wiki_page \<Rightarrow> wiki_db \<Rightarrow> wiki_db" where
  "put_page page db = db\<lparr>wd_pages := put (wp_namespace page, wp_id page) page (wd_pages db)\<rparr>"

definition reserve_name :: "uuid \<Rightarrow> string \<Rightarrow> uuid \<Rightarrow> wiki_db \<Rightarrow> wiki_db" where
  "reserve_name ns name i db = db\<lparr>wd_names := put (ns, name) i (wd_names db)\<rparr>"

definition replace_links :: "uuid \<Rightarrow> uuid \<Rightarrow> string set \<Rightarrow> wiki_db \<Rightarrow> wiki_db" where
  "replace_links ns i names db =
    db\<lparr>wd_links := {l \<in> wd_links db. \<not> (fst l = ns \<and> fst (snd l) = i)} \<union> (\<lambda>n. (ns, i, n)) ` names\<rparr>"

definition publish_page ::
  "account_id \<Rightarrow> uuid \<Rightarrow> write_input \<Rightarrow> wiki_page \<Rightarrow> string \<Rightarrow> bool \<Rightarrow> wiki_db \<Rightarrow> wiki_error + wiki_db" where
  "publish_page actor ns input page action reserved db =
    (let db = put_page page db;
         db = (if reserved then db else reserve_name ns (wp_name page) (wp_id page) db)
     in and_then (put_revision page action db) (\<lambda>db.
          let db = replace_links ns (wp_id page) (link_names (wp_markdown page)) db
          in Inr (db\<lparr>wd_operations := put (ns, actor, wi_operation input) (input, page) (wd_operations db)\<rparr>)))"

definition apply_write ::
  "wiki_limits \<Rightarrow> wiki_db \<Rightarrow> account_id \<Rightarrow> uuid \<Rightarrow> role \<Rightarrow> write_input \<Rightarrow> uuid \<Rightarrow> instant
    \<Rightarrow> wiki_error + wiki_page \<times> wiki_db" where
  "apply_write l db actor ns role input fresh now =
    (let i = wi_page input; current = map_of (wd_pages db) (ns, i) in
     if map_option wp_revision current \<noteq> wi_expected_revision input then Inl WikiConflict
     else and_then (plan_change db ns i current (wi_change input)) (\<lambda>(name, markdown, deleted, action, parent).
       and_then (check_parent db ns role i (wi_change input) parent) (\<lambda>_.
       and_then (limit_name l name) (\<lambda>_.
       and_then (limit_markdown l markdown) (\<lambda>_.
         let occupied = map_of (wd_names db) (ns, name);
             page = \<lparr>wp_parent = parent, wp_namespace = ns, wp_id = i, wp_revision = fresh, wp_name = name,
                     wp_markdown = markdown, wp_deleted = deleted, wp_author = actor, wp_updated_at = now\<rparr>
         in if occupied \<noteq> None \<and> occupied \<noteq> Some i then Inl NameTaken
            else and_then (publish_page actor ns input page action (occupied \<noteq> None) db) (\<lambda>db.
              Inr (page, db)))))))"

definition change_page ::
  "wiki_limits \<Rightarrow> wiki_db \<Rightarrow> account_id \<Rightarrow> uuid \<Rightarrow> write_input \<Rightarrow> uuid \<Rightarrow> instant
    \<Rightarrow> wiki_error + wiki_page \<times> wiki_db" where
  "change_page l db actor ns input fresh now =
    and_then (authorize db actor ns) (\<lambda>(_, role).
    and_then (editor role) (\<lambda>_.
      case map_of (wd_operations db) (ns, actor, wi_operation input) of
        Some (request, response) \<Rightarrow> if request \<noteq> input then Inl WikiConflict else Inr (response, db)
      | None \<Rightarrow> apply_write l db actor ns role input fresh now))"

section \<open>Namespaces and members\<close>

record wiki_namespace =
  wn_id :: uuid
  wn_name :: string
  wn_role :: role

text \<open>A foreign key refuses an owner or member that is no account.\<close>

definition create_namespace ::
  "wiki_limits \<Rightarrow> wiki_db \<Rightarrow> account_id \<Rightarrow> uuid \<Rightarrow> string \<Rightarrow> wiki_error + wiki_namespace \<times> wiki_db" where
  "create_namespace l db a ns name =
    and_then (limit_name l name) (\<lambda>_.
    and_then
      (if map_of (wd_namespaces db) ns \<noteq> None then Inr db
       else if map_of (db_accounts db) a = None then Inl WikiStorage
       else Inr (db\<lparr>wd_namespaces := put ns (a, name) (wd_namespaces db)\<rparr>)) (\<lambda>db.
    and_then (authorize db a ns) (\<lambda>(stored, role).
      if role \<noteq> Owner \<or> stored \<noteq> name then Inl WikiConflict
      else Inr (\<lparr>wn_id = ns, wn_name = stored, wn_role = role\<rparr>, db))))"

definition account_named :: "wiki_db \<Rightarrow> string \<Rightarrow> account_id option" where
  "account_named db username = map_option fst (find (\<lambda>(_, _, account). acc_username account = username) (db_accounts db))"

definition set_member ::
  "wiki_db \<Rightarrow> account_id \<Rightarrow> uuid \<Rightarrow> string \<Rightarrow> role option \<Rightarrow> wiki_error + wiki_db" where
  "set_member db a ns username role =
    (if role = Some Owner then Inl (WikiInvalid ''ownership transfer is not supported'')
     else and_then (authorize db a ns) (\<lambda>(_, own).
       if own \<noteq> Owner then Inl WikiForbidden
       else and_then (ok_or (account_named db username) WikiNotFound) (\<lambda>account.
         if account = a then Inl (WikiInvalid ''owner membership cannot be changed'')
         else (case role of
                 Some r \<Rightarrow> Inr (db\<lparr>wd_members := put (ns, account) r (wd_members db)\<rparr>)
               | None \<Rightarrow> Inr (db\<lparr>wd_members := del (ns, account) (wd_members db)\<rparr>)))))"

section \<open>Drafts\<close>

definition same_draft :: "wiki_draft \<Rightarrow> wiki_draft \<Rightarrow> bool" where
  "same_draft r d \<longleftrightarrow>
    wf_page r = wf_page d \<and> wf_base_revision r = wf_base_revision d \<and> wf_name r = wf_name d
    \<and> wf_markdown r = wf_markdown d"

definition base_exists :: "wiki_db \<Rightarrow> uuid \<Rightarrow> wiki_draft \<Rightarrow> bool" where
  "base_exists db ns d \<longleftrightarrow>
    (case (wf_page d, wf_base_revision d) of
       (Some p, Some b) \<Rightarrow> map_of (wd_revisions db) (ns, p, b) \<noteq> None
     | _ \<Rightarrow> True)"

definition save_draft ::
  "wiki_limits \<Rightarrow> wiki_db \<Rightarrow> account_id \<Rightarrow> uuid \<Rightarrow> wiki_draft \<Rightarrow> uuid \<Rightarrow> wiki_error + wiki_draft \<times> wiki_db" where
  "save_draft l db a ns d fresh =
    and_then (if wf_name d = [] then Inr () else limit_name l (wf_name d)) (\<lambda>_.
    and_then (limit_markdown l (wf_markdown d)) (\<lambda>_.
      if is_some (wf_page d) \<noteq> is_some (wf_base_revision d)
      then Inl (WikiInvalid ''draft page and base revision must be supplied together'')
      else and_then (authorize db a ns) (\<lambda>(_, role).
        and_then (editor role) (\<lambda>_.
        and_then (case wf_page d of None \<Rightarrow> Inr () | Some p \<Rightarrow> and_then (load_page db ns p role) (\<lambda>_. Inr ())) (\<lambda>_.
          let previous = map_of (wd_drafts db) (ns, a, wf_id d);
              current = Option.bind previous wf_revision
          in if current \<noteq> wf_revision d
             then (if (case previous of None \<Rightarrow> False | Some r \<Rightarrow> same_draft r d)
                   then Inr (d\<lparr>wf_revision := current\<rparr>, db) else Inl WikiConflict)
             else if \<not> base_exists db ns d then Inl WikiStorage
             else let d' = d\<lparr>wf_revision := Some fresh\<rparr>
                  in Inr (d', db\<lparr>wd_drafts := put (ns, a, wf_id d) d' (wd_drafts db)\<rparr>))))))"

definition discard_draft ::
  "wiki_db \<Rightarrow> account_id \<Rightarrow> uuid \<Rightarrow> uuid \<Rightarrow> uuid option \<Rightarrow> wiki_error + wiki_db" where
  "discard_draft db a ns i revision =
    and_then (authorize db a ns) (\<lambda>(_, role).
    and_then (editor role) (\<lambda>_.
      let current = Option.bind (map_of (wd_drafts db) (ns, a, i)) wf_revision
      in if current \<noteq> None \<and> current \<noteq> revision then Inl WikiConflict
         else Inr (db\<lparr>wd_drafts := del (ns, a, i) (wd_drafts db)\<rparr>)))"

definition read_draft :: "wiki_db \<Rightarrow> account_id \<Rightarrow> uuid \<Rightarrow> uuid \<Rightarrow> wiki_error + wiki_draft option" where
  "read_draft db a ns i =
    and_then (authorize db a ns) (\<lambda>(_, role).
    and_then (editor role) (\<lambda>_. Inr (map_of (wd_drafts db) (ns, a, i))))"

section \<open>Organization and bindings\<close>

definition set_favorite ::
  "wiki_db \<Rightarrow> account_id \<Rightarrow> uuid \<Rightarrow> uuid \<Rightarrow> bool \<Rightarrow> wiki_error + wiki_db" where
  "set_favorite db a ns i favorite =
    and_then (authorize db a ns) (\<lambda>(_, role).
    and_then (load_page db ns i role) (\<lambda>page.
      if wp_deleted page then Inl WikiConflict
      else Inr (db\<lparr>wd_favorites := (if favorite then insert (ns, a, i) else (\<lambda>s. s - {(ns, a, i)})) (wd_favorites db)\<rparr>)))"

definition subscriptions_name :: string where
  "subscriptions_name = ''Subscriptions''"

definition create_root ::
  "wiki_db \<Rightarrow> account_id \<Rightarrow> uuid \<Rightarrow> uuid \<Rightarrow> uuid \<Rightarrow> instant \<Rightarrow> wiki_error + wiki_page \<times> wiki_db" where
  "create_root db a ns i revision now =
    (if map_of (wd_names db) (ns, subscriptions_name) \<noteq> None then Inl NameTaken
     else if map_of (wd_pages db) (ns, i) \<noteq> None then Inl WikiStorage
     else
       let page = \<lparr>wp_parent = None, wp_namespace = ns, wp_id = i, wp_revision = revision, wp_name = subscriptions_name,
                   wp_markdown = [], wp_deleted = False, wp_author = a, wp_updated_at = now\<rparr>
       in and_then (put_revision page ''create_subscription_root'' (put_page page db)) (\<lambda>db.
            let db = reserve_name ns subscriptions_name i db
            in Inr (page, db\<lparr>wd_roots := put ns i (wd_roots db)\<rparr>)))"

definition ensure_subscription_root ::
  "wiki_limits \<Rightarrow> wiki_db \<Rightarrow> account_id \<Rightarrow> uuid \<Rightarrow> uuid \<Rightarrow> uuid \<Rightarrow> instant \<Rightarrow> wiki_error + wiki_page \<times> wiki_db" where
  "ensure_subscription_root l db a ns i revision now =
    and_then (limit_name l subscriptions_name) (\<lambda>_.
    and_then (authorize db a ns) (\<lambda>(_, role).
    and_then (editor role) (\<lambda>_.
      case map_of (wd_roots db) ns of
        Some root \<Rightarrow>
          and_then (load_page db ns root role) (\<lambda>p.
            if wp_deleted p then Inl (WikiInvalid ''restore the Subscriptions parent page from trash first'')
            else Inr (p, db))
      | None \<Rightarrow> create_root db a ns i revision now)))"

definition subscription_owner :: "wiki_db \<Rightarrow> account_id \<Rightarrow> subscription_id \<Rightarrow> wiki_error + unit" where
  "subscription_owner db a s =
    (case map_of (db_subscriptions db) s of
       None \<Rightarrow> Inl WikiNotFound
     | Some (_, subscription) \<Rightarrow>
         (case map_of (db_workspaces db) (sub_workspace subscription) of
            None \<Rightarrow> Inl WikiNotFound
          | Some (_, workspace) \<Rightarrow> if ws_owner workspace = a then Inr () else Inl WikiNotFound))"

definition set_binding ::
  "wiki_db \<Rightarrow> account_id \<Rightarrow> subscription_id \<Rightarrow> (uuid \<times> uuid) option \<Rightarrow> wiki_error + wiki_db" where
  "set_binding db a s target =
    and_then (subscription_owner db a s) (\<lambda>_.
      case target of
        Some (ns, p) \<Rightarrow>
          and_then (authorize db a ns) (\<lambda>(_, role).
          and_then (load_page db ns p role) (\<lambda>page.
            if wp_deleted page then Inl WikiNotFound
            else
              let owner = (case map_of (wd_bindings db) s of None \<Rightarrow> a | Some (first, _) \<Rightarrow> first)
              in Inr (db\<lparr>wd_bindings := put s (owner, ns, p) (wd_bindings db)\<rparr>)))
      | None \<Rightarrow>
          Inr (if map_option fst (map_of (wd_bindings db) s) = Some a
               then db\<lparr>wd_bindings := del s (wd_bindings db)\<rparr> else db))"

record wiki_binding =
  wb_linked :: bool
  wb_page :: "(uuid \<times> string \<times> instant) option"
  wb_namespace :: "uuid option"

definition read_binding :: "wiki_db \<Rightarrow> account_id \<Rightarrow> subscription_id \<Rightarrow> wiki_error + wiki_binding" where
  "read_binding db a s =
    and_then (subscription_owner db a s) (\<lambda>_.
      case map_of (wd_bindings db) s of
        None \<Rightarrow> Inr \<lparr>wb_linked = False, wb_page = None, wb_namespace = None\<rparr>
      | Some (owner, ns, p) \<Rightarrow>
          if owner \<noteq> a then Inr \<lparr>wb_linked = False, wb_page = None, wb_namespace = None\<rparr>
          else (case and_then (authorize db a ns) (\<lambda>(_, role). load_page db ns p role) of
                  Inr page \<Rightarrow>
                    Inr (if wp_deleted page then \<lparr>wb_linked = True, wb_page = None, wb_namespace = None\<rparr>
                         else \<lparr>wb_linked = True, wb_page = Some (wp_id page, wp_name page, wp_updated_at page),
                               wb_namespace = Some ns\<rparr>)
                | Inl WikiNotFound \<Rightarrow> Inr \<lparr>wb_linked = True, wb_page = None, wb_namespace = None\<rparr>
                | Inl e \<Rightarrow> Inl e))"

section \<open>Reading\<close>

definition read_page :: "wiki_db \<Rightarrow> account_id \<Rightarrow> uuid \<Rightarrow> uuid \<Rightarrow> wiki_error + wiki_page" where
  "read_page db a ns i = and_then (authorize db a ns) (\<lambda>(_, role). load_page db ns i role)"

definition resolve_name :: "wiki_limits \<Rightarrow> wiki_db \<Rightarrow> account_id \<Rightarrow> uuid \<Rightarrow> string \<Rightarrow> wiki_error + wiki_page" where
  "resolve_name l db a ns name =
    and_then (limit_name l name) (\<lambda>_.
    and_then (authorize db a ns) (\<lambda>(_, role).
    and_then (ok_or (map_of (wd_names db) (ns, name)) WikiNotFound) (\<lambda>i. load_page db ns i role)))"

definition read_namespace :: "wiki_db \<Rightarrow> account_id \<Rightarrow> uuid \<Rightarrow> wiki_error + wiki_namespace" where
  "read_namespace db a ns =
    and_then (authorize db a ns) (\<lambda>(name, role). Inr \<lparr>wn_id = ns, wn_name = name, wn_role = role\<rparr>)"

text \<open>A revision is read with its action and the name of its author, which the query takes from the account.\<close>

definition read_revision ::
  "wiki_db \<Rightarrow> account_id \<Rightarrow> uuid \<Rightarrow> uuid \<Rightarrow> uuid \<Rightarrow> wiki_error + wiki_page \<times> string \<times> string" where
  "read_revision db a ns i v =
    and_then (authorize db a ns) (\<lambda>(_, role).
    and_then (load_page db ns i role) (\<lambda>_.
    and_then (ok_or (map_of (wd_revisions db) (ns, i, v)) WikiNotFound) (\<lambda>(page, action).
    and_then (ok_or (map_of (db_accounts db) (wp_author page)) WikiNotFound) (\<lambda>(_, author).
      Inr (page, action, acc_username author)))))"

text \<open>The links of a page: the names it mentions, each with the page in use it leads to.\<close>

definition link_page :: "wiki_db \<Rightarrow> uuid \<Rightarrow> string \<Rightarrow> uuid option" where
  "link_page db ns name =
    Option.bind (map_of (wd_names db) (ns, name)) (\<lambda>i.
    Option.bind (map_of (wd_pages db) (ns, i)) (\<lambda>page. if wp_deleted page then None else Some (wp_id page)))"

definition read_links :: "wiki_db \<Rightarrow> account_id \<Rightarrow> uuid \<Rightarrow> uuid \<Rightarrow> wiki_error + (string \<times> uuid option) set" where
  "read_links db a ns i =
    and_then (authorize db a ns) (\<lambda>(_, role).
    and_then (load_page db ns i role) (\<lambda>_.
      Inr ((\<lambda>l. (snd (snd l), link_page db ns (snd (snd l)))) ` {l \<in> wd_links db. fst l = ns \<and> fst (snd l) = i})))"

end
