(* ===== verification/Wiki_Runs.thy ===== *)
theory Wiki_Runs
  imports Wiki
begin

text \<open>
  Runs of the wiki: a step relation of its transactions, the invariant of pages, names, history and
  hierarchy, and what stays true of a namespace whatever its members do.
\<close>

section \<open>Steps\<close>

text \<open>
  The tables of the wiki but the bindings; a transaction elsewhere keeps them, and removing a subscription may
  take its binding along.
\<close>

definition same_wiki :: "wiki_db \<Rightarrow> wiki_db \<Rightarrow> bool" where
  "same_wiki db db' \<longleftrightarrow>
    wd_namespaces db' = wd_namespaces db \<and> wd_members db' = wd_members db \<and> wd_pages db' = wd_pages db
    \<and> wd_names db' = wd_names db \<and> wd_revisions db' = wd_revisions db \<and> wd_drafts db' = wd_drafts db
    \<and> wd_links db' = wd_links db \<and> wd_operations db' = wd_operations db \<and> wd_favorites db' = wd_favorites db
    \<and> wd_roots db' = wd_roots db"

inductive wiki_step :: "wiki_limits \<Rightarrow> wiki_db \<Rightarrow> wiki_db \<Rightarrow> bool" for l where
  write_step: "change_page l db actor ns input fresh now = Inr (page, db') \<Longrightarrow> wiki_step l db db'"
| namespace_step: "create_namespace l db actor ns name = Inr (n, db') \<Longrightarrow> wiki_step l db db'"
| member_step: "set_member db actor ns username role = Inr db' \<Longrightarrow> wiki_step l db db'"
| draft_step: "save_draft l db actor ns d fresh = Inr (d', db') \<Longrightarrow> wiki_step l db db'"
| discard_step: "discard_draft db actor ns i revision = Inr db' \<Longrightarrow> wiki_step l db db'"
| favorite_step: "set_favorite db actor ns i favorite = Inr db' \<Longrightarrow> wiki_step l db db'"
| root_step: "ensure_subscription_root l db actor ns i revision now = Inr (page, db') \<Longrightarrow> wiki_step l db db'"
| bind_step: "set_binding db actor s target = Inr db' \<Longrightarrow> wiki_step l db db'"
| elsewhere: "same_wiki db db' \<Longrightarrow> wiki_step l db db'"

definition no_wiki :: "wiki_db \<Rightarrow> bool" where
  "no_wiki db \<longleftrightarrow>
    wd_namespaces db = [] \<and> wd_members db = [] \<and> wd_pages db = [] \<and> wd_names db = [] \<and> wd_revisions db = []
    \<and> wd_drafts db = [] \<and> wd_links db = {} \<and> wd_bindings db = [] \<and> wd_operations db = [] \<and> wd_favorites db = {}
    \<and> wd_roots db = []"

section \<open>The hierarchy\<close>

definition parent_rel :: "wiki_db \<Rightarrow> uuid \<Rightarrow> (uuid \<times> uuid) set" where
  "parent_rel db ns = {(i, q). \<exists>p. map_of (wd_pages db) (ns, i) = Some p \<and> wp_parent p = Some q}"

lemma parent_rel_image: "parent_rel db ns \<subseteq> (\<lambda>e. (snd (fst e), the (wp_parent (snd e)))) ` set (wd_pages db)"
  by (force simp: parent_rel_def dest: map_of_SomeD)

lemma finite_parent_rel: "finite (parent_rel db ns)"
  using parent_rel_image by (rule finite_subset) simp

lemma card_parent_rel: "card (parent_rel db ns) \<le> length (wd_pages db)"
proof -
  have "card (parent_rel db ns) \<le> card ((\<lambda>e. (snd (fst e), the (wp_parent (snd e)))) ` set (wd_pages db))"
    by (rule card_mono [OF _ parent_rel_image]) simp
  also have "\<dots> \<le> card (set (wd_pages db))"
    by (rule card_image_le) simp
  also have "\<dots> \<le> length (wd_pages db)"
    by (rule card_length)
  finally show ?thesis .
qed

definition parents_exist :: "wiki_db \<Rightarrow> bool" where
  "parents_exist db \<longleftrightarrow>
    (\<forall>ns i p q. map_of (wd_pages db) (ns, i) = Some p \<longrightarrow> wp_parent p = Some q \<longrightarrow> map_of (wd_pages db) (ns, q) \<noteq> None)"

lemma ancestors_relpow:
  "(i, x) \<in> parent_rel db ns ^^ n \<Longrightarrow> parents_exist db \<Longrightarrow> map_of (wd_pages db) (ns, i) \<noteq> None \<Longrightarrow> n < m \<Longrightarrow>
    x \<in> set (ancestors m db ns i)"
proof (induction n arbitrary: i m)
  case 0
  then obtain m' p where "m = Suc m'" "x = i" "map_of (wd_pages db) (ns, i) = Some p"
    by (cases m) auto
  then show ?case by simp
next
  case (Suc n)
  obtain y where y: "(i, y) \<in> parent_rel db ns" "(y, x) \<in> parent_rel db ns ^^ n"
    using relpow_Suc_D2 [OF Suc.prems(1)] by blast
  obtain m' where m: "m = Suc m'" "n < m'"
    using Suc.prems(4) by (cases m) auto
  obtain p where p: "map_of (wd_pages db) (ns, i) = Some p" "wp_parent p = Some y"
    using y(1) by (auto simp: parent_rel_def)
  then have "map_of (wd_pages db) (ns, y) \<noteq> None"
    using Suc.prems(2) by (auto simp: parents_exist_def)
  from Suc.IH [OF y(2) Suc.prems(2) this m(2)] show ?case
    using p m by simp
qed

text \<open>The recursive query finds every ancestor, so a page it does not find cannot close a cycle.\<close>

lemma ancestors_complete:
  assumes "parents_exist db" and "map_of (wd_pages db) (ns, q) \<noteq> None" and "\<not> creates_cycle db ns q i"
  shows "(q, i) \<notin> (parent_rel db ns)\<^sup>*"
proof
  assume "(q, i) \<in> (parent_rel db ns)\<^sup>*"
  then obtain n where "n \<le> card (parent_rel db ns)" "(q, i) \<in> parent_rel db ns ^^ n"
    using rtrancl_finite_eq_relpow [OF finite_parent_rel] by auto
  then have "i \<in> set (ancestors (Suc (length (wd_pages db))) db ns q)"
    using ancestors_relpow [OF _ assms(1,2), of i n "Suc (length (wd_pages db))"] card_parent_rel [of db ns] by simp
  with assms(3) show False by (simp add: creates_cycle_def del: ancestors.simps)
qed

section \<open>The invariant\<close>

definition pages_sound :: "wiki_db \<Rightarrow> bool" where
  "pages_sound db \<longleftrightarrow>
    (\<forall>ns i p. map_of (wd_pages db) (ns, i) = Some p \<longrightarrow>
      wp_namespace p = ns \<and> wp_id p = i \<and> map_of (wd_names db) (ns, wp_name p) = Some i
      \<and> (\<exists>action. map_of (wd_revisions db) (ns, i, wp_revision p) = Some (p, action)))"

definition history_sound :: "wiki_db \<Rightarrow> bool" where
  "history_sound db \<longleftrightarrow>
    (\<forall>ns i v r action. map_of (wd_revisions db) (ns, i, v) = Some (r, action) \<longrightarrow>
      wp_namespace r = ns \<and> wp_id r = i \<and> wp_revision r = v \<and> map_of (wd_names db) (ns, wp_name r) = Some i)"

definition names_sound :: "wiki_db \<Rightarrow> bool" where
  "names_sound db \<longleftrightarrow>
    (\<forall>ns name i. map_of (wd_names db) (ns, name) = Some i \<longrightarrow> map_of (wd_pages db) (ns, i) \<noteq> None)
    \<and> (\<forall>ns i. map_of (wd_roots db) ns = Some i \<longrightarrow> map_of (wd_pages db) (ns, i) \<noteq> None)"

definition hierarchy_sound :: "wiki_db \<Rightarrow> bool" where
  "hierarchy_sound db \<longleftrightarrow> parents_exist db \<and> (\<forall>ns. acyclic (parent_rel db ns))"

definition wiki_sound :: "wiki_db \<Rightarrow> bool" where
  "wiki_sound db \<longleftrightarrow> pages_sound db \<and> history_sound db \<and> names_sound db \<and> hierarchy_sound db"

lemma history_soundD:
  "history_sound db \<Longrightarrow> map_of (wd_revisions db) (ns, i, v) = Some (r, action) \<Longrightarrow>
    wp_namespace r = ns \<and> wp_id r = i \<and> wp_revision r = v \<and> map_of (wd_names db) (ns, wp_name r) = Some i"
  unfolding history_sound_def by blast

lemma pages_soundD:
  "pages_sound db \<Longrightarrow> map_of (wd_pages db) (ns, i) = Some p \<Longrightarrow>
    wp_namespace p = ns \<and> wp_id p = i \<and> map_of (wd_names db) (ns, wp_name p) = Some i
    \<and> (\<exists>action. map_of (wd_revisions db) (ns, i, wp_revision p) = Some (p, action))"
  unfolding pages_sound_def by blast

text \<open>
  What both transactions that publish a page do: they write its row and a new revision, and reserve its name,
  which was free or its own.
\<close>

definition page_written :: "wiki_page \<Rightarrow> wiki_db \<Rightarrow> wiki_db \<Rightarrow> bool" where
  "page_written page db db' \<longleftrightarrow>
    (let ns = wp_namespace page; i = wp_id page in
      map_of (wd_pages db') = (map_of (wd_pages db))((ns, i) \<mapsto> page)
      \<and> map_of (wd_names db') = (map_of (wd_names db))((ns, wp_name page) \<mapsto> i)
      \<and> map_of (wd_names db) (ns, wp_name page) \<in> {None, Some i}
      \<and> map_of (wd_revisions db) (ns, i, wp_revision page) = None
      \<and> (\<exists>action. map_of (wd_revisions db') = (map_of (wd_revisions db))((ns, i, wp_revision page) \<mapsto> (page, action)))
      \<and> (\<forall>q. wp_parent page = Some q \<longrightarrow> map_of (wd_pages db) (ns, q) \<noteq> None \<and> \<not> creates_cycle db ns q i)
      \<and> wd_namespaces db' = wd_namespaces db \<and> wd_members db' = wd_members db)"

lemma page_written_access: "page_written page db db' \<Longrightarrow> authorize db' a ns = authorize db a ns"
  by (auto simp: authorize_def page_written_def Let_def split: option.split role.split)

lemma page_written_hierarchy:
  assumes "page_written page db db'" and "hierarchy_sound db"
  shows "hierarchy_sound db'"
proof -
  let ?ns = "wp_namespace page" and ?i = "wp_id page"
  have pages: "map_of (wd_pages db') = (map_of (wd_pages db))((?ns, ?i) \<mapsto> page)"
    and parent: "\<And>q. wp_parent page = Some q \<Longrightarrow> map_of (wd_pages db) (?ns, q) \<noteq> None \<and> \<not> creates_cycle db ?ns q ?i"
    using assms(1) by (auto simp: page_written_def Let_def)
  have exist: "parents_exist db" and acyc: "\<And>ns. acyclic (parent_rel db ns)"
    using assms(2) by (auto simp: hierarchy_sound_def)
  have "parents_exist db'"
    using exist parent unfolding parents_exist_def pages by (auto split: if_splits)
  moreover have "acyclic (parent_rel db' ns)" for ns
  proof (cases "ns = ?ns")
    case False
    then have "parent_rel db' ns = parent_rel db ns"
      by (simp add: parent_rel_def pages)
    then show ?thesis using acyc by simp
  next
    case True
    show ?thesis
    proof (cases "wp_parent page")
      case None
      then have "parent_rel db' ns \<subseteq> parent_rel db ns"
        using True by (auto simp: parent_rel_def pages split: if_splits)
      then show ?thesis using acyc acyclic_subset by blast
    next
      case (Some q)
      then have "parent_rel db' ns \<subseteq> insert (?i, q) (parent_rel db ns)"
        using True by (auto simp: parent_rel_def pages split: if_splits)
      moreover have "(q, ?i) \<notin> (parent_rel db ns)\<^sup>*"
        using ancestors_complete [OF exist] parent [OF Some] True by blast
      then have "acyclic (insert (?i, q) (parent_rel db ns))"
        using acyc by (simp add: acyclic_insert)
      ultimately show ?thesis using acyclic_subset by blast
    qed
  qed
  ultimately show ?thesis by (simp add: hierarchy_sound_def)
qed

lemma page_written_sound:
  assumes "page_written page db db'" and "wiki_sound db"
    and "\<And>ns i. map_of (wd_roots db') ns = Some i \<Longrightarrow> map_of (wd_pages db') (ns, i) \<noteq> None"
  shows "wiki_sound db'"
proof -
  let ?ns = "wp_namespace page" and ?i = "wp_id page"
  obtain action where w: "map_of (wd_pages db') = (map_of (wd_pages db))((?ns, ?i) \<mapsto> page)"
    "map_of (wd_names db') = (map_of (wd_names db))((?ns, wp_name page) \<mapsto> ?i)"
    "map_of (wd_names db) (?ns, wp_name page) \<in> {None, Some ?i}"
    "map_of (wd_revisions db) (?ns, ?i, wp_revision page) = None"
    "map_of (wd_revisions db') = (map_of (wd_revisions db))((?ns, ?i, wp_revision page) \<mapsto> (page, action))"
    using assms(1) by (auto simp: page_written_def Let_def)
  have old: "pages_sound db" "history_sound db" "names_sound db"
    using assms(2) by (auto simp: wiki_sound_def)
  have name: "map_of (wd_names db') k = Some j" if "map_of (wd_names db) k = Some j" for k j
    using that w(2,3) by (cases k) auto
  have "pages_sound db'"
    unfolding pages_sound_def
  proof (intro allI impI)
    fix ns i p
    assume p: "map_of (wd_pages db') (ns, i) = Some p"
    show "wp_namespace p = ns \<and> wp_id p = i \<and> map_of (wd_names db') (ns, wp_name p) = Some i
      \<and> (\<exists>action. map_of (wd_revisions db') (ns, i, wp_revision p) = Some (p, action))"
    proof (cases "(ns, i) = (?ns, ?i)")
      case True
      with p w show ?thesis by simp
    next
      case False
      with p w(1) have "map_of (wd_pages db) (ns, i) = Some p" by (auto split: if_splits)
      from pages_soundD [OF old(1) this] False name w(5) show ?thesis by auto
    qed
  qed
  moreover have "history_sound db'"
    unfolding history_sound_def
  proof (intro allI impI)
    fix ns i v r a
    assume r: "map_of (wd_revisions db') (ns, i, v) = Some (r, a)"
    show "wp_namespace r = ns \<and> wp_id r = i \<and> wp_revision r = v \<and> map_of (wd_names db') (ns, wp_name r) = Some i"
    proof (cases "(ns, i, v) = (?ns, ?i, wp_revision page)")
      case True
      with r w show ?thesis by simp
    next
      case False
      with r w(5) have "map_of (wd_revisions db) (ns, i, v) = Some (r, a)" by (auto split: if_splits)
      from history_soundD [OF old(2) this] name show ?thesis by simp
    qed
  qed
  moreover have "names_sound db'"
    using old(3) assms(3) unfolding names_sound_def w(1,2) by (auto split: if_splits)
  ultimately show ?thesis
    using page_written_hierarchy [OF assms(1)] assms(2) by (simp add: wiki_sound_def)
qed

section \<open>What the transactions do\<close>

lemma check_parent_ok:
  "check_parent db ns role i change parent = Inr () \<Longrightarrow> parent = Some q \<Longrightarrow>
    map_of (wd_pages db) (ns, q) \<noteq> None \<and> \<not> creates_cycle db ns q i"
  by (auto simp: check_parent_def load_page_def split: option.splits if_splits)

lemma put_revision_ok:
  "put_revision page action db = Inr db' \<Longrightarrow>
    map_of (wd_revisions db) (wp_namespace page, wp_id page, wp_revision page) = None
    \<and> db' = db\<lparr>wd_revisions := put (wp_namespace page, wp_id page, wp_revision page) (page, action) (wd_revisions db)\<rparr>"
  by (cases "map_of (wd_revisions db) (wp_namespace page, wp_id page, wp_revision page)")
    (auto simp: put_revision_def Let_def)

lemma apply_write_ok:
  assumes "apply_write l db actor ns role input fresh now = Inr (page, db')"
  shows "page_written page db db'" and "wp_namespace page = ns" and "wp_id page = wi_page input" and "wp_author page = actor"
    and "wd_roots db' = wd_roots db"
    and "map_of (wd_operations db') = (map_of (wd_operations db))((ns, actor, wi_operation input) \<mapsto> (input, page))"
    and "map_option wp_revision (map_of (wd_pages db) (ns, wi_page input)) = wi_expected_revision input"
    and "\<exists>action. plan_change db ns (wi_page input) (map_of (wd_pages db) (ns, wi_page input)) (wi_change input)
      = Inr (wp_name page, wp_markdown page, wp_deleted page, action, wp_parent page)"
proof -
  let ?i = "wi_page input"
  obtain name markdown deleted action parent where
    plan: "plan_change db ns ?i (map_of (wd_pages db) (ns, ?i)) (wi_change input) = Inr (name, markdown, deleted, action, parent)"
    and rev: "map_option wp_revision (map_of (wd_pages db) (ns, ?i)) = wi_expected_revision input"
    and parent: "check_parent db ns role ?i (wi_change input) parent = Inr ()"
    and free: "map_of (wd_names db) (ns, name) \<in> {None, Some ?i}"
    and page: "page = \<lparr>wp_parent = parent, wp_namespace = ns, wp_id = ?i, wp_revision = fresh, wp_name = name,
                     wp_markdown = markdown, wp_deleted = deleted, wp_author = actor, wp_updated_at = now\<rparr>"
    and pub: "publish_page actor ns input page action (map_of (wd_names db) (ns, name) \<noteq> None) db = Inr db'"
    using assms by (auto simp: apply_write_def Let_def split: if_splits)
  define db1 where "db1 = (if map_of (wd_names db) (ns, name) \<noteq> None then put_page page db
      else reserve_name ns (wp_name page) (wp_id page) (put_page page db))"
  have names1: "map_of (wd_names db1) = (map_of (wd_names db))((ns, name) \<mapsto> ?i)"
    using free page by (auto simp: db1_def reserve_name_def put_page_def fun_upd_idem_iff split: if_splits)
  have db1: "wd_pages db1 = put (ns, ?i) page (wd_pages db)" "wd_revisions db1 = wd_revisions db" "wd_roots db1 = wd_roots db"
    "wd_operations db1 = wd_operations db" "wd_namespaces db1 = wd_namespaces db" "wd_members db1 = wd_members db"
    using page by (simp_all add: db1_def reserve_name_def put_page_def)
  obtain db2 where db2: "put_revision page action db1 = Inr db2"
    and db': "db' = (replace_links ns (wp_id page) (link_names (wp_markdown page)) db2)
      \<lparr>wd_operations := put (ns, actor, wi_operation input) (input, page) (wd_operations db2)\<rparr>"
    using pub unfolding publish_page_def Let_def db1_def [symmetric]
    by (auto simp: db1_def replace_links_def split: if_splits)
  note rev2 = put_revision_ok [OF db2]
  show "page_written page db db'"
    unfolding page_written_def Let_def
    using rev2 db1 names1 free check_parent_ok [OF parent] by (auto simp: db' page replace_links_def)
  show "wp_namespace page = ns" "wp_id page = ?i" "wp_author page = actor" "wd_roots db' = wd_roots db"
    "map_of (wd_operations db') = (map_of (wd_operations db))((ns, actor, wi_operation input) \<mapsto> (input, page))"
    "map_option wp_revision (map_of (wd_pages db) (ns, ?i)) = wi_expected_revision input"
    "\<exists>action. plan_change db ns ?i (map_of (wd_pages db) (ns, ?i)) (wi_change input)
      = Inr (wp_name page, wp_markdown page, wp_deleted page, action, wp_parent page)"
    using rev2 db1 rev plan by (auto simp: db' page replace_links_def)
qed

lemma create_root_ok:
  assumes "create_root db a ns i revision now = Inr (page, db')"
  shows "page_written page db db'" and "wp_namespace page = ns" and "wp_author page = a"
    and "wd_operations db' = wd_operations db" and "map_of (wd_roots db') = (map_of (wd_roots db))(ns \<mapsto> wp_id page)"
proof -
  have page: "page = \<lparr>wp_parent = None, wp_namespace = ns, wp_id = i, wp_revision = revision, wp_name = subscriptions_name,
                   wp_markdown = [], wp_deleted = False, wp_author = a, wp_updated_at = now\<rparr>"
    and free: "map_of (wd_names db) (ns, subscriptions_name) = None"
    using assms by (auto simp: create_root_def Let_def split: if_splits)
  obtain db2 where db2: "put_revision page ''create_subscription_root'' (put_page page db) = Inr db2"
    and db': "db' = (reserve_name ns subscriptions_name i db2)\<lparr>wd_roots := put ns i (wd_roots db2)\<rparr>"
    using assms unfolding create_root_def Let_def page [symmetric]
    by (auto simp: reserve_name_def split: if_splits)
  note rev2 = put_revision_ok [OF db2]
  show "page_written page db db'"
    unfolding page_written_def Let_def using rev2 free by (auto simp: db' page put_page_def reserve_name_def)
  show "wp_namespace page = ns" "wp_author page = a" "wd_operations db' = wd_operations db"
    "map_of (wd_roots db') = (map_of (wd_roots db))(ns \<mapsto> wp_id page)"
    using rev2 by (auto simp: db' page put_page_def reserve_name_def)
qed

text \<open>The transactions that write no page; a namespace may be new, none changes its owner or name.\<close>

definition same_pages :: "wiki_db \<Rightarrow> wiki_db \<Rightarrow> bool" where
  "same_pages db db' \<longleftrightarrow>
    wd_pages db' = wd_pages db \<and> wd_names db' = wd_names db \<and> wd_revisions db' = wd_revisions db
    \<and> wd_roots db' = wd_roots db \<and> wd_operations db' = wd_operations db
    \<and> map_of (wd_namespaces db) \<subseteq>\<^sub>m map_of (wd_namespaces db')"

lemma same_pages_refl [simp]: "same_pages db db"
  by (simp add: same_pages_def)

lemma create_namespace_same: "create_namespace l db a ns name = Inr (n, db') \<Longrightarrow> same_pages db db'"
  by (auto simp: create_namespace_def same_pages_def map_le_def split: if_splits)

lemma set_member_same: "set_member db a ns username role = Inr db' \<Longrightarrow> same_pages db db'"
  by (auto simp: set_member_def same_pages_def split: if_splits option.splits)

lemma save_draft_same: "save_draft l db a ns d fresh = Inr (d', db') \<Longrightarrow> same_pages db db'"
  by (auto simp: save_draft_def same_pages_def Let_def split: if_splits option.splits)

lemma discard_draft_same: "discard_draft db a ns i revision = Inr db' \<Longrightarrow> same_pages db db'"
  by (auto simp: discard_draft_def same_pages_def Let_def split: if_splits)

lemma set_favorite_same: "set_favorite db a ns i favorite = Inr db' \<Longrightarrow> same_pages db db'"
  by (auto simp: set_favorite_def same_pages_def split: if_splits)

lemma set_binding_same: "set_binding db a s target = Inr db' \<Longrightarrow> same_pages db db'"
  by (auto simp: set_binding_def same_pages_def Let_def split: if_splits option.splits)

text \<open>A step that writes a page is the work of its author, who may edit the namespace at that moment.\<close>

definition may_edit :: "wiki_db \<Rightarrow> account_id \<Rightarrow> uuid \<Rightarrow> bool" where
  "may_edit db a ns \<longleftrightarrow> (\<exists>name role. authorize db a ns = Inr (name, role) \<and> can_edit role)"

lemma editor_Inr [simp]: "editor role = Inr u \<longleftrightarrow> can_edit role"
  by (simp add: editor_def)

lemma change_page_effect:
  assumes "change_page l db actor ns input fresh now = Inr (page, db')"
  shows "may_edit db actor ns"
    and "(map_of (wd_operations db) (ns, actor, wi_operation input) = Some (input, page) \<and> db' = db)
      \<or> (map_of (wd_operations db) (ns, actor, wi_operation input) = None
         \<and> (\<exists>role. apply_write l db actor ns role input fresh now = Inr (page, db')))"
  using assms by (auto simp: change_page_def may_edit_def split: option.splits if_splits)

lemma ensure_root_effect:
  assumes "ensure_subscription_root l db a ns i revision now = Inr (page, db')"
  shows "may_edit db a ns" and "db' = db \<or> create_root db a ns i revision now = Inr (page, db')"
  using assms by (auto simp: ensure_subscription_root_def may_edit_def split: option.splits if_splits)

lemma wiki_step_cases:
  assumes "wiki_step l db db'"
  obtains (same) "same_pages db db'"
  | (written) page where "page_written page db db'" and "may_edit db (wp_author page) (wp_namespace page)"
      and "map_of (wd_operations db) \<subseteq>\<^sub>m map_of (wd_operations db')"
      and "map_of (wd_roots db') \<in> {map_of (wd_roots db), (map_of (wd_roots db))(wp_namespace page \<mapsto> wp_id page)}"
  using assms
proof cases
  case (write_step actor ns input fresh now page)
  from change_page_effect(2) [OF this] show thesis
  proof (elim disjE conjE exE)
    fix role
    assume new: "map_of (wd_operations db) (ns, actor, wi_operation input) = None"
      and w: "apply_write l db actor ns role input fresh now = Inr (page, db')"
    show thesis
      by (rule written [of page])
        (use apply_write_ok [OF w] change_page_effect(1) [OF write_step] new in \<open>auto simp: map_le_def\<close>)
  qed (simp add: same)
next
  case (root_step actor ns i revision now page)
  from ensure_root_effect(2) [OF this] show thesis
  proof
    assume w: "create_root db actor ns i revision now = Inr (page, db')"
    show thesis
      by (rule written [of page])
        (use create_root_ok [OF w] ensure_root_effect(1) [OF root_step] in auto)
  qed (simp add: same)
next
  case elsewhere
  then have "same_pages db db'" by (simp add: same_wiki_def same_pages_def)
  then show thesis by (rule same)
qed (auto intro: same create_namespace_same set_member_same save_draft_same discard_draft_same set_favorite_same
      set_binding_same)

lemma same_pages_sound: "same_pages db db' \<Longrightarrow> wiki_sound db \<Longrightarrow> wiki_sound db'"
  by (simp add: same_pages_def wiki_sound_def pages_sound_def history_sound_def names_sound_def hierarchy_sound_def
      parents_exist_def parent_rel_def)

lemma wiki_step_sound:
  assumes "wiki_step l db db'" and "wiki_sound db"
  shows "wiki_sound db'"
  using assms(1)
proof (cases rule: wiki_step_cases)
  case same
  then show ?thesis using assms(2) by (rule same_pages_sound)
next
  case (written page)
  have pages: "map_of (wd_pages db') = (map_of (wd_pages db))((wp_namespace page, wp_id page) \<mapsto> page)"
    using written(1) by (simp add: page_written_def Let_def)
  have "map_of (wd_pages db) (ns, i) \<noteq> None" if "map_of (wd_roots db) ns = Some i" for ns i
    using assms(2) that by (simp add: wiki_sound_def names_sound_def)
  then have "map_of (wd_pages db') (ns, i) \<noteq> None" if "map_of (wd_roots db') ns = Some i" for ns i
    using written(4) that unfolding pages by (auto split: if_splits)
  with written(1) assms(2) show ?thesis by (rule page_written_sound)
qed

section \<open>What a run keeps\<close>

text \<open>
  A property of the tables that a page written and a namespace added both keep holds for the rest of every run.
\<close>

locale kept_by_writes =
  fixes P :: "wiki_db \<Rightarrow> bool"
  assumes same: "same_pages db db' \<Longrightarrow> P db \<Longrightarrow> P db'"
    and written: "page_written page db db' \<Longrightarrow> map_of (wd_operations db) \<subseteq>\<^sub>m map_of (wd_operations db') \<Longrightarrow>
      wiki_sound db \<Longrightarrow> P db \<Longrightarrow> P db'"
begin

lemma kept_step: "wiki_step l db db' \<Longrightarrow> wiki_sound db \<Longrightarrow> P db \<Longrightarrow> P db'"
  by (erule wiki_step_cases) (auto intro: same written)

lemma kept_run:
  assumes "(wiki_step l)\<^sup>*\<^sup>* db db'" and "wiki_sound db" and "P db"
  shows "wiki_sound db' \<and> P db'"
  using assms(1)
proof (induction rule: rtranclp_induct)
  case base
  then show ?case using assms by simp
next
  case (step y z)
  then show ?case using wiki_step_sound kept_step by blast
qed

end

lemma map_le_SomeD: "f \<subseteq>\<^sub>m g \<Longrightarrow> f k = Some v \<Longrightarrow> g k = Some v"
  unfolding map_le_def by (metis domI)

text \<open>A name stays with its page, a revision stays as it was written, an answered operation stays answered.\<close>

interpretation name_kept: kept_by_writes "\<lambda>db. map_of (wd_names db) k = Some i" for k i
  by unfold_locales (auto simp: same_pages_def page_written_def Let_def)

interpretation revision_kept: kept_by_writes "\<lambda>db. map_of (wd_revisions db) k = Some r" for k r
  by unfold_locales (auto simp: same_pages_def page_written_def Let_def)

interpretation operation_kept: kept_by_writes "\<lambda>db. map_of (wd_operations db) k = Some r" for k r
  by unfold_locales (simp_all add: same_pages_def map_le_SomeD)

interpretation owner_kept: kept_by_writes "\<lambda>db. map_of (wd_namespaces db) ns = Some n" for ns n
  by unfold_locales (auto simp: same_pages_def page_written_def Let_def intro: map_le_SomeD)

text \<open>A revision that another has replaced never becomes the current one again, and a page never goes away.\<close>

definition superseded :: "uuid \<Rightarrow> uuid \<Rightarrow> uuid option \<Rightarrow> wiki_db \<Rightarrow> bool" where
  "superseded ns i v db \<longleftrightarrow>
    (\<exists>p. map_of (wd_pages db) (ns, i) = Some p \<and> Some (wp_revision p) \<noteq> v)
    \<and> (case v of None \<Rightarrow> True | Some r \<Rightarrow> map_of (wd_revisions db) (ns, i, r) \<noteq> None)"

interpretation superseded_kept: kept_by_writes "superseded ns i v" for ns i v
proof
  fix db db' page
  assume "page_written page db db'" and "superseded ns i v db"
  then show "superseded ns i v db'"
    by (cases v) (auto simp: superseded_def page_written_def Let_def)
qed (auto simp: superseded_def same_pages_def split: option.splits)

text \<open>The recursive query finds ancestors only.\<close>

lemma ancestors_sound: "x \<in> set (ancestors n db ns i) \<Longrightarrow> (i, x) \<in> (parent_rel db ns)\<^sup>*"
proof (induction n arbitrary: i)
  case (Suc n)
  then obtain p where p: "map_of (wd_pages db) (ns, i) = Some p"
    by (cases "map_of (wd_pages db) (ns, i)") auto
  with Suc.prems have x: "x = i \<or> (\<exists>q. wp_parent p = Some q \<and> x \<in> set (ancestors n db ns q))"
    by (cases "wp_parent p") auto
  from x show ?case
  proof (elim disjE exE conjE)
    fix q
    assume q: "wp_parent p = Some q" "x \<in> set (ancestors n db ns q)"
    then have "(i, q) \<in> parent_rel db ns" using p by (simp add: parent_rel_def)
    with Suc.IH [OF q(2)] show ?thesis by (rule converse_rtrancl_into_rtrancl [rotated])
  qed simp
qed simp

lemma no_wiki_sound: "no_wiki db \<Longrightarrow> wiki_sound db"
  by (simp add: no_wiki_def wiki_sound_def pages_sound_def history_sound_def names_sound_def hierarchy_sound_def
      parents_exist_def parent_rel_def acyclic_def)

lemma run_sound: "(wiki_step l)\<^sup>*\<^sup>* db db' \<Longrightarrow> wiki_sound db \<Longrightarrow> wiki_sound db'"
  by (induction rule: rtranclp_induct) (auto intro: wiki_step_sound)

lemma change_page_step: "change_page l db a ns input fresh now = Inr (page, db') \<Longrightarrow> (wiki_step l)\<^sup>*\<^sup>* db db'"
  by (intro r_into_rtranclp wiki_step.write_step)

lemma change_page_answered:
  assumes "change_page l db a ns input fresh now = Inr (page, db')"
  shows "map_of (wd_operations db') (ns, a, wi_operation input) = Some (input, page)"
  using change_page_effect(2) [OF assms] by (auto simp: apply_write_ok(6))

lemma apply_write_supersedes:
  assumes "wiki_sound db" and w: "apply_write l db a ns role input fresh now = Inr (page, db')"
  shows "superseded ns (wi_page input) (wi_expected_revision input) db'"
proof -
  note ok = apply_write_ok [OF w]
  have new: "map_of (wd_pages db') (ns, wi_page input) = Some page"
    "map_of (wd_revisions db) (ns, wi_page input, wp_revision page) = None"
    using ok(1) ok(2,3) by (auto simp: page_written_def Let_def)
  show ?thesis
  proof (cases "wi_expected_revision input")
    case None
    then show ?thesis using new by (simp add: superseded_def)
  next
    case (Some v)
    then obtain p where p: "map_of (wd_pages db) (ns, wi_page input) = Some p" "wp_revision p = v"
      using ok(7) by auto
    have "pages_sound db" using assms(1) by (simp add: wiki_sound_def)
    from pages_soundD [OF this p(1)] p(2) have old: "map_of (wd_revisions db) (ns, wi_page input, v) \<noteq> None" by auto
    then have "map_of (wd_revisions db') (ns, wi_page input, v) \<noteq> None"
      using ok(1) by (auto simp: page_written_def Let_def)
    with new old Some show ?thesis by (auto simp: superseded_def)
  qed
qed

section \<open>Properties\<close>

text \<open>C28. Whatever transactions of members follow each other, in every namespace the row of a page is the revision
  it names, every revision is filed under its page, every name that a page has or had leads to it and to no
  other, roots and parents exist, and no page is its own ancestor.\<close>

theorem wiki_stays_sound:
  assumes "no_wiki db" and "(wiki_step l)\<^sup>*\<^sup>* db db'"
  shows "wiki_sound db'"
  using run_sound [OF assms(2) no_wiki_sound [OF assms(1)]] .

text \<open>C29. A revision once published stays as it was, and the name it had leads to its page ever after: after any
  later transactions, also renames and deletions, resolving the name is reading that page, for every account,
  and no other page has the name.\<close>

theorem names_and_history_permanent:
  assumes "no_wiki db0" and "(wiki_step l)\<^sup>*\<^sup>* db0 db" and "(wiki_step l)\<^sup>*\<^sup>* db db'"
    and "map_of (wd_revisions db) (ns, i, v) = Some (r, action)"
    and "limit_name m (wp_name r) = Inr ()"
  shows "map_of (wd_revisions db') (ns, i, v) = Some (r, action)
    \<and> resolve_name m db' a ns (wp_name r) = read_page db' a ns i
    \<and> (\<forall>j p. map_of (wd_pages db') (ns, j) = Some p \<longrightarrow> wp_name p = wp_name r \<longrightarrow> j = i)"
proof -
  have sound: "wiki_sound db"
    using run_sound [OF assms(2) no_wiki_sound [OF assms(1)]] .
  then have "history_sound db" by (simp add: wiki_sound_def)
  from history_soundD [OF this assms(4)] have "map_of (wd_names db) (ns, wp_name r) = Some i" by simp
  then have name: "map_of (wd_names db') (ns, wp_name r) = Some i"
    using name_kept.kept_run [OF assms(3) sound] by blast
  have kept: "map_of (wd_revisions db') (ns, i, v) = Some (r, action)" and "pages_sound db'"
    using revision_kept.kept_run [OF assms(3) sound assms(4)] by (auto simp: wiki_sound_def)
  then have unique: "j = i" if "map_of (wd_pages db') (ns, j) = Some p" "wp_name p = wp_name r" for j p
    using pages_soundD [OF _ that(1)] that(2) name by simp
  have "resolve_name m db' a ns (wp_name r) = read_page db' a ns i"
    using name assms(5) by (simp add: resolve_name_def read_page_def ok_or_def)
  with kept unique show ?thesis by blast
qed

text \<open>C31. A write that succeeded can be repeated at any later time, by the same account while it may edit: it
  returns the same page and changes nothing, whatever has happened to the page since. The same operation with
  another request is a conflict.\<close>

theorem write_replayed:
  assumes "wiki_sound db" and "change_page l db a ns input fresh now = Inr (page, db1)"
    and "(wiki_step l)\<^sup>*\<^sup>* db1 db2" and "may_edit db2 a ns"
  shows "change_page m db2 a ns input fresh' now' = Inr (page, db2)
    \<and> (\<forall>other. wi_operation other = wi_operation input \<longrightarrow> other \<noteq> input \<longrightarrow>
        change_page m db2 a ns other fresh' now' = Inl WikiConflict)"
proof -
  have "wiki_sound db1" using run_sound [OF change_page_step [OF assms(2)] assms(1)] .
  then have "map_of (wd_operations db2) (ns, a, wi_operation input) = Some (input, page)"
    using operation_kept.kept_run [OF assms(3)] change_page_answered [OF assms(2)] by blast
  then show ?thesis using assms(4) by (auto simp: change_page_def may_edit_def editor_def)
qed

text \<open>C30. No update is lost: once a write to a page has succeeded, no other write by any account that was
  prepared on the same revision (or, both creating the page, on none) succeeds, however much later it arrives.\<close>

theorem page_updates_not_lost:
  assumes "wiki_sound db" and "change_page l db a ns input fresh now = Inr (page, db1)"
    and "map_of (wd_operations db) (ns, a, wi_operation input) = None"
    and "(wiki_step l)\<^sup>*\<^sup>* db1 db2"
    and "wi_page other = wi_page input" and "wi_expected_revision other = wi_expected_revision input"
    and "may_edit db2 b ns" and "map_of (wd_operations db2) (ns, b, wi_operation other) = None"
  shows "change_page m db2 b ns other fresh' now' = Inl WikiConflict"
proof -
  obtain role where w: "apply_write l db a ns role input fresh now = Inr (page, db1)"
    using change_page_effect(2) [OF assms(2)] assms(3) by auto
  have "wiki_sound db1" using run_sound [OF change_page_step [OF assms(2)] assms(1)] .
  then have "superseded ns (wi_page input) (wi_expected_revision input) db2"
    using superseded_kept.kept_run [OF assms(4)] apply_write_supersedes [OF assms(1) w] by blast
  then show ?thesis
    using assms(5-8) by (auto simp: superseded_def change_page_def may_edit_def editor_def apply_write_def Let_def)
qed


text \<open>C32. A page can be brought back to any of its revisions: for an editor who knows the current revision of a page
  in use, restoring succeeds when the text still meets the limits and the parent it had is in use and not below
  the page. The name can never be refused as taken, and what readers then see is the text, name and parent of
  that revision.\<close>

theorem revision_restorable:
  assumes sound: "wiki_sound db" and allowed: "may_edit db a ns"
    and new: "map_of (wd_operations db) (ns, a, op) = None" "map_of (wd_revisions db) (ns, i, fresh) = None"
    and page: "map_of (wd_pages db) (ns, i) = Some p" "\<not> wp_deleted p"
    and old: "map_of (wd_revisions db) (ns, i, v) = Some (r, action)"
    and limits: "limit_name l (wp_name r) = Inr ()" "limit_markdown l (wp_markdown r) = Inr ()"
    and parent: "\<And>q. wp_parent r = Some q \<Longrightarrow>
      (\<exists>t. map_of (wd_pages db) (ns, q) = Some t \<and> \<not> wp_deleted t) \<and> (q, i) \<notin> (parent_rel db ns)\<^sup>*"
  shows "\<exists>page db'. change_page l db a ns \<lparr>wi_operation = op, wi_page = i, wi_expected_revision = Some (wp_revision p),
      wi_change = RestoreRevision v\<rparr> fresh now = Inr (page, db')
    \<and> wp_name page = wp_name r \<and> wp_markdown page = wp_markdown r \<and> wp_parent page = wp_parent r
    \<and> \<not> wp_deleted page \<and> read_page db' a ns i = Inr page"
proof -
  obtain name role where auth: "authorize db a ns = Inr (name, role)" "can_edit role"
    using allowed by (auto simp: may_edit_def)
  have "history_sound db" using sound by (simp add: wiki_sound_def)
  from history_soundD [OF this old] have names: "map_of (wd_names db) (ns, wp_name r) = Some i" by simp
  let ?input = "\<lparr>wi_operation = op, wi_page = i, wi_expected_revision = Some (wp_revision p), wi_change = RestoreRevision v\<rparr>"
  have check: "check_parent db ns role i (RestoreRevision v) (wp_parent r) = Inr ()"
    using parent ancestors_sound [of i "Suc (length (wd_pages db))" db ns]
    by (auto simp: check_parent_def load_page_def creates_cycle_def simp del: ancestors.simps split: option.splits)
  obtain page db' where run: "apply_write l db a ns role ?input fresh now = Inr (page, db')"
    and same: "wp_name page = wp_name r" "wp_markdown page = wp_markdown r" "wp_parent page = wp_parent r" "\<not> wp_deleted page"
    using new(2) page old limits names check
    by (auto simp: apply_write_def plan_change_def existing_page_def current_page_def ok_or_def publish_page_def
        put_revision_def put_page_def replace_links_def Let_def)
  have "change_page l db a ns ?input fresh now = Inr (page, db')"
    using auth new(1) run by (simp add: change_page_def)
  moreover have "read_page db' a ns i = Inr page"
  proof -
    note ok = apply_write_ok [OF run]
    have "authorize db' a ns = authorize db a ns"
      using ok(1) by (rule page_written_access)
    moreover have "map_of (wd_pages db') (ns, i) = Some page"
      using ok(1-3) by (auto simp: page_written_def Let_def)
    ultimately show ?thesis using auth by (simp add: read_page_def load_page_def)
  qed
  ultimately show ?thesis using same by blast
qed

section \<open>One namespace\<close>

text \<open>An account opens a namespace, creates a page and renames it.\<close>

definition demo_wiki_limits :: wiki_limits where
  "demo_wiki_limits =
    \<lparr>wl_name_bytes = 200, wl_markdown_bytes = 1000, wl_search_bytes = 100, wl_search_excerpt_characters = 100,
     wl_page_size = 50, wl_draft_save_delay_ms = 500\<rparr>"

definition demo_wiki :: "(uuid \<times> account_id \<times> string) list \<Rightarrow> wiki_db" where
  "demo_wiki namespaces =
    \<lparr>db_workspaces = [],
     db_accounts = [(9, 0, \<lparr>acc_id = 9, acc_username = ''ann'', acc_password_hash = [], acc_admin = False,
       acc_auth_revision = 0, acc_revision = 0\<rparr>)],
     db_usernames = [], db_invites = [], db_sessions = [], db_resets = [], db_login_attempts = [],
     db_subscriptions = [], db_removed_subscriptions = [], db_subscription_sources = [], db_feed_urls = [],
     db_sources = [], db_source_urls = [], db_source_records = [], db_jobs = [], db_source_health = [],
     db_activity = [], db_articles = [], db_dedup = [], db_origins = [], db_rules = [], db_rule_evaluations = [],
     db_history_links = [], db_auto_read_days = [], db_read_events = [], db_manifests = [], db_chunks = [],
     wd_namespaces = namespaces, wd_members = [], wd_pages = [], wd_names = [], wd_revisions = [], wd_drafts = [],
     wd_links = {}, wd_bindings = [], wd_operations = [], wd_favorites = {}, wd_roots = []\<rparr>"

definition demo_save :: write_input where
  "demo_save = \<lparr>wi_operation = 1, wi_page = 5, wi_expected_revision = None, wi_change = Save ''A'' ''t''\<rparr>"

definition demo_rename :: write_input where
  "demo_rename = \<lparr>wi_operation = 2, wi_page = 5, wi_expected_revision = Some 21, wi_change = Rename ''B''\<rparr>"

definition demo_page_row :: "uuid \<Rightarrow> string \<Rightarrow> wiki_page" where
  "demo_page_row revision name =
    \<lparr>wp_parent = None, wp_namespace = 3, wp_id = 5, wp_revision = revision, wp_name = name, wp_markdown = ''t'',
     wp_deleted = False, wp_author = 9, wp_updated_at = 0\<rparr>"

definition demo_saved :: wiki_db where
  "demo_saved = (demo_wiki [(3, 9, ''N'')])
    \<lparr>wd_pages := [((3, 5), demo_page_row 21 ''A'')], wd_names := [((3, ''A''), 5)],
     wd_revisions := [((3, 5, 21), demo_page_row 21 ''A'', ''save'')],
     wd_operations := [((3, 9, 1), demo_save, demo_page_row 21 ''A'')]\<rparr>"

definition demo_renamed_wiki :: wiki_db where
  "demo_renamed_wiki = demo_saved
    \<lparr>wd_pages := [((3, 5), demo_page_row 22 ''B'')], wd_names := [((3, ''A''), 5), ((3, ''B''), 5)],
     wd_revisions := [((3, 5, 21), demo_page_row 21 ''A'', ''save''), ((3, 5, 22), demo_page_row 22 ''B'', ''rename'')],
     wd_operations := [((3, 9, 1), demo_save, demo_page_row 21 ''A''), ((3, 9, 2), demo_rename, demo_page_row 22 ''B'')]\<rparr>"

lemmas demo_wiki_defs = demo_wiki_limits_def demo_wiki_def demo_save_def demo_rename_def demo_page_row_def
  demo_saved_def demo_renamed_wiki_def

lemmas write_eval = change_page_def authorize_def editor_def can_edit_def apply_write_def plan_change_def
  existing_page_def current_page_def ok_or_def check_parent_def limit_name_def limit_markdown_def
  forbidden_name_chars_def publish_page_def put_page_def reserve_name_def put_revision_def replace_links_def Let_def
  put_def

lemma demo_links: "link_names ''t'' = {}"
  by (simp add: link_names_def link_targets.simps)

lemma demo_namespace_run: "(wiki_step demo_wiki_limits)\<^sup>*\<^sup>* (demo_wiki []) (demo_wiki [(3, 9, ''N'')])"
proof -
  have "create_namespace demo_wiki_limits (demo_wiki []) 9 3 ''N''
      = Inr (\<lparr>wn_id = 3, wn_name = ''N'', wn_role = Owner\<rparr>, demo_wiki [(3, 9, ''N'')])"
    by (simp add: create_namespace_def write_eval demo_wiki_defs)
  then show ?thesis by (intro r_into_rtranclp wiki_step.namespace_step)
qed

lemma demo_save_run:
  "change_page demo_wiki_limits (demo_wiki [(3, 9, ''N'')]) 9 3 demo_save 21 0 = Inr (demo_page_row 21 ''A'', demo_saved)"
  by (simp add: write_eval demo_wiki_defs demo_links)

lemma demo_rename_run:
  "change_page demo_wiki_limits demo_saved 9 3 demo_rename 22 0 = Inr (demo_page_row 22 ''B'', demo_renamed_wiki)"
  by (simp add: write_eval demo_wiki_defs demo_links)

lemma demo_no_wiki: "no_wiki (demo_wiki [])"
  by (simp add: no_wiki_def demo_wiki_def)

lemma demo_saved_run: "(wiki_step demo_wiki_limits)\<^sup>*\<^sup>* (demo_wiki []) demo_saved"
  using demo_namespace_run change_page_step [OF demo_save_run] by (rule rtranclp_trans)

lemma demo_renamed_run: "(wiki_step demo_wiki_limits)\<^sup>*\<^sup>* demo_saved demo_renamed_wiki"
  by (rule change_page_step [OF demo_rename_run])

lemma demo_sound: "wiki_sound (demo_wiki [(3, 9, ''N'')])" "wiki_sound demo_saved" "wiki_sound demo_renamed_wiki"
  using demo_namespace_run demo_saved_run demo_renamed_run run_sound no_wiki_sound [OF demo_no_wiki] by blast+

lemma demo_may_edit: "may_edit demo_saved 9 3" "may_edit demo_renamed_wiki 9 3"
  by (simp_all add: may_edit_def authorize_def can_edit_def demo_wiki_defs)

theorem wiki_stays_sound_witness: "no_wiki (demo_wiki []) \<and> wiki_sound demo_renamed_wiki \<and> wd_pages demo_renamed_wiki \<noteq> []"
  using demo_no_wiki wiki_stays_sound [OF demo_no_wiki rtranclp_trans [OF demo_saved_run demo_renamed_run]]
  by (simp add: demo_renamed_wiki_def)

theorem names_and_history_permanent_witness:
  "map_of (wd_revisions demo_renamed_wiki) (3, 5, 21) = Some (demo_page_row 21 ''A'', ''save'')
    \<and> resolve_name demo_wiki_limits demo_renamed_wiki 9 3 ''A'' = read_page demo_renamed_wiki 9 3 5"
proof -
  have "map_of (wd_revisions demo_saved) (3, 5, 21) = Some (demo_page_row 21 ''A'', ''save'')"
    and "limit_name demo_wiki_limits (wp_name (demo_page_row 21 ''A'')) = Inr ()"
    by (simp_all add: demo_wiki_defs limit_name_def forbidden_name_chars_def)
  from names_and_history_permanent [OF demo_no_wiki demo_saved_run demo_renamed_run this, of 9]
  show ?thesis by (simp add: demo_page_row_def)
qed

theorem write_replayed_witness:
  "change_page demo_wiki_limits demo_renamed_wiki 9 3 demo_save 30 7 = Inr (demo_page_row 21 ''A'', demo_renamed_wiki)"
  using write_replayed [OF demo_sound(1) demo_save_run demo_renamed_run demo_may_edit(2)] by blast

theorem page_updates_not_lost_witness:
  "change_page demo_wiki_limits demo_renamed_wiki 9 3 (demo_rename\<lparr>wi_operation := 4, wi_change := Trash\<rparr>) 23 0
    = Inl WikiConflict"
  by (rule page_updates_not_lost [OF demo_sound(2) demo_rename_run _ rtranclp.rtrancl_refl _ _ demo_may_edit(2)])
    (simp_all add: demo_wiki_defs)


theorem revision_restorable_witness:
  "\<exists>page db'. change_page demo_wiki_limits demo_renamed_wiki 9 3 \<lparr>wi_operation = 4, wi_page = 5,
      wi_expected_revision = Some 22, wi_change = RestoreRevision 21\<rparr> 23 0 = Inr (page, db')
    \<and> wp_name page = ''A'' \<and> wp_markdown page = ''t'' \<and> wp_parent page = None \<and> \<not> wp_deleted page
    \<and> read_page db' 9 3 5 = Inr page"
proof -
  have "map_of (wd_operations demo_renamed_wiki) (3, 9, 4) = None" "map_of (wd_revisions demo_renamed_wiki) (3, 5, 23) = None"
    "map_of (wd_pages demo_renamed_wiki) (3, 5) = Some (demo_page_row 22 ''B'')" "\<not> wp_deleted (demo_page_row 22 ''B'')"
    "map_of (wd_revisions demo_renamed_wiki) (3, 5, 21) = Some (demo_page_row 21 ''A'', ''save'')"
    "limit_name demo_wiki_limits (wp_name (demo_page_row 21 ''A'')) = Inr ()"
    "limit_markdown demo_wiki_limits (wp_markdown (demo_page_row 21 ''A'')) = Inr ()"
    by (simp_all add: demo_wiki_defs limit_name_def limit_markdown_def forbidden_name_chars_def)
  from revision_restorable [OF demo_sound(3) demo_may_edit(2) this, of 0] show ?thesis
    by (simp add: demo_page_row_def)
qed

end
