(* ===== verification/Outbound.thy ===== *)
theory Outbound
  imports Url
begin

text \<open>
  The outbound policy (\<open>reader-web-runtime/src/network.rs\<close> and the outbound limits of \<open>config.rs\<close>):
  which URLs may be requested, which addresses of a DNS answer may be connected to, what a request
  keeps when it follows a redirect, and how often it may do so. A duration is its number of
  nanoseconds. A \<open>HeaderMap\<close> is the list of its entries with lower case names, as its iterator
  yields them; a header value carries what \<open>to_str\<close> returns and whether it is marked sensitive.
  \<open>Url::join\<close> belongs to the \<open>url\<close> crate and is an argument.

  The section on address blocks states what the hand-written octet tests mean: membership in a list
  of CIDR blocks.
\<close>

type_synonym duration = nat

definition from_millis :: "u64 \<Rightarrow> duration" where
  "from_millis ms = unat ms * 1000000"

section \<open>Limits\<close>

record outbound_limits =
  ol_connect_timeout :: duration
  ol_request_deadline :: duration
  ol_max_redirect_hops :: nat
  ol_max_response_body_bytes :: nat

record raw_outbound_limits =
  raw_connect_timeout_ms :: u64
  raw_request_deadline_ms :: u64
  raw_max_redirect_hops :: nat
  raw_max_response_body_bytes :: nat

datatype limits_error = LimitZero string | ConnectExceedsDeadline | MustBeZero string | NavigationExceedsPreview

definition outbound_limits_of :: "raw_outbound_limits \<Rightarrow> limits_error + outbound_limits" where
  "outbound_limits_of raw =
    (if raw_connect_timeout_ms raw = 0 then Inl (LimitZero ''http.connect_timeout_ms'')
     else if raw_request_deadline_ms raw = 0 then Inl (LimitZero ''http.request_deadline_ms'')
     else if raw_max_response_body_bytes raw = 0 then Inl (LimitZero ''http.max_response_body_bytes'')
     else if raw_request_deadline_ms raw < raw_connect_timeout_ms raw then Inl ConnectExceedsDeadline
     else Inr \<lparr>ol_connect_timeout = from_millis (raw_connect_timeout_ms raw),
               ol_request_deadline = from_millis (raw_request_deadline_ms raw),
               ol_max_redirect_hops = raw_max_redirect_hops raw,
               ol_max_response_body_bytes = raw_max_response_body_bytes raw\<rparr>)"

section \<open>Addresses\<close>

datatype ipv4_addr = Ipv4 u8 u8 u8 u8
datatype ipv6_addr = Ipv6 u16 u16 u16 u16 u16 u16 u16 u16
datatype ip_addr = V4 ipv4_addr | V6 ipv6_addr

fun forbidden_v4 :: "ipv4_addr \<Rightarrow> bool" where
  "forbidden_v4 (Ipv4 a b c d) \<longleftrightarrow>
    a = 0
    \<or> a = 10
    \<or> a = 127
    \<or> 224 \<le> a
    \<or> (a = 100 \<and> 64 \<le> b \<and> b \<le> 127)
    \<or> (a = 169 \<and> b = 254)
    \<or> (a = 172 \<and> 16 \<le> b \<and> b \<le> 31)
    \<or> (a = 192 \<and> b = 168)
    \<or> (a = 192 \<and> b = 0 \<and> c = 0)
    \<or> (a = 192 \<and> b = 0 \<and> c = 2)
    \<or> (a = 198 \<and> (b = 18 \<or> b = 19))
    \<or> (a = 198 \<and> b = 51 \<and> c = 100)
    \<or> (a = 203 \<and> b = 0 \<and> c = 113)
    \<or> (a = 255 \<and> b = 255 \<and> c = 255 \<and> d = 255)"

text \<open>\<open>Ipv4Addr::new((s >> 8) as u8, s as u8, (t >> 8) as u8, t as u8)\<close>.\<close>

definition embedded_v4 :: "u16 \<Rightarrow> u16 \<Rightarrow> ipv4_addr" where
  "embedded_v4 s t = Ipv4 (ucast (drop_bit 8 s)) (ucast s) (ucast (drop_bit 8 t)) (ucast t)"

text \<open>\<open>Ipv6Addr::to_ipv4_mapped\<close>, \<open>is_unspecified\<close>, \<open>is_loopback\<close> and \<open>is_multicast\<close> of the standard library.\<close>

fun to_ipv4_mapped :: "ipv6_addr \<Rightarrow> ipv4_addr option" where
  "to_ipv4_mapped (Ipv6 a b c d e f g h) =
    (if a = 0 \<and> b = 0 \<and> c = 0 \<and> d = 0 \<and> e = 0 \<and> f = 0xffff then Some (embedded_v4 g h) else None)"

definition is_unspecified :: "ipv6_addr \<Rightarrow> bool" where
  "is_unspecified ip \<longleftrightarrow> ip = Ipv6 0 0 0 0 0 0 0 0"

definition is_loopback :: "ipv6_addr \<Rightarrow> bool" where
  "is_loopback ip \<longleftrightarrow> ip = Ipv6 0 0 0 0 0 0 0 1"

fun is_multicast :: "ipv6_addr \<Rightarrow> bool" where
  "is_multicast (Ipv6 a b c d e f g h) \<longleftrightarrow> and a 0xff00 = 0xff00"

fun forbidden_v6_segments :: "ipv6_addr \<Rightarrow> bool" where
  "forbidden_v6_segments (Ipv6 a b c d e f g h) \<longleftrightarrow>
    and a 0xfe00 = 0xfc00
    \<or> and a 0xffc0 = 0xfe80
    \<or> (a = 0x2001 \<and> b = 0x0db8)
    \<or> (a = 0x0064 \<and> b = 0xff9b \<and> c = 0 \<and> d = 0 \<and> forbidden_v4 (embedded_v4 g h))"

definition forbidden_v6 :: "ipv6_addr \<Rightarrow> bool" where
  "forbidden_v6 ip \<longleftrightarrow>
    (case to_ipv4_mapped ip of
       Some v4 \<Rightarrow> forbidden_v4 v4
     | None \<Rightarrow> is_unspecified ip \<or> is_loopback ip \<or> is_multicast ip \<or> forbidden_v6_segments ip)"

section \<open>Errors and policy\<close>

datatype outbound_error =
  OriginNotAllowed
| UnsupportedScheme string
| PlainHttpRequiresExplicitPolicy
| MissingHost
| UrlCredentialsForbidden
| DnsNoAddresses
| ForbiddenAddress ip_addr
| ConnectedAddressChanged ip_addr
| RedirectLimitExceeded
| RedirectLoop
| InvalidRedirectLocation
| DeadlineExceeded
| ResponseBodyTooLarge nat
| Transport string

fun forbidden_address :: "ip_addr \<Rightarrow> bool" where
  "forbidden_address (V4 v4) = forbidden_v4 v4"
| "forbidden_address (V6 v6) = forbidden_v6 v6"

definition validate_public_address :: "ip_addr \<Rightarrow> outbound_error + unit" where
  "validate_public_address a = (if forbidden_address a then Inl (ForbiddenAddress a) else Inr ())"

text \<open>\<open>Url::port_or_known_default\<close>: the explicit port, or the default of the schemes that pass the policy.\<close>

definition port_or_known_default :: "url \<Rightarrow> nat option" where
  "port_or_known_default u =
    (case url_port u of
       Some p \<Rightarrow> Some p
     | None \<Rightarrow>
         if url_scheme u \<in> {''http'', ''ws''} then Some 80
         else if url_scheme u \<in> {''https'', ''wss''} then Some 443
         else if url_scheme u = ''ftp'' then Some 21
         else None)"

type_synonym url_origin = "string \<times> string option \<times> nat option"

definition origin :: "url \<Rightarrow> url_origin" where
  "origin u = (url_scheme u, map_option (map ascii_lower_char) (url_host u), port_or_known_default u)"

record outbound_policy =
  op_allow_plain_http :: bool
  op_plain_http_hosts :: "string set"
  op_limits :: outbound_limits
  op_allowed_origin :: "url_origin option"

definition outbound_policy_new :: "bool \<Rightarrow> outbound_limits \<Rightarrow> outbound_policy" where
  "outbound_policy_new plain limits =
    \<lparr>op_allow_plain_http = plain, op_plain_http_hosts = {}, op_limits = limits, op_allowed_origin = None\<rparr>"

definition for_plain_http_hosts :: "string list \<Rightarrow> outbound_limits \<Rightarrow> outbound_policy" where
  "for_plain_http_hosts hosts limits =
    \<lparr>op_allow_plain_http = False, op_plain_http_hosts = set hosts, op_limits = limits, op_allowed_origin = None\<rparr>"

definition origin_refused :: "outbound_policy \<Rightarrow> url \<Rightarrow> bool" where
  "origin_refused p u \<longleftrightarrow> (case op_allowed_origin p of Some allowed \<Rightarrow> allowed \<noteq> origin u | None \<Rightarrow> False)"

definition plain_http_allowed :: "outbound_policy \<Rightarrow> url \<Rightarrow> bool" where
  "plain_http_allowed p u \<longleftrightarrow>
    op_allow_plain_http p \<or> (case url_host u of Some h \<Rightarrow> h \<in> op_plain_http_hosts p | None \<Rightarrow> False)"

definition validate_url :: "outbound_policy \<Rightarrow> url \<Rightarrow> outbound_error + unit" where
  "validate_url p u =
    (if origin_refused p u then Inl OriginNotAllowed
     else if url_scheme u = ''http'' \<and> \<not> plain_http_allowed p u then Inl PlainHttpRequiresExplicitPolicy
     else if url_scheme u \<noteq> ''https'' \<and> url_scheme u \<noteq> ''http'' then Inl (UnsupportedScheme (url_scheme u))
     else if url_host u = None then Inl MissingHost
     else if url_username u \<noteq> [] \<or> url_password u \<noteq> None then Inl UrlCredentialsForbidden
     else Inr ())"

definition policy_restricted_to_origin :: "outbound_policy \<Rightarrow> url \<Rightarrow> outbound_error + outbound_policy" where
  "policy_restricted_to_origin p u =
    and_then (validate_url p u) (\<lambda>_. Inr (p\<lparr>op_allowed_origin := Some (origin u)\<rparr>))"

record resolved_target =
  rt_url :: url
  rt_addresses :: "ip_addr list"

record connection_authorization =
  ca_url :: url
  ca_address :: ip_addr

definition authorize_resolution ::
  "outbound_policy \<Rightarrow> url \<Rightarrow> ip_addr list \<Rightarrow> outbound_error + resolved_target" where
  "authorize_resolution p u addresses =
    and_then (validate_url p u) (\<lambda>_.
      if addresses = [] then Inl DnsNoAddresses
      else and_then (try_all validate_public_address addresses) (\<lambda>_.
        Inr \<lparr>rt_url = u, rt_addresses = addresses\<rparr>))"

definition connection :: "resolved_target \<Rightarrow> ip_addr \<Rightarrow> outbound_error + connection_authorization" where
  "connection t a =
    and_then (validate_public_address a) (\<lambda>_.
      if a \<notin> set (rt_addresses t) then Inl (ConnectedAddressChanged a)
      else Inr \<lparr>ca_url = rt_url t, ca_address = a\<rparr>)"

definition verify_connected_peer :: "connection_authorization \<Rightarrow> ip_addr \<Rightarrow> outbound_error + unit" where
  "verify_connected_peer auth peer =
    and_then (validate_public_address peer) (\<lambda>_.
      if peer \<noteq> ca_address auth then Inl (ConnectedAddressChanged peer) else Inr ())"

section \<open>Requests and redirects\<close>

record header_value =
  hv_bytes :: "u8 list"
  hv_to_str :: "string option"
  hv_sensitive :: bool

type_synonym header_map = "(string \<times> header_value) list"

definition header_remove :: "string \<Rightarrow> header_map \<Rightarrow> header_map" where
  "header_remove n hs = filter (\<lambda>h. fst h \<noteq> n) hs"

definition contains_key :: "header_map \<Rightarrow> string \<Rightarrow> bool" where
  "contains_key hs n \<longleftrightarrow> n \<in> fst ` set hs"

text \<open>\<open>headers.entry(n).or_insert_with\<close>.\<close>

definition header_or_insert :: "string \<Rightarrow> header_value \<Rightarrow> header_map \<Rightarrow> header_map" where
  "header_or_insert n v hs = (if contains_key hs n then hs else hs @ [(n, v)])"

record prepared_request =
  pr_method :: string
  pr_url :: url
  pr_headers :: header_map
  pr_body :: "u8 list option"

definition is_sensitive_header :: "string \<Rightarrow> bool" where
  "is_sensitive_header n \<longleftrightarrow>
    map ascii_lower_char n \<in>
      {''authorization'', ''proxy-authorization'', ''cookie'', ''cookie2'', ''x-api-key'', ''x-auth-token'',
       ''x-csrf-token''}"

definition sensitive_entry :: "string \<times> header_value \<Rightarrow> bool" where
  "sensitive_entry h \<longleftrightarrow> is_sensitive_header (fst h) \<or> hv_sensitive (snd h)"

definition sensitive_names :: "header_map \<Rightarrow> string list" where
  "sensitive_names hs = map fst (filter sensitive_entry hs)"

definition for_redirect :: "prepared_request \<Rightarrow> url \<Rightarrow> prepared_request" where
  "for_redirect r nxt =
    (let cross_origin = origin (pr_url r) \<noteq> origin nxt;
         headers = header_remove ''host'' (pr_headers r);
         headers =
           (if cross_origin
            then header_remove ''referer'' (fold header_remove (sensitive_names headers) headers)
            else headers)
     in \<lparr>pr_method = pr_method r, pr_url = nxt, pr_headers = headers,
         pr_body = (if cross_origin then None else pr_body r)\<rparr>)"

record redirect_chain =
  rc_seen :: "string set"
  rc_hops :: nat
  rc_max_hops :: nat

definition redirect_chain_new :: "url \<Rightarrow> nat \<Rightarrow> redirect_chain" where
  "redirect_chain_new u m = \<lparr>rc_seen = {url_text u}, rc_hops = 0, rc_max_hops = m\<rparr>"

definition follow ::
  "(url \<Rightarrow> string \<Rightarrow> url option) \<Rightarrow> redirect_chain \<Rightarrow> url \<Rightarrow> string \<Rightarrow> outbound_error + url \<times> redirect_chain" where
  "follow join chain current location =
    (if rc_max_hops chain \<le> rc_hops chain then Inl RedirectLimitExceeded
     else and_then (ok_or (join current location) InvalidRedirectLocation) (\<lambda>nxt.
       if url_text nxt \<in> rc_seen chain then Inl RedirectLoop
       else Inr (nxt, chain\<lparr>rc_seen := insert (url_text nxt) (rc_seen chain), rc_hops := rc_hops chain + 1\<rparr>)))"

section \<open>Deadline and body\<close>

record deadline =
  dl_started :: nat
  dl_duration :: duration

definition deadline_remaining :: "deadline \<Rightarrow> nat \<Rightarrow> outbound_error + duration" where
  "deadline_remaining d now =
    (if now - dl_started d \<le> dl_duration d then Inr (dl_duration d - (now - dl_started d)) else Inl DeadlineExceeded)"

record bounded_body =
  bb_bytes :: "u8 list"
  bb_limit :: nat

definition bounded_body_new :: "nat \<Rightarrow> bounded_body" where
  "bounded_body_new limit = \<lparr>bb_bytes = [], bb_limit = limit\<rparr>"

definition bounded_push :: "bounded_body \<Rightarrow> u8 list \<Rightarrow> outbound_error + bounded_body" where
  "bounded_push b chunk =
    and_then (ok_or (checked_add_usize (length (bb_bytes b)) (length chunk)) (ResponseBodyTooLarge (bb_limit b)))
      (\<lambda>n. if bb_limit b < n then Inl (ResponseBodyTooLarge (bb_limit b))
           else Inr (b\<lparr>bb_bytes := bb_bytes b @ chunk\<rparr>))"

section \<open>Address blocks\<close>

text \<open>
  The reference for the octet tests: a block is a base address with a prefix length, and an address
  belongs to it when the two agree on the prefix.
\<close>

fun v4_value :: "ipv4_addr \<Rightarrow> nat" where
  "v4_value (Ipv4 a b c d) = ((unat a * 256 + unat b) * 256 + unat c) * 256 + unat d"

fun in_v4_block :: "ipv4_addr \<Rightarrow> ipv4_addr \<times> nat \<Rightarrow> bool" where
  "in_v4_block ip (base, len) \<longleftrightarrow> v4_value ip div 2 ^ (32 - len) = v4_value base div 2 ^ (32 - len)"

definition special_v4_blocks :: "(ipv4_addr \<times> nat) list" where
  "special_v4_blocks =
    [(Ipv4 0 0 0 0, 8), (Ipv4 10 0 0 0, 8), (Ipv4 127 0 0 0, 8), (Ipv4 224 0 0 0, 3),
     (Ipv4 100 64 0 0, 10), (Ipv4 169 254 0 0, 16), (Ipv4 172 16 0 0, 12), (Ipv4 192 168 0 0, 16),
     (Ipv4 192 0 0 0, 24), (Ipv4 192 0 2 0, 24), (Ipv4 198 18 0 0, 15), (Ipv4 198 51 100 0, 24),
     (Ipv4 203 0 113 0, 24)]"

fun v6_value :: "ipv6_addr \<Rightarrow> nat" where
  "v6_value (Ipv6 a b c d e f g h) =
    foldl (\<lambda>v s. v * 65536 + unat s) 0 [a, b, c, d, e, f, g, h]"

fun in_v6_block :: "ipv6_addr \<Rightarrow> ipv6_addr \<times> nat \<Rightarrow> bool" where
  "in_v6_block ip (base, len) \<longleftrightarrow> v6_value ip div 2 ^ (128 - len) = v6_value base div 2 ^ (128 - len)"

definition special_v6_blocks :: "(ipv6_addr \<times> nat) list" where
  "special_v6_blocks =
    [(Ipv6 0 0 0 0 0 0 0 0, 128), (Ipv6 0 0 0 0 0 0 0 1, 128), (Ipv6 0xff00 0 0 0 0 0 0 0, 8),
     (Ipv6 0xfc00 0 0 0 0 0 0 0, 7), (Ipv6 0xfe80 0 0 0 0 0 0 0, 10), (Ipv6 0x2001 0x0db8 0 0 0 0 0 0, 32)]"

text \<open>The IPv4 address carried in the last 32 bits of a mapped or translated address.\<close>

fun carried_v4 :: "ipv6_addr \<Rightarrow> ipv4_addr" where
  "carried_v4 (Ipv6 a b c d e f g h) = embedded_v4 g h"

definition in_special_v4 :: "ipv4_addr \<Rightarrow> bool" where
  "in_special_v4 ip \<longleftrightarrow> list_ex (in_v4_block ip) special_v4_blocks"

definition in_special_v6 :: "ipv6_addr \<Rightarrow> bool" where
  "in_special_v6 ip \<longleftrightarrow>
    list_ex (in_v6_block ip) special_v6_blocks
    \<or> (in_v6_block ip (Ipv6 0 0 0 0 0 0xffff 0 0, 96) \<or> in_v6_block ip (Ipv6 0x64 0xff9b 0 0 0 0 0 0, 64))
      \<and> in_special_v4 (carried_v4 ip)"

lemma u8_less: "unat (a :: u8) < 256"
  using unsigned_less [where w = a] by simp

lemma u16_less: "unat (a :: u16) < 65536"
  using unsigned_less [where w = a] by simp

lemma v4_prefixes:
  "v4_value (Ipv4 a b c d) div 256 = (unat a * 256 + unat b) * 256 + unat c"
  "v4_value (Ipv4 a b c d) div 65536 = unat a * 256 + unat b"
  "v4_value (Ipv4 a b c d) div 16777216 = unat a"
  using u8_less [of b] u8_less [of c] u8_less [of d] by auto

lemma v4_short_prefixes:
  "v4_value (Ipv4 a b c d) div 131072 = (unat a * 256 + unat b) div 2"
  "v4_value (Ipv4 a b c d) div 1048576 = (unat a * 256 + unat b) div 16"
  "v4_value (Ipv4 a b c d) div 4194304 = (unat a * 256 + unat b) div 64"
  "v4_value (Ipv4 a b c d) div 536870912 = unat a div 32"
  using v4_prefixes(2) [of a b c d] v4_prefixes(3) [of a b c d]
    div_mult2_eq [of "v4_value (Ipv4 a b c d)" 65536 2] div_mult2_eq [of "v4_value (Ipv4 a b c d)" 65536 16]
    div_mult2_eq [of "v4_value (Ipv4 a b c d)" 65536 64] div_mult2_eq [of "v4_value (Ipv4 a b c d)" 16777216 32]
  by (simp_all del: v4_value.simps)

text \<open>A number \<open>x * k + y\<close> with \<open>y < k\<close> determines both parts; a quotient is an interval.\<close>

lemma pair_eq: "y < k \<Longrightarrow> q < k \<Longrightarrow> x * k + y = p * k + q \<longleftrightarrow> x = p \<and> y = (q :: nat)"
  by (metis add_right_cancel div_mult_self3 div_less add_0_right mod_mult_self3 mod_less nat_neq_iff not_less0)

lemma div_eq_interval: "0 < k \<Longrightarrow> n div k = q \<longleftrightarrow> q * k \<le> n \<and> n < Suc q * (k :: nat)"
  using less_eq_div_iff_mult_less_eq [of k q n] div_less_iff_less_mult [of k n "Suc q"] by (auto simp del: mult_Suc)

lemma octet_interval:
  "y < 256 \<Longrightarrow> u \<le> 256 \<Longrightarrow> p * 256 + l \<le> x * 256 + y \<and> x * 256 + y < p * 256 + u \<longleftrightarrow> x = p \<and> l \<le> y \<and> y < (u :: nat)"
  by (cases x p rule: linorder_cases) auto

lemma octet_intervals:
  assumes "y < 256"
  shows "(x * 256 + y) div 64 = 401 \<longleftrightarrow> x = 100 \<and> 64 \<le> y \<and> y < (128 :: nat)"
    and "(x * 256 + y) div 16 = 2753 \<longleftrightarrow> x = 172 \<and> 16 \<le> y \<and> y < (32 :: nat)"
    and "(x * 256 + y) div 2 = 25353 \<longleftrightarrow> x = 198 \<and> 18 \<le> y \<and> y < (20 :: nat)"
  using octet_interval [OF assms, of 128 100 64 x] octet_interval [OF assms, of 32 172 16 x]
    octet_interval [OF assms, of 20 198 18 x]
  by (simp_all add: div_eq_interval)

lemma v4_shifts: "(2 :: nat) ^ (32 - 8) = 16777216" "(2 :: nat) ^ (32 - 16) = 65536" "(2 :: nat) ^ (32 - 24) = 256"
  "(2 :: nat) ^ (32 - 3) = 536870912" "(2 :: nat) ^ (32 - 10) = 4194304" "(2 :: nat) ^ (32 - 12) = 1048576"
  "(2 :: nat) ^ (32 - 15) = 131072"
  by simp_all

lemma v4_blocks:
  "in_v4_block (Ipv4 a b c d) (Ipv4 p 0 0 0, 8) \<longleftrightarrow> a = p"
  "in_v4_block (Ipv4 a b c d) (Ipv4 p q 0 0, 16) \<longleftrightarrow> a = p \<and> b = q"
  "in_v4_block (Ipv4 a b c d) (Ipv4 p q r 0, 24) \<longleftrightarrow> a = p \<and> b = q \<and> c = r"
  by (simp_all only: in_v4_block.simps v4_shifts v4_prefixes pair_eq u8_less word_unat_eq_iff conj_assoc)

lemma v4_partial_blocks:
  "in_v4_block (Ipv4 a b c d) (Ipv4 224 0 0 0, 3) \<longleftrightarrow> 224 \<le> a"
  "in_v4_block (Ipv4 a b c d) (Ipv4 100 64 0 0, 10) \<longleftrightarrow> a = 100 \<and> 64 \<le> b \<and> b \<le> 127"
  "in_v4_block (Ipv4 a b c d) (Ipv4 172 16 0 0, 12) \<longleftrightarrow> a = 172 \<and> 16 \<le> b \<and> b \<le> 31"
  "in_v4_block (Ipv4 a b c d) (Ipv4 198 18 0 0, 15) \<longleftrightarrow> a = 198 \<and> (b = 18 \<or> b = 19)"
  using u8_less [of a] octet_intervals [OF u8_less [of b], where x = "unat a"]
  by (auto simp add: v4_shifts v4_short_prefixes div_eq_interval [where q = 7] word_unat_eq_iff word_le_nat_alt
        simp del: v4_value.simps)

lemma forbidden_v4_blocks: "forbidden_v4 ip \<longleftrightarrow> in_special_v4 ip"
proof (cases ip)
  case (Ipv4 a b c d)
  have "\<not> 224 \<le> a \<Longrightarrow> (a = 255) = False"
    by auto
  then show ?thesis
    unfolding Ipv4 forbidden_v4.simps in_special_v4_def special_v4_blocks_def list_ex_Cons_iff list_ex_Nil_iff
      v4_blocks v4_partial_blocks
    by (cases "224 \<le> a") (simp_all only: simp_thms)
qed

text \<open>Comparing under a mask of high bits compares the shifted values.\<close>

lemma high_bits:
  assumes "drop_bit n (push_bit n c) = (c :: u16)"
  shows "and a (not (mask n)) = push_bit n c \<longleftrightarrow> unat a div 2 ^ n = unat c"
proof -
  have high: "and a (not (mask n)) = push_bit n (drop_bit n a)"
    by (rule bit_word_eqI) (auto simp: bit_simps)
  have "drop_bit n (push_bit n (drop_bit n a)) = drop_bit n a"
    by (rule bit_word_eqI) (auto simp: bit_simps dest: bit_imp_le_length)
  then have "and a (not (mask n)) = push_bit n c \<longleftrightarrow> drop_bit n a = c"
    unfolding high using assms by metis
  also have "\<dots> \<longleftrightarrow> unat a div 2 ^ n = unat c"
    by (simp only: word_unat_eq_iff unat_drop_bit_eq drop_bit_nat_def)
  finally show ?thesis .
qed

lemma high_masks: "not (mask 8) = (0xff00 :: u16)" "not (mask 9) = (0xfe00 :: u16)" "not (mask 6) = (0xffc0 :: u16)"
  by (simp_all add: mask_numeral word_unat_eq_iff)

lemma masked_segments:
  "and a 0xff00 = (0xff00 :: u16) \<longleftrightarrow> unat a div 256 = 0xff"
  "and a 0xfe00 = (0xfc00 :: u16) \<longleftrightarrow> unat a div 512 = 0x7e"
  "and a 0xffc0 = (0xfe80 :: u16) \<longleftrightarrow> unat a div 64 = 0x3fa"
  using high_bits [of 8 "0xff" a] high_bits [of 9 "0x7e" a] high_bits [of 6 "0x3fa" a]
    high_masks by (simp_all add: push_bit_eq_mult)

lemma drop_segment:
  "(v * 65536 + unat (s :: u16)) div 65536 = v"
  "(v * 65536 + unat (s :: u16)) div (65536 * k) = v div k"
  using u16_less [of s] by (simp_all add: div_mult2_eq)

definition segments_div :: "nat \<Rightarrow> nat" where
  "segments_div n = 65536 ^ n"

lemma segments_div_simps [simp]: "segments_div 0 = 1" "segments_div (Suc n) = 65536 * segments_div n"
  by (simp_all add: segments_div_def)

lemma v6_shifts:
  "(2 :: nat) ^ (128 - 128) = segments_div 0"
  "(2 :: nat) ^ (128 - 8) = segments_div (Suc (Suc (Suc (Suc (Suc (Suc (Suc 0))))))) * 256"
  "(2 :: nat) ^ (128 - 7) = segments_div (Suc (Suc (Suc (Suc (Suc (Suc (Suc 0))))))) * 512"
  "(2 :: nat) ^ (128 - 10) = segments_div (Suc (Suc (Suc (Suc (Suc (Suc (Suc 0))))))) * 64"
  "(2 :: nat) ^ (128 - 32) = segments_div (Suc (Suc (Suc (Suc (Suc (Suc 0))))))"
  "(2 :: nat) ^ (128 - 64) = segments_div (Suc (Suc (Suc (Suc 0))))"
  "(2 :: nat) ^ (128 - 96) = segments_div (Suc (Suc 0))"
  by simp_all

lemma v6_blocks:
  "in_v6_block (Ipv6 a b c d e f g h) (Ipv6 a' b' c' d' e' f' g' h', 128) \<longleftrightarrow>
    a = a' \<and> b = b' \<and> c = c' \<and> d = d' \<and> e = e' \<and> f = f' \<and> g = g' \<and> h = h'"
  "in_v6_block (Ipv6 a b c d e f g h) (Ipv6 a' b' 0 0 0 0 0 0, 32) \<longleftrightarrow> a = a' \<and> b = b'"
  "in_v6_block (Ipv6 a b c d e f g h) (Ipv6 a' b' c' d' 0 0 0 0, 64) \<longleftrightarrow> a = a' \<and> b = b' \<and> c = c' \<and> d = d'"
  "in_v6_block (Ipv6 a b c d e f g h) (Ipv6 a' b' c' d' e' f' 0 0, 96) \<longleftrightarrow>
    a = a' \<and> b = b' \<and> c = c' \<and> d = d' \<and> e = e' \<and> f = f'"
  by (simp_all only: in_v6_block.simps v6_value.simps foldl.simps v6_shifts segments_div_simps mult_1_right
        drop_segment pair_eq u16_less word_unat_eq_iff conj_assoc mult_0 add_0 div_by_1)

lemma v6_partial_blocks:
  "in_v6_block (Ipv6 a b c d e f g h) (Ipv6 0xff00 0 0 0 0 0 0 0, 8) \<longleftrightarrow> and a 0xff00 = 0xff00"
  "in_v6_block (Ipv6 a b c d e f g h) (Ipv6 0xfc00 0 0 0 0 0 0 0, 7) \<longleftrightarrow> and a 0xfe00 = 0xfc00"
  "in_v6_block (Ipv6 a b c d e f g h) (Ipv6 0xfe80 0 0 0 0 0 0 0, 10) \<longleftrightarrow> and a 0xffc0 = 0xfe80"
  by (simp_all only: in_v6_block.simps v6_value.simps foldl.simps v6_shifts segments_div_simps mult_1_right
        mult_1 mult.assoc drop_segment mult_0 add_0 masked_segments) simp_all

lemma v6_mapped: "to_ipv4_mapped ip =
    (if in_v6_block ip (Ipv6 0 0 0 0 0 0xffff 0 0, 96) then Some (carried_v4 ip) else None)"
  by (cases ip) (simp only: to_ipv4_mapped.simps v6_blocks carried_v4.simps)

lemma mapped_not_special:
  assumes "in_v6_block ip (Ipv6 0 0 0 0 0 0xffff 0 0, 96)"
  shows "\<not> list_ex (in_v6_block ip) special_v6_blocks" and "\<not> in_v6_block ip (Ipv6 0x64 0xff9b 0 0 0 0 0 0, 64)"
  using assms by (cases ip, simp add: special_v6_blocks_def v6_blocks v6_partial_blocks del: in_v6_block.simps)+

lemma forbidden_v6_blocks: "forbidden_v6 ip \<longleftrightarrow> in_special_v6 ip"
proof (cases "in_v6_block ip (Ipv6 0 0 0 0 0 0xffff 0 0, 96)")
  case True
  then show ?thesis
    using mapped_not_special [OF True]
    by (simp add: forbidden_v6_def in_special_v6_def v6_mapped forbidden_v4_blocks del: in_v6_block.simps)
next
  case False
  then show ?thesis
    unfolding forbidden_v6_def in_special_v6_def v6_mapped special_v6_blocks_def forbidden_v4_blocks [symmetric]
    by (cases ip) (auto simp: v6_blocks v6_partial_blocks is_unspecified_def is_loopback_def
        simp del: in_v6_block.simps forbidden_v4.simps)
qed

text \<open>C34. An address is refused exactly when it lies in one of the listed special-purpose blocks: for IPv4 the
  thirteen blocks of \<open>special_v4_blocks\<close>, for IPv6 the unspecified, loopback, multicast, unique local, link
  local and documentation blocks, and a mapped or translated address exactly when the IPv4 address it carries
  is refused. The octet and mask tests of the code and the prefixes agree on every address.
\<close>

theorem refused_addresses_exact:
  "validate_public_address a = Inl (ForbiddenAddress a) \<longleftrightarrow>
    (case a of V4 ip \<Rightarrow> in_special_v4 ip | V6 ip \<Rightarrow> in_special_v6 ip)"
  by (cases a) (simp_all add: validate_public_address_def forbidden_v4_blocks forbidden_v6_blocks)

end
