(* ===== verification/Http_Client.thy ===== *)
theory Http_Client
  imports Outbound
begin

text \<open>
  The outbound HTTP client (\<open>reader-web-runtime/src/http_client.rs\<close>): the loop that resolves, authorises,
  connects and follows redirects, the bounded response stream, and the completion reported to the observer.

  The resolver, the transport, the response bodies, the clock and \<open>Url::join\<close> are the fields of a record
  \<open>network\<close>; its functions take and return the state of the outside world. Each call into the resolver,
  the transport or the observer is appended to a log, so that a run can be read back as the sequence of
  calls it made. A timeout of \<open>tokio::time::timeout\<close> is an answer of the function it guards. Cancelling the
  future before it returns is not modelled.
\<close>

section \<open>The collaborators\<close>

datatype resolve_answer = Addresses "ip_addr list" | Resolve_failed | Resolve_timeout

record 'b transport_response =
  tr_status :: nat
  tr_headers :: header_map
  tr_connected_peer :: ip_addr
  tr_body :: 'b

datatype chunk_answer = Chunk "u8 list option" | Chunk_failed string | Chunk_timeout

record ('w, 'b) network =
  net_now :: "'w \<Rightarrow> nat \<times> 'w"
  net_resolve :: "'w \<Rightarrow> string \<Rightarrow> nat \<Rightarrow> duration \<Rightarrow> resolve_answer \<times> 'w"
  net_execute ::
    "'w \<Rightarrow> prepared_request \<Rightarrow> connection_authorization \<Rightarrow> duration \<Rightarrow> duration
      \<Rightarrow> (string + 'b transport_response) \<times> 'w"
  net_chunk :: "'w \<Rightarrow> 'b \<Rightarrow> duration \<Rightarrow> chunk_answer \<times> 'w"
  net_join :: "url \<Rightarrow> string \<Rightarrow> url option"

datatype external_request_outcome = Success | Rejected | Failed

record external_request_completion =
  er_system :: string
  er_operation :: string
  er_outcome :: external_request_outcome
  er_elapsed :: duration

datatype outbound_call =
  Resolved string nat resolve_answer
| Attempted prepared_request connection_authorization duration duration
| Completed external_request_completion

type_synonym 'w client_state = "'w \<times> outbound_call list"

definition read_clock :: "('w, 'b) network \<Rightarrow> 'w client_state \<Rightarrow> nat \<times> 'w client_state" where
  "read_clock N st = (let (t, w) = net_now N (fst st) in (t, (w, snd st)))"

definition remaining :: "('w, 'b) network \<Rightarrow> deadline \<Rightarrow> 'w client_state \<Rightarrow> (outbound_error + duration) \<times> 'w client_state" where
  "remaining N d st = (let (t, st) = read_clock N st in (deadline_remaining d t, st))"

definition resolve ::
  "('w, 'b) network \<Rightarrow> string \<Rightarrow> nat \<Rightarrow> duration \<Rightarrow> 'w client_state \<Rightarrow> resolve_answer \<times> 'w client_state" where
  "resolve N host port limit st =
    (let (r, w) = net_resolve N (fst st) host port limit in (r, (w, snd st @ [Resolved host port r])))"

definition attempt ::
  "('w, 'b) network \<Rightarrow> prepared_request \<Rightarrow> connection_authorization \<Rightarrow> duration \<Rightarrow> duration \<Rightarrow> 'w client_state
    \<Rightarrow> (string + 'b transport_response) \<times> 'w client_state" where
  "attempt N request auth connect limit st =
    (let (r, w) = net_execute N (fst st) request auth connect limit
     in (r, (w, snd st @ [Attempted request auth connect limit])))"

definition completed ::
  "('w, 'b) network \<Rightarrow> string \<Rightarrow> string \<Rightarrow> external_request_outcome \<Rightarrow> nat \<Rightarrow> 'w client_state \<Rightarrow> 'w client_state" where
  "completed N system operation outcome started st =
    (let (t, st) = read_clock N st
     in (fst st, snd st @ [Completed \<lparr>er_system = system, er_operation = operation, er_outcome = outcome,
                                      er_elapsed = t - started\<rparr>]))"

section \<open>Opening a stream\<close>

definition can_retry_cache_validation :: "prepared_request \<Rightarrow> bool" where
  "can_retry_cache_validation r \<longleftrightarrow>
    pr_method r = ''GET''
    \<and> pr_body r = None
    \<and> (contains_key (pr_headers r) ''if-none-match'' \<or> contains_key (pr_headers r) ''if-modified-since'')
    \<and> \<not> list_ex (contains_key (pr_headers r)) [''range'', ''if-range'', ''if-match'', ''if-unmodified-since'']"

definition without_validators :: "prepared_request \<Rightarrow> prepared_request" where
  "without_validators r =
    r\<lparr>pr_headers := header_remove ''if-modified-since'' (header_remove ''if-none-match'' (pr_headers r))\<rparr>"

definition follows_location :: "nat \<Rightarrow> bool" where
  "follows_location status \<longleftrightarrow> status \<in> {301, 302, 303, 307, 308}"

text \<open>The \<open>for\<close> loop over the addresses of the authorised answer.\<close>

datatype 'b attempts =
  Got "'b transport_response" connection_authorization
| Recover
| Aborted outbound_error
| Exhausted "string option"

fun try_addresses ::
  "('w, 'b) network \<Rightarrow> outbound_limits \<Rightarrow> deadline \<Rightarrow> prepared_request \<Rightarrow> resolved_target \<Rightarrow> bool
    \<Rightarrow> string option \<Rightarrow> ip_addr list \<Rightarrow> 'w client_state \<Rightarrow> 'b attempts \<times> 'w client_state" where
  "try_addresses N limits d request target recovered failed [] st = (Exhausted failed, st)"
| "try_addresses N limits d request target recovered failed (a # as) st =
    (case connection target a of
       Inl e \<Rightarrow> (Aborted e, st)
     | Inr auth \<Rightarrow>
         (case remaining N d st of
            (Inl e, st) \<Rightarrow> (Aborted e, st)
          | (Inr left, st) \<Rightarrow>
              let (started, st) = read_clock N st;
                  (result, st) = attempt N request auth (min (ol_connect_timeout limits) left) left st
              in (case result of
                    Inr response \<Rightarrow> (Got response auth, st)
                  | Inl kind \<Rightarrow>
                      if kind = ''response_incomplete_before_headers'' \<and> \<not> recovered
                         \<and> can_retry_cache_validation request
                      then (Recover, completed N ''public_web'' ''conditional_cache_recovery'' Failed started st)
                      else if pr_method request \<noteq> ''GET'' \<and> pr_method request \<noteq> ''HEAD''
                      then (Aborted (Transport kind), st)
                      else try_addresses N limits d request target recovered (Some kind) as st)))"

text \<open>One turn of the \<open>'request\<close> loop.\<close>

datatype 'b turn =
  Retry
| Redirect prepared_request redirect_chain
| Answer "'b transport_response"
| Refuse outbound_error

definition location_of :: "'b transport_response \<Rightarrow> string option" where
  "location_of r = Option.bind (map_of (tr_headers r) ''location'') hv_to_str"

definition after_response ::
  "('w, 'b) network \<Rightarrow> outbound_policy \<Rightarrow> prepared_request \<Rightarrow> redirect_chain
    \<Rightarrow> 'b transport_response \<Rightarrow> connection_authorization \<Rightarrow> 'b turn" where
  "after_response N p request chain response auth =
    (case verify_connected_peer auth (tr_connected_peer response) of
       Inl e \<Rightarrow> Refuse e
     | Inr _ \<Rightarrow>
         if follows_location (tr_status response)
         then (case location_of response of
                 None \<Rightarrow> Refuse InvalidRedirectLocation
               | Some location \<Rightarrow>
                   (case follow (net_join N) chain (pr_url request) location of
                      Inl e \<Rightarrow> Refuse e
                    | Inr (nxt, chain) \<Rightarrow>
                        (case validate_url p nxt of
                           Inl e \<Rightarrow> Refuse e
                         | Inr _ \<Rightarrow> Redirect (for_redirect request nxt) chain)))
         else Answer response)"

definition connect_turn ::
  "('w, 'b) network \<Rightarrow> outbound_policy \<Rightarrow> deadline \<Rightarrow> prepared_request \<Rightarrow> redirect_chain \<Rightarrow> bool
    \<Rightarrow> ip_addr list \<Rightarrow> 'w client_state \<Rightarrow> 'b turn \<times> 'w client_state" where
  "connect_turn N p d request chain recovered addresses st =
    (case authorize_resolution p (pr_url request) addresses of
       Inl e \<Rightarrow> (Refuse e, st)
     | Inr target \<Rightarrow>
         (case try_addresses N (op_limits p) d request target recovered None (rt_addresses target) st of
            (Got response auth, st) \<Rightarrow> (after_response N p request chain response auth, st)
          | (Recover, st) \<Rightarrow> (Retry, st)
          | (Aborted e, st) \<Rightarrow> (Refuse e, st)
          | (Exhausted failed, st) \<Rightarrow>
              (Refuse (Transport (case failed of Some kind \<Rightarrow> kind | None \<Rightarrow> ''no_authorized_address'')), st)))"

definition request_turn ::
  "('w, 'b) network \<Rightarrow> outbound_policy \<Rightarrow> deadline \<Rightarrow> prepared_request \<Rightarrow> redirect_chain \<Rightarrow> bool
    \<Rightarrow> 'w client_state \<Rightarrow> 'b turn \<times> 'w client_state" where
  "request_turn N p d request chain recovered st =
    (case validate_url p (pr_url request) of
       Inl e \<Rightarrow> (Refuse e, st)
     | Inr _ \<Rightarrow>
         (case (url_host (pr_url request), port_or_known_default (pr_url request)) of
            (Some host, Some port) \<Rightarrow>
              (case remaining N d st of
                 (Inl e, st) \<Rightarrow> (Refuse e, st)
               | (Inr left, st) \<Rightarrow>
                   (case resolve N host port left st of
                      (Resolve_timeout, st) \<Rightarrow> (Refuse (Transport ''deadline''), st)
                    | (Resolve_failed, st) \<Rightarrow> (Refuse (Transport ''dns''), st)
                    | (Addresses addresses, st) \<Rightarrow>
                        connect_turn N p d request chain recovered addresses st))
          | _ \<Rightarrow> (Refuse MissingHost, st)))"

lemma try_addresses_Recover: "try_addresses N l d r t recovered f as st = (Recover, st') \<Longrightarrow> \<not> recovered"
  by (induction as arbitrary: f st) (auto simp: Let_def split: sum.splits prod.splits if_splits)

lemma request_turn_Retry: "request_turn N p d r c recovered st = (Retry, st') \<Longrightarrow> \<not> recovered"
  unfolding request_turn_def connect_turn_def after_response_def
  by (auto split: sum.splits prod.splits option.splits if_splits resolve_answer.splits attempts.splits
      dest: try_addresses_Recover)

lemma follow_hops:
  "follow join c u l = Inr (nxt, c') \<Longrightarrow>
    rc_hops c < rc_max_hops c \<and> rc_hops c' = Suc (rc_hops c) \<and> rc_max_hops c' = rc_max_hops c
    \<and> url_text nxt \<notin> rc_seen c \<and> rc_seen c' = insert (url_text nxt) (rc_seen c)"
  by (auto simp: follow_def split: if_splits)

lemma after_response_Redirect:
  assumes "after_response N p r c resp auth = Redirect r' c'"
  obtains nxt location where "follow (net_join N) c (pr_url r) location = Inr (nxt, c')" and "r' = for_redirect r nxt"
    and "validate_url p nxt = Inr ()"
  using assms by (auto simp: after_response_def split: sum.splits if_splits option.splits)

lemma request_turn_Redirect:
  assumes "request_turn N p d r c recovered st = (Redirect r' c', st')"
  obtains nxt location where "follow (net_join N) c (pr_url r) location = Inr (nxt, c')" and "r' = for_redirect r nxt"
    and "validate_url p nxt = Inr ()"
  using assms unfolding request_turn_def connect_turn_def
  by (auto split: sum.splits prod.splits option.splits resolve_answer.splits attempts.splits
      elim: after_response_Redirect)

text \<open>The loop ends: a turn that is not the last one either spends a redirect or the single recovery.\<close>

function open_loop ::
  "('w, 'b) network \<Rightarrow> outbound_policy \<Rightarrow> deadline \<Rightarrow> prepared_request \<Rightarrow> redirect_chain \<Rightarrow> bool
    \<Rightarrow> 'w client_state \<Rightarrow> (outbound_error + prepared_request \<times> 'b transport_response) \<times> 'w client_state" where
  "open_loop N p d request chain recovered st =
    (case request_turn N p d request chain recovered st of
       (Answer response, st') \<Rightarrow> (Inr (request, response), st')
     | (Refuse e, st') \<Rightarrow> (Inl e, st')
     | (Retry, st') \<Rightarrow> open_loop N p d (without_validators request) chain True st'
     | (Redirect request' chain', st') \<Rightarrow> open_loop N p d request' chain' recovered st')"
  by pat_completeness auto
termination
proof (relation "measure (\<lambda>(N, p, d, request, chain, recovered, st).
    rc_max_hops chain - rc_hops chain + (if recovered then 0 else 1))", goal_cases)
  case 1
  show ?case by simp
next
  case 2
  then show ?case by (auto dest!: sym [THEN request_turn_Retry])
next
  case (3 N p d request chain recovered st turn st' request' chain')
  then obtain nxt location where "follow (net_join N) chain (pr_url request) location = Inr (nxt, chain')"
    using request_turn_Redirect by metis
  from follow_hops [OF this] show ?case by auto
qed

declare open_loop.simps [simp del]

definition open_stream ::
  "('w, 'b) network \<Rightarrow> outbound_policy \<Rightarrow> deadline \<Rightarrow> prepared_request \<Rightarrow> 'w client_state
    \<Rightarrow> (outbound_error + prepared_request \<times> 'b transport_response) \<times> 'w client_state" where
  "open_stream N p d request st =
    (case validate_url p (pr_url request) of
       Inl e \<Rightarrow> (Inl e, st)
     | Inr _ \<Rightarrow>
         open_loop N p d request
           (redirect_chain_new (pr_url request) (ol_max_redirect_hops (op_limits p))) False st)"

section \<open>The response stream\<close>

record http_client =
  hc_policy :: outbound_policy
  hc_user_agent :: "header_value option"

definition http_client_new :: "outbound_policy \<Rightarrow> http_client" where
  "http_client_new p = \<lparr>hc_policy = p, hc_user_agent = None\<rparr>"

definition client_restricted_to_origin :: "http_client \<Rightarrow> url \<Rightarrow> outbound_error + http_client" where
  "client_restricted_to_origin c u =
    and_then (policy_restricted_to_origin (hc_policy c) u) (\<lambda>p. Inr (c\<lparr>hc_policy := p\<rparr>))"

record 'b response_stream =
  os_final_url :: url
  os_status :: nat
  os_headers :: header_map
  os_body :: 'b
  os_deadline :: deadline
  os_received :: nat
  os_limit :: nat
  os_started :: nat
  os_system :: string
  os_operation :: string
  os_finished :: bool

definition with_user_agent :: "http_client \<Rightarrow> prepared_request \<Rightarrow> prepared_request" where
  "with_user_agent c request =
    (case hc_user_agent c of
       None \<Rightarrow> request
     | Some v \<Rightarrow> request\<lparr>pr_headers := header_or_insert ''user-agent'' v (pr_headers request)\<rparr>)"

definition error_outcome :: "outbound_error \<Rightarrow> external_request_outcome" where
  "error_outcome e = (case e of Transport _ \<Rightarrow> Failed | _ \<Rightarrow> Rejected)"

definition execute_stream ::
  "('w, 'b) network \<Rightarrow> http_client \<Rightarrow> prepared_request \<Rightarrow> string \<Rightarrow> string \<Rightarrow> 'w client_state
    \<Rightarrow> (outbound_error + 'b response_stream) \<times> 'w client_state" where
  "execute_stream N c request system operation st =
    (let request = with_user_agent c request;
         (started, st) = read_clock N st;
         (t, st) = read_clock N st;
         d = \<lparr>dl_started = t, dl_duration = ol_request_deadline (op_limits (hc_policy c))\<rparr>
     in (case open_stream N (hc_policy c) d request st of
           (Inr (request, response), st) \<Rightarrow>
             (Inr \<lparr>os_final_url = pr_url request, os_status = tr_status response, os_headers = tr_headers response,
                   os_body = tr_body response, os_deadline = d, os_received = 0,
                   os_limit = ol_max_response_body_bytes (op_limits (hc_policy c)),
                   os_started = started, os_system = system, os_operation = operation, os_finished = False\<rparr>, st)
         | (Inl e, st) \<Rightarrow> (Inl e, completed N system operation (error_outcome e) started st)))"

definition read_chunk ::
  "('w, 'b) network \<Rightarrow> 'b response_stream \<Rightarrow> 'w client_state
    \<Rightarrow> (outbound_error + u8 list option) \<times> 'b response_stream \<times> 'w client_state" where
  "read_chunk N s st =
    (if os_finished s then (Inr None, s, st)
     else case remaining N (os_deadline s) st of
       (Inl e, st) \<Rightarrow> (Inl e, s, st)
     | (Inr left, st) \<Rightarrow>
         (let (answer, w) = net_chunk N (fst st) (os_body s) left; st = (w, snd st)
          in case answer of
               Chunk_timeout \<Rightarrow> (Inl (Transport ''deadline''), s, st)
             | Chunk_failed kind \<Rightarrow> (Inl (Transport kind), s, st)
             | Chunk None \<Rightarrow> (Inr None, s, st)
             | Chunk (Some v) \<Rightarrow>
                 (case checked_add_usize (os_received s) (length v) of
                    None \<Rightarrow> (Inl (ResponseBodyTooLarge (os_limit s)), s, st)
                  | Some n \<Rightarrow>
                      (if os_limit s < n then Inl (ResponseBodyTooLarge (os_limit s)) else Inr (Some v),
                       s\<lparr>os_received := n\<rparr>, st))))"

definition finish_stream ::
  "('w, 'b) network \<Rightarrow> external_request_outcome \<Rightarrow> 'b response_stream \<Rightarrow> 'w client_state
    \<Rightarrow> 'b response_stream \<times> 'w client_state" where
  "finish_stream N outcome s st =
    (if os_finished s then (s, st)
     else (s\<lparr>os_finished := True\<rparr>, completed N (os_system s) (os_operation s) outcome (os_started s) st))"

definition status_outcome :: "nat \<Rightarrow> external_request_outcome" where
  "status_outcome status = (if 200 \<le> status \<and> status < 300 \<or> status = 304 then Success else Failed)"

definition next_chunk ::
  "('w, 'b) network \<Rightarrow> 'b response_stream \<Rightarrow> 'w client_state
    \<Rightarrow> (outbound_error + u8 list option) \<times> 'b response_stream \<times> 'w client_state" where
  "next_chunk N s st =
    (case read_chunk N s st of
       (Inl e, s, st) \<Rightarrow> (Inl e, finish_stream N (error_outcome e) s st)
     | (Inr None, s, st) \<Rightarrow> (Inr None, finish_stream N (status_outcome (os_status s)) s st)
     | (Inr (Some v), s, st) \<Rightarrow> (Inr (Some v), s, st))"

definition drop_stream :: "('w, 'b) network \<Rightarrow> 'b response_stream \<Rightarrow> 'w client_state \<Rightarrow> 'w client_state" where
  "drop_stream N s st = snd (finish_stream N Failed s st)"

text \<open>A body may send empty chunks for ever, so reading it to the end is a partial function.\<close>

partial_function (option) collect_body ::
  "('w, 'b) network \<Rightarrow> 'b response_stream \<Rightarrow> u8 list \<Rightarrow> 'w client_state
    \<Rightarrow> ((outbound_error + u8 list) \<times> 'b response_stream \<times> 'w client_state) option" where
  "collect_body N s body st =
    (case next_chunk N s st of
       (Inl e, s', st') \<Rightarrow> Some (Inl e, s', st')
     | (Inr None, s', st') \<Rightarrow> Some (Inr body, s', st')
     | (Inr (Some v), s', st') \<Rightarrow> collect_body N s' (body @ v) st')"

record outbound_response =
  or_final_url :: url
  or_status :: nat
  or_headers :: header_map
  or_body :: "u8 list"

definition execute ::
  "('w, 'b) network \<Rightarrow> http_client \<Rightarrow> prepared_request \<Rightarrow> 'w client_state
    \<Rightarrow> ((outbound_error + outbound_response) \<times> 'w client_state) option" where
  "execute N c request st =
    (case execute_stream N c request ''public_web'' ''http_request'' st of
       (Inl e, st) \<Rightarrow> Some (Inl e, st)
     | (Inr stream, st) \<Rightarrow>
         (case collect_body N stream [] st of
            None \<Rightarrow> None
          | Some (Inl e, s, st) \<Rightarrow> Some (Inl e, drop_stream N s st)
          | Some (Inr body, s, st) \<Rightarrow>
              Some (Inr \<lparr>or_final_url = os_final_url s, or_status = os_status s, or_headers = os_headers s,
                         or_body = body\<rparr>, drop_stream N s st)))"

section \<open>What a turn calls\<close>

text \<open>
  The calls of one turn of the loop: a resolution, then attempts that all carry the request of the turn to
  addresses of the answer, then at most the report of a recovery.
\<close>

definition pinned_attempt :: "outbound_policy \<Rightarrow> prepared_request \<Rightarrow> ip_addr list \<Rightarrow> outbound_call \<Rightarrow> bool" where
  "pinned_attempt p r answer call \<longleftrightarrow>
    (\<exists>auth connect left. call = Attempted r auth connect left
      \<and> ca_url auth = pr_url r \<and> ca_address auth \<in> set answer \<and> \<not> forbidden_address (ca_address auth)
      \<and> connect \<le> ol_connect_timeout (op_limits p) \<and> connect \<le> left)"

definition recovery :: "external_request_completion \<Rightarrow> bool" where
  "recovery c \<longleftrightarrow> er_operation c = ''conditional_cache_recovery'' \<and> er_outcome c = Failed"

lemma connection_pinned:
  "connection t a = Inr auth \<Longrightarrow>
    ca_url auth = rt_url t \<and> ca_address auth = a \<and> a \<in> set (rt_addresses t) \<and> \<not> forbidden_address a"
  by (auto simp: connection_def validate_public_address_def split: if_splits)

lemma snd_remaining: "remaining N d st = (x, st') \<Longrightarrow> snd st' = snd st"
  by (auto simp: remaining_def read_clock_def split: prod.splits)

lemma snd_read_clock: "read_clock N st = (x, st') \<Longrightarrow> snd st' = snd st"
  by (auto simp: read_clock_def split: prod.splits)

lemma snd_attempt: "attempt N r auth c l st = (x, st') \<Longrightarrow> snd st' = snd st @ [Attempted r auth c l]"
  by (auto simp: attempt_def split: prod.splits)

lemma snd_resolve: "resolve N h port l st = (x, st') \<Longrightarrow> snd st' = snd st @ [Resolved h port x]"
  by (auto simp: resolve_def split: prod.splits)

lemma snd_completed:
  "\<exists>e. snd (completed N sys oper outcome started st) =
    snd st @ [Completed \<lparr>er_system = sys, er_operation = oper, er_outcome = outcome, er_elapsed = e\<rparr>]"
  by (auto simp: completed_def read_clock_def split: prod.splits)

text \<open>The calls that trying addresses may make, with what they mean for the outcome.\<close>

definition attempt_calls :: "outbound_policy \<Rightarrow> prepared_request \<Rightarrow> ip_addr list \<Rightarrow> bool \<Rightarrow> outbound_call list \<Rightarrow> bool" where
  "attempt_calls p r answer retry calls \<longleftrightarrow>
    (\<exists>tries reports. calls = tries @ map Completed reports
      \<and> list_all (pinned_attempt p r answer) tries
      \<and> (pr_method r \<noteq> ''GET'' \<and> pr_method r \<noteq> ''HEAD'' \<longrightarrow> length tries \<le> 1)
      \<and> list_all recovery reports \<and> length reports = (if retry then 1 else 0))"

inductive turn_calls :: "outbound_policy \<Rightarrow> prepared_request \<Rightarrow> bool \<Rightarrow> outbound_call list \<Rightarrow> bool" for p r where
  none: "turn_calls p r False []"
| unresolved: "url_host (pr_url r) = Some host \<Longrightarrow> port_or_known_default (pr_url r) = Some port \<Longrightarrow>
    turn_calls p r False [Resolved host port answer]"
| attempts: "url_host (pr_url r) = Some host \<Longrightarrow> port_or_known_default (pr_url r) = Some port \<Longrightarrow>
    validate_url p (pr_url r) = Inr () \<Longrightarrow> attempt_calls p r answer retry calls \<Longrightarrow>
    turn_calls p r retry (Resolved host port (Addresses answer) # calls)"

lemma attempt_calls_Nil: "attempt_calls p r answer False []"
  by (auto simp: attempt_calls_def)

lemma attempt_calls_one: "pinned_attempt p r answer call \<Longrightarrow> attempt_calls p r answer False [call]"
  unfolding attempt_calls_def by (intro exI [of _ "[call]"] exI [of _ "[]"]) simp

lemma attempt_calls_recover:
  "pinned_attempt p r answer call \<Longrightarrow> recovery c \<Longrightarrow> attempt_calls p r answer True [call, Completed c]"
  unfolding attempt_calls_def by (intro exI [of _ "[call]"] exI [of _ "[c]"]) simp

lemma attempt_calls_Cons:
  "pinned_attempt p r answer call \<Longrightarrow> pr_method r = ''GET'' \<or> pr_method r = ''HEAD'' \<Longrightarrow>
    attempt_calls p r answer retry calls \<Longrightarrow> attempt_calls p r answer retry (call # calls)"
  unfolding attempt_calls_def
proof (elim exE, goal_cases)
  case (1 tries reports)
  then show ?case by (intro exI [of _ "call # tries"] exI [of _ reports]) auto
qed

lemma try_addresses_calls:
  assumes "try_addresses N (op_limits p) d r t b f as st = (out, st')" and "rt_url t = pr_url r"
  shows "\<exists>calls. snd st' = snd st @ calls \<and> attempt_calls p r (rt_addresses t) (out = Recover) calls"
  using assms
proof (induction as arbitrary: f st)
  case Nil
  then show ?case by (auto simp: attempt_calls_Nil)
next
  case (Cons a as)
  show ?case
  proof (cases "connection t a")
    case (Inl e)
    with Cons.prems show ?thesis by (auto simp: attempt_calls_Nil)
  next
    case (Inr auth)
    obtain left st1 where left: "remaining N d st = (left, st1)"
      by (rule prod.exhaust)
    show ?thesis
    proof (cases left)
      case (Inl e)
      with Cons.prems Inr left show ?thesis by (auto simp: attempt_calls_Nil dest: snd_remaining)
    next
      case right: (Inr limit)
      obtain started st2 where started: "read_clock N st1 = (started, st2)"
        by (rule prod.exhaust)
      define call where "call = Attempted r auth (min (ol_connect_timeout (op_limits p)) limit) limit"
      obtain result st3 where result: "attempt N r auth (min (ol_connect_timeout (op_limits p)) limit) limit st2 = (result, st3)"
        by (rule prod.exhaust)
      have log: "snd st3 = snd st @ [call]"
        using snd_remaining [OF left] snd_read_clock [OF started] snd_attempt [OF result] by (simp add: call_def)
      have pin: "pinned_attempt p r (rt_addresses t) call"
        using connection_pinned [OF Inr] Cons.prems(2) by (auto simp: pinned_attempt_def call_def)
      have step: "(case result of
            Inr response \<Rightarrow> (Got response auth, st3)
          | Inl kind \<Rightarrow>
              if kind = ''response_incomplete_before_headers'' \<and> \<not> b \<and> can_retry_cache_validation r
              then (Recover, completed N ''public_web'' ''conditional_cache_recovery'' Failed started st3)
              else if pr_method r \<noteq> ''GET'' \<and> pr_method r \<noteq> ''HEAD'' then (Aborted (Transport kind), st3)
              else try_addresses N (op_limits p) d r t b (Some kind) as st3) = (out, st')"
        using Cons.prems(1) Inr left right started result by simp
      show ?thesis
      proof (cases result)
        case (Inr response)
        with step log pin show ?thesis by (auto intro: attempt_calls_one)
      next
        case (Inl kind)
        consider (recover) "kind = ''response_incomplete_before_headers''" "\<not> b" "can_retry_cache_validation r"
          | (abort) "\<not> (kind = ''response_incomplete_before_headers'' \<and> \<not> b \<and> can_retry_cache_validation r)"
              "pr_method r \<noteq> ''GET''" "pr_method r \<noteq> ''HEAD''"
          | (again) "\<not> (kind = ''response_incomplete_before_headers'' \<and> \<not> b \<and> can_retry_cache_validation r)"
              "pr_method r = ''GET'' \<or> pr_method r = ''HEAD''"
          by blast
        then show ?thesis
        proof cases
          case recover
          then show ?thesis
            using step Inl log pin snd_completed [of N "''public_web''" "''conditional_cache_recovery''" Failed started st3]
            by (auto simp: recovery_def intro!: attempt_calls_recover)
        next
          case abort
          with step Inl log pin show ?thesis by (auto intro: attempt_calls_one)
        next
          case again
          with step Inl have "try_addresses N (op_limits p) d r t b (Some kind) as st3 = (out, st')"
            by (auto split: if_splits)
          from Cons.IH [OF this Cons.prems(2)] again(2) log pin show ?thesis
            by (auto intro!: attempt_calls_Cons)
        qed
      qed
    qed
  qed
qed

lemma after_response_not_Retry [simp]: "after_response N p r c resp auth \<noteq> Retry"
  by (auto simp: after_response_def split: sum.splits option.splits)

lemma connect_turn_calls:
  assumes "connect_turn N p d r c b answer st = (out, st')"
    and "url_host (pr_url r) = Some host" and "port_or_known_default (pr_url r) = Some port"
  shows "\<exists>calls. snd st' = snd st @ calls \<and> turn_calls p r (out = Retry) (Resolved host port (Addresses answer) # calls)"
proof (cases "authorize_resolution p (pr_url r) answer")
  case (Inl e)
  with assms show ?thesis by (auto simp: connect_turn_def intro: turn_calls.unresolved)
next
  case (Inr target)
  then have target: "rt_url target = pr_url r" "rt_addresses target = answer" "validate_url p (pr_url r) = Inr ()"
    by (auto simp: authorize_resolution_def split: if_splits)
  obtain tried st1 where tried: "try_addresses N (op_limits p) d r target b None answer st = (tried, st1)"
    by (rule prod.exhaust)
  have out: "st' = st1 \<and> (out = Retry \<longleftrightarrow> tried = Recover)"
    using assms(1) Inr tried target by (auto simp: connect_turn_def split: attempts.splits option.splits)
  obtain calls where "snd st' = snd st @ calls" and "attempt_calls p r answer (out = Retry) calls"
    using try_addresses_calls [OF tried target(1)] target out by auto
  then show ?thesis
    using turn_calls.attempts [OF assms(2,3) target(3)] by blast
qed

lemma request_turn_calls:
  assumes "request_turn N p d r c b st = (out, st')"
  shows "\<exists>calls. snd st' = snd st @ calls \<and> turn_calls p r (out = Retry) calls"
proof (cases "\<exists>host port left answer st1 st2. url_host (pr_url r) = Some host
    \<and> port_or_known_default (pr_url r) = Some port \<and> validate_url p (pr_url r) = Inr ()
    \<and> remaining N d st = (Inr left, st1) \<and> resolve N host port left st1 = (Addresses answer, st2)")
  case True
  then obtain host port left answer st1 st2 where *: "url_host (pr_url r) = Some host"
    "port_or_known_default (pr_url r) = Some port" "validate_url p (pr_url r) = Inr ()"
    "remaining N d st = (Inr left, st1)" "resolve N host port left st1 = (Addresses answer, st2)"
    by blast
  then have "connect_turn N p d r c b answer st2 = (out, st')"
    using assms by (simp add: request_turn_def)
  from connect_turn_calls [OF this *(1,2)] snd_remaining [OF *(4)] snd_resolve [OF *(5)] show ?thesis
    by auto
next
  case False
  then show ?thesis
    using assms unfolding request_turn_def
    by (auto split: sum.splits option.splits prod.splits resolve_answer.splits intro: turn_calls.none)
      (auto dest!: snd_remaining snd_resolve intro: turn_calls.none turn_calls.unresolved)
qed

text \<open>
  The rule for the loop: an invariant of the request, the redirect chain, the recovery flag and the log
  that every turn keeps holds of the log at the end.
\<close>

lemma open_loop_invariant:
  assumes "I r c b (snd st)"
    and turn: "\<And>r c b log calls. I r c b log \<Longrightarrow> turn_calls p r False calls \<Longrightarrow> Q (log @ calls)"
    and retry: "\<And>r c log calls. I r c False log \<Longrightarrow> turn_calls p r True calls \<Longrightarrow>
      I (without_validators r) c True (log @ calls)"
    and redirect: "\<And>r c b log calls join location nxt c'. I r c b log \<Longrightarrow> turn_calls p r False calls \<Longrightarrow>
      follow join c (pr_url r) location = Inr (nxt, c') \<Longrightarrow> I (for_redirect r nxt) c' b (log @ calls)"
  shows "Q (snd (snd (open_loop N p d r c b st)))"
  using assms
proof (induction N p d r c b st rule: open_loop.induct)
  case (1 N p d r c b st)
  note turn = "1.prems"(2) and retry = "1.prems"(3) and redirect = "1.prems"(4)
  obtain out st1 where out: "request_turn N p d r c b st = (out, st1)"
    by (rule prod.exhaust)
  obtain calls where log: "snd st1 = snd st @ calls" and calls: "turn_calls p r (out = Retry) calls"
    using request_turn_calls [OF out] by blast
  show ?case
  proof (cases out)
    case Retry
    then have "\<not> b"
      using out request_turn_Retry by blast
    with "1.prems"(1) Retry calls log have "I (without_validators r) c True (snd st1)"
      using retry [of r c "snd st" calls] by simp
    then have "Q (snd (snd (open_loop N p d (without_validators r) c True st1)))"
      by (rule "1.IH"(1) [OF out [symmetric] Retry]) (fact turn retry redirect)+
    then show ?thesis
      using out Retry by (simp add: open_loop.simps [of N p d r c b st])
  next
    case (Redirect r' c')
    obtain nxt location where nxt: "follow (net_join N) c (pr_url r) location = Inr (nxt, c')" "r' = for_redirect r nxt"
      using request_turn_Redirect [OF out [unfolded Redirect]] by metis
    then have "I r' c' b (snd st1)"
      using redirect [OF "1.prems"(1) _ nxt(1), of calls] calls Redirect log by simp
    then have "Q (snd (snd (open_loop N p d r' c' b st1)))"
      by (rule "1.IH"(2) [OF out [symmetric] Redirect]) (fact turn retry redirect)+
    then show ?thesis
      using out Redirect by (simp add: open_loop.simps [of N p d r c b st])
  next
    case (Answer response)
    then show ?thesis
      using out calls log turn [OF "1.prems"(1), of calls] by (auto simp: open_loop.simps [of N p d r c b st])
  next
    case (Refuse e)
    then show ?thesis
      using out calls log turn [OF "1.prems"(1), of calls] by (auto simp: open_loop.simps [of N p d r c b st])
  qed
qed

end
