(* ===== verification/Outbound_Runs.thy ===== *)
theory Outbound_Runs
  imports Http_Client
begin

text \<open>
  Whole runs of the outbound client: what the calls of one request to the resolver, the transport and the
  observer can be, however the network answers. The results are stated on the log of calls and hold for
  every network.
\<close>

section \<open>Lifting to a request\<close>

text \<open>
  What a statement about the log of a request has to satisfy: an invariant of the request, the redirect
  chain, the recovery flag and the log that a retry and a redirect keep, and that gives the statement after a
  last turn; and the report of a failure does not disturb the statement.
\<close>

locale turn_invariant =
  fixes p :: outbound_policy
    and I :: "prepared_request \<Rightarrow> redirect_chain \<Rightarrow> bool \<Rightarrow> outbound_call list \<Rightarrow> bool"
    and Q :: "outbound_call list \<Rightarrow> bool"
  assumes last_turn: "I r ch b log \<Longrightarrow> turn_calls p r False calls \<Longrightarrow> Q (log @ calls)"
    and retry_turn: "I r ch False log \<Longrightarrow> turn_calls p r True calls \<Longrightarrow> I (without_validators r) ch True (log @ calls)"
    and redirect_turn: "I r ch b log \<Longrightarrow> turn_calls p r False calls \<Longrightarrow>
      follow join ch (pr_url r) location = Inr (nxt, ch') \<Longrightarrow> I (for_redirect r nxt) ch' b (log @ calls)"
begin

lemma opened:
  assumes "I r (redirect_chain_new (pr_url r) (ol_max_redirect_hops (op_limits p))) False (snd st)"
  shows "Q (snd (snd (open_stream N p d r st)))"
proof (cases "validate_url p (pr_url r)")
  case (Inl e)
  then show ?thesis
    using last_turn [OF assms turn_calls.none] by (auto simp: open_stream_def)
next
  case (Inr u)
  have "Q (snd (snd (open_loop N p d r
      (redirect_chain_new (pr_url r) (ol_max_redirect_hops (op_limits p))) False st)))"
    by (rule open_loop_invariant [where I = I]) (fact assms, fact last_turn, fact retry_turn, fact redirect_turn)
  then show ?thesis
    using Inr by (simp add: open_stream_def)
qed

end

locale request_invariant = turn_invariant +
  assumes report: "Q log \<Longrightarrow> Q (log @ [Completed e])"

text \<open>The log of a request is the log of its loop, followed on failure by the report of the failure.\<close>

lemma execute_stream_log:
  assumes "execute_stream N c request sys oper st = (res, st')"
  obtains d w log st1 res1 where "open_stream N (hc_policy c) d (with_user_agent c request) (w, snd st) = (res1, st1)"
    and "snd st1 = log"
    and "(case res of
           Inr s \<Rightarrow> snd st' = log \<and> os_received s = 0 \<and> os_system s = sys \<and> os_operation s = oper \<and> \<not> os_finished s
                    \<and> os_limit s = ol_max_response_body_bytes (op_limits (hc_policy c))
         | Inl e \<Rightarrow> \<exists>t. snd st' = log @ [Completed \<lparr>er_system = sys, er_operation = oper, er_outcome = error_outcome e,
                                                       er_elapsed = t\<rparr>])"
proof -
  obtain started st1 where 1: "read_clock N st = (started, st1)" by (rule prod.exhaust)
  obtain t st2 where 2: "read_clock N st1 = (t, st2)" by (rule prod.exhaust)
  define d where "d = \<lparr>dl_started = t, dl_duration = ol_request_deadline (op_limits (hc_policy c))\<rparr>"
  obtain res1 st3 where 3: "open_stream N (hc_policy c) d (with_user_agent c request) st2 = (res1, st3)"
    by (rule prod.exhaust)
  have "st2 = (fst st2, snd st)"
    using snd_read_clock [OF 1] snd_read_clock [OF 2] by (metis prod.collapse)
  with 3 have open_log: "open_stream N (hc_policy c) d (with_user_agent c request) (fst st2, snd st) = (res1, st3)"
    by simp
  show thesis
  proof (cases res1)
    case (Inl e)
    then show thesis
      using assms 1 2 3 snd_completed [of N sys oper "error_outcome e" started st3]
      by (intro that [OF open_log refl]) (auto simp: execute_stream_def d_def)
  next
    case (Inr x)
    then show thesis
      using assms 1 2 3
      by (intro that [OF open_log refl]) (auto simp: execute_stream_def d_def split: prod.splits)
  qed
qed

context request_invariant
begin

lemma requested:
  assumes "hc_policy c = p"
    and "I (with_user_agent c request)
      (redirect_chain_new (pr_url (with_user_agent c request)) (ol_max_redirect_hops (op_limits p))) False []"
  shows "Q (snd (snd (execute_stream N c request sys oper (w, []))))"
proof -
  obtain res st' where run: "execute_stream N c request sys oper (w, []) = (res, st')"
    by (rule prod.exhaust)
  obtain d w' log st1 res1 where stream: "open_stream N (hc_policy c) d (with_user_agent c request) (w', []) = (res1, st1)"
    and log: "snd st1 = log" "snd st' = log \<or> (\<exists>e. snd st' = log @ [Completed e])"
    by (rule execute_stream_log [OF run]) (auto split: sum.splits)
  have "Q (snd (snd (open_stream N p d (with_user_agent c request) (w', []))))"
    by (rule opened) (simp add: assms(2))
  with stream log run assms(1) report show ?thesis
    by auto
qed

end

lemma for_redirect_simps [simp]:
  "pr_method (for_redirect r u) = pr_method r" "pr_url (for_redirect r u) = u"
  by (simp_all add: for_redirect_def Let_def)

lemma without_validators_simps [simp]:
  "pr_method (without_validators r) = pr_method r" "pr_url (without_validators r) = pr_url r"
  "pr_body (without_validators r) = pr_body r"
  by (simp_all add: without_validators_def)

lemma with_user_agent_simps [simp]:
  "pr_method (with_user_agent c r) = pr_method r" "pr_url (with_user_agent c r) = pr_url r"
  by (simp_all add: with_user_agent_def split: option.splits)

section \<open>Connections are pinned\<close>

text \<open>
  The observer automaton: it remembers the last answer of the resolver and accepts an attempt only for a
  URL that passes the policy, at a public address of that answer, for the host and port that were resolved.
\<close>

definition attempt_allowed ::
  "outbound_policy \<Rightarrow> (string \<times> nat \<times> ip_addr list) option \<Rightarrow> prepared_request \<Rightarrow> connection_authorization
    \<Rightarrow> duration \<Rightarrow> duration \<Rightarrow> bool" where
  "attempt_allowed p answer r auth connect left \<longleftrightarrow>
    validate_url p (pr_url r) = Inr () \<and> ca_url auth = pr_url r
    \<and> (\<exists>host port addresses. answer = Some (host, port, addresses)
        \<and> url_host (pr_url r) = Some host \<and> port_or_known_default (pr_url r) = Some port
        \<and> ca_address auth \<in> set addresses)
    \<and> validate_public_address (ca_address auth) = Inr ()
    \<and> connect \<le> ol_connect_timeout (op_limits p) \<and> connect \<le> left"

fun attempts_pinned :: "outbound_policy \<Rightarrow> (string \<times> nat \<times> ip_addr list) option \<Rightarrow> outbound_call list \<Rightarrow> bool" where
  "attempts_pinned p answer [] \<longleftrightarrow> True"
| "attempts_pinned p answer (Resolved host port (Addresses addresses) # calls) \<longleftrightarrow>
    attempts_pinned p (Some (host, port, addresses)) calls"
| "attempts_pinned p answer (Resolved host port _ # calls) \<longleftrightarrow> attempts_pinned p None calls"
| "attempts_pinned p answer (Attempted r auth connect left # calls) \<longleftrightarrow>
    attempt_allowed p answer r auth connect left \<and> attempts_pinned p answer calls"
| "attempts_pinned p answer (Completed _ # calls) \<longleftrightarrow> attempts_pinned p answer calls"

lemma attempts_pinned_append:
  "attempts_pinned p answer xs \<Longrightarrow> (\<And>a. attempts_pinned p a ys) \<Longrightarrow> attempts_pinned p answer (xs @ ys)"
  by (induction p answer xs rule: attempts_pinned.induct) auto

lemma attempts_pinned_tries:
  assumes "validate_url p (pr_url r) = Inr ()" and "url_host (pr_url r) = Some host"
    and "port_or_known_default (pr_url r) = Some port"
    and "list_all (pinned_attempt p r answer) tries"
  shows "attempts_pinned p (Some (host, port, answer)) (tries @ map Completed reports)"
  using assms(4)
proof (induction tries)
  case Nil
  show ?case by (induction reports) simp_all
next
  case (Cons t ts)
  then show ?case
    using assms(1-3) by (auto simp: pinned_attempt_def attempt_allowed_def validate_public_address_def)
qed

lemma turn_pinned: "turn_calls p r retry calls \<Longrightarrow> attempts_pinned p a calls"
proof (induction rule: turn_calls.induct)
  case (unresolved host port answer)
  then show ?case by (cases answer) simp_all
next
  case (attempts host port answer retry calls)
  then show ?case by (auto simp: attempt_calls_def attempts_pinned_tries)
qed simp

interpretation pinned: request_invariant p "\<lambda>_ _ _. attempts_pinned p None" "attempts_pinned p None" for p
  by unfold_locales (auto intro: attempts_pinned_append turn_pinned)

text \<open>C35. Whatever the resolver and the transport answer, every connection that a request makes, on every
  redirect hop and on the one retry, is for a URL that passes the outbound policy (scheme, allowed origin,
  no credentials in the URL), to an address of the DNS answer obtained for that URL's host and port since
  the last hop, and that address is public: a second resolution cannot move the connection. The connect
  timeout stays within its limit and within the time left.
\<close>

theorem attempts_are_pinned:
  "attempts_pinned (hc_policy c) None (snd (snd (execute_stream N c request sys oper (w, []))))"
  by (rule pinned.requested) simp_all

section \<open>Credentials stay with their origin\<close>

definition stripped :: "prepared_request \<Rightarrow> bool" where
  "stripped r \<longleftrightarrow>
    pr_body r = None \<and> (\<forall>h \<in> set (pr_headers r). \<not> sensitive_entry h \<and> fst h \<noteq> ''referer'')"

lemma set_header_remove: "set (header_remove n hs) = {h \<in> set hs. fst h \<noteq> n}"
  by (simp add: header_remove_def)

lemma set_fold_header_remove: "set (fold header_remove ns hs) = {h \<in> set hs. fst h \<notin> set ns}"
  by (induction ns arbitrary: hs) (auto simp: set_header_remove)

lemma for_redirect_cross: "origin (pr_url r) \<noteq> origin u \<Longrightarrow> stripped (for_redirect r u)"
  by (force simp: for_redirect_def Let_def stripped_def set_header_remove set_fold_header_remove sensitive_names_def)

lemma for_redirect_stripped: "stripped r \<Longrightarrow> stripped (for_redirect r u)"
  by (auto simp: for_redirect_def Let_def stripped_def set_header_remove set_fold_header_remove)

lemma without_validators_stripped: "stripped r \<Longrightarrow> stripped (without_validators r)"
  by (auto simp: without_validators_def stripped_def set_header_remove)

definition at_home :: "url_origin \<Rightarrow> prepared_request \<Rightarrow> bool" where
  "at_home h r \<longleftrightarrow> origin (pr_url r) = h \<or> stripped r"

definition calls_at_home :: "url_origin \<Rightarrow> outbound_call list \<Rightarrow> bool" where
  "calls_at_home h calls \<longleftrightarrow>
    (\<forall>call \<in> set calls. case call of Attempted r _ _ _ \<Rightarrow> at_home h r | _ \<Rightarrow> True)"

lemma calls_at_home_simps [simp]:
  "calls_at_home h []"
  "calls_at_home h (xs @ ys) \<longleftrightarrow> calls_at_home h xs \<and> calls_at_home h ys"
  "calls_at_home h [Completed e]"
  by (auto simp: calls_at_home_def)

text \<open>Every attempt of a turn carries the request of the turn.\<close>

lemma turn_attempts: "turn_calls p r retry calls \<Longrightarrow> Attempted r' auth connect left \<in> set calls \<Longrightarrow> r' = r"
  by (induction rule: turn_calls.induct) (auto simp: attempt_calls_def list_all_iff pinned_attempt_def)

lemma turn_at_home: "turn_calls p r retry calls \<Longrightarrow> at_home h r \<Longrightarrow> calls_at_home h calls"
  by (auto simp: calls_at_home_def dest: turn_attempts split: outbound_call.splits)

lemma at_home_redirect: "at_home h r \<Longrightarrow> at_home h (for_redirect r u)"
  by (cases "origin (pr_url r) = origin u") (auto simp: at_home_def for_redirect_cross for_redirect_stripped)

lemma at_home_retry: "at_home h r \<Longrightarrow> at_home h (without_validators r)"
  by (auto simp: at_home_def without_validators_stripped)

interpretation home: request_invariant p "\<lambda>r _ _ log. at_home h r \<and> calls_at_home h log" "calls_at_home h" for p h
  by unfold_locales (auto intro: turn_at_home at_home_redirect at_home_retry)

text \<open>C36. Whatever redirects the network answers with, a request that reaches another origin than the one it was
  made for carries no body, no sensitive header (authorisation, cookies, keys, tokens, or a value marked
  sensitive) and no referrer; a chain that leads back to the first origin does not restore them.
\<close>

theorem credentials_stay_with_origin:
  assumes "Attempted r auth connect left \<in> set (snd (snd (execute_stream N c request sys oper (w, []))))"
    and "origin (pr_url r) \<noteq> origin (pr_url request)"
  shows "pr_body r = None \<and> (\<forall>h \<in> set (pr_headers r). \<not> sensitive_entry h \<and> fst h \<noteq> ''referer'')"
proof -
  let ?home = "origin (pr_url request)"
  have "calls_at_home ?home (snd (snd (execute_stream N c request sys oper (w, []))))"
    by (rule home.requested) (simp_all add: at_home_def)
  with assms have "stripped r"
    by (auto simp: calls_at_home_def at_home_def split: outbound_call.splits)
  then show ?thesis
    by (auto simp: stripped_def)
qed

section \<open>Bounds\<close>

fun is_resolution :: "outbound_call \<Rightarrow> bool" where
  "is_resolution (Resolved _ _ _) = True"
| "is_resolution _ = False"

fun is_attempt :: "outbound_call \<Rightarrow> bool" where
  "is_attempt (Attempted _ _ _ _) = True"
| "is_attempt _ = False"

fun attempted_url :: "outbound_call \<Rightarrow> string set" where
  "attempted_url (Attempted r _ _ _) = {url_text (pr_url r)}"
| "attempted_url _ = {}"

definition resolutions :: "outbound_call list \<Rightarrow> nat" where
  "resolutions calls = length (filter is_resolution calls)"

definition connections :: "outbound_call list \<Rightarrow> nat" where
  "connections calls = length (filter is_attempt calls)"

definition attempted_urls :: "outbound_call list \<Rightarrow> string set" where
  "attempted_urls calls = \<Union> (attempted_url ` set calls)"

lemma counts_append [simp]:
  "resolutions (xs @ ys) = resolutions xs + resolutions ys"
  "connections (xs @ ys) = connections xs + connections ys"
  "attempted_urls (xs @ ys) = attempted_urls xs \<union> attempted_urls ys"
  by (simp_all add: resolutions_def connections_def attempted_urls_def)

lemma counts_simps [simp]:
  "resolutions [] = 0" "connections [] = 0" "attempted_urls [] = {}"
  "resolutions [Completed e] = 0" "connections [Completed e] = 0" "attempted_urls [Completed e] = {}"
  by (simp_all add: resolutions_def connections_def attempted_urls_def)

lemma pinned_attempt_counts:
  "list_all (pinned_attempt p r answer) tries \<Longrightarrow>
    filter is_resolution tries = [] \<and> filter is_attempt tries = tries \<and> (\<forall>t \<in> set tries. attempted_url t = {url_text (pr_url r)})"
  by (induction tries) (auto simp: pinned_attempt_def)

lemma reports_counts:
  "filter is_resolution (map Completed cs) = []" "filter is_attempt (map Completed cs) = []"
  by (auto simp: filter_empty_conv)

lemma turn_counts:
  assumes "turn_calls p r retry calls"
  shows "resolutions calls \<le> 1" and "attempted_urls calls \<subseteq> {url_text (pr_url r)}"
    and "pr_method r \<noteq> ''GET'' \<Longrightarrow> pr_method r \<noteq> ''HEAD'' \<Longrightarrow> connections calls \<le> resolutions calls"
  using assms
  by (auto elim!: turn_calls.cases simp: resolutions_def connections_def attempted_urls_def attempt_calls_def
      reports_counts dest!: pinned_attempt_counts)

text \<open>
  The invariant behind the bounds: a turn that is not the last spends one redirect or the recovery, and
  only URLs of the redirect chain are requested.
\<close>

definition within_bounds :: "nat \<Rightarrow> string \<Rightarrow> prepared_request \<Rightarrow> redirect_chain \<Rightarrow> bool \<Rightarrow> outbound_call list \<Rightarrow> bool" where
  "within_bounds hops m r ch recovered log \<longleftrightarrow>
    rc_max_hops ch = hops \<and> rc_hops ch \<le> hops \<and> finite (rc_seen ch) \<and> card (rc_seen ch) = Suc (rc_hops ch)
    \<and> url_text (pr_url r) \<in> rc_seen ch \<and> attempted_urls log \<subseteq> rc_seen ch
    \<and> resolutions log \<le> rc_hops ch + (if recovered then 1 else 0)
    \<and> pr_method r = m \<and> (m \<noteq> ''GET'' \<and> m \<noteq> ''HEAD'' \<longrightarrow> connections log \<le> resolutions log)"

definition run_bounded :: "nat \<Rightarrow> string \<Rightarrow> outbound_call list \<Rightarrow> bool" where
  "run_bounded hops m log \<longleftrightarrow>
    resolutions log \<le> hops + 2 \<and> card (attempted_urls log) \<le> hops + 1
    \<and> (m \<noteq> ''GET'' \<and> m \<noteq> ''HEAD'' \<longrightarrow> connections log \<le> resolutions log)"

lemma within_bounds_turn:
  assumes "within_bounds hops m r ch b log" and "turn_calls p r False calls"
  shows "run_bounded hops m (log @ calls)"
proof -
  have "attempted_urls (log @ calls) \<subseteq> rc_seen ch"
    using assms turn_counts(2) [OF assms(2)] by (auto simp: within_bounds_def)
  then have "card (attempted_urls (log @ calls)) \<le> hops + 1"
    using assms(1) card_mono [of "rc_seen ch" "attempted_urls (log @ calls)"] by (auto simp: within_bounds_def)
  then show ?thesis
    using assms(1) turn_counts [OF assms(2)] by (auto simp: within_bounds_def run_bounded_def split: if_splits)
qed

lemma within_bounds_new:
  "within_bounds hops (pr_method r) (with_user_agent c r) (redirect_chain_new (pr_url r) hops) False []"
  by (simp add: within_bounds_def redirect_chain_new_def)

lemma run_bounded_Completed: "run_bounded hops m log \<Longrightarrow> run_bounded hops m (log @ [Completed e])"
  by (simp add: run_bounded_def)

lemma within_bounds_retry:
  "within_bounds hops m r ch False log \<Longrightarrow> turn_calls p r True calls \<Longrightarrow>
    within_bounds hops m (without_validators r) ch True (log @ calls)"
  using turn_counts [of p r True calls] by (auto simp: within_bounds_def)

lemma within_bounds_redirect:
  assumes "within_bounds hops m r ch b log" and "turn_calls p r False calls"
    and "follow join ch (pr_url r) location = Inr (nxt, ch')"
  shows "within_bounds hops m (for_redirect r nxt) ch' b (log @ calls)"
  using assms(1) turn_counts [OF assms(2)] follow_hops [OF assms(3)] by (auto simp: within_bounds_def)

interpretation bounded: request_invariant p "within_bounds hops m" "run_bounded hops m" for p hops m
  by unfold_locales (auto intro: within_bounds_turn within_bounds_retry within_bounds_redirect run_bounded_Completed)

text \<open>A request ends, and within bounds: it resolves at most two names more than the configured number of
  redirect hops (the first one and the single retry without cache validators), connects for at most one
  URL more than that number, and a request that is neither GET nor HEAD is sent at most once per resolution:
  it is never repeated at another address after a failure.
\<close>

theorem outbound_run_bounded:
  "resolutions (snd (snd (execute_stream N c request sys oper (w, []))))
      \<le> ol_max_redirect_hops (op_limits (hc_policy c)) + 2
    \<and> card (attempted_urls (snd (snd (execute_stream N c request sys oper (w, [])))))
      \<le> ol_max_redirect_hops (op_limits (hc_policy c)) + 1
    \<and> (pr_method request \<noteq> ''GET'' \<and> pr_method request \<noteq> ''HEAD'' \<longrightarrow>
        connections (snd (snd (execute_stream N c request sys oper (w, []))))
        \<le> resolutions (snd (snd (execute_stream N c request sys oper (w, [])))))"
  unfolding run_bounded_def [symmetric]
  by (rule bounded.requested) (simp, simp only: with_user_agent_simps within_bounds_new)

section \<open>Reading the body\<close>

fun reported_completion :: "outbound_call \<Rightarrow> external_request_completion option" where
  "reported_completion (Completed e) = Some e"
| "reported_completion _ = None"

definition completions :: "outbound_call list \<Rightarrow> external_request_completion list" where
  "completions calls = List.map_filter reported_completion calls"

lemma completions_append [simp]: "completions (xs @ ys) = completions xs @ completions ys"
  by (simp add: completions_def map_filter_def)

lemma completions_simps [simp]: "completions [] = []" "completions [Completed e] = [e]"
  by (simp_all add: completions_def map_filter_simps)

lemma completions_Completed [simp]: "completions (map Completed es) = es"
  by (induction es) (simp_all add: completions_def map_filter_simps)

lemma completions_tries: "list_all (pinned_attempt p r answer) tries \<Longrightarrow> completions tries = []"
  by (induction tries) (auto simp: completions_def map_filter_simps pinned_attempt_def)

definition recoveries :: "bool \<Rightarrow> outbound_call list \<Rightarrow> bool" where
  "recoveries recovered log \<longleftrightarrow> list_all recovery (completions log) \<and> length (completions log) = (if recovered then 1 else 0)"

lemma turn_recoveries: "turn_calls p r retry calls \<Longrightarrow> recoveries retry calls"
proof (induction rule: turn_calls.induct)
  case (attempts host port answer retry calls)
  then show ?case
    by (auto simp: attempt_calls_def recoveries_def completions_tries
        completions_def [of "_ # _"] map_filter_simps simp flip: completions_def)
qed (simp_all add: recoveries_def completions_def map_filter_simps)

lemma recoveries_append: "recoveries b xs \<Longrightarrow> recoveries False ys \<Longrightarrow> recoveries b (xs @ ys)"
  "recoveries False xs \<Longrightarrow> recoveries True ys \<Longrightarrow> recoveries True (xs @ ys)"
  by (auto simp: recoveries_def)

interpretation recovered: turn_invariant p "\<lambda>_ _. recoveries" "\<lambda>log. \<exists>b. recoveries b log" for p
  by unfold_locales (auto intro: recoveries_append turn_recoveries)








section \<open>An evaluated run\<close>

text \<open>
  A network with two hosts: the first answers every request with a redirect to the second, which answers with
  a body of one chunk. The world is the number of chunks read.
\<close>

definition demo_next_url :: url where
  "demo_next_url =
    \<lparr>url_text = ''https://example.net/'', url_scheme = ''https'', url_host = Some ''example.net'', url_port = None,
     url_path = ''/'', url_query = None, url_fragment = None, url_username = [], url_password = None\<rparr>"

definition demo_value :: "string \<Rightarrow> header_value" where
  "demo_value s = \<lparr>hv_bytes = [], hv_to_str = Some s, hv_sensitive = False\<rparr>"

definition demo_address :: ip_addr where
  "demo_address = V4 (Ipv4 93 184 216 34)"

definition demo_network :: "(nat, unit) network" where
  "demo_network =
    \<lparr>net_now = (\<lambda>w. (0, w)),
     net_resolve = (\<lambda>w host port l. (Addresses [demo_address], w)),
     net_execute = (\<lambda>w r auth ct l.
       (if url_text (pr_url r) = ''https://example.org/feed''
        then Inr \<lparr>tr_status = 302, tr_headers = [(''location'', demo_value ''https://example.net/'')],
                  tr_connected_peer = demo_address, tr_body = ()\<rparr>
        else Inr \<lparr>tr_status = 200, tr_headers = [], tr_connected_peer = demo_address, tr_body = ()\<rparr>, w)),
     net_chunk = (\<lambda>w b l. (if w = 0 then Chunk (Some [7]) else Chunk None, w + 1)),
     net_join = (\<lambda>u l. Some demo_next_url)\<rparr>"

definition demo_client :: http_client where
  "demo_client = http_client_new (outbound_policy_new False
     \<lparr>ol_connect_timeout = 10, ol_request_deadline = 100, ol_max_redirect_hops = 1, ol_max_response_body_bytes = 4\<rparr>)"

definition outbound_demo_request :: "string \<Rightarrow> prepared_request" where
  "outbound_demo_request m =
    \<lparr>pr_method = m, pr_url = example_url, pr_headers = [(''cookie'', demo_value ''secret''), (''accept'', demo_value ''text/xml'')],
     pr_body = None\<rparr>"

definition demo_redirected :: "string \<Rightarrow> prepared_request" where
  "demo_redirected m =
    \<lparr>pr_method = m, pr_url = demo_next_url, pr_headers = [(''accept'', demo_value ''text/xml'')], pr_body = None\<rparr>"

lemma demo_policy [simp]:
  "op_limits (hc_policy demo_client) =
    \<lparr>ol_connect_timeout = 10, ol_request_deadline = 100, ol_max_redirect_hops = 1, ol_max_response_body_bytes = 4\<rparr>"
  "hc_user_agent demo_client = None"
  "validate_url (hc_policy demo_client) example_url = Inr ()"
  "validate_url (hc_policy demo_client) demo_next_url = Inr ()"
  by (simp_all add: demo_client_def http_client_new_def outbound_policy_new_def validate_url_def origin_refused_def
      example_url_def demo_next_url_def)

lemma demo_public [simp]: "validate_public_address demo_address = Inr ()"
  by (simp add: validate_public_address_def demo_address_def)

lemma demo_origins [simp]: "origin example_url \<noteq> origin demo_next_url"
  by (simp add: origin_def example_url_def demo_next_url_def ascii_lower_char_def)

lemma demo_for_redirect [simp]: "for_redirect (outbound_demo_request m) demo_next_url = demo_redirected m"
  using demo_origins
  by (simp add: for_redirect_def outbound_demo_request_def demo_redirected_def header_remove_def sensitive_names_def
      sensitive_entry_def is_sensitive_header_def ascii_lower_char_def demo_value_def)

lemmas demo_defs = demo_network_def outbound_demo_request_def demo_redirected_def example_url_def demo_next_url_def demo_value_def
  redirect_chain_new_def port_or_known_default_def remaining_def read_clock_def deadline_remaining_def resolve_def
  attempt_def connection_def authorize_resolution_def verify_connected_peer_def after_response_def location_of_def
  follow_def follows_location_def

lemma demo_turn1:
  "request_turn demo_network (hc_policy demo_client) \<lparr>dl_started = 0, dl_duration = 100\<rparr> (outbound_demo_request m)
      (redirect_chain_new example_url 1) b (w, log) =
    (Redirect (demo_redirected m)
       \<lparr>rc_seen = {''https://example.net/'', ''https://example.org/feed''}, rc_hops = 1, rc_max_hops = 1\<rparr>,
     (w, log @ [Resolved ''example.org'' 443 (Addresses [demo_address]),
                Attempted (outbound_demo_request m) \<lparr>ca_url = example_url, ca_address = demo_address\<rparr> 10 100]))"
  using demo_policy demo_for_redirect [of m]
  by (simp add: request_turn_def connect_turn_def demo_defs)

lemma demo_turn2:
  "request_turn demo_network (hc_policy demo_client) \<lparr>dl_started = 0, dl_duration = 100\<rparr> (demo_redirected m) ch b (w, log) =
    (Answer \<lparr>tr_status = 200, tr_headers = [], tr_connected_peer = demo_address, tr_body = ()\<rparr>,
     (w, log @ [Resolved ''example.net'' 443 (Addresses [demo_address]),
                Attempted (demo_redirected m) \<lparr>ca_url = demo_next_url, ca_address = demo_address\<rparr> 10 100]))"
  using demo_policy
  by (simp add: request_turn_def connect_turn_def demo_defs)

lemma demo_clock: "read_clock demo_network st = (0, st)"
  by (simp add: read_clock_def demo_network_def)

lemma outbound_demo_request_url: "pr_url (outbound_demo_request m) = example_url"
  by (simp add: outbound_demo_request_def)

lemma outbound_demo_run:
  "snd (snd (execute_stream demo_network demo_client (outbound_demo_request m) sys oper (0, []))) =
    [Resolved ''example.org'' 443 (Addresses [demo_address]),
     Attempted (outbound_demo_request m) \<lparr>ca_url = example_url, ca_address = demo_address\<rparr> 10 100,
     Resolved ''example.net'' 443 (Addresses [demo_address]),
     Attempted (demo_redirected m) \<lparr>ca_url = demo_next_url, ca_address = demo_address\<rparr> 10 100]"
  by (simp add: execute_stream_def open_stream_def with_user_agent_def Let_def demo_turn1 [unfolded One_nat_def]
      demo_turn2 open_loop.simps demo_clock outbound_demo_request_url)

theorem credentials_stay_with_origin_witness:
  "pr_headers (demo_redirected ''GET'') = [(''accept'', demo_value ''text/xml'')]
    \<and> pr_body (demo_redirected ''GET'') = None
    \<and> list_all (\<lambda>h. \<not> sensitive_entry h \<and> fst h \<noteq> ''referer'') (pr_headers (demo_redirected ''GET''))"
proof -
  have "Attempted (demo_redirected ''GET'') \<lparr>ca_url = demo_next_url, ca_address = demo_address\<rparr> 10 100
      \<in> set (snd (snd (execute_stream demo_network demo_client (outbound_demo_request ''GET'') [] [] (0, []))))"
    by (simp add: outbound_demo_run)
  moreover have "origin (pr_url (demo_redirected ''GET'')) \<noteq> origin (pr_url (outbound_demo_request ''GET''))"
    using demo_origins [symmetric] by (simp add: demo_redirected_def outbound_demo_request_def)
  ultimately show ?thesis
    using credentials_stay_with_origin [of "demo_redirected ''GET''"] by (auto simp: demo_redirected_def list_all_iff)
qed

theorem outbound_run_bounded_witness:
  "connections (snd (snd (execute_stream demo_network demo_client (outbound_demo_request ''POST'') [] [] (0, [])))) \<le> 2"
proof -
  have "pr_method (outbound_demo_request ''POST'') \<noteq> ''GET''" and "pr_method (outbound_demo_request ''POST'') \<noteq> ''HEAD''"
    by (simp_all add: outbound_demo_request_def)
  then show ?thesis
    using outbound_run_bounded [of demo_network demo_client "outbound_demo_request ''POST''" "[]" "[]" 0]
    by (simp add: outbound_demo_run resolutions_def)
qed


end
