(* ===== verification/Route_Health.thy ===== *)
theory Route_Health
  imports Http_Client
begin

text \<open>
  The health of proxy endpoints (\<open>reader-web-runtime/src/public_proxy/health.rs\<close>), shared by all requests
  of a process: which endpoint a request claims next, when a quarantined endpoint may be probed again, and
  the single flight of a probe. An \<open>EndpointAttempt\<close> is a value that the request finishes or drops. The
  mutex is held for the whole of each operation, so an operation is one step; that no holder panics, so
  that the mutex is not poisoned, follows from the indices being in range.
\<close>

section \<open>State and operations\<close>

record endpoint_health =
  eh_failed_at :: "nat option"
  eh_last_attempt :: "nat option"
  eh_probing :: bool
  eh_healthy :: bool

definition endpoint_health_default :: endpoint_health where
  "endpoint_health_default = \<lparr>eh_failed_at = None, eh_last_attempt = None, eh_probing = False, eh_healthy = False\<rparr>"

record route_health =
  rh_hosts :: "string \<rightharpoonup> endpoint_health list"
  rh_quarantine :: duration

definition route_health_new :: "string list \<Rightarrow> nat \<Rightarrow> duration \<Rightarrow> route_health" where
  "route_health_new hosts endpoints quarantine =
    \<lparr>rh_hosts = (\<lambda>h. if h \<in> set hosts then Some (replicate endpoints endpoint_health_default) else None),
     rh_quarantine = quarantine\<rparr>"

record endpoint_attempt =
  ea_host :: string
  ea_index :: nat
  ea_probe :: bool
  ea_finished :: bool

definition eligible :: "duration \<Rightarrow> nat \<Rightarrow> bool list \<Rightarrow> endpoint_health list \<Rightarrow> nat \<Rightarrow> bool" where
  "eligible quarantine now attempted states i \<longleftrightarrow>
    \<not> attempted ! i \<and> \<not> eh_probing (states ! i)
    \<and> (case eh_failed_at (states ! i) of None \<Rightarrow> True | Some at \<Rightarrow> quarantine \<le> now - at)"

definition claim_priority :: "bool \<Rightarrow> endpoint_health \<Rightarrow> nat" where
  "claim_priority first s =
    (if eh_failed_at s \<noteq> None then (if first then 0 else 3) else if eh_healthy s then 1 else 2)"

text \<open>\<open>None\<close> is the least value of \<open>Option<Instant>\<close>.\<close>

definition instant_rank :: "nat option \<Rightarrow> nat" where
  "instant_rank t = (case t of None \<Rightarrow> 0 | Some n \<Rightarrow> Suc n)"

definition claim_rank :: "bool \<Rightarrow> endpoint_health \<Rightarrow> nat \<times> nat" where
  "claim_rank first s =
    (claim_priority first s, instant_rank (if eh_failed_at s = None then None else eh_last_attempt s))"

definition rank_before :: "nat \<times> nat \<Rightarrow> nat \<times> nat \<Rightarrow> bool" where
  "rank_before a b \<longleftrightarrow> fst a < fst b \<or> fst a = fst b \<and> snd a < snd b"

text \<open>
  \<open>min_by_key\<close> over the eligible indices in ascending order: the index is the last part of the key, so the
  first of equal ranks wins.
\<close>

fun best_index :: "(nat \<Rightarrow> nat \<times> nat) \<Rightarrow> nat option \<Rightarrow> nat list \<Rightarrow> nat option" where
  "best_index rank best [] = best"
| "best_index rank best (i # is) =
    best_index rank
      (case best of None \<Rightarrow> Some i | Some b \<Rightarrow> if rank_before (rank i) (rank b) then Some i else Some b) is"

definition choose_endpoint :: "duration \<Rightarrow> nat \<Rightarrow> bool list \<Rightarrow> endpoint_health list \<Rightarrow> nat option" where
  "choose_endpoint quarantine now attempted states =
    best_index (\<lambda>i. claim_rank (True \<notin> set attempted) (states ! i)) None
      (filter (eligible quarantine now attempted states) [0..<length states])"

definition claim_endpoint ::
  "route_health \<Rightarrow> string \<Rightarrow> bool list \<Rightarrow> nat \<Rightarrow> (string + endpoint_attempt option) \<times> route_health" where
  "claim_endpoint rh host attempted now =
    (case rh_hosts rh host of
       None \<Rightarrow> (Inl ''proxy_health_host'', rh)
     | Some states \<Rightarrow>
         if length attempted \<noteq> length states then (Inl ''proxy_health_endpoints'', rh)
         else (case choose_endpoint (rh_quarantine rh) now attempted states of
                 None \<Rightarrow> (Inr None, rh)
               | Some i \<Rightarrow>
                   let s = states ! i;
                       probe = eh_failed_at s \<noteq> None;
                       s = s\<lparr>eh_last_attempt := Some now\<rparr>;
                       s = (if probe then s\<lparr>eh_probing := True\<rparr> else s)
                   in (Inr (Some \<lparr>ea_host = host, ea_index = i, ea_probe = probe, ea_finished = False\<rparr>),
                       rh\<lparr>rh_hosts := (rh_hosts rh)(host \<mapsto> states[i := s])\<rparr>)))"

definition finish_endpoint ::
  "route_health \<Rightarrow> endpoint_attempt \<Rightarrow> bool \<Rightarrow> nat \<Rightarrow> (string + endpoint_attempt) \<times> route_health" where
  "finish_endpoint rh a success now =
    (case rh_hosts rh (ea_host a) of
       None \<Rightarrow> (Inl ''proxy_health_host'', rh)
     | Some states \<Rightarrow>
         let s = states ! ea_index a;
             s = (if ea_probe a then s\<lparr>eh_probing := False\<rparr> else s);
             s = s\<lparr>eh_healthy := success, eh_failed_at := (if success then None else Some now)\<rparr>
         in (Inr (a\<lparr>ea_finished := True\<rparr>), rh\<lparr>rh_hosts := (rh_hosts rh)(ea_host a \<mapsto> states[ea_index a := s])\<rparr>))"

definition drop_attempt :: "route_health \<Rightarrow> endpoint_attempt \<Rightarrow> route_health" where
  "drop_attempt rh a =
    (if ea_probe a \<and> \<not> ea_finished a
     then (case rh_hosts rh (ea_host a) of
             None \<Rightarrow> rh
           | Some states \<Rightarrow>
               rh\<lparr>rh_hosts := (rh_hosts rh)(ea_host a \<mapsto>
                 states[ea_index a := (states ! ea_index a)\<lparr>eh_probing := False\<rparr>])\<rparr>)
     else rh)"

section \<open>The choice of an endpoint\<close>

lemma rank_before_order:
  "\<not> rank_before a a" "rank_before a b \<Longrightarrow> rank_before b c \<Longrightarrow> rank_before a c"
  "\<not> rank_before a b \<Longrightarrow> \<not> rank_before b c \<Longrightarrow> \<not> rank_before a c"
  by (auto simp: rank_before_def)

lemma best_index_member: "\<exists>r. best_index rank (Some b) js = Some r \<and> r \<in> insert b (set js)"
  by (induction js arbitrary: b) (fastforce split: if_splits)+

lemma best_index_least:
  "best_index rank (Some b) js = Some r \<Longrightarrow> j \<in> insert b (set js) \<Longrightarrow> \<not> rank_before (rank j) (rank r)"
proof (induction js arbitrary: b j)
  case Nil
  then show ?case by (auto simp: rank_before_order)
next
  case (Cons i js)
  show ?case
  proof (cases "rank_before (rank i) (rank b)")
    case True
    then have run: "best_index rank (Some i) js = Some r"
      using Cons.prems(1) by simp
    show ?thesis
    proof (cases "j = b")
      case True
      with \<open>rank_before (rank i) (rank b)\<close> Cons.IH [OF run, of i] show ?thesis
        using rank_before_order(2) by blast
    qed (use Cons.IH [OF run, of j] Cons.prems(2) in auto)
  next
    case False
    then have run: "best_index rank (Some b) js = Some r"
      using Cons.prems(1) by simp
    show ?thesis
    proof (cases "j = i")
      case True
      with False Cons.IH [OF run, of b] show ?thesis
        using rank_before_order(3) by blast
    qed (use Cons.IH [OF run, of j] Cons.prems(2) in auto)
  qed
qed

text \<open>
  A request is refused only when no endpoint is eligible; otherwise it gets an eligible endpoint that no
  other eligible endpoint precedes.
\<close>

lemma choose_endpoint_None:
  "choose_endpoint q now attempted states = None \<longleftrightarrow> (\<forall>i < length states. \<not> eligible q now attempted states i)"
proof (cases "filter (eligible q now attempted states) [0..<length states]")
  case Nil
  then show ?thesis by (auto simp: choose_endpoint_def filter_empty_conv)
next
  case (Cons i js)
  then have "i \<in> set (filter (eligible q now attempted states) [0..<length states])"
    by simp
  then have "i < length states \<and> eligible q now attempted states i"
    by auto
  then show ?thesis
    using Cons best_index_member [of "\<lambda>i. claim_rank (True \<notin> set attempted) (states ! i)" i js]
    by (auto simp: choose_endpoint_def)
qed

lemma choose_endpoint_Some:
  assumes "choose_endpoint q now attempted states = Some i"
  shows "i < length states" and "eligible q now attempted states i"
    and "\<And>j. j < length states \<Longrightarrow> eligible q now attempted states j \<Longrightarrow>
      \<not> rank_before (claim_rank (True \<notin> set attempted) (states ! j)) (claim_rank (True \<notin> set attempted) (states ! i))"
proof -
  obtain k js where ks: "filter (eligible q now attempted states) [0..<length states] = k # js"
    using assms by (cases "filter (eligible q now attempted states) [0..<length states]") (auto simp: choose_endpoint_def)
  have mem: "j \<in> insert k (set js) \<longleftrightarrow> j < length states \<and> eligible q now attempted states j" for j
    using arg_cong [OF ks, of set] by auto
  have best: "best_index (\<lambda>i. claim_rank (True \<notin> set attempted) (states ! i)) (Some k) js = Some i"
    using assms ks by (simp add: choose_endpoint_def)
  then have "i \<in> insert k (set js)"
    using best_index_member by (metis option.inject)
  with mem show "i < length states" and "eligible q now attempted states i"
    by blast+
  fix j
  assume "j < length states" and "eligible q now attempted states j"
  with mem have "j \<in> insert k (set js)"
    by blast
  from best_index_least [OF best this]
  show "\<not> rank_before (claim_rank (True \<notin> set attempted) (states ! j)) (claim_rank (True \<notin> set attempted) (states ! i))" .
qed

section \<open>Interleaved requests\<close>

text \<open>
  The steps that requests running at the same time take on the shared health: each claims endpoints with
  its own marks, finishes attempts, or drops them when it is cancelled. The state holds the attempts that
  are not finished or dropped yet.
\<close>

record health_state =
  hs_health :: route_health
  hs_live :: "endpoint_attempt list"

inductive health_step :: "health_state \<Rightarrow> health_state \<Rightarrow> bool" where
  claim_step: "claim_endpoint (hs_health s) host attempted now = (Inr (Some a), rh) \<Longrightarrow>
    health_step s \<lparr>hs_health = rh, hs_live = a # hs_live s\<rparr>"
| finish_step: "a \<in> set (hs_live s) \<Longrightarrow> finish_endpoint (hs_health s) a success now = (Inr a', rh) \<Longrightarrow>
    health_step s \<lparr>hs_health = drop_attempt rh a', hs_live = remove1 a (hs_live s)\<rparr>"
| drop_step: "a \<in> set (hs_live s) \<Longrightarrow>
    health_step s \<lparr>hs_health = drop_attempt (hs_health s) a, hs_live = remove1 a (hs_live s)\<rparr>"

definition probes :: "endpoint_attempt list \<Rightarrow> string \<Rightarrow> nat \<Rightarrow> nat" where
  "probes live host i = length (filter (\<lambda>a. ea_probe a \<and> ea_host a = host \<and> ea_index a = i) live)"

definition single_flight :: "health_state \<Rightarrow> bool" where
  "single_flight s \<longleftrightarrow>
    (\<forall>a \<in> set (hs_live s). \<not> ea_finished a
      \<and> (\<exists>states. rh_hosts (hs_health s) (ea_host a) = Some states \<and> ea_index a < length states))
    \<and> (\<forall>host states i. rh_hosts (hs_health s) host = Some states \<longrightarrow> i < length states \<longrightarrow>
        probes (hs_live s) host i = (if eh_probing (states ! i) then 1 else 0))"

text \<open>The hosts, the number of endpoints of each and the quarantine never change.\<close>

definition route_shape :: "string list \<Rightarrow> nat \<Rightarrow> duration \<Rightarrow> route_health \<Rightarrow> bool" where
  "route_shape hosts n q rh \<longleftrightarrow>
    rh_quarantine rh = q
    \<and> (\<forall>h. case rh_hosts rh h of None \<Rightarrow> h \<notin> set hosts | Some states \<Rightarrow> h \<in> set hosts \<and> length states = n)"

lemma route_shape_update:
  "route_shape hosts n q rh \<Longrightarrow> rh_hosts rh h = Some states \<Longrightarrow> length states' = length states \<Longrightarrow>
    route_shape hosts n q (rh\<lparr>rh_hosts := (rh_hosts rh)(h \<mapsto> states')\<rparr>)"
  by (auto simp: route_shape_def split: option.splits)

lemma claimE:
  assumes "claim_endpoint rh host attempted now = (Inr (Some a), rh')"
  obtains states i e where "rh_hosts rh host = Some states" and "i < length states" and "\<not> eh_probing (states ! i)"
    and "a = \<lparr>ea_host = host, ea_index = i, ea_probe = (eh_failed_at (states ! i) \<noteq> None), ea_finished = False\<rparr>"
    and "rh' = rh\<lparr>rh_hosts := (rh_hosts rh)(host \<mapsto> states[i := e])\<rparr>"
    and "eh_probing e \<longleftrightarrow> eh_failed_at (states ! i) \<noteq> None"
    and "length attempted = length states" and "\<not> attempted ! i"
proof -
  obtain states i where *: "rh_hosts rh host = Some states" "length attempted = length states"
    "choose_endpoint (rh_quarantine rh) now attempted states = Some i"
    using assms by (auto simp: claim_endpoint_def split: option.splits if_splits)
  note i = choose_endpoint_Some(1,2) [OF *(3)]
  then have free: "\<not> eh_probing (states ! i)" "\<not> attempted ! i"
    by (auto simp: eligible_def)
  define e where "e = (if eh_failed_at (states ! i) \<noteq> None then (states ! i)\<lparr>eh_last_attempt := Some now, eh_probing := True\<rparr>
      else (states ! i)\<lparr>eh_last_attempt := Some now\<rparr>)"
  show thesis
    using assms * i free by (intro that [of states i e]) (auto simp: claim_endpoint_def Let_def e_def split: if_splits)
qed

lemma finishE:
  assumes "finish_endpoint rh a success now = (Inr a', rh')"
  obtains states e where "rh_hosts rh (ea_host a) = Some states" and "a' = a\<lparr>ea_finished := True\<rparr>"
    and "rh' = rh\<lparr>rh_hosts := (rh_hosts rh)(ea_host a \<mapsto> states[ea_index a := e])\<rparr>"
    and "eh_probing e \<longleftrightarrow> eh_probing (states ! ea_index a) \<and> \<not> ea_probe a"
  using assms by (cases "rh_hosts rh (ea_host a)") (auto simp: finish_endpoint_def Let_def intro!: that split: if_splits)

lemma probes_Cons [simp]:
  "probes (a # live) h i = (if ea_probe a \<and> ea_host a = h \<and> ea_index a = i then 1 else 0) + probes live h i"
  by (simp add: probes_def)

lemma probes_remove1:
  "a \<in> set live \<Longrightarrow>
    probes (remove1 a live) h i = probes live h i - (if ea_probe a \<and> ea_host a = h \<and> ea_index a = i then 1 else 0)"
  by (simp add: probes_def filter_remove1 length_remove1)

lemma single_flight_probes:
  "single_flight s \<Longrightarrow> rh_hosts (hs_health s) host = Some states \<Longrightarrow> i < length states \<Longrightarrow>
    probes (hs_live s) host i = (if eh_probing (states ! i) then 1 else 0)"
  by (simp add: single_flight_def)

text \<open>One endpoint is replaced: the invariant holds again when its probing flag agrees with its live probes.\<close>

lemma single_flight_update:
  assumes "single_flight s" and "rh_hosts (hs_health s) host = Some states" and "i < length states"
    and "set live \<subseteq> insert a (set (hs_live s))"
    and "\<not> ea_finished a" and "ea_host a = host" and "ea_index a = i"
    and "probes live host i = (if eh_probing e then 1 else 0)"
    and "\<And>h j. (h, j) \<noteq> (host, i) \<Longrightarrow> probes live h j = probes (hs_live s) h j"
  shows "single_flight \<lparr>hs_health = (hs_health s)\<lparr>rh_hosts := (rh_hosts (hs_health s))(host \<mapsto> states[i := e])\<rparr>, hs_live = live\<rparr>"
proof -
  have "\<not> ea_finished b \<and> (\<exists>states'. ((rh_hosts (hs_health s))(host \<mapsto> states[i := e])) (ea_host b) = Some states'
      \<and> ea_index b < length states')" if "b \<in> set live" for b
    using assms(1-7) that unfolding single_flight_def by (cases "b = a") (fastforce split: if_splits)+
  moreover have "probes live h j = (if eh_probing (states' ! j) then 1 else 0)"
    if "((rh_hosts (hs_health s))(host \<mapsto> states[i := e])) h = Some states'" and "j < length states'" for h states' j
    using assms(2,3,8) assms(9) [of h j] that single_flight_probes [OF assms(1), of h _ j]
    by (cases "h = host"; cases "j = i") auto
  ultimately show ?thesis
    unfolding single_flight_def by simp
qed

text \<open>A live attempt is released: the flag of its endpoint is cleared when it was a probe.\<close>

lemma single_flight_release:
  assumes "single_flight s" and "a \<in> set (hs_live s)" and "rh_hosts (hs_health s) (ea_host a) = Some states"
    and "eh_probing e \<longleftrightarrow> eh_probing (states ! ea_index a) \<and> \<not> ea_probe a"
  shows "single_flight \<lparr>hs_health = (hs_health s)\<lparr>rh_hosts := (rh_hosts (hs_health s))(ea_host a \<mapsto> states[ea_index a := e])\<rparr>,
    hs_live = remove1 a (hs_live s)\<rparr>"
proof -
  have a: "\<not> ea_finished a" "ea_index a < length states"
    "probes (hs_live s) (ea_host a) (ea_index a) = (if eh_probing (states ! ea_index a) then 1 else 0)"
    using assms(1-3) by (auto simp: single_flight_def)
  show ?thesis
    using a assms(4) set_remove1_subset [of a "hs_live s"]
    by (intro single_flight_update [OF assms(1,3) a(2)]) (auto simp: probes_remove1 [OF assms(2)])
qed

lemma health_step_single_flight:
  assumes "health_step s s'" and "single_flight s"
  shows "single_flight s'"
  using assms(1)
proof cases
  case (claim_step host attempted now a rh)
  obtain states i e where *: "rh_hosts (hs_health s) host = Some states" "i < length states" "\<not> eh_probing (states ! i)"
    "a = \<lparr>ea_host = host, ea_index = i, ea_probe = (eh_failed_at (states ! i) \<noteq> None), ea_finished = False\<rparr>"
    "rh = (hs_health s)\<lparr>rh_hosts := (rh_hosts (hs_health s))(host \<mapsto> states[i := e])\<rparr>"
    "eh_probing e \<longleftrightarrow> eh_failed_at (states ! i) \<noteq> None"
    using claim_step(2) by (rule claimE)
  then have "probes (hs_live s) host i = 0"
    using assms(2) by (auto simp: single_flight_def)
  then show ?thesis
    unfolding claim_step(1) *(5)
    using * by (intro single_flight_update [OF assms(2) *(1,2), where a = a]) auto
next
  case (finish_step a success now a' rh)
  obtain states e where *: "rh_hosts (hs_health s) (ea_host a) = Some states" "a' = a\<lparr>ea_finished := True\<rparr>"
    "rh = (hs_health s)\<lparr>rh_hosts := (rh_hosts (hs_health s))(ea_host a \<mapsto> states[ea_index a := e])\<rparr>"
    "eh_probing e \<longleftrightarrow> eh_probing (states ! ea_index a) \<and> \<not> ea_probe a"
    using finish_step(3) by (rule finishE)
  have "drop_attempt rh a' = rh"
    using *(2) by (simp add: drop_attempt_def)
  then show ?thesis
    unfolding finish_step(1) using single_flight_release [OF assms(2) finish_step(2) *(1,4)] *(3) by simp
next
  case (drop_step a)
  obtain states where states: "rh_hosts (hs_health s) (ea_host a) = Some states" and "\<not> ea_finished a"
    using assms(2) drop_step(2) by (auto simp: single_flight_def)
  then have "drop_attempt (hs_health s) a = (hs_health s)\<lparr>rh_hosts := (rh_hosts (hs_health s))(ea_host a \<mapsto>
      states[ea_index a := (states ! ea_index a)\<lparr>eh_probing := eh_probing (states ! ea_index a) \<and> \<not> ea_probe a\<rparr>])\<rparr>"
    by (auto simp: drop_attempt_def fun_upd_idem)
  then show ?thesis
    unfolding drop_step(1) using single_flight_release [OF assms(2) drop_step(2) states] by simp
qed

lemma health_step_shape: "health_step s s' \<Longrightarrow> route_shape hosts n q (hs_health s) \<Longrightarrow> route_shape hosts n q (hs_health s')"
  by (erule health_step.cases)
    (auto simp: drop_attempt_def split: option.splits elim!: claimE finishE intro!: route_shape_update)

lemma health_run:
  assumes "health_step\<^sup>*\<^sup>* \<lparr>hs_health = route_health_new hosts n q, hs_live = []\<rparr> s"
  shows "single_flight s \<and> route_shape hosts n q (hs_health s)"
  using assms
proof (induction rule: rtranclp_induct)
  case base
  show ?case
    by (auto simp: single_flight_def route_shape_def route_health_new_def probes_def endpoint_health_default_def)
next
  case (step s s')
  then show ?case using health_step_single_flight health_step_shape by blast
qed

definition quarantine_over :: "duration \<Rightarrow> nat \<Rightarrow> endpoint_health \<Rightarrow> bool" where
  "quarantine_over q now e \<longleftrightarrow> (case eh_failed_at e of None \<Rightarrow> True | Some at \<Rightarrow> q \<le> now - at)"

text \<open>C38. However requests interleave, finish and are cancelled, at most one of them probes a quarantined endpoint
  of a host at any time. And no endpoint stays locked: when no live request probes it, it is past its
  quarantine and the request has not tried it yet, then a claim succeeds, with an endpoint the request has
  not tried yet.
\<close>

theorem probe_single_flight:
  assumes "health_step\<^sup>*\<^sup>* \<lparr>hs_health = route_health_new hosts n q, hs_live = []\<rparr> s"
    and "rh_hosts (hs_health s) host = Some states" and "i < length states"
  shows "probes (hs_live s) host i \<le> 1
    \<and> (probes (hs_live s) host i = 0 \<and> quarantine_over q now (states ! i) \<and> length attempted = n \<and> \<not> attempted ! i \<longrightarrow>
        (\<exists>a rh. claim_endpoint (hs_health s) host attempted now = (Inr (Some a), rh) \<and> ea_index a < n \<and> \<not> attempted ! ea_index a))"
proof -
  note inv = health_run [OF assms(1)]
  have flight: "probes (hs_live s) host i = (if eh_probing (states ! i) then 1 else 0)"
    using inv assms(2,3) by (auto simp: single_flight_def)
  have shape: "length states = n" "rh_quarantine (hs_health s) = q"
    using inv assms(2) by (auto simp: route_shape_def split: option.splits dest: spec [of _ host])
  have "\<exists>a rh. claim_endpoint (hs_health s) host attempted now = (Inr (Some a), rh) \<and> ea_index a < n \<and> \<not> attempted ! ea_index a"
    if free: "probes (hs_live s) host i = 0" and "quarantine_over q now (states ! i)" and "length attempted = n" and "\<not> attempted ! i"
  proof -
    have "eligible q now attempted states i"
      using that flight by (auto simp: eligible_def quarantine_over_def split: if_splits)
    then obtain k where k: "choose_endpoint q now attempted states = Some k"
      using choose_endpoint_None [of q now attempted states] assms(3) by (cases "choose_endpoint q now attempted states") auto
    then have "k < n" "\<not> attempted ! k"
      using choose_endpoint_Some(1,2) [OF k] shape by (auto simp: eligible_def)
    then show ?thesis
      using k assms(2) shape \<open>length attempted = n\<close> by (auto simp: claim_endpoint_def Let_def)
  qed
  then show ?thesis
    using flight by auto
qed

theorem probe_single_flight_witness:
  "probes [] ''a.example'' 0 \<le> 1
    \<and> (\<exists>a rh. claim_endpoint (route_health_new [''a.example''] 2 5) ''a.example'' [False, False] 0 = (Inr (Some a), rh))"
  using probe_single_flight [of "[''a.example'']" 2 5 "\<lparr>hs_health = route_health_new [''a.example''] 2 5, hs_live = []\<rparr>"
      "''a.example''" "replicate 2 endpoint_health_default" 0 0 "[False, False]"]
  by (auto simp: route_health_new_def endpoint_health_default_def quarantine_over_def probes_def)

end
