(* ===== verification/Proxy_Route.thy ===== *)
theory Proxy_Route
  imports Route_Health
begin

text \<open>
  Routing through public CONNECT proxies (\<open>reader-web-runtime/src/public_proxy.rs\<close>, \<open>public_proxy/telegram.rs\<close>
  and the response body of \<open>public_proxy/health.rs\<close>): which requests may leave through a proxy, with which
  headers, in which order the endpoints of a route are tried, and how the outcome of a response body is
  recorded in the health of its endpoint.

  The direct transport and the tunnel (\<open>via_proxy\<close>: TCP, CONNECT, TLS and HTTP of third-party crates) are
  arguments, as are \<open>Url::parse\<close> and the recogniser of IP literals. The loop is modelled for one request; the
  requests of a process interleave at the operations of \<open>Route_Health\<close>, and the loop is shown to be a sequence of them.
\<close>

section \<open>Routes\<close>

record socket_addr =
  sa_ip :: ip_addr
  sa_port :: nat

datatype public_proxy_config_error =
  InvalidHosts | DuplicateHost | InvalidEndpoints | InvalidHeaderLimit | InvalidHealthIntervals | InvalidTlsProvider

record public_proxy_route =
  pp_hosts :: "string set"
  pp_endpoints :: "socket_addr list"
  pp_header_limit :: nat
  pp_attempt_timeout :: duration
  pp_direct_first :: bool

definition valid_proxy_host :: "url_parser \<Rightarrow> (string \<Rightarrow> bool) \<Rightarrow> string \<Rightarrow> bool" where
  "valid_proxy_host parse is_ip host \<longleftrightarrow>
    (case parse (''https://'' @ host @ ''/'') of
       None \<Rightarrow> False
     | Some u \<Rightarrow> url_host u = Some host \<and> url_port u = None \<and> url_username u = [] \<and> url_password u = None
         \<and> url_path u = ''/'' \<and> url_query u = None \<and> url_fragment u = None)
    \<and> \<not> is_ip host \<and> CHR ''*'' \<notin> set host \<and> \<not> (host \<noteq> [] \<and> last host = CHR ''.'') \<and> CHR ''.'' \<in> set host"

definition public_proxy_route_new ::
  "url_parser \<Rightarrow> (string \<Rightarrow> bool) \<Rightarrow> string list \<Rightarrow> socket_addr list \<Rightarrow> nat \<Rightarrow> duration \<Rightarrow> duration
    \<Rightarrow> public_proxy_config_error + public_proxy_route \<times> route_health" where
  "public_proxy_route_new parse is_ip hosts endpoints limit timeout quarantine =
    (if hosts = [] \<or> \<not> list_all (valid_proxy_host parse is_ip) hosts then Inl InvalidHosts
     else if \<not> distinct hosts then Inl DuplicateHost
     else if endpoints = [] \<or> \<not> distinct endpoints
       \<or> list_ex (\<lambda>e. sa_port e = 0 \<or> \<not> is_ok (validate_public_address (sa_ip e))) endpoints then Inl InvalidEndpoints
     else if limit = 0 then Inl InvalidHeaderLimit
     else if timeout = 0 \<or> quarantine = 0 then Inl InvalidHealthIntervals
     else Inr (\<lparr>pp_hosts = set hosts, pp_endpoints = endpoints, pp_header_limit = limit, pp_attempt_timeout = timeout,
                pp_direct_first = False\<rparr>,
               route_health_new hosts (length endpoints) quarantine))"

definition with_direct_first :: "public_proxy_route \<Rightarrow> bool \<Rightarrow> public_proxy_route" where
  "with_direct_first route enabled = route\<lparr>pp_direct_first := enabled\<rparr>"

record proxy_transport =
  pt_routes :: "public_proxy_route list"
  pt_telegram_bot_api :: bool

text \<open>\<open>ProxyTransport::new\<close> refuses a host that occurs in two routes.\<close>

fun routes_disjoint :: "string set \<Rightarrow> public_proxy_route list \<Rightarrow> bool" where
  "routes_disjoint hosts [] \<longleftrightarrow> True"
| "routes_disjoint hosts (r # rs) \<longleftrightarrow> pp_hosts r \<inter> hosts = {} \<and> routes_disjoint (hosts \<union> pp_hosts r) rs"

definition proxy_transport_new :: "bool \<Rightarrow> public_proxy_route list \<Rightarrow> public_proxy_config_error + proxy_transport" where
  "proxy_transport_new tls_versions_supported routes =
    (if \<not> routes_disjoint {} routes then Inl DuplicateHost
     else if \<not> tls_versions_supported then Inl InvalidTlsProvider
     else Inr \<lparr>pt_routes = routes, pt_telegram_bot_api = False\<rparr>)"

definition for_telegram_bot_api :: "proxy_transport \<Rightarrow> proxy_transport" where
  "for_telegram_bot_api t = t\<lparr>pt_telegram_bot_api := True\<rparr>"

section \<open>Headers\<close>

definition header_insert :: "string \<Rightarrow> header_value \<Rightarrow> header_map \<Rightarrow> header_map" where
  "header_insert n v hs = header_remove n hs @ [(n, v)]"

definition identity_value :: header_value where
  "identity_value = \<lparr>hv_bytes = map (\<lambda>c. of_char c) ''identity'', hv_to_str = Some ''identity'', hv_sensitive = False\<rparr>"

definition forwarded_headers :: "string set" where
  "forwarded_headers =
    {''accept'', ''accept-language'', ''cache-control'', ''if-modified-since'', ''if-none-match'', ''pragma'',
     ''user-agent'', ''range'', ''if-range''}"

definition dropped_headers :: "string set" where
  "dropped_headers =
    {''host'', ''connection'', ''accept-encoding'', ''upgrade-insecure-requests'', ''sec-fetch-dest'', ''sec-fetch-mode'',
     ''sec-fetch-site'', ''sec-fetch-user'', ''sec-ch-ua'', ''sec-ch-ua-mobile'', ''sec-ch-ua-platform''}"

fun copy_public_headers :: "header_map \<Rightarrow> header_map \<Rightarrow> string + header_map" where
  "copy_public_headers result [] = Inr result"
| "copy_public_headers result ((n, v) # hs) =
    (if hv_sensitive v then Inl ''proxy_credentials_forbidden''
     else if n \<in> forwarded_headers then copy_public_headers (result @ [(n, v)]) hs
     else if n \<in> dropped_headers then copy_public_headers result hs
     else Inl ''proxy_credentials_or_custom_headers_forbidden'')"

definition public_headers :: "header_map \<Rightarrow> string + header_map" where
  "public_headers hs =
    and_then (copy_public_headers [] hs) (\<lambda>result. Inr (header_insert ''accept-encoding'' identity_value result))"

text \<open>The Telegram capability: \<open>path.rsplit('/').next()\<close> is the last segment, the token is what stands before it.\<close>

definition last_segment :: "string \<Rightarrow> string" where
  "last_segment path = rev (takeWhile (\<lambda>c. c \<noteq> CHR ''/'') (rev path))"

definition strip_suffix :: "string \<Rightarrow> string \<Rightarrow> string option" where
  "strip_suffix p s = (if length p \<le> length s \<and> drop (length s - length p) s = p then Some (take (length s - length p) s) else None)"

definition telegram_token :: "url \<Rightarrow> string option" where
  "telegram_token u = Option.bind (strip_prefix ''/bot'' (url_path u)) (strip_suffix (CHR ''/'' # last_segment (url_path u)))"

definition telegram_methods :: "string set" where
  "telegram_methods = {''getMe'', ''getWebhookInfo'', ''getChat'', ''getChatMember'', ''getUpdates''}"

definition telegram_headers :: "prepared_request \<Rightarrow> string + header_map" where
  "telegram_headers r =
    (let u = pr_url r in
     if url_scheme u \<noteq> ''https'' \<or> url_host u \<noteq> Some ''api.telegram.org'' \<or> port_or_known_default u \<noteq> Some 443
        \<or> url_username u \<noteq> [] \<or> url_password u \<noteq> None \<or> url_query u \<noteq> None \<or> url_fragment u \<noteq> None
        \<or> pr_method r \<noteq> ''POST'' \<or> pr_body r = None \<or> last_segment (url_path u) \<notin> telegram_methods
        \<or> \<not> (case telegram_token u of None \<Rightarrow> False | Some t \<Rightarrow> t \<noteq> [] \<and> CHR ''/'' \<notin> set t)
     then Inl ''proxy_telegram_https_read_required''
     else if list_ex (\<lambda>h. fst h \<notin> {''content-type'', ''accept'', ''user-agent''}) (pr_headers r)
     then Inl ''proxy_telegram_headers_forbidden''
     else Inr (header_insert ''accept-encoding'' identity_value (pr_headers r)))"

section \<open>Executing a request\<close>

datatype 'a timed = In_time 'a | Timed_out

record ('w, 'b) proxy_env =
  pe_now :: "'w \<Rightarrow> nat \<times> 'w"
  pe_direct :: "'w \<Rightarrow> prepared_request \<Rightarrow> connection_authorization \<Rightarrow> duration \<Rightarrow> duration
      \<Rightarrow> (string + 'b transport_response) \<times> 'w"
  pe_direct_within :: "'w \<Rightarrow> prepared_request \<Rightarrow> connection_authorization \<Rightarrow> duration \<Rightarrow> duration
      \<Rightarrow> (string + 'b transport_response) timed \<times> 'w"
  pe_via_proxy :: "'w \<Rightarrow> prepared_request \<Rightarrow> connection_authorization \<Rightarrow> header_map \<Rightarrow> socket_addr \<Rightarrow> nat
      \<Rightarrow> duration \<Rightarrow> duration \<Rightarrow> (string + 'b transport_response) timed \<times> 'w"
  pe_chunk :: "'w \<Rightarrow> 'b \<Rightarrow> duration \<Rightarrow> chunk_answer \<times> 'w"

datatype proxy_call =
  Direct prepared_request connection_authorization
| Proxied socket_addr prepared_request connection_authorization header_map
| Observed string external_request_outcome

record 'w proxy_state =
  ps_world :: 'w
  ps_health :: route_health
  ps_calls :: "proxy_call list"

definition proxy_now :: "('w, 'b) proxy_env \<Rightarrow> 'w proxy_state \<Rightarrow> nat \<times> 'w proxy_state" where
  "proxy_now E st = (let (t, w) = pe_now E (ps_world st) in (t, st\<lparr>ps_world := w\<rparr>))"

definition observe :: "string \<Rightarrow> external_request_outcome \<Rightarrow> 'w proxy_state \<Rightarrow> 'w proxy_state" where
  "observe operation outcome st = st\<lparr>ps_calls := ps_calls st @ [Observed operation outcome]\<rparr>"

text \<open>The direct transport under a timeout, and the tunnel through an endpoint.\<close>

definition call_direct_within ::
  "('w, 'b) proxy_env \<Rightarrow> prepared_request \<Rightarrow> connection_authorization \<Rightarrow> duration \<Rightarrow> duration \<Rightarrow> 'w proxy_state
    \<Rightarrow> (string + 'b transport_response) timed \<times> 'w proxy_state" where
  "call_direct_within E request auth connect limit st =
    (let (r, w) = pe_direct_within E (ps_world st) request auth connect limit
     in (r, st\<lparr>ps_world := w, ps_calls := ps_calls st @ [Direct request auth]\<rparr>))"

definition call_via_proxy ::
  "('w, 'b) proxy_env \<Rightarrow> public_proxy_route \<Rightarrow> prepared_request \<Rightarrow> connection_authorization \<Rightarrow> header_map \<Rightarrow> nat
    \<Rightarrow> duration \<Rightarrow> duration \<Rightarrow> 'w proxy_state \<Rightarrow> (string + 'b transport_response) timed \<times> 'w proxy_state" where
  "call_via_proxy E route request auth headers i connect budget st =
    (let endpoint = pp_endpoints route ! i;
         (r, w) = pe_via_proxy E (ps_world st) request auth headers endpoint (pp_header_limit route) connect budget
     in (r, st\<lparr>ps_world := w, ps_calls := ps_calls st @ [Proxied endpoint request auth headers]\<rparr>))"

text \<open>The body of a proxied response (\<open>HealthBody\<close>); a direct body is passed on as it is.\<close>

record 'b health_body =
  hb_body :: "'b option"
  hb_attempt :: "endpoint_attempt option"
  hb_started :: nat
  hb_budget :: duration
  hb_origin_authoritative :: bool
  hb_finished :: bool

datatype 'b proxy_body = Plain_body 'b | Health_body "'b health_body"

definition with_body :: "'b transport_response \<Rightarrow> 'c \<Rightarrow> 'c transport_response" where
  "with_body r b = \<lparr>tr_status = tr_status r, tr_headers = tr_headers r, tr_connected_peer = tr_connected_peer r, tr_body = b\<rparr>"

definition plain_response :: "'b transport_response \<Rightarrow> 'b proxy_body transport_response" where
  "plain_response r = with_body r (Plain_body (tr_body r))"

definition is_success :: "nat \<Rightarrow> bool" where
  "is_success status \<longleftrightarrow> 200 \<le> status \<and> status < 300"

definition drop_in :: "endpoint_attempt \<Rightarrow> 'w proxy_state \<Rightarrow> 'w proxy_state" where
  "drop_in a st = st\<lparr>ps_health := drop_attempt (ps_health st) a\<rparr>"

definition finish_in ::
  "('w, 'b) proxy_env \<Rightarrow> endpoint_attempt \<Rightarrow> bool \<Rightarrow> 'w proxy_state \<Rightarrow> (string + unit) \<times> 'w proxy_state" where
  "finish_in E a success st =
    (let (now, st) = proxy_now E st
     in case finish_endpoint (ps_health st) a success now of
          (Inl e, rh) \<Rightarrow> (Inl e, drop_in a (st\<lparr>ps_health := rh\<rparr>))
        | (Inr a, rh) \<Rightarrow> (Inr (), drop_in a (st\<lparr>ps_health := rh\<rparr>)))"

text \<open>
  One turn of the \<open>while let\<close> loop over the endpoints: it returns from the function, or goes on with one more
  endpoint marked as tried and the error to report last.
\<close>

datatype 'b proxy_turn_result = Return "string + 'b proxy_body transport_response" | Continue "bool list" string

definition failed_endpoint ::
  "('w, 'b) proxy_env \<Rightarrow> endpoint_attempt \<Rightarrow> bool list \<Rightarrow> string \<Rightarrow> 'w proxy_state \<Rightarrow> 'b proxy_turn_result \<times> 'w proxy_state" where
  "failed_endpoint E a attempted e st =
    (case finish_in E a False st of
       (Inl e, st) \<Rightarrow> (Return (Inl e), st)
     | (Inr _, st) \<Rightarrow>
         (Continue attempted e,
          observe (if ea_probe a then ''quarantine_probe'' else ''endpoint_quarantined'') Failed st))"

definition try_endpoint ::
  "('w, 'b) proxy_env \<Rightarrow> public_proxy_route \<Rightarrow> prepared_request \<Rightarrow> connection_authorization \<Rightarrow> header_map
    \<Rightarrow> duration \<Rightarrow> duration \<Rightarrow> nat \<Rightarrow> bool list \<Rightarrow> endpoint_attempt \<Rightarrow> 'w proxy_state
    \<Rightarrow> 'b proxy_turn_result \<times> 'w proxy_state" where
  "try_endpoint E route request auth headers connect deadline started attempted a st =
    (let (t, st) = proxy_now E st
     in if deadline < t - started then (Return (Inl ''proxy_deadline''), drop_in a st)
        else
          let budget = min (deadline - (t - started)) (pp_attempt_timeout route);
              (attempt_started, st) = proxy_now E st;
              (result, st) = call_via_proxy E route request auth headers (ea_index a) (min connect budget) budget st
          in case result of
               In_time (Inr response) \<Rightarrow>
                 (Return (Inr (with_body response (Health_body
                    \<lparr>hb_body = Some (tr_body response), hb_attempt = Some a, hb_started = attempt_started,
                     hb_budget = budget, hb_origin_authoritative = \<not> is_success (tr_status response),
                     hb_finished = False\<rparr>))), st)
             | In_time (Inl e) \<Rightarrow> failed_endpoint E a attempted e st
             | Timed_out \<Rightarrow>
                 if budget < pp_attempt_timeout route
                 then (Return (Inl ''proxy_deadline''), drop_in a (observe ''endpoint_attempt'' Failed st))
                 else failed_endpoint E a attempted ''proxy_endpoint_attempt_timeout'' st)"

definition proxy_turn ::
  "('w, 'b) proxy_env \<Rightarrow> public_proxy_route \<Rightarrow> string \<Rightarrow> prepared_request \<Rightarrow> connection_authorization \<Rightarrow> header_map
    \<Rightarrow> duration \<Rightarrow> duration \<Rightarrow> nat \<Rightarrow> bool list \<Rightarrow> string \<Rightarrow> 'w proxy_state \<Rightarrow> 'b proxy_turn_result \<times> 'w proxy_state" where
  "proxy_turn E route host request auth headers connect deadline started attempted last_error st =
    (let (now, st) = proxy_now E st
     in case claim_endpoint (ps_health st) host attempted now of
          (Inl e, rh) \<Rightarrow> (Return (Inl e), st\<lparr>ps_health := rh\<rparr>)
        | (Inr None, rh) \<Rightarrow> (Return (Inl last_error), st\<lparr>ps_health := rh\<rparr>)
        | (Inr (Some a), rh) \<Rightarrow>
            try_endpoint E route request auth headers connect deadline started (attempted[ea_index a := True]) a
              (st\<lparr>ps_health := rh\<rparr>))"

text \<open>The loop ends because every turn marks one more endpoint as tried.\<close>

lemma mark_tried: "i < length xs \<Longrightarrow> \<not> xs ! i \<Longrightarrow> length (filter Not (xs[i := True])) < length (filter Not xs)"
proof (induction xs arbitrary: i)
  case (Cons x xs)
  then show ?case by (cases i) auto
qed simp

lemma try_endpoint_Continue:
  "try_endpoint E route request auth headers c d started attempted a st = (Continue attempted' e, st') \<Longrightarrow> attempted' = attempted"
  unfolding try_endpoint_def failed_endpoint_def
  by (auto simp: Let_def split: prod.splits timed.splits sum.splits if_splits)

lemma proxy_turn_Continue:
  assumes "proxy_turn E route host request auth headers c d started attempted l st = (Continue attempted' e, st')"
  shows "length (filter Not attempted') < length (filter Not attempted)"
proof -
  obtain now st0 where now: "proxy_now E st = (now, st0)" by (rule prod.exhaust)
  obtain a rh where a: "claim_endpoint (ps_health st0) host attempted now = (Inr (Some a), rh)" "attempted' = attempted[ea_index a := True]"
    using assms now by (auto simp: proxy_turn_def split: prod.splits sum.splits option.splits dest: try_endpoint_Continue)
  obtain states i where "ea_index a = i" "i < length attempted" "\<not> attempted ! i"
    using a(1) by (rule claimE) auto
  with a(2) show ?thesis by (simp add: mark_tried)
qed

function proxy_loop ::
  "('w, 'b) proxy_env \<Rightarrow> public_proxy_route \<Rightarrow> string \<Rightarrow> prepared_request \<Rightarrow> connection_authorization \<Rightarrow> header_map
    \<Rightarrow> duration \<Rightarrow> duration \<Rightarrow> nat \<Rightarrow> bool list \<Rightarrow> string \<Rightarrow> 'w proxy_state
    \<Rightarrow> (string + 'b proxy_body transport_response) \<times> 'w proxy_state" where
  "proxy_loop E route host request auth headers connect deadline started attempted last_error st =
    (case proxy_turn E route host request auth headers connect deadline started attempted last_error st of
       (Return res, st') \<Rightarrow> (res, st')
     | (Continue attempted' e, st') \<Rightarrow>
         proxy_loop E route host request auth headers connect deadline started attempted' e st')"
  by pat_completeness auto
termination
  by (relation "measure (\<lambda>(E, route, host, request, auth, headers, connect, deadline, started, attempted, e, st).
        length (filter Not attempted))")
    (auto dest!: sym [THEN proxy_turn_Continue])

declare proxy_loop.simps [simp del]

text \<open>\<open>ProxyTransport::execute\<close>. The health of each route is kept beside the routes.\<close>

definition routes_host :: "url \<Rightarrow> public_proxy_route \<Rightarrow> bool" where
  "routes_host u route \<longleftrightarrow> (case url_host u of None \<Rightarrow> False | Some h \<Rightarrow> h \<in> pp_hosts route)"

definition find_route :: "public_proxy_route list \<Rightarrow> url \<Rightarrow> nat option" where
  "find_route routes u = find (\<lambda>i. routes_host u (routes ! i)) [0..<length routes]"

definition proxy_pool ::
  "('w, 'b) proxy_env \<Rightarrow> public_proxy_route \<Rightarrow> prepared_request \<Rightarrow> connection_authorization \<Rightarrow> header_map
    \<Rightarrow> duration \<Rightarrow> duration \<Rightarrow> nat \<Rightarrow> 'w proxy_state
    \<Rightarrow> (string + 'b proxy_body transport_response) \<times> 'w proxy_state" where
  "proxy_pool E route request auth headers connect deadline started st =
    (case url_host (pr_url request) of
       None \<Rightarrow> (Inl ''missing_host'', st)
     | Some host \<Rightarrow>
         proxy_loop E route host request auth headers connect deadline started
           (replicate (length (pp_endpoints route)) False) ''proxy_pool_quarantined'' st)"

definition proxy_routed ::
  "('w, 'b) proxy_env \<Rightarrow> public_proxy_route \<Rightarrow> prepared_request \<Rightarrow> connection_authorization \<Rightarrow> header_map
    \<Rightarrow> duration \<Rightarrow> duration \<Rightarrow> 'w proxy_state
    \<Rightarrow> (string + 'b proxy_body transport_response) \<times> 'w proxy_state" where
  "proxy_routed E route request auth headers connect deadline st =
    (let (started, st) = proxy_now E st
     in if pp_direct_first route
        then
          let budget = min deadline (pp_attempt_timeout route);
              (response, st) = call_direct_within E request auth (min connect budget) budget st
          in (case response of
                In_time (Inr r) \<Rightarrow> (Inr (plain_response r), observe ''direct_attempt'' Success st)
              | _ \<Rightarrow>
                  proxy_pool E route request auth headers connect deadline started
                    (observe ''direct_attempt'' Failed st))
        else proxy_pool E route request auth headers connect deadline started st)"

definition proxy_refused :: "proxy_transport \<Rightarrow> prepared_request \<Rightarrow> connection_authorization \<Rightarrow> bool" where
  "proxy_refused T request auth \<longleftrightarrow>
    pr_url request \<noteq> ca_url auth \<or> url_scheme (pr_url request) \<noteq> ''https''
    \<or> \<not> pt_telegram_bot_api T
      \<and> (pr_method request \<noteq> ''GET'' \<and> pr_method request \<noteq> ''HEAD'' \<or> pr_body request \<noteq> None)"

definition proxy_execute ::
  "('w, 'b) proxy_env \<Rightarrow> proxy_transport \<Rightarrow> prepared_request \<Rightarrow> connection_authorization \<Rightarrow> duration \<Rightarrow> duration
    \<Rightarrow> route_health list \<Rightarrow> 'w \<times> proxy_call list
    \<Rightarrow> (string + 'b proxy_body transport_response) \<times> route_health list \<times> 'w \<times> proxy_call list" where
  "proxy_execute E T request auth connect deadline healths st =
    (case (if pt_telegram_bot_api T then telegram_headers request else Inr []) of
       Inl e \<Rightarrow> (Inl e, healths, st)
     | Inr telegram \<Rightarrow>
         (case find_route (pt_routes T) (pr_url request) of
            None \<Rightarrow>
              (let (r, w) = pe_direct E (fst st) request auth connect deadline
               in (map_sum id plain_response r, healths, w, snd st @ [Direct request auth]))
          | Some i \<Rightarrow>
              if proxy_refused T request auth then (Inl ''proxy_public_https_get_required'', healths, st)
              else (case (if pt_telegram_bot_api T then Inr telegram else public_headers (pr_headers request)) of
                      Inl e \<Rightarrow> (Inl e, healths, st)
                    | Inr headers \<Rightarrow>
                        (let (res, st') = proxy_routed E (pt_routes T ! i) request auth headers connect deadline
                               \<lparr>ps_world = fst st, ps_health = healths ! i, ps_calls = snd st\<rparr>
                         in (res, healths[i := ps_health st'], ps_world st', ps_calls st')))))"

section \<open>Reading a proxied body\<close>

definition hb_complete ::
  "('w, 'b) proxy_env \<Rightarrow> bool \<Rightarrow> 'b health_body \<Rightarrow> 'w proxy_state \<Rightarrow> (string + unit) \<times> 'b health_body \<times> 'w proxy_state" where
  "hb_complete E success hb st =
    (let hb' = hb\<lparr>hb_finished := True, hb_body := None, hb_attempt := None\<rparr>;
         probe = (case hb_attempt hb of None \<Rightarrow> False | Some a \<Rightarrow> ea_probe a);
         (finished, st) = (case hb_attempt hb of
            None \<Rightarrow> (Inr (), st)
          | Some a \<Rightarrow> finish_in E a (success \<or> hb_origin_authoritative hb) st)
     in case finished of
          Inl e \<Rightarrow> (Inl e, hb', st)
        | Inr _ \<Rightarrow>
            (Inr (), hb',
             observe
               (if probe then ''quarantine_probe''
                else if \<not> success \<and> \<not> hb_origin_authoritative hb then ''endpoint_quarantined''
                else ''endpoint_attempt'')
               (if success then Success else Failed) st))"

text \<open>The chunk under the time that is left of the budget of the attempt.\<close>

definition hb_read ::
  "('w, 'b) proxy_env \<Rightarrow> 'b \<Rightarrow> duration option \<Rightarrow> 'w proxy_state \<Rightarrow> (string + u8 list option) \<times> 'w proxy_state" where
  "hb_read E body left st =
    (case left of
       None \<Rightarrow> (Inl ''proxy_endpoint_body_timeout'', st)
     | Some l \<Rightarrow>
         (case pe_chunk E (ps_world st) body l of
            (Chunk v, w) \<Rightarrow> (Inr v, st\<lparr>ps_world := w\<rparr>)
          | (Chunk_failed e, w) \<Rightarrow> (Inl e, st\<lparr>ps_world := w\<rparr>)
          | (Chunk_timeout, w) \<Rightarrow> (Inl ''proxy_endpoint_body_timeout'', st\<lparr>ps_world := w\<rparr>)))"

definition hb_next_chunk ::
  "('w, 'b) proxy_env \<Rightarrow> 'b health_body \<Rightarrow> 'w proxy_state
    \<Rightarrow> (string + u8 list option) \<times> 'b health_body \<times> 'w proxy_state" where
  "hb_next_chunk E hb st =
    (if hb_finished hb then (Inr None, hb, st)
     else
       let (now, st) = proxy_now E st;
           left = (if now - hb_started hb \<le> hb_budget hb then Some (hb_budget hb - (now - hb_started hb)) else None)
       in if left \<noteq> None \<and> hb_body hb = None then (Inl ''proxy_body_state'', hb, st)
          else (case hb_read E (the (hb_body hb)) left st of
                  (Inr (Some v), st) \<Rightarrow> (Inr (Some v), hb, st)
                | (Inr None, st) \<Rightarrow>
                    (case hb_complete E True hb st of (Inl e, r) \<Rightarrow> (Inl e, r) | (Inr _, r) \<Rightarrow> (Inr None, r))
                | (Inl e, st) \<Rightarrow>
                    (case hb_complete E False hb st of (Inl e', r) \<Rightarrow> (Inl e', r) | (Inr _, r) \<Rightarrow> (Inl e, r))))"

definition hb_drop :: "('w, 'b) proxy_env \<Rightarrow> 'b health_body \<Rightarrow> 'w proxy_state \<Rightarrow> 'w proxy_state" where
  "hb_drop E hb st =
    (if hb_finished hb then (case hb_attempt hb of None \<Rightarrow> st | Some a \<Rightarrow> drop_in a st)
     else (case hb_attempt hb of
             None \<Rightarrow> observe ''endpoint_attempt'' Failed st
           | Some a \<Rightarrow>
               if hb_origin_authoritative hb
               then observe ''endpoint_attempt'' Failed (snd (finish_in E a True st))
               else drop_in a (observe ''endpoint_attempt'' Failed st)))"

section \<open>Every run is a sequence of health steps\<close>

lemma proxy_now_state: "proxy_now E st = (t, st') \<Longrightarrow> ps_health st' = ps_health st \<and> ps_calls st' = ps_calls st"
  by (auto simp: proxy_now_def split: prod.splits)

lemma observe_state [simp]:
  "ps_health (observe oper outcome st) = ps_health st" "ps_world (observe oper outcome st) = ps_world st"
  by (simp_all add: observe_def)

lemma drop_in_state [simp]: "ps_health (drop_in a st) = drop_attempt (ps_health st) a" "ps_calls (drop_in a st) = ps_calls st"
  by (simp_all add: drop_in_def)

text \<open>Finishing a live attempt succeeds and is a step; so is dropping it.\<close>

lemma finish_in_step:
  assumes "single_flight \<lparr>hs_health = ps_health st, hs_live = a # live\<rparr>" and "finish_in E a success st = (res, st')"
  shows "res = Inr ()" and "health_step \<lparr>hs_health = ps_health st, hs_live = a # live\<rparr> \<lparr>hs_health = ps_health st', hs_live = live\<rparr>"
    and "ps_calls st' = ps_calls st"
proof -
  obtain now st0 where now: "proxy_now E st = (now, st0)" by (rule prod.exhaust)
  note same = proxy_now_state [OF now]
  obtain states where "rh_hosts (ps_health st) (ea_host a) = Some states"
    using assms(1) by (auto simp: single_flight_def)
  then obtain a' rh where fin: "finish_endpoint (ps_health st) a success now = (Inr a', rh)"
    by (auto simp: finish_endpoint_def Let_def)
  then have st': "res = Inr ()" "ps_health st' = drop_attempt rh a'" "ps_calls st' = ps_calls st"
    using assms(2) now same by (auto simp: finish_in_def)
  then show "res = Inr ()" and "ps_calls st' = ps_calls st" by auto
  have "health_step \<lparr>hs_health = ps_health st, hs_live = a # live\<rparr>
      \<lparr>hs_health = drop_attempt rh a', hs_live = remove1 a (hs_live \<lparr>hs_health = ps_health st, hs_live = a # live\<rparr>)\<rparr>"
    using fin by (intro finish_step) auto
  then show "health_step \<lparr>hs_health = ps_health st, hs_live = a # live\<rparr> \<lparr>hs_health = ps_health st', hs_live = live\<rparr>"
    using st' by simp
qed

lemma drop_live_step:
  "health_step \<lparr>hs_health = rh, hs_live = a # live\<rparr> \<lparr>hs_health = drop_attempt rh a, hs_live = live\<rparr>"
  using drop_step [of a "\<lparr>hs_health = rh, hs_live = a # live\<rparr>"] by simp

definition held :: "'b health_body \<Rightarrow> endpoint_attempt list" where
  "held hb = (case hb_attempt hb of None \<Rightarrow> [] | Some a \<Rightarrow> [a])"

definition held_by :: "string + 'b proxy_body transport_response \<Rightarrow> endpoint_attempt list" where
  "held_by res = (case res of Inl _ \<Rightarrow> [] | Inr r \<Rightarrow> (case tr_body r of Plain_body _ \<Rightarrow> [] | Health_body hb \<Rightarrow> held hb))"

lemma failed_endpoint_step:
  assumes "single_flight \<lparr>hs_health = ps_health st, hs_live = a # live\<rparr>"
    and "failed_endpoint E a attempted e st = (out, st')"
  shows "health_step \<lparr>hs_health = ps_health st, hs_live = a # live\<rparr> \<lparr>hs_health = ps_health st', hs_live = live\<rparr>"
    and "out = Continue attempted e" and "\<exists>oper outcome. ps_calls st' = ps_calls st @ [Observed oper outcome]"
proof -
  obtain res st1 where fin: "finish_in E a False st = (res, st1)" by (rule prod.exhaust)
  note * = finish_in_step [OF assms(1) fin]
  show "health_step \<lparr>hs_health = ps_health st, hs_live = a # live\<rparr> \<lparr>hs_health = ps_health st', hs_live = live\<rparr>"
    and "out = Continue attempted e" and "\<exists>oper outcome. ps_calls st' = ps_calls st @ [Observed oper outcome]"
    using assms(2) fin * by (auto simp: failed_endpoint_def observe_def)
qed

fun proxied_call :: "proxy_call \<Rightarrow> (socket_addr \<times> prepared_request \<times> connection_authorization \<times> header_map) option" where
  "proxied_call (Proxied e r auth hs) = Some (e, r, auth, hs)"
| "proxied_call _ = None"

definition proxied :: "proxy_call list \<Rightarrow> (socket_addr \<times> prepared_request \<times> connection_authorization \<times> header_map) list" where
  "proxied calls = List.map_filter proxied_call calls"

lemma proxied_append [simp]: "proxied (xs @ ys) = proxied xs @ proxied ys"
  by (simp add: proxied_def map_filter_def)

lemma proxied_simps [simp]:
  "proxied [] = []" "proxied (Observed oper outcome # cs) = proxied cs" "proxied (Direct r auth # cs) = proxied cs"
  "proxied (Proxied e r auth hs # cs) = (e, r, auth, hs) # proxied cs"
  by (simp_all add: proxied_def map_filter_simps)

lemma proxied_observe [simp]: "proxied (ps_calls (observe oper outcome st)) = proxied (ps_calls st)"
  by (simp add: observe_def)

lemma try_endpoint_run:
  assumes flight: "single_flight \<lparr>hs_health = ps_health st, hs_live = a # live\<rparr>"
    and run: "try_endpoint E route request auth headers c d started attempted a st = (out, st')"
  shows "health_step \<lparr>hs_health = ps_health st, hs_live = a # live\<rparr>
      \<lparr>hs_health = ps_health st', hs_live = (case out of Return res \<Rightarrow> held_by res | Continue _ _ \<Rightarrow> []) @ live\<rparr>
    \<or> ps_health st' = ps_health st \<and> (\<exists>res. out = Return res \<and> held_by res = [a])" (is ?steps)
    and "proxied (ps_calls st') = proxied (ps_calls st)
    \<or> proxied (ps_calls st') = proxied (ps_calls st) @ [(pp_endpoints route ! ea_index a, request, auth, headers)]" (is ?calls)
    and "\<And>attempted' e. out = Continue attempted' e \<Longrightarrow> attempted' = attempted" (is "PROP ?marks")
proof -
  obtain t st1 where 1: "proxy_now E st = (t, st1)" by (rule prod.exhaust)
  note same1 = proxy_now_state [OF 1]
  define budget where "budget = min (d - (t - started)) (pp_attempt_timeout route)"
  obtain t2 st2 where 2: "proxy_now E st1 = (t2, st2)" by (rule prod.exhaust)
  note same2 = proxy_now_state [OF 2]
  obtain result st3 where 3: "call_via_proxy E route request auth headers (ea_index a) (min c budget) budget st2 = (result, st3)"
    by (rule prod.exhaust)
  have same3: "ps_health st3 = ps_health st"
    and calls3: "ps_calls st3 = ps_calls st @ [Proxied (pp_endpoints route ! ea_index a) request auth headers]"
    using 3 same1 same2 by (auto simp: call_via_proxy_def Let_def split: prod.splits)
  have fail: "?steps \<and> ?calls \<and> out = Continue attempted e"
    if "failed_endpoint E a attempted e st3 = (out, st')" for e
    using failed_endpoint_step [OF _ that, of live] flight same3 calls3 by auto
  have "?steps \<and> ?calls \<and> (\<forall>attempted' e. out = Continue attempted' e \<longrightarrow> attempted' = attempted)"
  proof (cases "d < t - started")
    case True
    with run 1 same1 show ?thesis
      using drop_live_step [of "ps_health st" a live] by (auto simp: try_endpoint_def held_by_def)
  next
    case False
    then have step: "(case result of
        In_time (Inr response) \<Rightarrow>
          (Return (Inr (with_body response (Health_body
             \<lparr>hb_body = Some (tr_body response), hb_attempt = Some a, hb_started = t2, hb_budget = budget,
              hb_origin_authoritative = \<not> is_success (tr_status response), hb_finished = False\<rparr>))), st3)
      | In_time (Inl e) \<Rightarrow> failed_endpoint E a attempted e st3
      | Timed_out \<Rightarrow>
          if budget < pp_attempt_timeout route
          then (Return (Inl ''proxy_deadline''), drop_in a (observe ''endpoint_attempt'' Failed st3))
          else failed_endpoint E a attempted ''proxy_endpoint_attempt_timeout'' st3) = (out, st')"
      using run 1 2 3 by (simp add: try_endpoint_def flip: budget_def)
    show ?thesis
    proof (cases result)
      case (In_time r)
      show ?thesis
      proof (cases r)
        case (Inl e)
        with step In_time have "failed_endpoint E a attempted e st3 = (out, st')" by simp
        from fail [OF this] show ?thesis by auto
      next
        case (Inr response)
        with step In_time same3 calls3 show ?thesis
          by (auto simp: held_by_def held_def with_body_def)
      qed
    next
      case Timed_out
      show ?thesis
      proof (cases "budget < pp_attempt_timeout route")
        case True
        with step Timed_out same3 calls3 show ?thesis
          using drop_live_step [of "ps_health st" a live] by (auto simp: held_by_def)
      next
        case False
        with step Timed_out have "failed_endpoint E a attempted ''proxy_endpoint_attempt_timeout'' st3 = (out, st')" by simp
        from fail [OF this] show ?thesis by auto
      qed
    qed
  qed
  then show ?steps and ?calls and "PROP ?marks"
    by blast+
qed

text \<open>
  A turn of the loop claims at most one endpoint, one that was not tried before, and marks it.
\<close>

lemma claim_live_step:
  "claim_endpoint rh host attempted now = (Inr (Some a), rh') \<Longrightarrow>
    health_step \<lparr>hs_health = rh, hs_live = live\<rparr> \<lparr>hs_health = rh', hs_live = a # live\<rparr>"
  using claim_step [of "\<lparr>hs_health = rh, hs_live = live\<rparr>" host attempted now a rh'] by simp

lemma health_steps_single_flight: "health_step\<^sup>*\<^sup>* s s' \<Longrightarrow> single_flight s \<Longrightarrow> single_flight s'"
  by (induction rule: rtranclp_induct) (auto dest: health_step_single_flight)

definition marks :: "bool list \<Rightarrow> nat list \<Rightarrow> 'b proxy_turn_result \<Rightarrow> bool" where
  "marks attempted tried out \<longleftrightarrow>
    length tried \<le> 1 \<and> (\<forall>i \<in> set tried. i < length attempted \<and> \<not> attempted ! i)
    \<and> (\<forall>attempted' e. out = Continue attempted' e \<longrightarrow> length attempted' = length attempted
        \<and> (\<forall>j < length attempted. attempted ! j \<or> j \<in> set tried \<longrightarrow> attempted' ! j))"

lemma proxy_turn_run:
  assumes flight: "single_flight \<lparr>hs_health = ps_health st, hs_live = live\<rparr>"
    and run: "proxy_turn E route host request auth headers c d started attempted l st = (out, st')"
  shows "health_step\<^sup>*\<^sup>* \<lparr>hs_health = ps_health st, hs_live = live\<rparr>
      \<lparr>hs_health = ps_health st', hs_live = (case out of Return res \<Rightarrow> held_by res | Continue _ _ \<Rightarrow> []) @ live\<rparr>
    \<and> (\<exists>tried. proxied (ps_calls st') = proxied (ps_calls st) @ map (\<lambda>i. (pp_endpoints route ! i, request, auth, headers)) tried
        \<and> marks attempted tried out)" (is "?steps \<and> ?calls")
proof -
  obtain now st0 where now: "proxy_now E st = (now, st0)" by (rule prod.exhaust)
  note same = proxy_now_state [OF now]
  obtain claimed rh where claimed: "claim_endpoint (ps_health st) host attempted now = (claimed, rh)" by (rule prod.exhaust)
  show ?thesis
  proof (cases "\<exists>a. claimed = Inr (Some a)")
    case False
    then have "ps_health st' = ps_health st \<and> ps_calls st' = ps_calls st \<and> (\<exists>e. out = Return (Inl e))"
      using run now same claimed
      by (auto simp: proxy_turn_def claim_endpoint_def Let_def split: sum.splits option.splits if_splits)
    then show ?thesis
      by (auto simp: held_by_def marks_def intro!: exI [of _ "[]"])
  next
    case True
    then obtain a where a: "claimed = Inr (Some a)" by blast
    have step: "health_step \<lparr>hs_health = ps_health st, hs_live = live\<rparr> \<lparr>hs_health = rh, hs_live = a # live\<rparr>"
      using claimed a claim_live_step by blast
    define st1 where "st1 = st0\<lparr>ps_health := rh\<rparr>"
    have st1: "ps_health st1 = rh" "ps_calls st1 = ps_calls st"
      using same by (simp_all add: st1_def)
    have rest: "try_endpoint E route request auth headers c d started (attempted[ea_index a := True]) a st1 = (out, st')"
      using run now same claimed a by (simp add: proxy_turn_def st1_def)
    have "single_flight \<lparr>hs_health = ps_health st1, hs_live = a # live\<rparr>"
      using health_step_single_flight [OF step flight] st1 by simp
    note * = try_endpoint_run [OF this rest]
    obtain i where i: "ea_index a = i" "i < length attempted" "\<not> attempted ! i"
      using claimed a by (auto elim: claimE)
    have ?steps
      using step *(1) st1 by (auto intro: converse_rtranclp_into_rtranclp)
    moreover have ?calls
      using *(2)
    proof
      assume "proxied (ps_calls st') = proxied (ps_calls st1)"
      then show ?thesis
        using *(3) st1 i by (intro exI [of _ "[]"]) (auto simp: marks_def nth_list_update)
    next
      assume "proxied (ps_calls st') = proxied (ps_calls st1) @ [(pp_endpoints route ! ea_index a, request, auth, headers)]"
      then show ?thesis
        using *(3) st1 i by (intro exI [of _ "[i]"]) (auto simp: marks_def nth_list_update)
    qed
    ultimately show ?thesis ..
  qed
qed

text \<open>The whole loop: each endpoint of the route is tried at most once.\<close>

lemma proxy_loop_run:
  assumes "single_flight \<lparr>hs_health = ps_health st, hs_live = live\<rparr>"
    and "proxy_loop E route host request auth headers c d started attempted l st = (res, st')"
  shows "health_step\<^sup>*\<^sup>* \<lparr>hs_health = ps_health st, hs_live = live\<rparr> \<lparr>hs_health = ps_health st', hs_live = held_by res @ live\<rparr>
    \<and> (\<exists>tried. proxied (ps_calls st') = proxied (ps_calls st) @ map (\<lambda>i. (pp_endpoints route ! i, request, auth, headers)) tried
        \<and> distinct tried \<and> (\<forall>i \<in> set tried. i < length attempted \<and> \<not> attempted ! i))"
  using assms
proof (induction E route host request auth headers c d started attempted l st rule: proxy_loop.induct)
  case (1 E route host request auth headers c d started attempted l st)
  obtain out st1 where out: "proxy_turn E route host request auth headers c d started attempted l st = (out, st1)"
    by (rule prod.exhaust)
  obtain tried where steps: "health_step\<^sup>*\<^sup>* \<lparr>hs_health = ps_health st, hs_live = live\<rparr>
      \<lparr>hs_health = ps_health st1, hs_live = (case out of Return res \<Rightarrow> held_by res | Continue _ _ \<Rightarrow> []) @ live\<rparr>"
    and calls: "proxied (ps_calls st1) = proxied (ps_calls st) @ map (\<lambda>i. (pp_endpoints route ! i, request, auth, headers)) tried"
    and marks: "marks attempted tried out"
    using proxy_turn_run [OF "1.prems"(1) out] by blast
  have "distinct tried"
    using marks by (cases tried) (auto simp: marks_def)
  show ?case
  proof (cases out)
    case (Return r)
    with "1.prems"(2) out have "res = r" "st' = st1"
      by (auto simp: proxy_loop.simps [of E route host request auth headers c d started attempted l st])
    with steps calls marks \<open>distinct tried\<close> Return show ?thesis
      by (auto simp: marks_def)
  next
    case (Continue attempted' e)
    then have loop: "proxy_loop E route host request auth headers c d started attempted' e st1 = (res, st')"
      using "1.prems"(2) out by (auto simp: proxy_loop.simps [of E route host request auth headers c d started attempted l st])
    have "single_flight \<lparr>hs_health = ps_health st1, hs_live = live\<rparr>"
      using health_steps_single_flight [OF steps "1.prems"(1)] Continue by simp
    from "1.IH" [OF out [symmetric] Continue this loop]
    obtain more where more: "health_step\<^sup>*\<^sup>* \<lparr>hs_health = ps_health st1, hs_live = live\<rparr> \<lparr>hs_health = ps_health st', hs_live = held_by res @ live\<rparr>"
      "proxied (ps_calls st') = proxied (ps_calls st1) @ map (\<lambda>i. (pp_endpoints route ! i, request, auth, headers)) more"
      "distinct more" "\<forall>i \<in> set more. i < length attempted' \<and> \<not> attempted' ! i"
      by blast
    have "\<forall>i \<in> set more. i < length attempted \<and> \<not> attempted ! i \<and> i \<notin> set tried"
      using marks Continue more(4) by (auto simp: marks_def)
    then have "distinct (tried @ more)" "\<forall>i \<in> set (tried @ more). i < length attempted \<and> \<not> attempted ! i"
      using \<open>distinct tried\<close> more(3) marks by (auto simp: marks_def)
    moreover have "proxied (ps_calls st') = proxied (ps_calls st) @ map (\<lambda>i. (pp_endpoints route ! i, request, auth, headers)) (tried @ more)"
      using calls more(2) by simp
    moreover have "health_step\<^sup>*\<^sup>* \<lparr>hs_health = ps_health st, hs_live = live\<rparr> \<lparr>hs_health = ps_health st', hs_live = held_by res @ live\<rparr>"
      using steps more(1) Continue by simp
    ultimately show ?thesis
      by blast
  qed
qed

end
