(* ===== verification/Proxy_Runs.thy ===== *)
theory Proxy_Runs
  imports Proxy_Route
begin

text \<open>
  Whole requests through the proxy transport: what may leave through a proxy, and how a request and the body
  of its response act on the health that all requests share.
\<close>

section \<open>The life of a response body\<close>

text \<open>The caller reads at most \<open>n\<close> chunks, stopping at the end or at an error, and then drops the body.\<close>

fun read_and_drop :: "('w, 'b) proxy_env \<Rightarrow> nat \<Rightarrow> 'b health_body \<Rightarrow> 'w proxy_state \<Rightarrow> 'w proxy_state" where
  "read_and_drop E 0 hb st = hb_drop E hb st"
| "read_and_drop E (Suc n) hb st =
    (case hb_next_chunk E hb st of
       (Inr (Some _), hb', st') \<Rightarrow> read_and_drop E n hb' st'
     | (_, hb', st') \<Rightarrow> hb_drop E hb' st')"

definition dispose :: "('w, 'b) proxy_env \<Rightarrow> nat \<Rightarrow> string + 'b proxy_body transport_response \<Rightarrow> 'w proxy_state \<Rightarrow> 'w proxy_state" where
  "dispose E n res st =
    (case res of
       Inl _ \<Rightarrow> st
     | Inr r \<Rightarrow> (case tr_body r of Plain_body _ \<Rightarrow> st | Health_body hb \<Rightarrow> read_and_drop E n hb st))"

abbreviation health_at :: "'w proxy_state \<Rightarrow> endpoint_attempt list \<Rightarrow> health_state" where
  "health_at st live \<equiv> \<lparr>hs_health = ps_health st, hs_live = live\<rparr>"

lemma hb_complete_steps:
  assumes "single_flight (health_at st (held hb @ live))" and "hb_complete E success hb st = (res, hb', st')"
  shows "health_step\<^sup>*\<^sup>* (health_at st (held hb @ live)) (health_at st' live) \<and> held hb' = []"
proof (cases "hb_attempt hb")
  case None
  with assms(2) show ?thesis
    by (auto simp: hb_complete_def held_def Let_def)
next
  case (Some a)
  obtain fin st1 where fin: "finish_in E a (success \<or> hb_origin_authoritative hb) st = (fin, st1)" by (rule prod.exhaust)
  have "single_flight (health_at st (a # live))"
    using assms(1) Some by (simp add: held_def)
  note * = finish_in_step [OF this fin]
  then have "ps_health st' = ps_health st1 \<and> hb_attempt hb' = None"
    using assms(2) Some fin by (auto simp: hb_complete_def Let_def split: sum.splits if_splits)
  then show ?thesis
    using *(2) Some by (auto simp: held_def)
qed

lemma hb_read_health: "hb_read E body left st = (res, st') \<Longrightarrow> ps_health st' = ps_health st"
  by (auto simp: hb_read_def split: option.splits prod.splits chunk_answer.splits)

lemma hb_next_chunk_steps:
  assumes "single_flight (health_at st (held hb @ live))" and "hb_next_chunk E hb st = (res, hb', st')"
  shows "health_step\<^sup>*\<^sup>* (health_at st (held hb @ live)) (health_at st' (held hb' @ live))"
proof (cases "hb_finished hb")
  case True
  with assms(2) show ?thesis by (auto simp: hb_next_chunk_def)
next
  case False
  obtain now st0 where now: "proxy_now E st = (now, st0)" by (rule prod.exhaust)
  note same0 = proxy_now_state [OF now]
  define left where "left = (if now - hb_started hb \<le> hb_budget hb then Some (hb_budget hb - (now - hb_started hb)) else None)"
  obtain chunk st1 where chunk: "hb_read E (the (hb_body hb)) left st0 = (chunk, st1)" by (rule prod.exhaust)
  note same1 = hb_read_health [OF chunk]
  have complete: "health_step\<^sup>*\<^sup>* (health_at st (held hb @ live)) (health_at st2 (held hb2 @ live))"
    if "hb_complete E success hb st1 = (r2, hb2, st2)" for success r2 hb2 st2
    using hb_complete_steps [OF _ that, of live] assms(1) same0 same1 by auto
  show ?thesis
    using assms(2) False now chunk same0 same1 complete unfolding hb_next_chunk_def left_def [symmetric]
    by (auto simp: left_def [symmetric] Let_def split: if_splits sum.splits option.splits prod.splits)
qed

lemma hb_drop_steps:
  assumes "single_flight (health_at st (held hb @ live))"
  shows "health_step\<^sup>*\<^sup>* (health_at st (held hb @ live)) (health_at (hb_drop E hb st) live)"
proof (cases "hb_attempt hb")
  case None
  then show ?thesis by (auto simp: hb_drop_def held_def)
next
  case (Some a)
  then have flight: "single_flight (health_at st (a # live))"
    using assms by (simp add: held_def)
  obtain fin st1 where fin: "finish_in E a True st = (fin, st1)" by (rule prod.exhaust)
  show ?thesis
    using Some finish_in_step(2) [OF flight fin] fin drop_live_step [of "ps_health st" a live]
    by (auto simp: hb_drop_def held_def)
qed

lemma read_and_drop_steps:
  "single_flight (health_at st (held hb @ live)) \<Longrightarrow>
    health_step\<^sup>*\<^sup>* (health_at st (held hb @ live)) (health_at (read_and_drop E n hb st) live)"
proof (induction E n hb st rule: read_and_drop.induct)
  case (1 E hb st)
  then show ?case by (simp add: hb_drop_steps)
next
  case (2 E n hb st)
  obtain res hb' st' where next_chunk: "hb_next_chunk E hb st = (res, hb', st')"
    by (metis prod.exhaust)
  note steps = hb_next_chunk_steps [OF "2.prems" next_chunk]
  have flight: "single_flight (health_at st' (held hb' @ live))"
    using health_steps_single_flight [OF steps "2.prems"] .
  show ?case
  proof (cases "\<exists>v. res = Inr (Some v)")
    case True
    then obtain v where "res = Inr (Some v)" by blast
    with "2.IH" next_chunk flight have "health_step\<^sup>*\<^sup>* (health_at st' (held hb' @ live)) (health_at (read_and_drop E n hb' st') live)"
      by auto
    with steps next_chunk \<open>res = Inr (Some v)\<close> show ?thesis by auto
  next
    case False
    then have "read_and_drop E (Suc n) hb st = hb_drop E hb' st'"
      using next_chunk by (auto split: sum.splits option.splits)
    with steps hb_drop_steps [OF flight, of E] show ?thesis by simp
  qed
qed

lemma dispose_steps:
  assumes "single_flight (health_at st (held_by res @ live))"
  shows "health_step\<^sup>*\<^sup>* (health_at st (held_by res @ live)) (health_at (dispose E n res st) live)"
  using assms read_and_drop_steps
  by (auto simp: held_by_def dispose_def split: sum.splits proxy_body.splits)

section \<open>Whole requests\<close>

lemma proxy_pool_run:
  assumes "single_flight (health_at st live)"
    and "proxy_pool E route request auth headers c d started st = (res, st')"
  shows "health_step\<^sup>*\<^sup>* (health_at st live) (health_at st' (held_by res @ live))
    \<and> (\<exists>tried. proxied (ps_calls st') = proxied (ps_calls st) @ map (\<lambda>i. (pp_endpoints route ! i, request, auth, headers)) tried
        \<and> distinct tried \<and> (\<forall>i \<in> set tried. i < length (pp_endpoints route)))"
proof (cases "url_host (pr_url request)")
  case None
  with assms show ?thesis by (auto simp: proxy_pool_def held_by_def intro!: exI [of _ "[]"])
next
  case (Some host)
  with assms(2) have "proxy_loop E route host request auth headers c d started (replicate (length (pp_endpoints route)) False)
      ''proxy_pool_quarantined'' st = (res, st')"
    by (simp add: proxy_pool_def)
  from proxy_loop_run [OF assms(1) this] show ?thesis by auto
qed

lemma proxy_routed_run:
  assumes "single_flight (health_at st live)"
    and "proxy_routed E route request auth headers c d st = (res, st')"
  shows "health_step\<^sup>*\<^sup>* (health_at st live) (health_at st' (held_by res @ live))
    \<and> (\<exists>tried. proxied (ps_calls st') = proxied (ps_calls st) @ map (\<lambda>i. (pp_endpoints route ! i, request, auth, headers)) tried
        \<and> distinct tried \<and> (\<forall>i \<in> set tried. i < length (pp_endpoints route)))" (is ?P)
proof -
  obtain started st1 where 1: "proxy_now E st = (started, st1)" by (rule prod.exhaust)
  note same1 = proxy_now_state [OF 1]
  define budget where "budget = min d (pp_attempt_timeout route)"
  obtain direct st2 where 2: "call_direct_within E request auth (min c budget) budget st1 = (direct, st2)" by (rule prod.exhaust)
  have same2: "ps_health st2 = ps_health st" "ps_calls st2 = ps_calls st @ [Direct request auth]"
    using 2 same1 by (auto simp: call_direct_within_def split: prod.splits)
  consider (answered) r where "pp_direct_first route" "direct = In_time (Inr r)"
    | (pool) st3 where "ps_health st3 = ps_health st" "proxied (ps_calls st3) = proxied (ps_calls st)"
        "proxy_pool E route request auth headers c d started st3 = (res, st')"
  proof (cases "pp_direct_first route \<and> (\<exists>r. direct = In_time (Inr r))")
    case True
    then show ?thesis using answered by blast
  next
    case False
    show ?thesis
    proof (cases "pp_direct_first route")
      case True
      with False assms(2) 1 2 have "proxy_pool E route request auth headers c d started (observe ''direct_attempt'' Failed st2) = (res, st')"
        by (auto simp: proxy_routed_def budget_def Let_def split: timed.splits sum.splits)
      then show ?thesis using same2 by (intro pool) auto
    next
      case False
      with assms(2) 1 same1 show ?thesis by (intro pool [of st1]) (auto simp: proxy_routed_def)
    qed
  qed
  then show ?P
  proof cases
    case answered
    with assms(2) 1 2 same2 show ?thesis
      by (auto simp: proxy_routed_def budget_def held_by_def plain_response_def with_body_def observe_def intro!: exI [of _ "[]"])
  next
    case pool
    with proxy_pool_run [OF _ pool(3), of live] assms(1) show ?thesis by simp
  qed
qed

lemma find_route_Some: "find_route routes u = Some i \<Longrightarrow> i < length routes \<and> routes_host u (routes ! i)"
  by (auto simp: find_route_def find_Some_iff)

lemma copy_public_headers_safe:
  "copy_public_headers acc hs = Inr out \<Longrightarrow>
    (\<forall>h \<in> set acc. fst h \<in> forwarded_headers \<and> \<not> hv_sensitive (snd h)) \<Longrightarrow>
    (\<forall>h \<in> set out. fst h \<in> forwarded_headers \<and> \<not> hv_sensitive (snd h))"
  by (induction acc hs rule: copy_public_headers.induct) (auto split: if_splits)

lemma forwarded_not_sensitive:
  "n \<in> insert ''accept-encoding'' forwarded_headers \<Longrightarrow> \<not> is_sensitive_header n"
  unfolding forwarded_headers_def is_sensitive_header_def
  by (elim insertE emptyE) (simp_all add: ascii_lower_char_def)

lemma public_headers_safe:
  assumes "public_headers hs = Inr out" and "h \<in> set out"
  shows "fst h \<in> insert ''accept-encoding'' forwarded_headers" and "\<not> sensitive_entry h"
proof -
  obtain copied where copied: "copy_public_headers [] hs = Inr copied" "out = header_insert ''accept-encoding'' identity_value copied"
    using assms(1) by (auto simp: public_headers_def)
  from copy_public_headers_safe [OF copied(1)] have "\<forall>h \<in> set copied. fst h \<in> forwarded_headers \<and> \<not> hv_sensitive (snd h)"
    by simp
  with assms(2) copied(2) have "fst h \<in> insert ''accept-encoding'' forwarded_headers" "\<not> hv_sensitive (snd h)"
    by (auto simp: header_insert_def header_remove_def identity_value_def)
  then show "fst h \<in> insert ''accept-encoding'' forwarded_headers" and "\<not> sensitive_entry h"
    using forwarded_not_sensitive by (auto simp: sensitive_entry_def)
qed

text \<open>A request that goes to a route, with the headers that are sent through it.\<close>

definition routed_headers :: "proxy_transport \<Rightarrow> prepared_request \<Rightarrow> string + header_map" where
  "routed_headers T request =
    (if pt_telegram_bot_api T then telegram_headers request else public_headers (pr_headers request))"

lemma proxy_execute_cases:
  assumes "proxy_execute E T request auth c d healths st = (res, healths', st')"
  obtains (unrouted) "healths' = healths" and "proxied (snd st') = proxied (snd st)" and "held_by res = []"
      and "find_route (pt_routes T) (pr_url request) = None \<or> (\<exists>e. res = Inl e)"
  | (routed) i headers st1 where "find_route (pt_routes T) (pr_url request) = Some i" and "\<not> proxy_refused T request auth"
      and "routed_headers T request = Inr headers"
      and "proxy_routed E (pt_routes T ! i) request auth headers c d
             \<lparr>ps_world = fst st, ps_health = healths ! i, ps_calls = snd st\<rparr> = (res, st1)"
      and "healths' = healths[i := ps_health st1]" and "snd st' = ps_calls st1"
proof (cases "find_route (pt_routes T) (pr_url request)")
  case None
  then show thesis
    using assms
    by (intro unrouted)
      (auto simp: proxy_execute_def held_by_def plain_response_def with_body_def map_sum_def split: if_splits sum.splits prod.splits)
next
  case (Some i)
  show thesis
  proof (cases "\<not> proxy_refused T request auth \<and> (\<exists>headers. routed_headers T request = Inr headers)")
    case True
    then obtain headers where h: "\<not> proxy_refused T request auth" "routed_headers T request = Inr headers" by blast
    obtain r1 st1 where "proxy_routed E (pt_routes T ! i) request auth headers c d
             \<lparr>ps_world = fst st, ps_health = healths ! i, ps_calls = snd st\<rparr> = (r1, st1)" by (rule prod.exhaust)
    with assms Some h show thesis
      by (intro routed [OF Some h]) (auto simp: proxy_execute_def routed_headers_def split: if_splits)
  next
    case False
    with assms Some show thesis
      by (intro unrouted)
        (auto simp: proxy_execute_def routed_headers_def held_by_def split: if_splits sum.splits)
  qed
qed

text \<open>A health that requests have left behind.\<close>

definition reached_health :: "route_health \<Rightarrow> endpoint_attempt list \<Rightarrow> bool" where
  "reached_health rh live \<longleftrightarrow>
    (\<exists>hosts n q. health_step\<^sup>*\<^sup>* \<lparr>hs_health = route_health_new hosts n q, hs_live = []\<rparr> \<lparr>hs_health = rh, hs_live = live\<rparr>)"

lemma reached_single_flight: "reached_health rh live \<Longrightarrow> single_flight \<lparr>hs_health = rh, hs_live = live\<rparr>"
  using health_run by (auto simp: reached_health_def)

lemma reached_new: "reached_health (route_health_new hosts n q) []"
  by (auto simp: reached_health_def)

text \<open>C39. What leaves through a public proxy is confined. The tunnel always goes to the authorised address of the
  request's own HTTPS URL, through an endpoint of a route that names the host. Without the Telegram capability
  the request is a GET or HEAD without a body, and no header that is sent is sensitive by name or by mark. With
  the capability it is a POST to one of the five read methods of \<open>api.telegram.org\<close> and carries no header
  outside four plain ones.
\<close>

theorem proxied_requests_confined:
  assumes "proxy_execute E T request auth c d healths (w, []) = (res, healths', w', calls)"
    and "find_route (pt_routes T) (pr_url request) = Some i" and "reached_health (healths ! i) live"
    and "(ep, r, a, hs) \<in> set (proxied calls)"
  shows "r = request \<and> a = auth \<and> ca_url auth = pr_url request \<and> url_scheme (pr_url request) = ''https''
    \<and> (\<exists>route \<in> set (pt_routes T). routes_host (pr_url request) route \<and> ep \<in> set (pp_endpoints route))
    \<and> (if pt_telegram_bot_api T
       then url_host (pr_url request) = Some ''api.telegram.org'' \<and> pr_method request = ''POST''
         \<and> last_segment (url_path (pr_url request)) \<in> telegram_methods
         \<and> (\<forall>h \<in> set hs. fst h \<in> {''content-type'', ''accept'', ''user-agent'', ''accept-encoding''})
       else (pr_method request = ''GET'' \<or> pr_method request = ''HEAD'') \<and> pr_body request = None
         \<and> (\<forall>h \<in> set hs. \<not> sensitive_entry h))"
  using assms(1)
proof (cases rule: proxy_execute_cases)
  case unrouted
  with assms(4) show ?thesis by simp
next
  case (routed j headers st1)
  then have "j = i" using assms(2) by simp
  obtain tried where tried: "proxied (ps_calls st1) = map (\<lambda>k. (pp_endpoints (pt_routes T ! i) ! k, request, auth, headers)) tried"
    "\<forall>k \<in> set tried. k < length (pp_endpoints (pt_routes T ! i))"
    using proxy_routed_run [OF _ routed(4), of live] reached_single_flight [OF assms(3)] \<open>j = i\<close> by auto
  have sent: "r = request" "a = auth" "hs = headers" "ep \<in> set (pp_endpoints (pt_routes T ! i))"
    using assms(4) tried routed(6) by auto
  have target: "ca_url auth = pr_url request" "url_scheme (pr_url request) = ''https''"
    using routed(2) by (auto simp: proxy_refused_def)
  have route: "pt_routes T ! i \<in> set (pt_routes T)" "routes_host (pr_url request) (pt_routes T ! i)"
    using find_route_Some [OF assms(2)] by auto
  show ?thesis
  proof (cases "pt_telegram_bot_api T")
    case True
    with routed(3) have "telegram_headers request = Inr headers" by (simp add: routed_headers_def)
    then have "url_host (pr_url request) = Some ''api.telegram.org''" "pr_method request = ''POST''"
      "last_segment (url_path (pr_url request)) \<in> telegram_methods"
      "\<forall>h \<in> set headers. fst h \<in> {''content-type'', ''accept'', ''user-agent'', ''accept-encoding''}"
      by (auto simp: telegram_headers_def Let_def header_insert_def header_remove_def list_ex_iff split: if_splits)
    with sent target route True show ?thesis by auto
  next
    case False
    with routed(2,3) have "pr_method request = ''GET'' \<or> pr_method request = ''HEAD''" "pr_body request = None"
      "public_headers (pr_headers request) = Inr headers"
      by (auto simp: proxy_refused_def routed_headers_def)
    with sent target route False public_headers_safe(2) show ?thesis by auto
  qed
qed

text \<open>C40. To the health that requests share, a whole request is a sequence of claims, finishes and drops, whatever
  the endpoints answer and however much of the body the caller reads before dropping it; once the body is
  dropped no attempt of the request is left live. So a request cancelled in the middle of a probe never
  leaves its endpoint locked. A request tries each endpoint of its route at most once.
\<close>

theorem proxy_request_refines_health:
  assumes "proxy_execute E T request auth c d healths (w, []) = (res, healths', w', calls)"
    and "find_route (pt_routes T) (pr_url request) = Some i" and "i < length healths"
    and "reached_health (healths ! i) live" and "distinct (pp_endpoints (pt_routes T ! i))"
  shows "health_step\<^sup>*\<^sup>* \<lparr>hs_health = healths ! i, hs_live = live\<rparr> \<lparr>hs_health = healths' ! i, hs_live = held_by res @ live\<rparr>
    \<and> health_step\<^sup>*\<^sup>* \<lparr>hs_health = healths' ! i, hs_live = held_by res @ live\<rparr>
        \<lparr>hs_health = ps_health (dispose E n res \<lparr>ps_world = w', ps_health = healths' ! i, ps_calls = calls\<rparr>), hs_live = live\<rparr>
    \<and> distinct (map fst (proxied calls))"
proof -
  note flight = reached_single_flight [OF assms(4)]
  have run: "health_step\<^sup>*\<^sup>* \<lparr>hs_health = healths ! i, hs_live = live\<rparr> \<lparr>hs_health = healths' ! i, hs_live = held_by res @ live\<rparr>
      \<and> distinct (map fst (proxied calls))"
    using assms(1)
  proof (cases rule: proxy_execute_cases)
    case unrouted
    then show ?thesis by simp
  next
    case (routed j headers st1)
    then have "j = i" using assms(2) by simp
    note steps = proxy_routed_run [OF _ routed(4), of live]
    obtain tried where tried: "proxied (ps_calls st1) = map (\<lambda>k. (pp_endpoints (pt_routes T ! i) ! k, request, auth, headers)) tried"
      "distinct tried" "\<forall>k \<in> set tried. k < length (pp_endpoints (pt_routes T ! i))"
      using steps flight \<open>j = i\<close> by auto
    then have "distinct (map fst (proxied calls))"
      using routed(6) assms(5) by (auto simp: distinct_map inj_on_def nth_eq_iff_index_eq o_def)
    then show ?thesis
      using steps flight \<open>j = i\<close> routed(5) assms(3) by simp
  qed
  then have "single_flight (health_at \<lparr>ps_world = w', ps_health = healths' ! i, ps_calls = calls\<rparr> (held_by res @ live))"
    using health_steps_single_flight flight by fastforce
  from dispose_steps [OF this, of E n] run show ?thesis by simp
qed

section \<open>An evaluated request\<close>

text \<open>One route with one endpoint, which answers at once.\<close>

definition demo_endpoint :: socket_addr where
  "demo_endpoint = \<lparr>sa_ip = V4 (Ipv4 93 184 216 35), sa_port = 8080\<rparr>"

definition proxy_demo_env :: "(unit, unit) proxy_env" where
  "proxy_demo_env =
    \<lparr>pe_now = (\<lambda>w. (0, w)),
     pe_direct = (\<lambda>w r auth c d. (Inl ''connect'', w)),
     pe_direct_within = (\<lambda>w r auth c d. (Timed_out, w)),
     pe_via_proxy = (\<lambda>w r auth hs e limit c b.
       (In_time (Inr \<lparr>tr_status = 200, tr_headers = [], tr_connected_peer = ca_address auth, tr_body = ()\<rparr>), w)),
     pe_chunk = (\<lambda>w b l. (Chunk None, w))\<rparr>"

definition demo_transport :: proxy_transport where
  "demo_transport =
    \<lparr>pt_routes = [\<lparr>pp_hosts = {''example.org''}, pp_endpoints = [demo_endpoint], pp_header_limit = 100,
                   pp_attempt_timeout = 10, pp_direct_first = False\<rparr>],
     pt_telegram_bot_api = False\<rparr>"

definition demo_get :: prepared_request where
  "demo_get =
    \<lparr>pr_method = ''GET'', pr_url = example_url,
     pr_headers = [(''accept'', \<lparr>hv_bytes = [], hv_to_str = Some ''text/xml'', hv_sensitive = False\<rparr>),
                   (''sec-fetch-mode'', \<lparr>hv_bytes = [], hv_to_str = Some ''navigate'', hv_sensitive = False\<rparr>)],
     pr_body = None\<rparr>"

definition demo_authorization :: connection_authorization where
  "demo_authorization = \<lparr>ca_url = example_url, ca_address = V4 (Ipv4 93 184 216 34)\<rparr>"

definition demo_sent :: header_map where
  "demo_sent = [(''accept'', \<lparr>hv_bytes = [], hv_to_str = Some ''text/xml'', hv_sensitive = False\<rparr>),
                (''accept-encoding'', identity_value)]"

definition demo_healths :: "route_health list" where
  "demo_healths = [route_health_new [''example.org''] 1 5]"

lemma demo_route [simp]:
  "find_route (pt_routes demo_transport) (pr_url demo_get) = Some 0"
  "reached_health (demo_healths ! 0) []" "length demo_healths = 1"
  "distinct (pp_endpoints (pt_routes demo_transport ! 0))"
  by (simp_all add: find_route_def demo_transport_def demo_get_def routes_host_def example_url_def demo_healths_def reached_new)

lemma demo_headers: "public_headers (pr_headers demo_get) = Inr demo_sent"
  by (simp add: public_headers_def demo_get_def demo_sent_def forwarded_headers_def dropped_headers_def header_insert_def header_remove_def)

lemma proxy_demo_claim:
  "\<exists>a rh. claim_endpoint (demo_healths ! 0) ''example.org'' [False] 0 = (Inr (Some a), rh) \<and> ea_index a = 0"
  by (simp add: claim_endpoint_def demo_healths_def route_health_new_def choose_endpoint_def eligible_def
      endpoint_health_default_def Let_def)

lemma demo_execute:
  "\<exists>res healths' w'. proxy_execute proxy_demo_env demo_transport demo_get demo_authorization 3 20 demo_healths ((), []) =
    (res, healths', w', [Proxied demo_endpoint demo_get demo_authorization demo_sent])"
proof -
  obtain a rh where a: "claim_endpoint (demo_healths ! 0) ''example.org'' [False] 0 = (Inr (Some a), rh)" "ea_index a = 0"
    using proxy_demo_claim by blast
  have "\<not> proxy_refused demo_transport demo_get demo_authorization"
    by (simp add: proxy_refused_def demo_get_def demo_authorization_def example_url_def)
  moreover have "url_host (pr_url demo_get) = Some ''example.org''"
    by (simp add: demo_get_def example_url_def)
  ultimately show ?thesis
    using a demo_route(1) demo_headers
    by (simp add: proxy_execute_def proxy_routed_def proxy_pool_def proxy_loop.simps proxy_turn_def try_endpoint_def
        call_via_proxy_def proxy_now_def proxy_demo_env_def demo_transport_def)
qed

theorem proxied_requests_confined_witness:
  "list_all (\<lambda>h. \<not> sensitive_entry h) demo_sent \<and> pr_body demo_get = None"
proof -
  obtain res healths' w' where run: "proxy_execute proxy_demo_env demo_transport demo_get demo_authorization 3 20 demo_healths ((), []) =
    (res, healths', w', [Proxied demo_endpoint demo_get demo_authorization demo_sent])"
    using demo_execute by blast
  from proxied_requests_confined [OF run demo_route(1,2), of demo_endpoint demo_get demo_authorization demo_sent] show ?thesis
    by (simp add: list_all_iff demo_transport_def)
qed

theorem proxy_request_refines_health_witness:
  "\<exists>res healths' w'. proxy_execute proxy_demo_env demo_transport demo_get demo_authorization 3 20 demo_healths ((), []) =
      (res, healths', w', [Proxied demo_endpoint demo_get demo_authorization demo_sent])
    \<and> health_step\<^sup>*\<^sup>* \<lparr>hs_health = healths' ! 0, hs_live = held_by res\<rparr>
        \<lparr>hs_health = ps_health (dispose proxy_demo_env 1 res \<lparr>ps_world = w', ps_health = healths' ! 0,
           ps_calls = [Proxied demo_endpoint demo_get demo_authorization demo_sent]\<rparr>), hs_live = []\<rparr>"
proof -
  obtain res healths' w' where run: "proxy_execute proxy_demo_env demo_transport demo_get demo_authorization 3 20 demo_healths ((), []) =
    (res, healths', w', [Proxied demo_endpoint demo_get demo_authorization demo_sent])"
    using demo_execute by blast
  from proxy_request_refines_health [OF run demo_route(1) _ demo_route(2,4), of 1] run show ?thesis
    by auto
qed

end
