(* ===== verification/Spec2Isabelle.thy ===== *)
theory Spec2Isabelle
  imports Auth_Runs Jobs Publication Ingest_Model Web_Feed Feed_Runs Fanout_Runs Seed Focus_Runs Wiki_Runs Outbound_Runs Proxy_Runs
begin

text \<open>
  A verification development for the reader, a self-hosted RSS and web reader written in Rust.

  \<^bold>\<open>The program.\<close> People sign in to accounts, and own workspaces. A workspace holds subscriptions, rules
  and articles (\<open>crates/reader-core\<close>, the aggregates; \<open>crates/reader-application\<close>, the services and the
  ports they need). Subscriptions share sources. A pool of workers (\<open>crates/reader-ingest\<close>) claims
  durable jobs: it polls sources, stores what it finds as source records, fans each record out to the
  subscriptions of its source as articles, applies the rules of the subscription and collects the full
  text. PostgreSQL (\<open>crates/reader-storage-postgres\<close>) keeps the state of both halves; every operation
  of the store is one transaction, guarded by a revision (reader side) or by the lease of a job (worker
  side). Around this core are an HTTP server, a network runtime, assistance by language models, a
  glossary and a wiki.

  \<^bold>\<open>How it is modelled.\<close> Rust values become records, datatypes and functions with the names of the
  source. \<open>Result\<close> is a sum type (\<open>Inl\<close> the error). A table is a map from its primary key, or a list in
  insertion order where the code orders rows by insertion; a transaction is a function from the database
  to an error or a new database, so an error rolls back. Unsigned integers that the code compares with a
  limit or lets overflow are words or natural numbers with the bound written out. Code outside the
  repository is a parameter: \<open>Url::parse\<close>, Argon2 and SHA-256, the chrono parsers, the CSS and XPath
  parsers, HTTP fetchers and HTML functions, the clock and the random identifiers. What a theorem needs
  of a parameter is a hypothesis of that theorem (identifiers drawn in one run differ, a fingerprint does
  not collide on the texts at hand), and its witness instantiates the parameter.

  \<^bold>\<open>Theories, and the code they model.\<close>

  \<^item> \<open>Prelude\<close>: shared types, the combinators of \<open>Result\<close> and \<open>Option\<close>, UTF-8 lengths, lemmas on lists,
    maps and words, and the collections of rewrite rules that the components fill.
  \<^item> \<open>Url\<close>: the parts of a parsed URL that the program reads.
  \<^item> \<open>Versioned\<close>: the locale \<open>versioned\<close>, an aggregate whose operations change nothing or bump the
    revision by one. Interpreted for workspaces, subscriptions, articles and jobs.
  \<^item> \<open>Reason\<close>, \<open>Workspace\<close>, \<open>Subscription\<close>, \<open>Article\<close>, \<open>Rules\<close>, \<open>Jobs\<close>, \<open>Web_Feed\<close>, \<open>Publication\<close>:
    one theory for each module of \<open>reader-core/src\<close>.
  \<^item> \<open>Store\<close>: the compare-and-swap tables of \<open>repository.rs\<close>, with the locale \<open>revisioned_store\<close>,
    interpreted for workspaces and accounts in \<open>Identity_Store\<close>, which models \<open>repository/identity.rs\<close>.
  \<^item> \<open>Auth\<close>: \<open>reader-application/src/auth.rs\<close>. \<open>Auth_Runs\<close>: interleavings of its calls, in which a call
    may have read a state that is stale by the time it commits.
  \<^item> \<open>Ingest_Model\<close>: \<open>reader-ingest/src/model/mod.rs\<close>, sources, records, revisions and work items.
  \<^item> \<open>Work_Queue\<close>: \<open>ingest_store.rs\<close> and \<open>ingest_store/queue.rs\<close>. \<open>Queue_Runs\<close>: runs of the queue by
    any number of workers.
  \<^item> \<open>Reader_Db\<close>, \<open>Ingest_Db\<close>: the tables, as extensible records, so that an operation of the queue is
    the same function on every larger database.
  \<^item> \<open>Library\<close>, \<open>Library_Inv\<close>, \<open>Delivery\<close>: \<open>ingest_store/delivery.rs\<close>, the invariant of a workspace
    library, and what delivery guarantees.
  \<^item> \<open>Rule_Runs\<close>: \<open>ingest_store/rules.rs\<close> and the queueing part of \<open>repository/rule.rs\<close>.
  \<^item> \<open>Content\<close>: \<open>ingest_store/content.rs\<close>, \<open>content_snapshot.rs\<close> and the publishing part of
    \<open>search/projection.rs\<close>.
  \<^item> \<open>Poll\<close>: \<open>ingest_store/poll.rs\<close> and \<open>ingest_store/backlog.rs\<close>.
  \<^item> \<open>Worker\<close>: \<open>reader-ingest/src/engine/mod.rs\<close>, every handler of the worker as a function of the
    database and of an environment of fetchers. \<open>Worker_Runs\<close>: the locale \<open>fenced_operation\<close>, a
    transaction that a worker without the lease cannot perform, interpreted for each of the nine
    transactions of the handlers; what the worker does on failure.
  \<^item> \<open>Feed_Runs\<close>: a whole poll of a feed. \<open>Fanout_Runs\<close>: the chain of fan-out jobs of a record.
  \<^item> \<open>Admission\<close>: \<open>ai_bootstrap.rs\<close>, the order in which records were discovered and the initial selection
    of a subscription; it supplies the hooks of a poll commit.
  \<^item> \<open>Subscription_Store\<close>: \<open>repository/subscription.rs\<close> and the provisioning, backfill, import and
    migration parts of \<open>repository.rs\<close>. \<open>Reader_Service\<close>: \<open>reader-application/src/service.rs\<close>; the locale
    \<open>revisioned_store\<close> is interpreted for subscriptions there.
  \<^item> \<open>Catalog\<close>: the invariant of subscriptions, links, sources, URLs and reservations, and that every
    operation keeps it. \<open>Catalog_Runs\<close>: a step relation of the commands and transactions, and their runs.
  \<^item> \<open>Seed\<close>: \<open>inoreader/src/seed.rs\<close>, seed manifests and what applying them does.
  \<^item> \<open>Paging\<close>: the locale \<open>keyset_pages\<close>, what a page query promises, and the client that walks its pages.
    \<open>Article_Query\<close>: \<open>reader-application/src/article_query.rs\<close>, the visibility functions of
    \<open>schema/reading_preferences.sql\<close> and the page query of \<open>repository/article.rs\<close>; the locale is interpreted
    for both directions.
  \<^item> \<open>Reading\<close>: \<open>article_commands.rs\<close>, \<open>focused_reading.rs\<close> and the writing half of \<open>repository/article.rs\<close>
    and \<open>repository/focused_reading.rs\<close>; \<open>revisioned_store\<close> is interpreted for articles. \<open>Reading_Runs\<close>:
    pages and marking a scope read. \<open>Focus_Runs\<close>: concurrent patches, rules after an explicit unread,
    completion and undo.
  \<^item> \<open>Wiki\<close>: \<open>reader-wiki/src\<close> and \<open>reader-storage-postgres/src/wiki\<close>, the commands, the access rules and the
    transactions of the private wiki. \<open>Wiki_Runs\<close>: a step relation of the transactions and the locale
    \<open>kept_by_writes\<close>, what a fact needs to last through every run, interpreted for names, revisions, answered
    operations, owners and superseded revisions.
  \<^item> \<open>Outbound\<close>: \<open>reader-web-runtime/src/network.rs\<close> and the outbound limits of \<open>config.rs\<close>. \<open>Http_Client\<close>:
    \<open>http_client.rs\<close>, with every call to the resolver, the transport and the observer kept in a log.
    \<open>Outbound_Runs\<close>: the locale \<open>turn_invariant\<close>, what a statement about such a log has to keep from turn to
    turn, interpreted for each of the statements.
  \<^item> \<open>Route_Health\<close>: \<open>public_proxy/health.rs\<close>, as a step relation of interleaved requests. \<open>Proxy_Route\<close>:
    \<open>public_proxy.rs\<close> and \<open>public_proxy/telegram.rs\<close>. \<open>Proxy_Runs\<close>: whole requests through a proxy.

  \<^bold>\<open>What is shown.\<close>

  \<^item> Accounts: changing or resetting a password ends every earlier session; invites and resets are used
    once even by calls with stale reads; usernames stay unique; login attempts are throttled.
  \<^item> Aggregates: runs of operations stay valid; merging articles unites them; recipes survive storage and
    stay within their limits; the resolution of publication dates is sound and independent of order.
  \<^item> Queue: no origin exceeds its concurrency and no source is collected twice at once; a worker without
    the lease is refused; recurring jobs never end; a claim returns, and an idle claim has nothing to
    take.
  \<^item> Library: keys stay unique and the index agrees with the articles; delivery is idempotent, places a
    record in one article and carries the reader's state along when the key changes.
  \<^item> Content: what is published is read back, never torn and never replaced by an older generation.
  \<^item> Worker: a poll stores its whole page or keeps the rest in the backlog, which is a queue; a failed
    attempt is accounted for; the retry time is bounded; fan-out reaches every subscriber when no page of
    targets is blank. Where it is not so, a theorem shows the run: a page of inactive subscriptions ends
    the fan-out, and a delivery repeated after a change of rules conflicts.
  \<^item> Subscriptions: in every reachable state each subscription has one stored source and its links agree;
    commands serialise; resuming queues the catch-up in the same transaction. Repeating a seed with the
    same values changes nothing, and an imported recipe opens in the editor as it was imported. Two runs
    fail their purpose: a second resume does not catch up again on a record whose first catch-up job has
    ended, and a manifest that is retried later conflicts with itself.
  \<^item> Reading: pages list a scope completely and once; marking a scope read in batches marks exactly what
    was selected at the start, duplicates hidden by preference included in the argument; patches
    serialise; an explicit unread survives every later rule; an undo restores the article and its rating.
  \<^item> Wiki: pages, names, history and hierarchy agree in every reachable state; names and revisions are
    permanent; no update is lost and a repeated write changes nothing; only editors write, and every revision can be
    restored without a conflict of names.
  \<^item> Network: the address tests refuse exactly a list of blocks; whatever the network answers, every
    connection is for a permitted URL at a public address of the DNS answer for it, credentials stay with
    their origin, redirects and retries are bounded, and a request returns and is reported once. Through a
    proxy only plain public reads leave; at most one request probes a quarantined endpoint, and a request
    that is finished or cancelled leaves no endpoint locked.

  \<^bold>\<open>Bounds.\<close> Six loops carry fuel. A claim is given twice the number of jobs plus one: each turn
  either ends the loop, makes an expired job ready again, or marks an exhausted job failed
  (\<open>Queue_Runs\<close>, \<open>claim_terminates\<close>). The query of the ancestors of a wiki page takes one level per page plus
  one (\<open>Wiki_Runs\<close>, \<open>ancestors_complete\<close>). Draining the backlog takes one turn per record plus one (\<open>Poll\<close>).
  The fan-out chain takes one job per linked subscription plus one (\<open>Fanout_Runs\<close>). Walking the pages of a
  scope and marking it read take one turn per article plus one (\<open>Reading_Runs\<close>). The theorems show that
  these are enough. The loops of the outbound client and of the proxy pool are total functions: a turn spends
  a redirect hop or the one recovery, or marks one more endpoint. Reading a response body may go on for ever
  when the peer sends empty chunks, so it is a partial function with the value \<open>None\<close> for that case.

  \<^bold>\<open>Not modelled.\<close> The heartbeat of a worker is not interleaved with its handler: the lease is taken
  to be live or lost for the whole of a transaction, which is how the transactions check it. The
  presentations, histories and statistics of articles and subscriptions are SQL joins and aggregates for
  display that change no state. Fetching and parsing of third-party formats (\<open>built_in_adapters\<close>, \<open>cdp_browser\<close>),
  the bytes of a CONNECT tunnel, sanitising of HTML, the HTTP server, the user interface, process start and metrics are input and
  output around the core. The lists, searches and collections of the wiki follow the collation of
  PostgreSQL. The language-model assistance and the glossary are separate subsystems; the function that finalises the initial selection of a subscription is a parameter.
\<close>

end
